(* ===== verification/Kprelude.thy ===== *)
theory Kprelude imports Main "HOL-Library.Word" begin

text \<open>
  Shared vocabulary of the development: the result type of kernel operations, the
  widths of the C types, and the generic lemmas on lists, maps and words the
  components share.

  A kernel routine either returns to its caller (\<open>Ret\<close>), stops the machine through
  \<open>panic()\<close> (\<open>Panic\<close>, with the message of the call), ends the calling process through
  \<open>do_exit()\<close> (\<open>Exit\<close>, with its argument), or never returns because the
  process goes to sleep and nothing in the modelled run wakes it up, or a loop of the
  source makes no progress (\<open>Hang\<close>). Error codes such as \<open>-ENOENT\<close> are ordinary
  return values, as they are in the code.
\<close>

section \<open>Types of the C code\<close>

type_synonym u8 = "8 word"
type_synonym u16 = "16 word"
type_synonym u32 = "32 word"

text \<open>The value a 32-bit \<open>int\<close> or \<open>long\<close> holds after an assignment: the two's
  complement reading of the low 32 bits.\<close>

definition wrap32 :: "int \<Rightarrow> int" where
  "wrap32 x = (x + 2 ^ 31) mod 2 ^ 32 - 2 ^ 31"

lemma wrap32_id [simp]: "- (2 ^ 31) \<le> x \<Longrightarrow> x < 2 ^ 31 \<Longrightarrow> wrap32 x = x"
  by (simp add: wrap32_def)

lemma wrap32_range: "- (2 ^ 31) \<le> wrap32 x" "wrap32 x < 2 ^ 31"
  by (simp_all add: wrap32_def)

lemma wrap32_sint: "wrap32 x = sint (word_of_int x :: u32)"
  by (simp add: wrap32_def sint_sbintrunc' signed_take_bit_eq_take_bit_shift take_bit_eq_mod)

lemma sint_wrap32: "sint (x :: u32) = wrap32 (uint x)"
  by (simp add: wrap32_sint)

lemma u32_bounds: "0 \<le> uint (x :: u32)" "uint (x :: u32) < 2 ^ 32" "unat (x :: u32) < 2 ^ 32"
  using unsigned_less [of x] unsigned_less [of x, where ?'a = nat]
  by simp_all

lemma unat_add_of_nat8: "unat (a :: u8) + n < 256 \<Longrightarrow> unat (a + of_nat n) = unat a + n"
  by (simp add: unat_word_ariths unat_of_nat mod_simps)

lemma wrap32_high:
  assumes "2 ^ 31 \<le> x" "x < 2 ^ 32"
  shows "wrap32 x = x - 2 ^ 32"
proof -
  have "(x + 2 ^ 31) mod 2 ^ 32 = (x + 2 ^ 31 - 2 ^ 32) mod 2 ^ 32"
    by (rule minus_mod_self2 [symmetric])
  also have "\<dots> = x + 2 ^ 31 - 2 ^ 32"
    using assms by (intro mod_pos_pos_trivial) simp_all
  finally show ?thesis
    by (simp add: wrap32_def)
qed

lemma sint_u32_cases: "sint (x :: u32) = (if uint x < 2 ^ 31 then uint x else uint x - 2 ^ 32)"
proof -
  obtain n where n: "uint x = n" and "0 \<le> n" "n < 2 ^ 32"
    using u32_bounds [of x] by blast
  then show ?thesis
    unfolding sint_wrap32 n by (cases "n < 2 ^ 31") (simp_all add: wrap32_high)
qed

lemma sint_small:
  assumes "unat (x :: u32) < 2 ^ 31"
  shows "sint x = int (unat x)"
proof -
  obtain n where n: "uint x = n" "unat x = nat n" "0 \<le> n"
    by (metis nat_uint_eq u32_bounds(1))
  with assms show ?thesis by (simp add: sint_u32_cases nat_less_iff)
qed

lemma wrap32_add [simp]: "wrap32 (wrap32 a + b) = wrap32 (a + b)"
  by (simp add: wrap32_def algebra_simps mod_simps)

lemma wrap32_add_right [simp]: "wrap32 (b + wrap32 a) = wrap32 (b + a)"
  using wrap32_add [of a b] by (simp only: add.commute)

lemma wrap32_diff [simp]: "wrap32 (wrap32 a - b) = wrap32 (a - b)"
  using wrap32_add [of a "- b"] by simp

text \<open>A chain of 32-bit assignments reduces once, at the end.\<close>

lemma wrap32_chain:
  "wrap32 (wrap32 a + b + c) = wrap32 (a + b + c)"
  "wrap32 (wrap32 a + b + c + d) = wrap32 (a + b + c + d)"
  "wrap32 (wrap32 a + b + c + d + e) = wrap32 (a + b + c + d + e)"
  "wrap32 (wrap32 a + b - e + c + d + f + g) = wrap32 (a + b - e + c + d + f + g)"
  using wrap32_add [of a "b + c"] wrap32_add [of a "b + c + d"] wrap32_add [of a "b + c + d + e"]
    wrap32_add [of a "b - e + c + d + f + g"]
  by (simp_all only: add.assoc [symmetric] add_diff_eq)

text \<open>C's division and remainder truncate towards zero.\<close>

definition c_div :: "int \<Rightarrow> int \<Rightarrow> int" where
  "c_div a b = sgn a * sgn b * (\<bar>a\<bar> div \<bar>b\<bar>)"

definition c_mod :: "int \<Rightarrow> int \<Rightarrow> int" where
  "c_mod a b = a - c_div a b * b"

lemma c_div_nonneg [simp]: "0 \<le> a \<Longrightarrow> 0 < b \<Longrightarrow> c_div a b = a div b"
  by (cases "a = 0") (simp_all add: c_div_def)

lemma c_mod_nonneg [simp]: "0 \<le> a \<Longrightarrow> 0 < b \<Longrightarrow> c_mod a b = a mod b"
  by (simp add: c_mod_def minus_div_mult_eq_mod)

section \<open>Results of kernel operations\<close>

datatype 'a kres = Ret 'a | Panic string | Exit int | Hang

primrec kbind :: "'a kres \<Rightarrow> ('a \<Rightarrow> 'b kres) \<Rightarrow> 'b kres" where
  "kbind (Ret x) f = f x"
| "kbind (Panic m) f = Panic m"
| "kbind (Exit c) f = Exit c"
| "kbind Hang f = Hang"

definition returns :: "'a kres \<Rightarrow> bool" where
  "returns r \<longleftrightarrow> (\<exists>x. r = Ret x)"

lemma kbind_eq_Ret: "kbind r f = Ret y \<longleftrightarrow> (\<exists>x. r = Ret x \<and> f x = Ret y)"
  by (cases r) auto

lemma kbind_assoc: "kbind (kbind r f) g = kbind r (\<lambda>x. kbind (f x) g)"
  by (cases r) auto

lemma returns_Ret [simp]: "returns (Ret x)"
  by (simp add: returns_def)

lemma not_returns_Panic [simp]: "\<not> returns (Panic m)" "\<not> returns (Exit c)" "\<not> returns Hang"
  by (simp_all add: returns_def)

text \<open>A \<open>for\<close> loop whose body is run once for each element of a list, in order.\<close>

primrec kfold :: "('a \<Rightarrow> 's \<Rightarrow> 's kres) \<Rightarrow> 'a list \<Rightarrow> 's \<Rightarrow> 's kres" where
  "kfold f [] s = Ret s"
| "kfold f (x # xs) s = kbind (f x s) (kfold f xs)"

lemma kfold_append: "kfold f (xs @ ys) s = kbind (kfold f xs s) (kfold f ys)"
proof (induction xs arbitrary: s)
  case (Cons a xs)
  then show ?case by (cases "f a s") simp_all
qed simp

lemma kfold_invariant:
  assumes "kfold f xs s = Ret s'" and "P s"
    and "\<And>x s s'. x \<in> set xs \<Longrightarrow> P s \<Longrightarrow> f x s = Ret s' \<Longrightarrow> P s'"
  shows "P s'"
  using assms
proof (induction xs arbitrary: s)
  case Nil
  then show ?case by simp
next
  case (Cons x xs)
  then obtain t where "f x s = Ret t" and "kfold f xs t = Ret s'"
    by (auto simp: kbind_eq_Ret)
  with Cons show ?case by (metis list.set_intros)
qed

lemma kfold_cong_inv:
  assumes "P s" and "\<And>x s. x \<in> set xs \<Longrightarrow> P s \<Longrightarrow> f x s = g x s"
    and "\<And>x s s'. x \<in> set xs \<Longrightarrow> P s \<Longrightarrow> g x s = Ret s' \<Longrightarrow> P s'"
  shows "kfold f xs s = kfold g xs s"
  using assms
proof (induction xs arbitrary: s)
  case (Cons x xs)
  have "f x s = g x s" using Cons.prems by simp
  moreover have "kfold f xs t = kfold g xs t" if "g x s = Ret t" for t
  proof (rule Cons.IH)
    show "P t" using Cons.prems(3) [OF _ Cons.prems(1) that] by simp
  next
    fix y u assume "y \<in> set xs" "P u"
    then show "f y u = g y u" using Cons.prems(2) by simp
  next
    fix y u v assume "y \<in> set xs" "P u" "g y u = Ret v"
    then show "P v" using Cons.prems(3) [of y u v] by simp
  qed
  ultimately show ?case by (cases "g x s") simp_all
qed simp

lemma kfold_Ret: "(\<And>x. x \<in> set xs \<Longrightarrow> f x s = Ret s) \<Longrightarrow> kfold f xs s = Ret s"
  by (induction xs) simp_all

lemma nth_upd: "xs[i := x] ! j = (if i = j \<and> i < length xs then x else xs ! j)"
  by (cases "i < length xs") (auto simp: nth_list_update list_update_beyond)

end
