(* ===== verification/Mktime.thy ===== *)
theory Mktime imports Kprelude begin

text \<open>
  \<open>kernel/mktime.c\<close> (the clock at boot) and the conversion of the CMOS clock's BCD
  bytes in \<open>init/main.c\<close>. The calendar the code should compute is stated
  independently of it (\<open>leap_year\<close>, \<open>days_before_year\<close>, \<open>utc_seconds\<close>) and the
  code is proved equal to it for every date a 32-bit clock can hold.
\<close>

section \<open>The code\<close>

record tm =
  tm_sec :: int
  tm_min :: int
  tm_hour :: int
  tm_mday :: int
  tm_mon :: int
  tm_year :: int

definition MINUTE :: int where "MINUTE = 60"
definition HOUR :: int where "HOUR = 60 * MINUTE"
definition DAY :: int where "DAY = 24 * HOUR"
definition YEAR :: int where "YEAR = 365 * DAY"

definition month :: "int list" where
  "month = [0,
    DAY*(31),
    DAY*(31+29),
    DAY*(31+29+31),
    DAY*(31+29+31+30),
    DAY*(31+29+31+30+31),
    DAY*(31+29+31+30+31+30),
    DAY*(31+29+31+30+31+30+31),
    DAY*(31+29+31+30+31+30+31+31),
    DAY*(31+29+31+30+31+30+31+31+30),
    DAY*(31+29+31+30+31+30+31+31+30+31),
    DAY*(31+29+31+30+31+30+31+31+30+31+30)]"

text \<open>A read of \<open>month[]\<close> outside its twelve entries has no meaning in C; it is
  \<open>None\<close> here.\<close>

definition kernel_mktime :: "tm \<Rightarrow> int option" where
  "kernel_mktime tm =
    (if \<not> (0 \<le> tm_mon tm \<and> tm_mon tm < 12) then None else
     let year = tm_year tm - 70;
         res = wrap32 (YEAR * year + DAY * c_div (year + 1) 4);
         res = wrap32 (res + month ! nat (tm_mon tm));
         res = (if tm_mon tm > 1 \<and> c_mod (year + 2) 4 \<noteq> 0 then wrap32 (res - DAY) else res);
         res = wrap32 (res + DAY * (tm_mday tm - 1));
         res = wrap32 (res + HOUR * tm_hour tm);
         res = wrap32 (res + MINUTE * tm_min tm);
         res = wrap32 (res + tm_sec tm)
     in Some res)"

text \<open>\<open>BCD_TO_BIN\<close> and the assignments of \<open>time_init\<close>: the arguments are the bytes
  read from CMOS registers 0, 2, 4, 7, 8 and 9.\<close>

definition BCD_TO_BIN :: "int \<Rightarrow> int" where
  "BCD_TO_BIN val = (val mod 16) + (val div 16) * 10"

definition time_init :: "int \<Rightarrow> int \<Rightarrow> int \<Rightarrow> int \<Rightarrow> int \<Rightarrow> int \<Rightarrow> int option" where
  "time_init sec mi hour mday mon year = kernel_mktime
     \<lparr>tm_sec = BCD_TO_BIN sec, tm_min = BCD_TO_BIN mi, tm_hour = BCD_TO_BIN hour,
      tm_mday = BCD_TO_BIN mday, tm_mon = BCD_TO_BIN mon - 1, tm_year = BCD_TO_BIN year\<rparr>"

section \<open>The calendar\<close>

definition leap_year :: "int \<Rightarrow> bool" where
  "leap_year y \<longleftrightarrow> 4 dvd y \<and> (\<not> 100 dvd y \<or> 400 dvd y)"

definition days_in_month :: "int \<Rightarrow> nat \<Rightarrow> int" where
  "days_in_month y m =
    (if m = 1 then (if leap_year y then 29 else 28)
     else if m \<in> {3, 5, 8, 10} then 30 else 31)"

fun days_before_year :: "nat \<Rightarrow> int" where
  "days_before_year 0 = 0"
| "days_before_year (Suc k) =
     days_before_year k + (if leap_year (1970 + int k) then 366 else 365)"

fun days_before_month :: "int \<Rightarrow> nat \<Rightarrow> int" where
  "days_before_month y 0 = 0"
| "days_before_month y (Suc m) = days_before_month y m + days_in_month y m"

definition utc_seconds :: "tm \<Rightarrow> int" where
  "utc_seconds tm =
    86400 * (days_before_year (nat (tm_year tm - 70))
             + days_before_month (1900 + tm_year tm) (nat (tm_mon tm)) + (tm_mday tm - 1))
    + 3600 * tm_hour tm + 60 * tm_min tm + tm_sec tm"

definition valid_date :: "tm \<Rightarrow> bool" where
  "valid_date tm \<longleftrightarrow>
     70 \<le> tm_year tm \<and> 0 \<le> tm_mon tm \<and> tm_mon tm < 12
   \<and> 1 \<le> tm_mday tm \<and> tm_mday tm \<le> days_in_month (1900 + tm_year tm) (nat (tm_mon tm))
   \<and> 0 \<le> tm_hour tm \<and> tm_hour tm < 24 \<and> 0 \<le> tm_min tm \<and> tm_min tm < 60
   \<and> 0 \<le> tm_sec tm \<and> tm_sec tm < 60"

section \<open>Lemmas\<close>

lemma leap_year_1970: "k < 130 \<Longrightarrow> leap_year (1970 + int k) \<longleftrightarrow> (k + 2) mod 4 = 0"
proof -
  assume k: "k < 130"
  have "4 dvd 1970 + int k \<longleftrightarrow> (k + 2) mod 4 = 0"
    by presburger
  moreover have "100 dvd 1970 + int k \<longleftrightarrow> 1970 + int k = 2000"
  proof
    assume "100 dvd 1970 + int k"
    then obtain q where q: "1970 + int k = 100 * q" ..
    with k have "19 < q" "q < 21"
      by linarith+
    with q show "1970 + int k = 2000"
      by simp
  qed simp
  ultimately show ?thesis
    by (auto simp: leap_year_def)
qed

lemma days_before_year_closed:
  "k \<le> 130 \<Longrightarrow> days_before_year k = 365 * int k + int ((k + 1) div 4)"
proof (induction k)
  case 0
  then show ?case by simp
next
  case (Suc k)
  then have IH: "days_before_year k = 365 * int k + int ((k + 1) div 4)" and k: "k < 130"
    by simp_all
  have "int ((Suc k + 1) div 4) = int ((k + 1) div 4) + (if (k + 2) mod 4 = 0 then 1 else 0)"
    by (simp; presburger)
  with IH k show ?case
    by (simp add: leap_year_1970)
qed

lemma month_index_cases:
  "m < (12::nat) \<Longrightarrow> m = 0 \<or> m = 1 \<or> m = 2 \<or> m = 3 \<or> m = 4 \<or> m = 5 \<or> m = 6 \<or> m = 7
    \<or> m = 8 \<or> m = 9 \<or> m = 10 \<or> m = 11"
  by (auto simp: eval_nat_numeral less_Suc_eq)

lemma month_entry:
  assumes "m < 12"
  shows "month ! m - (if 1 < m \<and> \<not> leap_year y then DAY else 0) = 86400 * days_before_month y m"
  using month_index_cases [OF assms]
  by (elim disjE)
    (simp_all add: month_def DAY_def HOUR_def MINUTE_def days_in_month_def eval_nat_numeral)

lemma days_before_month_bound:
  assumes "m < 12"
  shows "0 \<le> days_before_month y m \<and> days_before_month y m \<le> 335"
  using month_index_cases [OF assms]
  by (elim disjE) (simp_all add: days_in_month_def eval_nat_numeral)

text \<open>Every intermediate value of the code is reduced modulo \<open>2 ^ 32\<close>, so the result is the
  reduction of the calendar's value.\<close>

lemma kernel_mktime_wraps:
  assumes "70 \<le> tm_year tm" "tm_year tm < 200" "0 \<le> tm_mon tm" "tm_mon tm < 12"
  shows "kernel_mktime tm = Some (wrap32 (utc_seconds tm))"
proof -
  define k where "k = nat (tm_year tm - 70)"
  define m where "m = nat (tm_mon tm)"
  have year: "tm_year tm = int k + 70" and k: "k < 130" and mon: "tm_mon tm = int m" and m: "m < 12"
    using assms by (simp_all add: k_def m_def)
  have leap: "leap_year (1900 + tm_year tm) \<longleftrightarrow> (k + 2) mod 4 = 0"
    using leap_year_1970 [OF k] by (simp add: year add.commute)
  have leap': "int (k + 2) mod 4 \<noteq> 0 \<longleftrightarrow> \<not> leap_year (1900 + tm_year tm)"
    unfolding leap by presburger
  have y: "86400 * days_before_year k = YEAR * int k + DAY * ((int k + 1) div 4)"
    using days_before_year_closed [of k] k
    by (simp add: YEAR_def DAY_def HOUR_def MINUTE_def zdiv_int algebra_simps)
  have mo: "month ! m = 86400 * days_before_month (1900 + tm_year tm) m
      + (if 1 < m \<and> \<not> leap_year (1900 + tm_year tm) then DAY else 0)"
    using month_entry [OF m, of "1900 + tm_year tm"] by simp
  have leap'': "1 < tm_mon tm \<and> c_mod (int k + 2) 4 \<noteq> 0
      \<longleftrightarrow> 1 < m \<and> \<not> leap_year (1900 + tm_year tm)"
    using leap' by (auto simp: mon add.commute)
  have "kernel_mktime tm = Some (wrap32 (YEAR * int k + DAY * ((int k + 1) div 4) + month ! m
      - (if 1 < m \<and> \<not> leap_year (1900 + tm_year tm) then DAY else 0)
      + DAY * (tm_mday tm - 1) + HOUR * tm_hour tm + MINUTE * tm_min tm + tm_sec tm))"
  proof -
    have eqs: "tm_year tm - 70 = int k" "nat (tm_mon tm) = m" "0 \<le> tm_mon tm" "tm_mon tm < 12"
      "c_div (int k + 1) 4 = (int k + 1) div 4"
      using m by (simp_all add: year mon)
    show ?thesis
      by (cases "1 < m \<and> \<not> leap_year (1900 + tm_year tm)")
        (simp_all only: kernel_mktime_def Let_def eqs leap'' simp_thms if_True if_False
          wrap32_add wrap32_chain wrap32_diff diff_0_right)
  qed
  also have "\<dots> = Some (wrap32 (utc_seconds tm))"
    using y mo
    by (simp add: utc_seconds_def year mon DAY_def HOUR_def MINUTE_def algebra_simps)
  finally show ?thesis .
qed

lemma utc_seconds_bound:
  assumes "valid_date tm" "tm_year tm < 138"
  shows "0 \<le> utc_seconds tm \<and> utc_seconds tm < 2 ^ 31"
proof -
  define k where "k = nat (tm_year tm - 70)"
  define m where "m = nat (tm_mon tm)"
  have k: "k < 68" and m: "m < 12"
    using assms by (auto simp: k_def m_def valid_date_def nat_less_iff)
  have "days_in_month (1900 + tm_year tm) m \<le> 31"
    by (simp add: days_in_month_def)
  moreover have "int ((k + 1) div 4) \<le> 17"
    using k by simp
  ultimately show ?thesis
    using assms days_before_month_bound [OF m, of "1900 + tm_year tm"] days_before_year_closed [of k] k
    unfolding utc_seconds_def valid_date_def k_def [symmetric] m_def [symmetric]
    by simp
qed

section \<open>Properties\<close>

text \<open>C28: for every valid date from 1970 to the end of 2037 \<open>kernel_mktime\<close> returns exactly the
  number of seconds of the (proleptic Gregorian) calendar, with no overflow.\<close>

theorem kernel_mktime_correct:
  assumes "valid_date tm" "tm_year tm < 138"
  shows "kernel_mktime tm = Some (utc_seconds tm)"
proof -
  have "kernel_mktime tm = Some (wrap32 (utc_seconds tm))"
    using assms by (intro kernel_mktime_wraps) (simp_all add: valid_date_def)
  with utc_seconds_bound [OF assms] show ?thesis
    by simp
qed

theorem kernel_mktime_correct_witness:
  "kernel_mktime \<lparr>tm_sec = 59, tm_min = 46, tm_hour = 1, tm_mday = 29, tm_mon = 1, tm_year = 100\<rparr>
     = Some 951788819"
proof -
  let ?tm = "\<lparr>tm_sec = 59, tm_min = 46, tm_hour = 1, tm_mday = 29, tm_mon = 1, tm_year = 100\<rparr> :: tm"
  have v: "valid_date ?tm" "tm_year ?tm < 138"
    by (simp_all add: valid_date_def days_in_month_def leap_year_def)
  have d: "days_before_year 30 = 10957"
    by (simp add: days_before_year_closed)
  have "utc_seconds ?tm = 951788819"
    by (simp add: utc_seconds_def d days_in_month_def)
  with kernel_mktime_correct [OF v] show ?thesis
    by simp
qed

end
