(* ===== verification/Vsprintf.thy ===== *)
theory Vsprintf imports Kprelude begin

unbundle bit_operations_syntax

text \<open>
  \<open>kernel/vsprintf.c\<close>: the kernel's formatted output. Buffers are lists of characters;
  the format is the list of characters before its terminating NUL, so that reading
  \<open>*fmt\<close> at the end is the empty list. The variable arguments are a list: \<open>Word\<close> for
  the 32-bit integers and pointers, \<open>Str\<close> for a \<open>char *\<close>, \<open>Ref\<close> for the \<open>int *\<close> of
  \<open>%n\<close>; fetching an argument that is missing or of the wrong kind is \<open>None\<close>.
\<close>

section \<open>skip\_atoi\<close>

abbreviation chr_code :: "char \<Rightarrow> int" where
  "chr_code c \<equiv> int (of_char c)"

definition is_digit :: "char \<Rightarrow> bool" where
  "is_digit c \<longleftrightarrow> chr_code c \<ge> chr_code (CHR ''0'') \<and> chr_code c \<le> chr_code (CHR ''9'')"

fun skip_atoi_from :: "int \<Rightarrow> string \<Rightarrow> int \<times> string" where
  "skip_atoi_from i [] = (i, [])"
| "skip_atoi_from i (c # s) =
     (if is_digit c then skip_atoi_from (wrap32 (i * 10 + chr_code c - chr_code (CHR ''0''))) s
      else (i, c # s))"

definition skip_atoi :: "string \<Rightarrow> int \<times> string" where
  "skip_atoi s = skip_atoi_from 0 s"

section \<open>number\<close>

definition ZEROPAD :: u32 where "ZEROPAD = 1"
definition SIGN :: u32 where "SIGN = 2"
definition PLUS :: u32 where "PLUS = 4"
definition SPACE :: u32 where "SPACE = 8"
definition LEFT :: u32 where "LEFT = 16"
definition SPECIAL :: u32 where "SPECIAL = 32"
definition SMALL :: u32 where "SMALL = 64"

lemmas flag_defs = ZEROPAD_def SIGN_def PLUS_def SPACE_def LEFT_def SPECIAL_def SMALL_def

definition upper_digits :: string where
  "upper_digits = ''0123456789ABCDEFGHIJKLMNOPQRSTUVWXYZ''"

definition lower_digits :: string where
  "lower_digits = ''0123456789abcdefghijklmnopqrstuvwxyz''"

text \<open>\<open>do_div\<close> is the unsigned \<open>divl\<close>: the quotient stays in \<open>n\<close>, the remainder is the
  value of the macro.\<close>

definition do_div :: "nat \<Rightarrow> nat \<Rightarrow> nat \<times> nat" where
  "do_div n base = (n div base, n mod base)"

text \<open>\<open>while (num!=0) tmp[i++]=digits[do_div(num,base)]\<close>, least significant digit first.\<close>

function tmp_digits :: "string \<Rightarrow> nat \<Rightarrow> nat \<Rightarrow> string" where
  "tmp_digits digits num base =
     (if num = 0 \<or> base < 2 then []
      else let (q, r) = do_div num base in digits ! r # tmp_digits digits q base)"
  by pat_completeness auto
termination
  by (relation "measure (\<lambda>(_, n, _). n)") (auto simp: do_div_def)

declare tmp_digits.simps [simp del]

text \<open>\<open>while (size-->0) *str++ = c\<close>: the characters written and the value left in \<open>size\<close>.\<close>

function pad_while :: "char \<Rightarrow> int \<Rightarrow> string \<times> int" where
  "pad_while c sz =
     (if sz > 0 then let (s, z) = pad_while c (sz - 1) in (c # s, z) else ([], sz - 1))"
  by pat_completeness auto
termination
  by (relation "measure (\<lambda>(_, n). nat n)") auto

declare pad_while.simps [simp del]

text \<open>\<open>number\<close> appends to the characters \<open>str\<close> written so far; \<open>None\<close> is its null result
  for a base it does not handle.\<close>

definition number :: "string \<Rightarrow> u32 \<Rightarrow> nat \<Rightarrow> int \<Rightarrow> int \<Rightarrow> u32 \<Rightarrow> string option" where
  "number str num base sz precision type =
    (let digits = (if type AND SMALL \<noteq> 0 then lower_digits else upper_digits);
         type = (if type AND LEFT \<noteq> 0 then type AND NOT ZEROPAD else type)
     in if base < 2 \<or> base > 36 then None else
     let c = (if type AND ZEROPAD \<noteq> 0 then CHR ''0'' else CHR '' '');
         neg = (type AND SIGN \<noteq> 0 \<and> sint num < 0);
         num = (if neg then - num else num);
         sign = (if neg then ''-''
                 else if type AND PLUS \<noteq> 0 then ''+''
                 else if type AND SPACE \<noteq> 0 then '' '' else []);
         sz = (if sign \<noteq> [] then sz - 1 else sz);
         sz = (if type AND SPECIAL \<noteq> 0
                 then (if base = 16 then sz - 2 else if base = 8 then sz - 1 else sz)
                 else sz);
         tmp = (if num = 0 then ''0'' else tmp_digits digits (unat num) base);
         i = int (length tmp);
         precision = (if i > precision then i else precision);
         sz = sz - precision;
         (pad1, sz) = (if type AND (ZEROPAD + LEFT) = 0 then pad_while (CHR '' '') sz
                         else ([], sz));
         prefix = (if type AND SPECIAL \<noteq> 0
                   then (if base = 8 then ''0''
                         else if base = 16 then [CHR ''0'', digits ! 33] else [])
                   else []);
         (pad2, sz) = (if type AND LEFT = 0 then pad_while c sz else ([], sz));
         zeros = fst (pad_while (CHR ''0'') (precision - i));
         pad3 = fst (pad_while (CHR '' '') sz)
     in Some (str @ pad1 @ sign @ prefix @ pad2 @ zeros @ rev tmp @ pad3))"

section \<open>vsprintf\<close>

datatype varg = Word u32 | Str string | Ref nat

text \<open>The loop \<open>repeat: ++fmt; switch (*fmt)\<close> over the flag characters; the argument is the
  format after the percent sign.\<close>

fun get_flags :: "u32 \<Rightarrow> string \<Rightarrow> u32 \<times> string" where
  "get_flags flags [] = (flags, [])"
| "get_flags flags (c # fmt) =
     (if c = CHR ''-'' then get_flags (flags OR LEFT) fmt
      else if c = CHR ''+'' then get_flags (flags OR PLUS) fmt
      else if c = CHR '' '' then get_flags (flags OR SPACE) fmt
      else if c = CHR ''#'' then get_flags (flags OR SPECIAL) fmt
      else if c = CHR ''0'' then get_flags (flags OR ZEROPAD) fmt
      else (flags, c # fmt))"

text \<open>The field width. A \<open>*\<close> takes the next argument and, as in the source, does not move
  \<open>fmt\<close> past the star.\<close>

fun get_width :: "u32 \<Rightarrow> string \<Rightarrow> varg list \<Rightarrow> (int \<times> u32 \<times> string \<times> varg list) option" where
  "get_width flags fmt args =
    (case fmt of
       [] \<Rightarrow> Some (-1, flags, fmt, args)
     | c # _ \<Rightarrow>
         if is_digit c then (let (w, fmt') = skip_atoi fmt in Some (w, flags, fmt', args))
         else if c = CHR ''*'' then
           (case args of
              Word a # args' \<Rightarrow>
                (if sint a < 0 then Some (- sint a, flags OR LEFT, fmt, args')
                 else Some (sint a, flags, fmt, args'))
            | _ \<Rightarrow> None)
         else Some (-1, flags, fmt, args))"

text \<open>The precision: like the width, but the star is again not skipped, and a negative value
  becomes 0.\<close>

fun get_precision :: "string \<Rightarrow> varg list \<Rightarrow> (int \<times> string \<times> varg list) option" where
  "get_precision [] args = Some (-1, [], args)"
| "get_precision (d # fmt) args =
    (if d \<noteq> CHR ''.'' then Some (-1, d # fmt, args) else
     case fmt of
       [] \<Rightarrow> Some (0, fmt, args)
     | c # _ \<Rightarrow>
         if is_digit c then (let (p, fmt') = skip_atoi fmt in Some (max p 0, fmt', args))
         else if c = CHR ''*'' then
           (case args of Word a # args' \<Rightarrow> Some (max (sint a) 0, fmt, args') | _ \<Rightarrow> None)
         else Some (0, fmt, args))"

definition get_qualifier :: "string \<Rightarrow> string" where
  "get_qualifier fmt =
    (case fmt of c # fmt' \<Rightarrow> if c \<in> {CHR ''h'', CHR ''l'', CHR ''L''} then fmt' else fmt
     | [] \<Rightarrow> fmt)"

text \<open>\<open>while (--field_width > 0) *str++ = ' '\<close> and \<open>while (len < field_width--) ...\<close>
  through the post-decrement loop above.\<close>

definition pad_predec :: "int \<Rightarrow> string \<times> int" where
  "pad_predec w = (let (s, z) = pad_while (CHR '' '') (w - 1) in (s, z + 1))"

definition pad_len :: "int \<Rightarrow> int \<Rightarrow> string \<times> int" where
  "pad_len len w = (let (s, z) = pad_while (CHR '' '') (w - len) in (s, z + len))"

text \<open>The switch on the conversion character: the output, the arguments left, the stores made
  through \<open>%n\<close> and the format left after the character.\<close>

definition conversion ::
  "u32 \<Rightarrow> int \<Rightarrow> int \<Rightarrow> string \<Rightarrow> varg list \<Rightarrow> string \<Rightarrow> (nat \<times> nat) list
     \<Rightarrow> (string \<times> varg list \<times> (nat \<times> nat) list \<times> string) option" where
  "conversion flags field_width precision fmt args str stores =
    (let num = (\<lambda>base w fl fmt'. case args of
                  Word a # args' \<Rightarrow>
                    map_option (\<lambda>str'. (str', args', stores, fmt')) (number str a base w precision fl)
                | _ \<Rightarrow> None)
     in case fmt of
       [] \<Rightarrow> Some (str @ ''%'', args, stores, [])
     | c # fmt' \<Rightarrow>
       if c = CHR ''c'' then
         (case args of
            Word a # args' \<Rightarrow>
              (let (pad1, w) = (if flags AND LEFT = 0 then pad_predec field_width
                                else ([], field_width));
                   (pad2, _) = pad_predec w
               in Some (str @ pad1 @ [char_of (unat a mod 256)] @ pad2, args', stores, fmt'))
          | _ \<Rightarrow> None)
       else if c = CHR ''s'' then
         (case args of
            Str s # args' \<Rightarrow>
              (let len = int (length s);
                   len = (if precision < 0 then len else if len > precision then precision else len);
                   (pad1, w) = (if flags AND LEFT = 0 then pad_len len field_width
                                else ([], field_width));
                   (pad2, _) = pad_len len w
               in Some (str @ pad1 @ take (nat len) s @ pad2, args', stores, fmt'))
          | _ \<Rightarrow> None)
       else if c = CHR ''o'' then num 8 field_width flags fmt'
       else if c = CHR ''p'' then
         (if field_width = -1 then num 16 8 (flags OR ZEROPAD) fmt' else num 16 field_width flags fmt')
       else if c = CHR ''x'' then num 16 field_width (flags OR SMALL) fmt'
       else if c = CHR ''X'' then num 16 field_width flags fmt'
       else if c = CHR ''d'' \<or> c = CHR ''i'' then num 10 field_width (flags OR SIGN) fmt'
       else if c = CHR ''u'' then num 10 field_width flags fmt'
       else if c = CHR ''n'' then
         (case args of Ref ip # args' \<Rightarrow> Some (str, args', stores @ [(ip, length str)], fmt')
          | _ \<Rightarrow> None)
       else Some (str @ (if c \<noteq> CHR ''%'' then ''%'' else []) @ [c], args, stores, fmt'))"

text \<open>One directive, from the character after the percent sign.\<close>

definition directive ::
  "string \<Rightarrow> varg list \<Rightarrow> string \<Rightarrow> (nat \<times> nat) list
     \<Rightarrow> (string \<times> varg list \<times> (nat \<times> nat) list \<times> string) option" where
  "directive fmt args str stores =
    (let (flags, fmt1) = get_flags 0 fmt in
     case get_width flags fmt1 args of None \<Rightarrow> None | Some (w, flags, fmt2, args2) \<Rightarrow>
     case get_precision fmt2 args2 of None \<Rightarrow> None | Some (p, fmt3, args3) \<Rightarrow>
     conversion flags w p (get_qualifier fmt3) args3 str stores)"

lemma skip_atoi_from_length: "length (snd (skip_atoi_from i s)) \<le> length s"
  by (induction i s rule: skip_atoi_from.induct) auto

lemma get_flags_length: "length (snd (get_flags f s)) \<le> length s"
  by (induction f s rule: get_flags.induct) auto

lemma get_width_length:
  "get_width fl fmt args = Some (w, fl', fmt', args') \<Longrightarrow> length fmt' \<le> length fmt"
  using skip_atoi_from_length [of 0 fmt]
  by (auto simp: skip_atoi_def split: list.splits if_splits prod.splits varg.splits)

lemma get_precision_length:
  "get_precision fmt args = Some (p, fmt', args') \<Longrightarrow> length fmt' \<le> length fmt"
proof (cases fmt)
  case (Cons d ds)
  assume "get_precision fmt args = Some (p, fmt', args')"
  with Cons show ?thesis
    using skip_atoi_from_length [of 0 ds]
    by (auto simp: skip_atoi_def split: list.splits if_splits prod.splits varg.splits)
qed auto

lemma conversion_length:
  "conversion fl w p fmt args str st = Some (str', args', st', fmt') \<Longrightarrow> length fmt' \<le> length fmt"
  by (auto simp: conversion_def Let_def split: list.splits if_splits prod.splits varg.splits)

lemma directive_length:
  assumes "directive fmt args str st = Some (str', args', st', fmt')"
  shows "length fmt' \<le> length fmt"
proof -
  obtain fl fmt1 where f: "get_flags 0 fmt = (fl, fmt1)" by fastforce
  with assms obtain w fl' fmt2 args2 p fmt3 args3 where
    "get_width fl fmt1 args = Some (w, fl', fmt2, args2)"
    "get_precision fmt2 args2 = Some (p, fmt3, args3)"
    "conversion fl' w p (get_qualifier fmt3) args3 str st = Some (str', args', st', fmt')"
    by (auto simp: directive_def split: option.splits)
  moreover have "length (get_qualifier fmt3) \<le> length fmt3"
    by (auto simp: get_qualifier_def split: list.splits)
  moreover have "length fmt1 \<le> length fmt"
    using get_flags_length [of 0 fmt] f by simp
  ultimately show ?thesis
    by (meson conversion_length get_precision_length get_width_length le_trans)
qed

text \<open>The loop over the format. It always ends: every pass uses up at least the character it
  looks at.\<close>

function vsprintf_loop ::
  "string \<Rightarrow> varg list \<Rightarrow> string \<Rightarrow> (nat \<times> nat) list \<Rightarrow> (string \<times> (nat \<times> nat) list) option" where
  "vsprintf_loop fmt args str stores =
    (case fmt of
       [] \<Rightarrow> Some (str, stores)
     | c # fmt' \<Rightarrow>
         if c \<noteq> CHR ''%'' then vsprintf_loop fmt' args (str @ [c]) stores
         else (case directive fmt' args str stores of
                 None \<Rightarrow> None
               | Some (str', args', stores', fmt'') \<Rightarrow> vsprintf_loop fmt'' args' str' stores'))"
  by pat_completeness auto
termination
  by (relation "measure (\<lambda>(fmt, _). length fmt)") (auto dest: directive_length)

declare vsprintf_loop.simps [simp del]

text \<open>The buffer's contents (before the NUL), the value returned (\<open>str-buf\<close>) and the stores
  of \<open>%n\<close>.\<close>

definition vsprintf :: "string \<Rightarrow> varg list \<Rightarrow> (string \<times> nat \<times> (nat \<times> nat) list) option" where
  "vsprintf fmt args =
    map_option (\<lambda>(str, stores). (str, length str, stores)) (vsprintf_loop fmt args [] [])"

section \<open>Flags as bits\<close>

lemma flag_bits:
  fixes t :: u32
  shows "t AND ZEROPAD = 0 \<longleftrightarrow> \<not> bit t 0" "t AND SIGN = 0 \<longleftrightarrow> \<not> bit t 1"
    "t AND PLUS = 0 \<longleftrightarrow> \<not> bit t 2" "t AND SPACE = 0 \<longleftrightarrow> \<not> bit t 3"
    "t AND LEFT = 0 \<longleftrightarrow> \<not> bit t 4" "t AND SPECIAL = 0 \<longleftrightarrow> \<not> bit t 5"
    "t AND SMALL = 0 \<longleftrightarrow> \<not> bit t 6"
  using and_exp_eq_0_iff_not_bit [of t 0] and_exp_eq_0_iff_not_bit [of t 1]
    and_exp_eq_0_iff_not_bit [of t 2] and_exp_eq_0_iff_not_bit [of t 3]
    and_exp_eq_0_iff_not_bit [of t 4] and_exp_eq_0_iff_not_bit [of t 5]
    and_exp_eq_0_iff_not_bit [of t 6]
  by (simp_all add: flag_defs)

lemma pad_flags: "(t :: u32) AND (ZEROPAD + LEFT) = 0 \<longleftrightarrow> \<not> bit t 0 \<and> \<not> bit t 4"
proof -
  have "ZEROPAD + LEFT = ZEROPAD OR LEFT"
    by (simp add: flag_defs)
  then have "t AND (ZEROPAD + LEFT) = (t AND ZEROPAD) OR (t AND LEFT)"
    by (simp add: bit.conj_disj_distrib)
  then show ?thesis
    by (simp add: or_eq_0_iff flag_bits)
qed

lemma clear_zeropad: "bit (t AND NOT ZEROPAD) n \<longleftrightarrow> bit (t :: u32) n \<and> n \<noteq> 0"
proof -
  have "bit ZEROPAD n \<longleftrightarrow> n = 0"
    by (simp add: ZEROPAD_def bit_1_iff)
  then show ?thesis
    by (auto simp: bit_and_iff bit_not_iff dest: bit_imp_le_length)
qed

section \<open>Loops\<close>

lemma pad_while_eq: "pad_while c n = (replicate (nat n) c, if n > 0 then - 1 else n - 1)"
proof (induction c n rule: pad_while.induct)
  case (1 c n)
  show ?case
  proof (cases "n > 0")
    case True
    then have "nat n = Suc (nat (n - 1))" by simp
    with True 1 show ?thesis
      by (subst pad_while.simps) auto
  next
    case False
    then show ?thesis by (subst pad_while.simps) simp
  qed
qed

lemma tmp_digits_step:
  "0 < n \<Longrightarrow> 2 \<le> b \<Longrightarrow> tmp_digits d n b = d ! (n mod b) # tmp_digits d (n div b) b"
  by (subst tmp_digits.simps) (simp add: do_div_def)

lemma tmp_digits_0 [simp]: "tmp_digits d 0 b = []"
  by (subst tmp_digits.simps) simp

lemma tmp_digits_length: "2 \<le> b \<Longrightarrow> n < 2 ^ k \<Longrightarrow> length (tmp_digits d n b) \<le> k"
proof (induction k arbitrary: n)
  case 0
  then show ?case by simp
next
  case (Suc k)
  show ?case
  proof (cases "n = 0")
    case False
    have "n div b \<le> n div 2"
      using Suc.prems(1) by (simp add: div_le_mono2)
    then have "n div b < 2 ^ k"
      using Suc.prems(2) by simp
    with Suc.IH Suc.prems(1) False show ?thesis
      by (simp add: tmp_digits_step)
  qed simp
qed

text \<open>The value of a digit string, independent of the code.\<close>

definition digit_value :: "char \<Rightarrow> nat" where
  "digit_value c =
    (let k = of_char c :: nat
     in if k < 58 then k - 48 else if k < 91 then k - 55 else k - 87)"

definition digits_value :: "nat \<Rightarrow> string \<Rightarrow> nat" where
  "digits_value b s = foldl (\<lambda>v c. v * b + digit_value c) 0 s"

lemma digits_value_snoc: "digits_value b (s @ [c]) = digits_value b s * b + digit_value c"
  by (simp add: digits_value_def)

lemma small_nat_cases: "n < (36::nat) \<Longrightarrow> n \<in> set [0..<36]"
  by simp

lemma digit_value_nth:
  assumes "n < 36"
  shows "digit_value (upper_digits ! n) = n" "digit_value (lower_digits ! n) = n"
proof -
  have "\<forall>n \<in> set [0..<36]. digit_value (upper_digits ! n) = n \<and> digit_value (lower_digits ! n) = n"
    by (simp add: upt_rec upper_digits_def lower_digits_def digit_value_def)
  with small_nat_cases [OF assms]
  show "digit_value (upper_digits ! n) = n" "digit_value (lower_digits ! n) = n"
    by blast+
qed

lemma tmp_digits_value:
  assumes "2 \<le> b" "b \<le> 36" "d \<in> {upper_digits, lower_digits}"
  shows "digits_value b (rev (tmp_digits d n b)) = n"
proof (induction n rule: less_induct)
  case (less n)
  show ?case
  proof (cases "n = 0")
    case True
    then show ?thesis by (simp add: digits_value_def)
  next
    case False
    have "n mod b < b"
      using assms by simp
    with assms have "n mod b < 36"
      by linarith
    then have "digit_value (d ! (n mod b)) = n mod b"
      using assms digit_value_nth by auto
    moreover have "digits_value b (rev (tmp_digits d (n div b) b)) = n div b"
      using False assms by (intro less) simp
    ultimately show ?thesis
      using False assms by (simp add: tmp_digits_step digits_value_snoc)
  qed
qed

section \<open>The layout of a printed number\<close>

text \<open>What \<open>number\<close> should print: the sign character, the magnitude and the radix prefix.\<close>

definition num_negative :: "u32 \<Rightarrow> u32 \<Rightarrow> bool" where
  "num_negative fl num \<longleftrightarrow> bit fl 1 \<and> sint num < 0"

definition num_sign :: "u32 \<Rightarrow> u32 \<Rightarrow> string" where
  "num_sign fl num = (if num_negative fl num then ''-'' else if bit fl 2 then ''+''
     else if bit fl 3 then '' '' else [])"

definition num_magnitude :: "u32 \<Rightarrow> u32 \<Rightarrow> nat" where
  "num_magnitude fl num = (if num_negative fl num then nat (- sint num) else unat num)"

definition num_prefix :: "u32 \<Rightarrow> nat \<Rightarrow> string" where
  "num_prefix fl b = (if \<not> bit fl 5 then [] else if b = 8 then ''0''
     else if b = 16 then (if bit fl 6 then ''0x'' else ''0X'') else [])"

lemma unat_negate: "sint (num :: u32) < 0 \<Longrightarrow> unat (- num) = nat (- sint num)"
proof -
  assume "sint num < 0"
  then have s: "sint num = uint num - 2 ^ 32" and "uint num \<noteq> 0"
    by (auto simp: sint_u32_cases split: if_splits)
  have "uint (- num) = (- uint num) mod 2 ^ 32"
    by (simp add: uint_word_ariths)
  also have "\<dots> = 2 ^ 32 - uint num"
    using \<open>uint num \<noteq> 0\<close> u32_bounds [of num]
    by (simp add: zmod_zminus1_eq_if)
  finally show ?thesis
    using s by (simp flip: nat_uint_eq)
qed

definition num_digits :: "u32 \<Rightarrow> u32 \<Rightarrow> nat \<Rightarrow> string" where
  "num_digits fl num b =
    (if num_magnitude fl num = 0 then ''0''
     else rev (tmp_digits (if bit fl 6 then lower_digits else upper_digits)
                 (num_magnitude fl num) b))"

lemma num_digits_value:
  assumes "2 \<le> b" "b \<le> 36"
  shows "digits_value b (num_digits fl num b) = num_magnitude fl num"
  using tmp_digits_value [OF assms]
  by (auto simp: num_digits_def digits_value_def digit_value_def)

text \<open>The digits are those of the alphabet chosen, below the base, and a number other than 0 does not start
  with the digit 0.\<close>

lemma tmp_digits_alphabet:
  assumes "2 \<le> b" "b \<le> length d"
  shows "set (tmp_digits d n b) \<subseteq> set (take b d)"
proof (induction n rule: less_induct)
  case (less n)
  show ?case
  proof (cases "n = 0")
    case False
    have "n mod b < b" using assms by simp
    then have "d ! (n mod b) \<in> set (take b d)" using assms by (auto simp: in_set_conv_nth intro!: exI [of _ "n mod b"])
    then show ?thesis using False assms less [of "n div b"] by (simp add: tmp_digits_step)
  qed simp
qed

lemma tmp_digits_leading:
  assumes "2 \<le> b" "b \<le> 36" "d \<in> {upper_digits, lower_digits}" "0 < n"
  shows "last (tmp_digits d n b) \<noteq> CHR ''0''"
  using assms(4)
proof (induction n rule: less_induct)
  case (less n)
  show ?case
  proof (cases "n div b = 0")
    case True
    then have "n < b" using assms(1) by (simp add: div_eq_0_iff)
    then have "digit_value (d ! n) = n" using assms(2,3) digit_value_nth [of n] by auto
    then have "d ! n \<noteq> CHR ''0''" using less.prems by (auto simp: digit_value_def)
    then show ?thesis using True \<open>n < b\<close> less.prems assms(1) by (simp add: tmp_digits_step)
  next
    case False
    then have "last (tmp_digits d (n div b) b) \<noteq> CHR ''0''" using less.prems assms(1) by (intro less.IH) simp_all
    moreover have "tmp_digits d (n div b) b \<noteq> []" using False assms(1) by (simp add: tmp_digits_step)
    ultimately show ?thesis using less.prems assms(1) by (simp add: tmp_digits_step)
  qed
qed

lemma num_digits_shape:
  assumes "2 \<le> b" "b \<le> 36"
  shows "set (num_digits fl num b) \<subseteq> set (take b (if bit fl 6 then lower_digits else upper_digits))"
    and "num_digits fl num b = ''0'' \<or> hd (num_digits fl num b) \<noteq> CHR ''0''"
proof -
  let ?d = "if bit fl 6 then lower_digits else upper_digits"
  have d: "b \<le> length ?d" "?d \<in> {upper_digits, lower_digits}" using assms(2) by (simp_all add: lower_digits_def upper_digits_def)
  have "CHR ''0'' = take b ?d ! 0" "0 < length (take b ?d)" using assms(1) d(1) by (simp_all add: lower_digits_def upper_digits_def)
  then have "CHR ''0'' \<in> set (take b ?d)" by (metis nth_mem)
  then show "set (num_digits fl num b) \<subseteq> set (take b ?d)"
    using tmp_digits_alphabet [OF assms(1) d(1)] unfolding num_digits_def by auto
  show "num_digits fl num b = ''0'' \<or> hd (num_digits fl num b) \<noteq> CHR ''0''"
    using tmp_digits_leading [OF assms d(2), of "num_magnitude fl num"] by (auto simp: num_digits_def hd_rev)
qed

lemma num_magnitude_less: "num_magnitude fl num < 2 ^ 32"
  using u32_bounds(3) [of num] u32_bounds(3) [of "- num"] unat_negate [of num]
  by (auto simp: num_magnitude_def num_negative_def)

lemma num_digits_length:
  assumes "2 \<le> b"
  shows "0 < length (num_digits fl num b) \<and> length (num_digits fl num b) \<le> 32"
proof (cases "num_magnitude fl num = 0")
  case False
  have "length (tmp_digits d (num_magnitude fl num) b) \<noteq> 0" for d
    using assms False by (simp add: tmp_digits_step)
  with tmp_digits_length [OF assms num_magnitude_less] False show ?thesis
    by (simp add: num_digits_def del: length_0_conv)
qed (simp add: num_digits_def)

lemma clear_zeropad_bits:
  "bit (if t AND LEFT \<noteq> 0 then t AND NOT ZEROPAD else t) n \<longleftrightarrow> bit t n \<and> (n = 0 \<longrightarrow> \<not> bit t 4)"
  by (simp add: clear_zeropad flag_bits)

lemma num_digits_num:
  "(if (if num_negative fl num then - num else num) = 0 then ''0''
    else tmp_digits (if bit fl 6 then lower_digits else upper_digits)
           (unat (if num_negative fl num then - num else num)) b) = rev (num_digits fl num b)"
proof -
  have "unat (if num_negative fl num then - num else num) = num_magnitude fl num"
    using unat_negate by (auto simp: num_magnitude_def num_negative_def)
  moreover have "(if num_negative fl num then - num else num) = 0 \<longleftrightarrow> num_magnitude fl num = 0"
    by (metis calculation unat_eq_0)
  ultimately show ?thesis
    by (simp add: num_digits_def)
qed

lemma digit_33: "(if small then lower_digits else upper_digits) ! 33
    = (if small then CHR ''x'' else CHR ''X'')"
  by (simp add: lower_digits_def upper_digits_def)

lemma number_eq:
  assumes "2 \<le> b" "b \<le> 36"
  shows "number str num b w p fl =
    (let body = num_sign fl num @ num_prefix fl b;
         digs = num_digits fl num b;
         prec = max p (int (length digs));
         room = nat (w - int (length body) - prec)
     in Some (str
          @ (if bit fl 4 \<or> bit fl 0 then [] else replicate room (CHR '' ''))
          @ body
          @ (if \<not> bit fl 4 \<and> bit fl 0 then replicate room (CHR ''0'') else [])
          @ replicate (nat (prec - int (length digs))) (CHR ''0'') @ digs
          @ (if bit fl 4 then replicate room (CHR '' '') else [])))"
proof -
  define t where "t = (if fl AND LEFT \<noteq> 0 then fl AND NOT ZEROPAD else fl)"
  have t: "bit t n \<longleftrightarrow> bit fl n \<and> (n = 0 \<longrightarrow> \<not> bit fl 4)" for n
    unfolding t_def by (rule clear_zeropad_bits)
  define digs where "digs = num_digits fl num b"
  have neg: "bit fl 1 \<and> sint num < 0 \<longleftrightarrow> num_negative fl num"
    by (simp add: num_negative_def)
  have sign: "(if num_negative fl num then ''-'' else if bit fl 2 then ''+''
      else if bit fl 3 then '' '' else []) = num_sign fl num"
    by (simp add: num_sign_def)
  have slen: "(if num_sign fl num \<noteq> [] then w - 1 else w) = w - int (length (num_sign fl num))"
    by (simp add: num_sign_def)
  have plen: "(if bit fl 5 then if b = 16 then z - 2 else if b = 8 then z - 1 else z else z)
      = z - int (length (num_prefix fl b))" for z
    by (simp add: num_prefix_def)
  have prefix: "(if bit fl 5 then if b = 8 then ''0'' else if b = 16
      then [CHR ''0'', (if bit fl 6 then lower_digits else upper_digits) ! 33] else [] else [])
      = num_prefix fl b"
    by (simp add: num_prefix_def digit_33)
  have t': "bit t 0 \<longleftrightarrow> bit fl 0 \<and> \<not> bit fl 4" "bit t 1 = bit fl 1" "bit t 2 = bit fl 2"
    "bit t 3 = bit fl 3" "bit t 4 = bit fl 4" "bit t 5 = bit fl 5" "bit t 6 = bit fl 6"
    by (simp_all add: t)
  have base: "(b < 2 \<or> 36 < b) = False"
    using assms by auto
  have prec: "(if int n > p then int n else p) = max p (int n)" for n :: nat
    by (simp add: max_def)
  show ?thesis
    unfolding number_def Let_def t_def [symmetric] base if_False
    by (simp only: flag_bits pad_flags t' not_not neg sign slen plen prefix num_digits_num
          pad_while_eq prec digs_def [symmetric] length_rev rev_rev_ident)
      (cases "bit fl 4"; cases "bit fl 0";
        simp add: length_append diff_diff_eq2 diff_diff_eq del: zero_less_diff)
qed

section \<open>Literal text and parsing back\<close>

lemma vsprintf_loop_literal:
  "CHR ''%'' \<notin> set lit \<Longrightarrow> vsprintf_loop (lit @ fmt) args str st = vsprintf_loop fmt args (str @ lit) st"
proof (induction lit arbitrary: str)
  case (Cons c lit)
  then show ?case
    by (subst vsprintf_loop.simps) auto
qed simp

lemma foldl_digits_ge: "v \<le> foldl (\<lambda>v c. v * 10 + digit_value c) v s"
proof (induction s arbitrary: v)
  case (Cons c s)
  have "v \<le> v * 10 + digit_value c" by simp
  also have "\<dots> \<le> foldl (\<lambda>v c. v * 10 + digit_value c) v (c # s)"
    using Cons.IH by simp
  finally show ?case .
qed simp

lemma is_digit_value: "is_digit c \<Longrightarrow> chr_code c - 48 = int (digit_value c)"
  by (auto simp: is_digit_def digit_value_def Let_def)

lemma wrap32_neg: "wrap32 (- wrap32 x) = wrap32 (- x)"
  by (simp only: wrap32_sint of_int_minus of_int_sint scast_id)

lemma wrap32_digit: "wrap32 (wrap32 x * 10 + y) = wrap32 (x * 10 + y)"
  by (simp only: wrap32_sint of_int_add of_int_mult of_int_sint scast_id)

lemma skip_atoi_from_digits:
  "\<forall>c \<in> set s. is_digit c \<Longrightarrow> skip_atoi_from (wrap32 (int v)) (s @ rest)
    = skip_atoi_from (wrap32 (int (foldl (\<lambda>v c. v * 10 + digit_value c) v s))) rest"
proof (induction s arbitrary: v)
  case (Cons c s)
  let ?v = "v * 10 + digit_value c"
  have "wrap32 (wrap32 (int v) * 10 + chr_code c - 48) = wrap32 (int ?v)"
    using Cons.prems is_digit_value [of c] wrap32_digit [of "int v" "chr_code c - 48"] by (simp add: algebra_simps)
  then show ?case
    using Cons.prems Cons.IH [of ?v] by simp
qed simp

lemma skip_atoi_from_stop: "rest = [] \<or> \<not> is_digit (hd rest) \<Longrightarrow> skip_atoi_from i rest = (i, rest)"
  by (cases rest) auto

lemma skip_atoi_digits:
  assumes "\<forall>c \<in> set s. is_digit c" "rest = [] \<or> \<not> is_digit (hd rest)"
  shows "skip_atoi (s @ rest) = (wrap32 (int (digits_value 10 s)), rest)"
  using skip_atoi_from_digits [OF assms(1), of 0 rest] skip_atoi_from_stop [OF assms(2)]
  by (simp add: skip_atoi_def digits_value_def)

lemma decimal_digit: "r < 10 \<Longrightarrow> is_digit (upper_digits ! r) \<and> is_digit (lower_digits ! r)"
proof -
  assume "r < 10"
  then have "r \<in> set [0..<10]" by simp
  moreover have "\<forall>r \<in> set [0..<10]. is_digit (upper_digits ! r) \<and> is_digit (lower_digits ! r)"
    by (simp add: upt_rec upper_digits_def lower_digits_def is_digit_def)
  ultimately show ?thesis by blast
qed

lemma tmp_digits_decimal:
  assumes "d \<in> {upper_digits, lower_digits}"
  shows "\<forall>c \<in> set (tmp_digits d n 10). is_digit c"
proof (induction n rule: less_induct)
  case (less n)
  show ?case
  proof (cases "n = 0")
    case False
    then have "\<forall>c \<in> set (tmp_digits d (n div 10) 10). is_digit c"
      by (intro less) simp
    with False assms decimal_digit [of "n mod 10"] show ?thesis
      by (auto simp: tmp_digits_step)
  qed simp
qed

lemma num_digits_decimal: "\<forall>c \<in> set (num_digits fl num 10). is_digit c"
  using tmp_digits_decimal by (auto simp: num_digits_def is_digit_def)

lemma sint_nonneg_unat: "0 \<le> sint (n :: u32) \<Longrightarrow> int (unat n) = sint n \<and> unat n < 2 ^ 31"
  using u32_bounds [of n] by (auto simp: sint_u32_cases simp flip: nat_uint_eq split: if_splits)

text \<open>\<open>%d\<close> with no flags, width or precision prints just the sign and the digits.\<close>

lemma bit_SIGN: "bit SIGN k \<longleftrightarrow> k = 1"
  using bit_exp_iff [of 1 k, where ?'a = u32] by (auto simp: SIGN_def)

lemma directive_d:
  "directive (CHR ''d'' # post) (Word n # args) str st
    = Some (str @ num_sign SIGN n @ num_digits SIGN n 10, args, st, post)"
proof -
  have "number str n 10 (-1) (-1) SIGN = Some (str @ num_sign SIGN n @ num_digits SIGN n 10)"
    using num_digits_length [of 10 SIGN n] by (simp add: number_eq num_prefix_def bit_SIGN)
  then show ?thesis
    by (simp add: directive_def get_qualifier_def conversion_def is_digit_def)
qed

lemma vsprintf_loop_percent:
  "vsprintf_loop (CHR ''%'' # fmt) args str st =
    (case directive fmt args str st of None \<Rightarrow> None
     | Some (str', args', st', fmt'') \<Rightarrow> vsprintf_loop fmt'' args' str' st')"
  by (subst vsprintf_loop.simps) simp

lemma vsprintf_loop_Nil [simp]: "vsprintf_loop [] args str st = Some (str, st)"
  by (subst vsprintf_loop.simps) simp

section \<open>Properties\<close>

text \<open>Blanks or zeros.\<close>

definition blanks :: "int \<Rightarrow> string" where "blanks n = replicate (nat n) (CHR '' '')"
definition zeros :: "int \<Rightarrow> string" where "zeros n = replicate (nat n) (CHR ''0'')"

text \<open>C26: the layout of a number. What the field is wider than sign, prefix and digits need is filled on the right
  with blanks when \<open>LEFT\<close> is given, else with zeros behind sign and prefix when \<open>ZEROPAD\<close> is given, else
  with blanks on the left; the precision adds zeros in front of the digits. The digits denote the magnitude
  of the number (that of \<open>INT_MIN\<close> included), are those of the case asked for, and have no
  superfluous 0 in front, which determines them.\<close>

theorem number_layout:
  fixes num fl :: u32 and b :: nat
  assumes "2 \<le> b" "b \<le> 36"
  defines "head \<equiv> num_sign fl num @ num_prefix fl b"
  shows "\<exists>digs. let fill = w - int (length head) - max p (int (length digs))
    in number str num b w p fl = Some (str
        @ (if fl AND LEFT \<noteq> 0 \<or> fl AND ZEROPAD \<noteq> 0 then [] else blanks fill)
        @ head
        @ (if fl AND LEFT = 0 \<and> fl AND ZEROPAD \<noteq> 0 then zeros fill else [])
        @ zeros (p - int (length digs)) @ digs
        @ (if fl AND LEFT \<noteq> 0 then blanks fill else []))
      \<and> digits_value b digs = num_magnitude fl num
      \<and> set digs \<subseteq> set (take b (if fl AND SMALL \<noteq> 0 then lower_digits else upper_digits))
      \<and> (digs = ''0'' \<or> digs \<noteq> [] \<and> hd digs \<noteq> CHR ''0'')"
proof -
  let ?digs = "num_digits fl num b"
  have "zeros (max p (int (length ?digs)) - int (length ?digs)) = zeros (p - int (length ?digs))"
    by (simp add: zeros_def max_def)
  moreover have "?digs \<noteq> []" using num_digits_length [OF assms(1), of fl num] by auto
  ultimately show ?thesis
    using number_eq [OF assms(1,2), of str num w p fl] num_digits_value [OF assms(1,2), of fl num]
      num_digits_shape [OF assms(1,2), of fl num]
    by (intro exI [of _ ?digs]) (simp add: Let_def head_def flag_bits blanks_def zeros_def)
qed

theorem number_layout_witness:
  "\<exists>digs. number [] (- 128) 10 8 3 (SIGN OR LEFT) = Some (''-'' @ zeros (3 - int (length digs)) @ digs
      @ blanks (7 - max 3 (int (length digs)))) \<and> digits_value 10 digs = 128"
proof -
  have f: "num_sign (SIGN OR LEFT) (- 128) = ''-''" "num_prefix (SIGN OR LEFT) 10 = []" "(SIGN OR LEFT) AND LEFT \<noteq> 0"
    "num_magnitude (SIGN OR LEFT) (- 128) = 128"
    by (simp_all add: num_sign_def num_prefix_def num_negative_def num_magnitude_def flag_defs)
  show ?thesis
    using number_layout [where b = 10 and fl = "SIGN OR LEFT" and num = "- 128" and w = 8 and p = 3 and str = "[]"] f by (simp add: Let_def) blast
qed

text \<open>Reading a number back: a sign, and the digits with the kernel's own \<open>skip_atoi\<close>.\<close>

definition read_decimal :: "string \<Rightarrow> int \<times> string" where
  "read_decimal s =
    (case s of
       [] \<Rightarrow> skip_atoi s
     | c # s' \<Rightarrow> if c = CHR ''-'' then (let (k, r) = skip_atoi s' in (wrap32 (- k), r)) else skip_atoi s)"

text \<open>C27: printing any number with \<open>%d\<close> and reading it back gives the number, negative ones and \<open>INT_MIN\<close>
  included, and the text around the directive is copied unchanged.\<close>

theorem vsprintf_d_roundtrip:
  assumes "CHR ''%'' \<notin> set pre" "CHR ''%'' \<notin> set post" "post = [] \<or> \<not> is_digit (hd post)"
  shows "\<exists>text. vsprintf (pre @ ''%d'' @ post) [Word n]
      = Some (pre @ text @ post, length pre + length text + length post, [])
    \<and> read_decimal (text @ post) = (sint n, post)"
proof -
  let ?digs = "num_digits SIGN n 10"
  have "vsprintf_loop (pre @ CHR ''%'' # CHR ''d'' # post) [Word n] [] []
      = Some (pre @ num_sign SIGN n @ ?digs @ post, [])"
    using vsprintf_loop_literal [OF assms(1)] vsprintf_loop_literal [OF assms(2), of "[]"]
    by (simp add: vsprintf_loop_percent directive_d)
  moreover have "read_decimal ((num_sign SIGN n @ ?digs) @ post) = (sint n, post)"
  proof (cases "sint n < 0")
    case True
    then have "num_sign SIGN n = ''-''" "int (digits_value 10 ?digs) = - sint n"
      using num_digits_value [of 10 SIGN n] by (simp_all add: num_sign_def num_negative_def num_magnitude_def bit_SIGN)
    moreover have "wrap32 (- wrap32 (- sint n)) = sint n"
      by (simp add: wrap32_neg) (simp add: wrap32_sint)
    ultimately show ?thesis
      using skip_atoi_digits [OF num_digits_decimal assms(3), of SIGN n] by (simp add: read_decimal_def)
  next
    case False
    obtain c cs' where c: "?digs = c # cs'" "is_digit c"
      using num_digits_length [of 10 SIGN n] num_digits_decimal [of SIGN n] by (cases ?digs) auto
    have "num_sign SIGN n = []" "int (digits_value 10 ?digs) = sint n"
      using False num_digits_value [of 10 SIGN n] sint_nonneg_unat [of n]
      by (simp_all add: num_sign_def num_negative_def num_magnitude_def bit_SIGN)
    moreover have "wrap32 (sint n) = sint n" by (simp add: wrap32_sint)
    moreover have "c \<noteq> CHR ''-''" using c(2) by (auto simp: is_digit_def)
    ultimately show ?thesis
      using skip_atoi_digits [OF num_digits_decimal assms(3), of SIGN n] c by (simp add: read_decimal_def)
  qed
  ultimately show ?thesis
    by (intro exI [of _ "num_sign SIGN n @ ?digs"]) (simp add: vsprintf_def)
qed

theorem vsprintf_d_roundtrip_witness:
  "\<exists>text. vsprintf (''pid='' @ ''%d'' @ '', state'') [Word (- 4711)]
      = Some (''pid='' @ text @ '', state'', length ''pid='' + length text + length '', state'', [])
    \<and> read_decimal (text @ '', state'') = (sint (- 4711 :: u32), '', state'')"
  by (rule vsprintf_d_roundtrip) (simp_all add: is_digit_def)

text \<open>A width given by a star: the argument is taken but the star itself is not skipped, so it is
  printed as an unknown directive and the conversion letter becomes literal text. The number
  meant to be printed never is.\<close>

theorem star_width_not_skipped:
  "vsprintf (''%*d'' @ rest) (Word w # args)
    = map_option (\<lambda>(str, st). (str, length str, st)) (vsprintf_loop (CHR ''d'' # rest) args ''%*'' [])"
proof -
  have "directive (CHR ''*'' # CHR ''d'' # rest) (Word w # args) [] []
      = Some (''%*'', args, [], CHR ''d'' # rest)"
    by (simp add: directive_def is_digit_def get_qualifier_def conversion_def)
  then show ?thesis
    by (simp add: vsprintf_def vsprintf_loop_percent)
qed

end
