(* ===== verification/Tasks.thy ===== *)
theory Tasks imports Kprelude begin

unbundle bit_operations_syntax

text \<open>
  \<open>include/linux/sched.h\<close> and \<open>include/signal.h\<close>: the process table entry with everything the kernel
  keeps of a process, and the constants of its fields. Pointers into the inode table and the file
  table are indices of those tables; \<open>NULL\<close> is \<open>None\<close>. Signal sets are 32-bit words, times and
  counters are the values of C's 32-bit \<open>long\<close>.
\<close>

definition NR_TASKS :: nat where "NR_TASKS = 64"
definition NR_OPEN :: nat where "NR_OPEN = 20"
definition HZ :: int where "HZ = 100"

definition TASK_RUNNING :: int where "TASK_RUNNING = 0"
definition TASK_INTERRUPTIBLE :: int where "TASK_INTERRUPTIBLE = 1"
definition TASK_UNINTERRUPTIBLE :: int where "TASK_UNINTERRUPTIBLE = 2"
definition TASK_ZOMBIE :: int where "TASK_ZOMBIE = 3"
definition TASK_STOPPED :: int where "TASK_STOPPED = 4"

definition SIGHUP :: nat where "SIGHUP = 1"
definition SIGINT :: nat where "SIGINT = 2"
definition SIGQUIT :: nat where "SIGQUIT = 3"
definition SIGKILL :: nat where "SIGKILL = 9"
definition SIGSEGV :: nat where "SIGSEGV = 11"
definition SIGPIPE :: nat where "SIGPIPE = 13"
definition SIGALRM :: nat where "SIGALRM = 14"
definition SIGCHLD :: nat where "SIGCHLD = 17"
definition SIGSTOP :: nat where "SIGSTOP = 19"

text \<open>\<open>1 << (nr - 1)\<close>, the bit of signal \<open>nr\<close>.\<close>

definition sigbit :: "nat \<Rightarrow> u32" where
  "sigbit nr = push_bit (nr - 1) 1"

record sigaction =
  sa_handler :: u32
  sa_mask :: u32
  sa_flags :: u32
  sa_restorer :: u32

type_synonym desc_struct = "u32 \<times> u32"

record tss_struct =
  back_link :: u32
  esp0 :: u32
  ss0 :: u32
  cr3 :: u32
  eip :: u32
  eflags :: u32
  eax :: u32
  ecx :: u32
  edx :: u32
  ebx :: u32
  esp :: u32
  ebp :: u32
  esi :: u32
  edi :: u32
  es :: u32
  cs :: u32
  ss :: u32
  ds :: u32
  fs :: u32
  gs :: u32
  tss_ldt :: u32
  trace_bitmap :: u32

record task_struct =
  state :: int
  counter :: int
  priority :: int
  signal :: u32
  sigactions :: "sigaction list"
  blocked :: u32
  exit_code :: int
  start_code :: u32
  end_code :: u32
  end_data :: u32
  brk :: u32
  start_stack :: u32
  pid :: int
  father :: int
  pgrp :: int
  session :: int
  leader :: int
  uid :: u16
  euid :: u16
  suid :: u16
  gid :: u16
  egid :: u16
  sgid :: u16
  alarm :: int
  utime :: int
  stime :: int
  cutime :: int
  cstime :: int
  start_time :: int
  used_math :: u16
  tty :: int
  umask :: u16
  pwd :: "nat option"
  root :: "nat option"
  executable :: "nat option"
  close_on_exec :: u32
  filp :: "nat option list"
  ldt :: "desc_struct list"
  tss :: tss_struct

definition no_action :: sigaction where
  "no_action = \<lparr>sa_handler = 0, sa_mask = 0, sa_flags = 0, sa_restorer = 0\<rparr>"

text \<open>The first task; \<open>base\<close> is the address of \<open>init_task\<close>.\<close>

definition INIT_TASK :: "u32 \<Rightarrow> task_struct" where
  "INIT_TASK base =
    \<lparr>state = 0, counter = 15, priority = 15,
     signal = 0, sigactions = replicate 32 no_action, blocked = 0,
     exit_code = 0, start_code = 0, end_code = 0, end_data = 0, brk = 0, start_stack = 0,
     pid = 0, father = - 1, pgrp = 0, session = 0, leader = 0,
     uid = 0, euid = 0, suid = 0, gid = 0, egid = 0, sgid = 0,
     alarm = 0, utime = 0, stime = 0, cutime = 0, cstime = 0, start_time = 0,
     used_math = 0,
     tty = - 1, umask = 18, pwd = None, root = None, executable = None, close_on_exec = 0,
     filp = replicate NR_OPEN None,
     ldt = [(0, 0), (0x9f, 0xc0fa00), (0x9f, 0xc0f200)],
     tss = \<lparr>back_link = 0, esp0 = 4096 + base, ss0 = 0x10, cr3 = 0, eip = 0, eflags = 0,
            eax = 0, ecx = 0, edx = 0, ebx = 0, esp = 0, ebp = 0, esi = 0, edi = 0,
            es = 0x17, cs = 0x17, ss = 0x17, ds = 0x17, fs = 0x17, gs = 0x17,
            tss_ldt = 0x28, trace_bitmap = 0x80000000\<rparr>\<rparr>"

end
