(* ===== verification/Memory.thy ===== *)
theory Memory imports Tasks begin

unbundle bit_operations_syntax

text \<open>
  \<open>mm/memory.c\<close>: the allocator of physical pages, the page tables and copy on write.

  Physical memory is the function \<open>phys\<close> from a word-aligned address to the 32-bit word
  stored there; the page directory is the page at address 0, as in the source. Page-table
  pages are pages of this memory, so a store to an entry and a store to a data page are
  stores to the same memory. \<open>mem_map\<close> holds one unsigned byte for each of the 3840 pages
  above 1 MB. Flushing the translation cache (\<open>invalidate\<close>) has no effect on this state.
\<close>

section \<open>State\<close>

definition LOW_MEM :: u32 where "LOW_MEM = 0x100000"
definition PAGING_PAGES :: nat where "PAGING_PAGES = 3840"
definition USED :: u8 where "USED = 100"

record mm =
  phys :: "u32 \<Rightarrow> u32"
  mem_map :: "u8 list"
  HIGH_MEMORY :: u32

definition MAP_NR :: "u32 \<Rightarrow> nat" where
  "MAP_NR addr = unat (drop_bit 12 (addr - LOW_MEM))"

definition oom :: "'a kres" where
  "oom = Exit (int SIGSEGV)"

definition store :: "u32 \<Rightarrow> u32 \<Rightarrow> mm \<Rightarrow> mm" where
  "store a v s = s\<lparr>phys := (phys s)(a := v)\<rparr>"

text \<open>\<open>copy_page\<close>: 1024 words moved upwards.\<close>

definition copy_page :: "u32 \<Rightarrow> u32 \<Rightarrow> mm \<Rightarrow> mm" where
  "copy_page src dst s =
    s\<lparr>phys := (\<lambda>x. if unat (x - dst) < 4096 then phys s (src + (x - dst)) else phys s x)\<rparr>"

text \<open>\<open>rep stosl\<close> over the 1024 words of a page.\<close>

definition clear_page :: "u32 \<Rightarrow> mm \<Rightarrow> mm" where
  "clear_page a s = s\<lparr>phys := (\<lambda>x. if unat (x - a) < 4096 then 0 else phys s x)\<rparr>"

section \<open>Free pages\<close>

text \<open>\<open>std; repne; scasb\<close>: the map is scanned downwards for a zero byte.\<close>

fun scasb :: "nat \<Rightarrow> u8 list \<Rightarrow> nat option" where
  "scasb 0 m = None"
| "scasb (Suc n) m = (if m ! n = 0 then Some n else scasb n m)"

definition get_free_page :: "mm \<Rightarrow> u32 \<times> mm" where
  "get_free_page s =
    (case scasb PAGING_PAGES (mem_map s) of
       None \<Rightarrow> (0, s)
     | Some i \<Rightarrow>
        (let a = push_bit 12 (of_nat i) + LOW_MEM
         in (a, clear_page a (s\<lparr>mem_map := (mem_map s)[i := 1]\<rparr>))))"

definition free_page :: "u32 \<Rightarrow> mm \<Rightarrow> mm kres" where
  "free_page addr s =
    (if addr < LOW_MEM then Ret s
     else if addr \<ge> HIGH_MEMORY s then Panic ''trying to free nonexistent page''
     else let i = MAP_NR addr
          in if mem_map s ! i \<noteq> 0 then Ret (s\<lparr>mem_map := (mem_map s)[i := mem_map s ! i - 1]\<rparr>)
             else Panic ''trying to free free page'')"

section \<open>Page tables\<close>

definition dir_addr :: "u32 \<Rightarrow> u32" where
  "dir_addr lin = drop_bit 20 lin AND 0xffc"

definition frame :: "u32 \<Rightarrow> u32" where
  "frame e = 0xfffff000 AND e"

definition present :: "u32 \<Rightarrow> bool" where
  "present e \<longleftrightarrow> 1 AND e \<noteq> 0"

text \<open>The inner loop of \<open>free_page_tables\<close> over the entries of one table.\<close>

fun free_table_entries :: "nat \<Rightarrow> u32 \<Rightarrow> mm \<Rightarrow> mm kres" where
  "free_table_entries 0 pg_table s = Ret s"
| "free_table_entries (Suc n) pg_table s =
     kbind (if present (phys s pg_table) then free_page (frame (phys s pg_table)) s else Ret s)
       (\<lambda>s. free_table_entries n (pg_table + 4) (store pg_table 0 s))"

fun free_dirs :: "nat \<Rightarrow> u32 \<Rightarrow> mm \<Rightarrow> mm kres" where
  "free_dirs 0 dir s = Ret s"
| "free_dirs (Suc n) dir s =
     (if \<not> present (phys s dir) then free_dirs n (dir + 4) s
      else kbind (free_table_entries 1024 (frame (phys s dir)) s)
             (\<lambda>s. kbind (free_page (frame (phys s dir)) s)
             (\<lambda>s. free_dirs n (dir + 4) (store dir 0 s))))"

definition free_page_tables :: "u32 \<Rightarrow> u32 \<Rightarrow> mm \<Rightarrow> (int \<times> mm) kres" where
  "free_page_tables from sz s =
    (if from AND 0x3fffff \<noteq> 0 then Panic ''free_page_tables called with wrong alignment''
     else if from = 0 then Panic ''Trying to free up swapper memory space''
     else kbind (free_dirs (unat (drop_bit 22 (sz + 0x3fffff))) (dir_addr from) s)
            (\<lambda>s. Ret (0, s)))"

text \<open>The inner loop of \<open>copy_page_tables\<close>: entries are made read-only in the copy, and in the
  source too when the page is above 1 MB, whose reference count goes up.\<close>

fun copy_entries :: "nat \<Rightarrow> u32 \<Rightarrow> u32 \<Rightarrow> mm \<Rightarrow> mm" where
  "copy_entries 0 from_table to_table s = s"
| "copy_entries (Suc n) from_table to_table s =
    (let this_page = phys s from_table
     in if \<not> present this_page then copy_entries n (from_table + 4) (to_table + 4) s
        else
        let this_page = this_page AND NOT 2;
            s = store to_table this_page s;
            s = (if this_page > LOW_MEM
                 then let s = store from_table this_page s;
                          i = unat (drop_bit 12 (this_page - LOW_MEM))
                      in s\<lparr>mem_map := (mem_map s)[i := mem_map s ! i + 1]\<rparr>
                 else s)
        in copy_entries n (from_table + 4) (to_table + 4) s)"

fun copy_dirs :: "u32 \<Rightarrow> nat \<Rightarrow> u32 \<Rightarrow> u32 \<Rightarrow> mm \<Rightarrow> (int \<times> mm) kres" where
  "copy_dirs from 0 from_dir to_dir s = Ret (0, s)"
| "copy_dirs from (Suc n) from_dir to_dir s =
    (if present (phys s to_dir) then Panic ''copy_page_tables: already exist''
     else if \<not> present (phys s from_dir) then copy_dirs from n (from_dir + 4) (to_dir + 4) s
     else let from_table = frame (phys s from_dir);
              (to_table, s) = get_free_page s
          in if to_table = 0 then Ret (-1, s)
             else let s = store to_dir (to_table OR 7) s;
                      nr = (if from = 0 then 0xA0 else 1024)
                  in copy_dirs from n (from_dir + 4) (to_dir + 4)
                       (copy_entries nr from_table to_table s))"

definition copy_page_tables :: "u32 \<Rightarrow> u32 \<Rightarrow> u32 \<Rightarrow> mm \<Rightarrow> (int \<times> mm) kres" where
  "copy_page_tables from to sz s =
    (if from AND 0x3fffff \<noteq> 0 \<or> to AND 0x3fffff \<noteq> 0
     then Panic ''copy_page_tables called with wrong alignment''
     else copy_dirs from (unat (drop_bit 22 (sz + 0x3fffff))) (dir_addr from) (dir_addr to) s)"

text \<open>\<open>put_page\<close>; the two warnings it prints leave the state alone.\<close>

definition put_page :: "u32 \<Rightarrow> u32 \<Rightarrow> mm \<Rightarrow> u32 \<times> mm" where
  "put_page page address s =
    (let e = phys s (dir_addr address);
         (page_table, s) =
           (if present e then (frame e, s)
            else let (tmp, s) = get_free_page s
                 in if tmp = 0 then (0, s) else (tmp, store (dir_addr address) (tmp OR 7) s))
     in if \<not> present e \<and> page_table = 0 then (0, s)
        else (page, store (page_table + push_bit 2 (drop_bit 12 address AND 0x3ff)) (page OR 7) s))"

section \<open>Copy on write\<close>

definition un_wp_page :: "u32 \<Rightarrow> mm \<Rightarrow> mm kres" where
  "un_wp_page table_entry s =
    (let old_page = frame (phys s table_entry)
     in if old_page \<ge> LOW_MEM \<and> mem_map s ! MAP_NR old_page = 1
        then Ret (store table_entry (phys s table_entry OR 2) s)
        else let (new_page, s) = get_free_page s
             in if new_page = 0 then oom
                else let s = (if old_page \<ge> LOW_MEM
                              then s\<lparr>mem_map := (mem_map s)[MAP_NR old_page :=
                                                     mem_map s ! MAP_NR old_page - 1]\<rparr>
                              else s);
                         s = store table_entry (new_page OR 7) s
                     in Ret (copy_page old_page new_page s))"

definition entry_addr :: "u32 \<Rightarrow> mm \<Rightarrow> u32" where
  "entry_addr address s =
    (drop_bit 10 address AND 0xffc) + frame (phys s (drop_bit 20 address AND 0xffc))"

definition do_wp_page :: "u32 \<Rightarrow> u32 \<Rightarrow> mm \<Rightarrow> mm kres" where
  "do_wp_page error_code address s = un_wp_page (entry_addr address s) s"

definition write_verify :: "u32 \<Rightarrow> mm \<Rightarrow> mm kres" where
  "write_verify address s =
    (let page = phys s (drop_bit 20 address AND 0xffc)
     in if \<not> present page then Ret s
        else let page = (page AND 0xfffff000) + (drop_bit 10 address AND 0xffc)
             in if 3 AND phys s page = 1 then un_wp_page page s else Ret s)"

definition get_empty_page :: "u32 \<Rightarrow> mm \<Rightarrow> mm kres" where
  "get_empty_page address s =
    (let (tmp, s) = get_free_page s
     in if tmp = 0 then kbind (free_page tmp s) (\<lambda>_. oom)
        else let (r, s) = put_page tmp address s
             in if r = 0 then kbind (free_page tmp s) (\<lambda>_. oom) else Ret s)"

section \<open>Sharing pages of an executable\<close>

definition try_to_share :: "u32 \<Rightarrow> task_struct \<Rightarrow> task_struct \<Rightarrow> mm \<Rightarrow> (int \<times> mm) kres" where
  "try_to_share address p current s =
    (let idx = drop_bit 20 address AND 0xffc;
         from_page = idx + (drop_bit 20 (start_code p) AND 0xffc);
         to_page = idx + (drop_bit 20 (start_code current) AND 0xffc);
         from = phys s from_page
     in if \<not> present from then Ret (0, s)
        else
        let from_page = frame from + (drop_bit 10 address AND 0xffc);
            phys_addr = phys s from_page
        in if phys_addr AND 0x41 \<noteq> 0x01 then Ret (0, s)
           else
           let phys_addr = frame phys_addr
           in if phys_addr \<ge> HIGH_MEMORY s \<or> phys_addr < LOW_MEM then Ret (0, s)
              else
              let to = phys s to_page
              in kbind (if present to then Ret (to, s)
                        else let (t, s) = get_free_page s
                             in if t = 0 then oom else Ret (t, store to_page (t OR 7) s))
                 (\<lambda>(to, s).
                   let to_page = frame to + (drop_bit 10 address AND 0xffc)
                   in if present (phys s to_page) then Panic ''try_to_share: to_page already exists''
                      else let s = store from_page (phys s from_page AND NOT 2) s;
                               s = store to_page (phys s from_page) s;
                               i = MAP_NR phys_addr
                           in Ret (1, s\<lparr>mem_map := (mem_map s)[i := mem_map s ! i + 1]\<rparr>)))"

text \<open>The loop of \<open>share_page\<close> from the last task down to task 1; \<open>cur\<close> is the current task's
  number.\<close>

fun share_loop :: "nat \<Rightarrow> u32 \<Rightarrow> (nat \<Rightarrow> task_struct option) \<Rightarrow> nat \<Rightarrow> task_struct \<Rightarrow> mm \<Rightarrow> (int \<times> mm) kres"
where
  "share_loop 0 address task cur current s = Ret (0, s)"
| "share_loop (Suc n) address task cur current s =
    (case task (Suc n) of
       None \<Rightarrow> share_loop n address task cur current s
     | Some p \<Rightarrow>
        if Suc n = cur then share_loop n address task cur current s
        else if executable p \<noteq> executable current then share_loop n address task cur current s
        else kbind (try_to_share address p current s)
               (\<lambda>(r, s). if r \<noteq> 0 then Ret (1, s) else share_loop n address task cur current s))"

definition share_page ::
  "(nat \<Rightarrow> nat) \<Rightarrow> u32 \<Rightarrow> (nat \<Rightarrow> task_struct option) \<Rightarrow> nat \<Rightarrow> task_struct \<Rightarrow> mm \<Rightarrow> (int \<times> mm) kres"
where
  "share_page i_count address task cur current s =
    (case executable current of
       None \<Rightarrow> Ret (0, s)
     | Some ino \<Rightarrow> if i_count ino < 2 then Ret (0, s)
                  else share_loop 63 address task cur current s)"

section \<open>Initialisation and statistics\<close>

text \<open>\<open>mem_init\<close>; the arguments are the physical addresses \<open>main\<close> computes. Every byte is
  first marked used, then those of main memory are cleared one after another.\<close>

fun clear_map :: "nat \<Rightarrow> nat \<Rightarrow> u8 list \<Rightarrow> u8 list" where
  "clear_map 0 i m = m"
| "clear_map (Suc n) i m = clear_map n (Suc i) (m[i := 0])"

definition mem_init :: "u32 \<Rightarrow> u32 \<Rightarrow> mm \<Rightarrow> mm" where
  "mem_init start_mem end_mem s =
    (let m = replicate PAGING_PAGES USED;
         i = MAP_NR start_mem;
         n = nat (sint (signed_drop_bit 12 (end_mem - start_mem)))
     in s\<lparr>HIGH_MEMORY := end_mem, mem_map := clear_map n i m\<rparr>)"

text \<open>The numbers \<open>calc_mem\<close> prints: the free pages, and for each present directory entry from 2 on
  the number of pages its table maps.\<close>

definition calc_mem :: "mm \<Rightarrow> nat \<times> (nat \<times> nat) list" where
  "calc_mem s =
    (length (filter (\<lambda>b. b = 0) (mem_map s)),
     map (\<lambda>i. (i, length (filter (\<lambda>j. present (phys s (frame (phys s (of_nat (4 * i))) + of_nat (4 * j))))
                         [0..<1024])))
       (filter (\<lambda>i. present (phys s (of_nat (4 * i)))) [2..<1024]))"

section \<open>Page arithmetic\<close>

definition page_addr :: "nat \<Rightarrow> u32" where
  "page_addr i = push_bit 12 (of_nat i) + LOW_MEM"

definition aligned :: "u32 \<Rightarrow> bool" where
  "aligned a \<longleftrightarrow> frame a = a"

lemma bit_frame: "bit (frame e) n \<longleftrightarrow> bit e n \<and> 12 \<le> n"
proof -
  have m: "(0xfffff000 :: u32) = NOT (mask 12)"
    by (simp add: mask_eq_exp_minus_1)
  show ?thesis
    unfolding frame_def m bit_and_iff bit_not_iff bit_mask_iff
    by (auto dest: bit_imp_le_length)
qed

lemma frame_frame [simp]: "frame (frame e) = frame e"
  by (rule bit_eqI) (simp add: bit_frame)

lemma aligned_frame [simp]: "aligned (frame e)"
  by (simp add: aligned_def)

lemma frame_push: "frame e = push_bit 12 (drop_bit 12 e)"
  by (rule bit_eqI) (auto simp: bit_frame bit_push_bit_iff bit_drop_bit_eq dest: bit_imp_le_length)

lemma unat_frame: "unat (frame e) = unat e div 4096 * 4096"
proof -
  have "unat (frame e) = take_bit 32 (push_bit 12 (drop_bit 12 (unat e)))"
    by (simp add: frame_push unsigned_push_bit_eq unat_drop_bit_eq)
  then have "unat (frame e) = take_bit 32 (unat e div 4096 * 4096)"
    by (simp add: push_bit_eq_mult drop_bit_eq_div)
  moreover have "unat e div 4096 * 4096 < 2 ^ 32"
    using u32_bounds(3) [of e] div_times_less_eq_dividend [of "unat e" 4096] by linarith
  ultimately show ?thesis
    by (simp add: take_bit_eq_mod)
qed

lemma frame_eq_iff: "frame x = frame y \<longleftrightarrow> unat x div 4096 = unat y div 4096"
  by (metis unat_frame nonzero_mult_div_cancel_right word_unat_eq_iff zero_neq_numeral)

lemma bit_7_2: "bit (7 :: u32) n \<longleftrightarrow> n < 3" "bit (2 :: u32) n \<longleftrightarrow> n = 1"
proof -
  have "(7 :: u32) = mask 3" by (simp add: mask_eq_exp_minus_1)
  then show "bit (7 :: u32) n \<longleftrightarrow> n < 3"
    by (simp only: bit_mask_iff) auto
  show "bit (2 :: u32) n \<longleftrightarrow> n = 1"
    using bit_exp_iff [of 1 n, where ?'a = u32] by auto
qed

lemma frame_flags [simp]: "frame (a OR 7) = frame a" "frame (a OR 2) = frame a"
  "frame (a AND NOT 2) = frame a"
proof -
  show "frame (a OR 7) = frame a"
    by (rule bit_eqI, unfold bit_frame bit_or_iff bit_7_2) auto
  show "frame (a OR 2) = frame a"
    by (rule bit_eqI, unfold bit_frame bit_or_iff bit_7_2) auto
  show "frame (a AND NOT 2) = frame a"
    by (rule bit_eqI, unfold bit_frame bit_and_iff bit_not_iff bit_7_2)
      (auto dest: bit_imp_le_length)
qed

lemma MAP_NR_unat: "MAP_NR a = unat (a - LOW_MEM) div 4096"
  by (simp only: MAP_NR_def unat_drop_bit_eq) (simp add: drop_bit_eq_div)

lemma present_bit: "present e \<longleftrightarrow> bit e 0"
  using and_exp_eq_0_iff_not_bit [of e 0] by (simp add: present_def and.commute)

lemma present_flags [simp]: "present (a OR 7)" "present (a OR 2) = present a"
  "present (a AND NOT 2) = present a"
proof -
  show "present (a OR 7)" "present (a OR 2) = present a" "present (a AND NOT 2) = present a"
    unfolding present_bit bit_or_iff bit_and_iff bit_not_iff bit_7_2 by auto
qed

lemma page_addr_of_nat: "page_addr i = of_nat (4096 * i + 1048576)"
  by (simp add: page_addr_def LOW_MEM_def push_bit_eq_mult)

lemma unat_page_addr: "i \<le> PAGING_PAGES \<Longrightarrow> unat (page_addr i) = 4096 * i + 1048576"
  by (simp only: page_addr_of_nat unat_of_nat) (simp add: PAGING_PAGES_def)

lemma page_addr_props:
  assumes "i \<le> PAGING_PAGES"
  shows "page_addr i \<noteq> 0" "aligned (page_addr i)" "MAP_NR (page_addr i) = i" "LOW_MEM \<le> page_addr i"
proof -
  show "page_addr i \<noteq> 0" "LOW_MEM \<le> page_addr i"
    using unat_page_addr [OF assms] by (auto simp: LOW_MEM_def word_le_nat_alt)
  have "unat (page_addr i) div 4096 * 4096 = unat (page_addr i)"
    using unat_page_addr [OF assms] by simp
  then show "aligned (page_addr i)"
    by (metis aligned_def unat_frame word_unat_eq_iff)
  have "page_addr i - LOW_MEM = push_bit 12 (of_nat i)"
    by (simp add: page_addr_def)
  also have "\<dots> = of_nat (4096 * i)"
    by (simp add: push_bit_eq_mult)
  finally have "unat (page_addr i - LOW_MEM) = 4096 * i"
    using assms by (simp only: unat_of_nat) (simp add: PAGING_PAGES_def)
  then show "MAP_NR (page_addr i) = i"
    by (simp add: MAP_NR_unat)
qed

lemma page_addr_inject:
  "i < PAGING_PAGES \<Longrightarrow> j < PAGING_PAGES \<Longrightarrow> page_addr i = page_addr j \<longleftrightarrow> i = j"
  using page_addr_props(3) by (metis less_imp_le)

text \<open>The pages a clear or a copy touches.\<close>

lemma in_page:
  assumes "aligned a"
  shows "unat (x - a) < 4096 \<longleftrightarrow> frame x = a"
proof -
  have a: "unat a = unat a div 4096 * 4096"
    using assms by (metis aligned_def unat_frame)
  have "frame x = a \<longleftrightarrow> unat x div 4096 = unat a div 4096"
    using assms frame_eq_iff [of x a] by (simp add: aligned_def)
  moreover have "unat x div 4096 = unat a div 4096 \<longleftrightarrow> unat (x - a) < 4096"
  proof (cases "a \<le> x")
    case True
    then have "unat (x - a) = unat x - unat a" "unat a \<le> unat x"
      by (simp_all add: unat_sub word_le_nat_alt)
    moreover obtain k where "unat a = k * 4096"
      using a by blast
    ultimately show ?thesis by simp linarith
  next
    case False
    then have lt: "unat x < unat a"
      by (simp add: word_le_nat_alt)
    then have "unat (x - a) = 2 ^ 32 + unat x - unat a"
      by (simp add: unat_sub_if_size word_size)
    moreover obtain k where k: "unat a = k * 4096"
      using a by blast
    ultimately show ?thesis
      using lt u32_bounds(3) [of a] by simp linarith
  qed
  ultimately show ?thesis by simp
qed

lemma frame_offset:
  assumes "aligned a" "unat k < 4096"
  shows "frame (a + k) = a"
proof -
  have "unat (a + k - a) < 4096"
    using assms by simp
  then show ?thesis
    using in_page [OF assms(1)] by blast
qed

section \<open>The allocator\<close>

definition wf_mm :: "mm \<Rightarrow> bool" where
  "wf_mm s \<longleftrightarrow> length (mem_map s) = PAGING_PAGES \<and> HIGH_MEMORY s \<le> 0x1000000"

abbreviation refcount :: "mm \<Rightarrow> nat \<Rightarrow> u8" where
  "refcount s i \<equiv> mem_map s ! i"

lemma scasb_Some:
  "scasb n m = Some i \<Longrightarrow> i < n \<and> m ! i = 0 \<and> (\<forall>j. i < j \<and> j < n \<longrightarrow> m ! j \<noteq> 0)"
  by (induction n) (auto split: if_splits simp: less_Suc_eq)

lemma scasb_None: "scasb n m = None \<longleftrightarrow> (\<forall>j<n. m ! j \<noteq> 0)"
  by (induction n) (auto simp: less_Suc_eq)

lemma store_simps [simp]:
  "phys (store a v s) = (phys s)(a := v)" "mem_map (store a v s) = mem_map s"
  "HIGH_MEMORY (store a v s) = HIGH_MEMORY s" "wf_mm (store a v s) = wf_mm s"
  by (simp_all add: store_def wf_mm_def)

lemma clear_page_simps:
  "mem_map (clear_page a s) = mem_map s" "HIGH_MEMORY (clear_page a s) = HIGH_MEMORY s"
  "aligned a \<Longrightarrow> phys (clear_page a s) = (\<lambda>x. if frame x = a then 0 else phys s x)"
  by (simp_all add: clear_page_def in_page)

lemma copy_page_simps:
  "mem_map (copy_page a b s) = mem_map s" "HIGH_MEMORY (copy_page a b s) = HIGH_MEMORY s"
  "aligned b \<Longrightarrow> phys (copy_page a b s) = (\<lambda>x. if frame x = b then phys s (a + (x - b)) else phys s x)"
  by (simp_all add: copy_page_def in_page)

lemma get_free_page_cases:
  assumes "get_free_page s = (a, s')"
  obtains (none) "a = 0" "s' = s" "\<forall>i < PAGING_PAGES. refcount s i \<noteq> 0"
  | (page) i where "i < PAGING_PAGES" "a = page_addr i" "refcount s i = 0"
      "\<forall>j. i < j \<and> j < PAGING_PAGES \<longrightarrow> refcount s j \<noteq> 0"
      "mem_map s' = (mem_map s)[i := 1]" "HIGH_MEMORY s' = HIGH_MEMORY s"
      "phys s' = (\<lambda>x. if frame x = a then 0 else phys s x)"
proof (cases "scasb PAGING_PAGES (mem_map s)")
  case None
  with assms none show thesis
    by (simp add: get_free_page_def scasb_None)
next
  case (Some i)
  with assms have "a = page_addr i" "s' = clear_page a (s\<lparr>mem_map := (mem_map s)[i := 1]\<rparr>)"
    by (auto simp: get_free_page_def Let_def page_addr_def)
  with scasb_Some [OF Some] page_addr_props(2) [of i] show thesis
    by (intro page) (auto simp: clear_page_simps)
qed

lemma get_free_page_wf: "wf_mm s \<Longrightarrow> get_free_page s = (a, s') \<Longrightarrow> wf_mm s'"
  by (erule get_free_page_cases) (simp_all add: wf_mm_def)

lemma free_page_simps:
  assumes "i < PAGING_PAGES" "page_addr i < HIGH_MEMORY s"
  shows "free_page (page_addr i) s
    = (if refcount s i \<noteq> 0 then Ret (s\<lparr>mem_map := (mem_map s)[i := refcount s i - 1]\<rparr>)
       else Panic ''trying to free free page'')"
proof -
  have "\<not> page_addr i < LOW_MEM" "\<not> HIGH_MEMORY s \<le> page_addr i" "MAP_NR (page_addr i) = i"
    using assms page_addr_props [of i] by (simp_all add: not_less not_le)
  then show ?thesis
    by (simp add: free_page_def Let_def)
qed

text \<open>The contract between the page allocator and its clients: a successful allocation hands out
  a page nobody refers to, and freeing it gives the count back.\<close>

locale page_allocator =
  fixes alloc :: "'s \<Rightarrow> u32 \<times> 's"
    and free :: "u32 \<Rightarrow> 's \<Rightarrow> 's kres"
    and count :: "'s \<Rightarrow> nat \<Rightarrow> nat"
    and owned :: "'s \<Rightarrow> nat set"
    and ok :: "'s \<Rightarrow> bool"
  assumes owned_pages: "owned s \<subseteq> {..<PAGING_PAGES}"
    and alloc_fail: "ok s \<Longrightarrow> alloc s = (0, s') \<Longrightarrow> s' = s"
    and alloc_page: "ok s \<Longrightarrow> alloc s = (a, s') \<Longrightarrow> a \<noteq> 0 \<Longrightarrow>
      \<exists>i \<in> owned s. a = page_addr i \<and> count s i = 0 \<and> count s' = (count s)(i := 1)"
    and alloc_ok: "ok s \<Longrightarrow> alloc s = (a, s') \<Longrightarrow> ok s' \<and> owned s' = owned s"
    and free_page': "ok s \<Longrightarrow> i \<in> owned s \<Longrightarrow> 0 < count s i \<Longrightarrow>
      \<exists>s'. free (page_addr i) s = Ret s' \<and> ok s' \<and> owned s' = owned s
         \<and> count s' = (count s)(i := count s i - 1)"
begin

lemma alloc_free_count:
  assumes "ok s" "alloc s = (a, s')" "a \<noteq> 0"
  shows "\<exists>s''. free a s' = Ret s'' \<and> ok s'' \<and> owned s'' = owned s \<and> count s'' = count s"
proof -
  obtain i where i: "i \<in> owned s" "a = page_addr i" "count s i = 0" "count s' = (count s)(i := 1)"
    using alloc_page [OF assms] by blast
  have ok: "ok s'" "owned s' = owned s"
    using alloc_ok [OF assms(1,2)] by auto
  have "i \<in> owned s'" "0 < count s' i"
    using i ok by simp_all
  from free_page' [OF ok(1) this] obtain s'' where s'': "free (page_addr i) s' = Ret s''" "ok s''"
    "owned s'' = owned s'" "count s'' = (count s')(i := count s' i - 1)" by blast
  have "count s'' = count s"
    using i s'' by (auto simp: fun_eq_iff)
  with s'' i ok show ?thesis by auto
qed

lemma alloc_distinct:
  assumes "ok s" "alloc s = (a, s1)" "a \<noteq> 0" "alloc s1 = (b, s2)" "b \<noteq> 0"
  shows "a \<noteq> b"
proof -
  obtain i where i: "a = page_addr i" "count s1 = (count s)(i := 1)"
    "i \<in> owned s"
    using alloc_page [OF assms(1-3)] by blast
  obtain j where j: "b = page_addr j" "count s1 j = 0" "j \<in> owned s1"
    using alloc_page [OF _ assms(4,5)] alloc_ok [OF assms(1,2)] by blast
  have "i < PAGING_PAGES" "j < PAGING_PAGES"
    using i(3) j(3) owned_pages by auto
  moreover have "i \<noteq> j"
    using i j by auto
  ultimately show ?thesis
    using i(1) j(1) page_addr_inject by simp
qed

end

text \<open>Pages that do not exist are marked used for ever.\<close>

definition mm_ok :: "mm \<Rightarrow> bool" where
  "mm_ok s \<longleftrightarrow> wf_mm s
    \<and> (\<forall>i < PAGING_PAGES. HIGH_MEMORY s \<le> page_addr i \<longrightarrow> refcount s i \<noteq> 0)"

definition managed :: "mm \<Rightarrow> nat set" where
  "managed s = {i. i < PAGING_PAGES \<and> page_addr i < HIGH_MEMORY s}"

definition page_count :: "mm \<Rightarrow> nat \<Rightarrow> nat" where
  "page_count s i = unat (refcount s i)"

lemma unat_pred: "(x :: u8) \<noteq> 0 \<Longrightarrow> unat (x - 1) = unat x - 1"
  by (rule unat_minus_one)

lemma get_free_page_managed:
  assumes "mm_ok s" "get_free_page s = (a, s')" "a \<noteq> 0"
  shows "\<exists>i \<in> managed s. a = page_addr i \<and> page_count s i = 0
    \<and> page_count s' = (page_count s)(i := 1)"
  using assms(2)
proof (cases rule: get_free_page_cases)
  case (page i)
  have "i < length (mem_map s)"
    using page(1) assms(1) by (simp add: mm_ok_def wf_mm_def)
  with page assms(1) show ?thesis
    by (intro bexI [of _ i]) (auto simp: managed_def mm_ok_def not_le page_count_def fun_eq_iff
        nth_list_update)
qed (use assms in simp)

lemma get_free_page_ok:
  assumes "mm_ok s" "get_free_page s = (a, s')"
  shows "mm_ok s' \<and> managed s' = managed s"
  using assms(2)
proof (cases rule: get_free_page_cases)
  case (page i)
  with assms(1) show ?thesis
    by (auto simp: mm_ok_def wf_mm_def managed_def nth_list_update)
qed (use assms in simp)

lemma free_page_managed:
  assumes "mm_ok s" "i \<in> managed s" "0 < page_count s i"
  shows "\<exists>s'. free_page (page_addr i) s = Ret s' \<and> mm_ok s' \<and> managed s' = managed s
    \<and> page_count s' = (page_count s)(i := page_count s i - 1)"
proof -
  let ?s = "s\<lparr>mem_map := (mem_map s)[i := refcount s i - 1]\<rparr>"
  have i: "i < PAGING_PAGES" "page_addr i < HIGH_MEMORY s" "refcount s i \<noteq> 0"
    "i < length (mem_map s)"
    using assms by (auto simp: managed_def page_count_def mm_ok_def wf_mm_def)
  have "free_page (page_addr i) s = Ret ?s"
    using i by (simp add: free_page_simps)
  moreover have "mm_ok ?s" "managed ?s = managed s"
    using i assms(1) by (auto simp: mm_ok_def wf_mm_def managed_def nth_list_update not_le)
  moreover have "page_count ?s = (page_count s)(i := page_count s i - 1)"
    using i by (auto simp: page_count_def fun_eq_iff nth_list_update unat_pred)
  ultimately show ?thesis by blast
qed

interpretation mm_pages: page_allocator get_free_page free_page page_count managed mm_ok
proof unfold_locales
  show "managed s \<subseteq> {..<PAGING_PAGES}" for s
    by (auto simp: managed_def)
  show "s' = s" if "mm_ok s" "get_free_page s = (0, s')" for s s'
    using that(2)
    by (cases rule: get_free_page_cases) (use page_addr_props(1) in auto)
qed (use get_free_page_managed get_free_page_ok free_page_managed in auto)

section \<open>Initialisation\<close>

lemma clear_map_length [simp]: "length (clear_map n i m) = length m"
  by (induction n i m rule: clear_map.induct) simp_all

lemma clear_map_nth:
  "k < length m \<Longrightarrow> clear_map n i m ! k = (if i \<le> k \<and> k < i + n then 0 else m ! k)"
  by (induction n i m rule: clear_map.induct) (auto simp: nth_list_update)

text \<open>The memory layouts \<open>main\<close> sets up: page-aligned, between 1 MB and 16 MB.\<close>

definition main_memory :: "nat \<Rightarrow> nat \<Rightarrow> bool" where
  "main_memory lo hi \<longleftrightarrow> lo \<le> hi \<and> hi \<le> PAGING_PAGES"

lemma mem_init_map:
  assumes "main_memory lo hi"
  shows "mem_map (mem_init (page_addr lo) (page_addr hi) s)
    = map (\<lambda>i. if lo \<le> i \<and> i < hi then 0 else USED) [0..<PAGING_PAGES]"
proof -
  have lo: "MAP_NR (page_addr lo) = lo"
    using assms page_addr_props(3) [of lo] by (simp add: main_memory_def)
  have u: "unat (page_addr hi - page_addr lo) = 4096 * (hi - lo)"
    using assms unat_page_addr [of lo] unat_page_addr [of hi]
    by (simp add: main_memory_def unat_sub word_le_nat_alt)
  have "sint (page_addr hi - page_addr lo) = int (unat (page_addr hi - page_addr lo))"
    using u assms by (intro sint_small) (simp add: main_memory_def PAGING_PAGES_def, linarith)
  then have "sint (signed_drop_bit 12 (page_addr hi - page_addr lo)) = int (hi - lo)"
    unfolding sint_signed_drop_bit_eq u by (simp add: drop_bit_eq_div)
  then show ?thesis
    using assms unfolding mem_init_def Let_def lo
    by (intro nth_equalityI) (auto simp: clear_map_nth main_memory_def)
qed

section \<open>Table entries\<close>

text \<open>The address of entry \<open>i\<close> of the table at \<open>t\<close>, and an entry made read-only.\<close>

definition ent :: "u32 \<Rightarrow> nat \<Rightarrow> u32" where
  "ent t i = t + of_nat (4 * i)"

definition ro :: "u32 \<Rightarrow> u32" where
  "ro e = e AND NOT 2"

lemma ent_Suc [simp]: "ent t i + 4 = ent t (Suc i)"
  by (simp add: ent_def algebra_simps)

lemma ent_0 [simp]: "ent t 0 = t"
  by (simp add: ent_def)

lemma ent_inject: "i < 1024 \<Longrightarrow> j < 1024 \<Longrightarrow> ent t i = ent t j \<longleftrightarrow> i = j"
proof -
  assume "i < 1024" "j < 1024"
  then have "unat (of_nat (4 * i) :: u32) = 4 * i" "unat (of_nat (4 * j) :: u32) = 4 * j"
    by (simp_all only: unat_of_nat) simp_all
  then show ?thesis
    by (metis ent_def add_left_cancel mult_left_cancel zero_neq_numeral)
qed

lemma frame_ent: "aligned t \<Longrightarrow> i < 1024 \<Longrightarrow> frame (ent t i) = t"
  unfolding ent_def by (rule frame_offset, assumption, simp only: unat_of_nat) simp

lemma ro_simps [simp]: "ro (ro e) = ro e" "present (ro e) = present e" "frame (ro e) = frame e"
  by (simp_all only: ro_def and.assoc and.idem present_flags frame_flags)

text \<open>An entry after the copy of its table: as before, or made read-only.\<close>

definition same_or_ro :: "u32 \<Rightarrow> u32 \<Rightarrow> bool" where
  "same_or_ro e e' \<longleftrightarrow> e' = e \<or> e' = ro e"

lemma same_or_ro_simps [simp]: "same_or_ro e e" "same_or_ro e (ro e)"
  "same_or_ro (ro e) e' = (e' = ro e)"
  by (auto simp: same_or_ro_def)

lemma same_or_ro_trans: "same_or_ro a b \<Longrightarrow> same_or_ro b c \<Longrightarrow> same_or_ro a c"
  by (auto simp: same_or_ro_def)

lemma same_or_ro_ro: "same_or_ro e e' \<Longrightarrow> ro e' = ro e"
  by (auto simp: same_or_ro_def)

lemma same_or_ro_present: "same_or_ro e e' \<Longrightarrow> present e' = present e"
  by (auto simp: same_or_ro_def)

text \<open>The page an entry shares when it is copied: \<open>copy_page_tables\<close> counts entries of present pages
  above 1 MB.\<close>

definition shares :: "u32 \<Rightarrow> nat \<Rightarrow> bool" where
  "shares e p \<longleftrightarrow> present e \<and> ro e > LOW_MEM \<and> MAP_NR (ro e) = p"

lemma shares_ro [simp]: "shares (ro e) p = shares e p"
  by (simp add: shares_def)

definition share_count :: "mm \<Rightarrow> u32 \<Rightarrow> nat \<Rightarrow> nat \<Rightarrow> nat \<Rightarrow> nat" where
  "share_count s t j n p = length (filter (\<lambda>i. shares (phys s (ent t i)) p) [j..<j + n])"

lemma share_count_Suc:
  "share_count s t j (Suc n) p = (if shares (phys s (ent t j)) p then 1 else 0) + share_count s t (Suc j) n p"
proof -
  have "[j..<j + Suc n] = j # [Suc j..<Suc j + n]"
    by (simp add: upt_conv_Cons del: upt_Suc)
  then show ?thesis
    by (simp only: share_count_def filter.simps) simp
qed

lemma share_count_cong:
  "(\<And>i. j \<le> i \<Longrightarrow> i < j + n \<Longrightarrow> ro (phys s (ent t i)) = ro (phys s' (ent t i)))
    \<Longrightarrow> share_count s t j n p = share_count s' t j n p"
  unfolding share_count_def by (metis (mono_tags, lifting) filter_cong atLeastLessThan_iff set_upt shares_ro)

text \<open>One step of the entry loop as a state change.\<close>

definition copy_entry :: "u32 \<Rightarrow> u32 \<Rightarrow> mm \<Rightarrow> mm" where
  "copy_entry f t s =
    (let e = phys s f
     in if \<not> present e then s
        else if ro e > LOW_MEM
        then s\<lparr>phys := (phys s)(t := ro e, f := ro e),
               mem_map := (mem_map s)[MAP_NR (ro e) := refcount s (MAP_NR (ro e)) + 1]\<rparr>
        else store t (ro e) s)"

lemma copy_entries_Suc: "copy_entries (Suc n) f t s = copy_entries n (f + 4) (t + 4) (copy_entry f t s)"
  by (simp add: copy_entry_def ro_def Let_def store_def MAP_NR_def)

declare copy_entries.simps(2) [simp del]

lemma copy_entry_phys:
  "f \<noteq> t \<Longrightarrow> phys (copy_entry f t s) x =
    (if present (phys s f) \<and> x = t then ro (phys s f)
     else if present (phys s f) \<and> ro (phys s f) > LOW_MEM \<and> x = f then ro (phys s f)
     else phys s x)"
  by (simp add: copy_entry_def Let_def)

lemma copy_entry_map:
  "HIGH_MEMORY (copy_entry f t s) = HIGH_MEMORY s"
  "length (mem_map (copy_entry f t s)) = length (mem_map s)"
  "p < length (mem_map s) \<Longrightarrow>
    refcount (copy_entry f t s) p = refcount s p + (if shares (phys s f) p then 1 else 0)"
  by (simp_all add: copy_entry_def Let_def shares_def nth_list_update)

lemma copy_entries_map:
  assumes "aligned f" "aligned t" "f \<noteq> t" "j + n \<le> 1024"
  shows "HIGH_MEMORY (copy_entries n (ent f j) (ent t j) s) = HIGH_MEMORY s
    \<and> length (mem_map (copy_entries n (ent f j) (ent t j) s)) = length (mem_map s)
    \<and> (\<forall>p < length (mem_map s). refcount (copy_entries n (ent f j) (ent t j) s) p
         = refcount s p + of_nat (share_count s f j n p))"
  using assms(4)
proof (induction n arbitrary: j s)
  case 0
  then show ?case by (simp add: share_count_def)
next
  case (Suc n)
  let ?s = "copy_entry (ent f j) (ent t j) s"
  have ne: "ent f i \<noteq> ent t j" if "i < 1024" for i
    using that assms frame_ent [of f i] frame_ent [of t j] Suc.prems by auto
  have "share_count ?s f (Suc j) n p = share_count s f (Suc j) n p" for p
    using ne [of j] Suc.prems ne by (intro share_count_cong) (auto simp: copy_entry_phys ent_inject)
  with Suc.IH [of "Suc j" ?s] Suc.prems show ?case
    by (simp add: copy_entries_Suc copy_entry_map share_count_Suc)
qed

lemma copy_entries_other:
  assumes "aligned f" "aligned t" "f \<noteq> t" "j + n \<le> 1024" "frame x \<noteq> t"
  shows "same_or_ro (phys s x) (phys (copy_entries n (ent f j) (ent t j) s) x)
    \<and> (frame x \<noteq> f \<longrightarrow> phys (copy_entries n (ent f j) (ent t j) s) x = phys s x)"
  using assms(4)
proof (induction n arbitrary: j s)
  case (Suc n)
  have "frame (ent f j) = f" "frame (ent t j) = t"
    using assms Suc.prems by (simp_all add: frame_ent)
  with assms have "ent f j \<noteq> ent t j" "x \<noteq> ent t j" "frame x \<noteq> f \<longrightarrow> x \<noteq> ent f j"
    by auto
  then have "same_or_ro (phys s x) (phys (copy_entry (ent f j) (ent t j) s) x)"
    "frame x \<noteq> f \<longrightarrow> phys (copy_entry (ent f j) (ent t j) s) x = phys s x"
    by (simp_all add: copy_entry_phys)
  with Suc.IH [of "Suc j" "copy_entry (ent f j) (ent t j) s"] Suc.prems show ?case
    unfolding copy_entries_Suc ent_Suc by (auto intro: same_or_ro_trans)
qed simp

lemma copy_entries_entry:
  assumes "aligned f" "aligned t" "f \<noteq> t" "j + n \<le> 1024" "i < 1024"
  shows "phys (copy_entries n (ent f j) (ent t j) s) (ent t i) =
      (if j \<le> i \<and> i < j + n \<and> present (phys s (ent f i)) then ro (phys s (ent f i))
       else phys s (ent t i))
    \<and> phys (copy_entries n (ent f j) (ent t j) s) (ent f i) =
      (if j \<le> i \<and> i < j + n \<and> present (phys s (ent f i)) \<and> ro (phys s (ent f i)) > LOW_MEM
       then ro (phys s (ent f i)) else phys s (ent f i))"
  using assms(4)
proof (induction n arbitrary: j s)
  case (Suc n)
  let ?s = "copy_entry (ent f j) (ent t j) s"
  have ne: "ent f k \<noteq> ent t l" if "k < 1024" "l < 1024" for k l
    using that assms frame_ent [of f k] frame_ent [of t l] by auto
  have f: "phys ?s (ent f i) = (if i = j \<and> present (phys s (ent f j)) \<and> ro (phys s (ent f j)) > LOW_MEM
      then ro (phys s (ent f j)) else phys s (ent f i))"
    using ne [of j j] ne [of i j] Suc.prems assms(5) by (simp add: copy_entry_phys ent_inject)
  have t: "phys ?s (ent t i) = (if i = j \<and> present (phys s (ent f j)) then ro (phys s (ent f j))
      else phys s (ent t i))"
    using ne [of j j] ne [of j i] Suc.prems assms(5) by (auto simp: copy_entry_phys ent_inject)
  show ?case
    using Suc.IH [of "Suc j" ?s] Suc.prems
    unfolding copy_entries_Suc ent_Suc f t
    by (cases "i = j"; cases "i < j") (auto simp: Suc_le_eq)
qed auto

section \<open>Copying an address space\<close>

text \<open>A page the allocator cannot hand out: below 1 MB, or with a reference.\<close>

definition page_in_use :: "mm \<Rightarrow> u32 \<Rightarrow> bool" where
  "page_in_use s a \<longleftrightarrow> (\<forall>q < PAGING_PAGES. a = page_addr q \<longrightarrow> refcount s q \<noteq> 0)"

definition dir_share_count :: "mm \<Rightarrow> u32 \<Rightarrow> nat \<Rightarrow> nat \<Rightarrow> nat" where
  "dir_share_count s d n p =
    sum_list (map (\<lambda>i. if present (phys s (ent d i))
                       then share_count s (frame (phys s (ent d i))) 0 1024 p else 0) [0..<n])"

text \<open>What \<open>fork\<close> relies on when it copies the tables of \<open>n\<close> directory entries from \<open>fd\<close> to \<open>td\<close>: the
  two ranges are inside the directory page and disjoint, the target range is empty, the source's
  tables are pages in use outside the directory, and no reference count overflows its byte (a free
  page may get one reference more, as a table of the copy).\<close>

definition fork_ready :: "u32 \<Rightarrow> u32 \<Rightarrow> nat \<Rightarrow> mm \<Rightarrow> bool" where
  "fork_ready fd td n s \<longleftrightarrow> wf_mm s
    \<and> (\<forall>i<n. frame (ent fd i) = 0 \<and> frame (ent td i) = 0)
    \<and> (\<forall>i<n. \<forall>j<n. ent fd i \<noteq> ent td j) \<and> (\<forall>i<n. \<forall>j<n. ent td i = ent td j \<longrightarrow> i = j)
    \<and> (\<forall>i<n. \<not> present (phys s (ent td i)))
    \<and> (\<forall>i<n. present (phys s (ent fd i)) \<longrightarrow>
         frame (phys s (ent fd i)) \<noteq> 0 \<and> page_in_use s (frame (phys s (ent fd i))))
    \<and> (\<forall>p < PAGING_PAGES. unat (refcount s p) + dir_share_count s fd n p
         + (if refcount s p = 0 then 1 else 0) < 256)"

text \<open>The table the child gets for one directory entry, relative to the parent's table before the
  call: the same pages, read-only; and the parent's own entries for pages above 1 MB are read-only
  too.\<close>

definition shared_copy :: "mm \<Rightarrow> u32 \<Rightarrow> mm \<Rightarrow> u32 \<Rightarrow> bool" where
  "shared_copy s e s' e' \<longleftrightarrow>
    (if \<not> present e then \<not> present e'
     else (\<exists>t. e' = t OR 7 \<and> aligned t \<and> t \<noteq> frame e \<and> t \<noteq> 0
       \<and> (\<forall>k < 1024. phys s' (ent t k)
            = (if present (phys s (ent (frame e) k)) then ro (phys s (ent (frame e) k)) else 0)))
       \<and> (\<forall>k < 1024. present (phys s (ent (frame e) k)) \<and> ro (phys s (ent (frame e) k)) > LOW_MEM \<longrightarrow>
            phys s' (ent (frame e) k) = ro (phys s (ent (frame e) k))))"

lemma dir_share_count_Suc:
  "dir_share_count s d (Suc n) p =
    (if present (phys s d) then share_count s (frame (phys s d)) 0 1024 p else 0)
      + dir_share_count s (d + 4) n p"
proof -
  have "[0..<Suc n] = 0 # map Suc [0..<n]"
    by (simp only: map_Suc_upt) (simp add: upt_conv_Cons del: upt_Suc)
  then have "dir_share_count s d (Suc n) p =
    (if present (phys s d) then share_count s (frame (phys s d)) 0 1024 p else 0)
      + sum_list (map (\<lambda>i. if present (phys s (ent d (Suc i)))
                       then share_count s (frame (phys s (ent d (Suc i)))) 0 1024 p else 0) [0..<n])"
    by (simp only: dir_share_count_def map_map comp_def list.map sum_list.Cons ent_0)
  moreover have "ent (d + 4) i = ent d (Suc i)" for i
    by (simp add: ent_def algebra_simps)
  ultimately show ?thesis
    by (simp only: dir_share_count_def)
qed

text \<open>One round of the loop over directory entries, when the source entry is present.\<close>

lemma copy_dir_round:
  assumes s: "wf_mm s" and f: "aligned f" "f \<noteq> 0" "page_in_use s f" and td: "frame td = 0"
    and alloc: "get_free_page s = (t, s1)" "t \<noteq> 0"
    and cnt: "\<forall>p < PAGING_PAGES. unat (refcount s p) + share_count s f 0 1024 p
      + (if refcount s p = 0 then 1 else 0) < 256"
  defines "s' \<equiv> copy_entries 1024 f t (store td (t OR 7) s1)"
  obtains i where "i < PAGING_PAGES" "t = page_addr i" "refcount s i = 0" "aligned t" "t \<noteq> f"
    and "wf_mm s'" "phys s' td = t OR 7"
    and "\<forall>p < PAGING_PAGES. unat (refcount s' p)
          = unat (refcount s p) + share_count s f 0 1024 p + (if p = i then 1 else 0)"
    and "\<forall>k < 1024. phys s' (ent t k)
          = (if present (phys s (ent f k)) then ro (phys s (ent f k)) else 0)"
    and "\<forall>k < 1024. present (phys s (ent f k)) \<and> ro (phys s (ent f k)) > LOW_MEM \<longrightarrow>
          phys s' (ent f k) = ro (phys s (ent f k))"
    and "\<forall>x. frame x \<noteq> t \<and> x \<noteq> td \<longrightarrow> same_or_ro (phys s x) (phys s' x)"
    and "\<forall>x. frame x \<noteq> t \<and> frame x \<noteq> f \<and> x \<noteq> td \<longrightarrow> phys s' x = phys s x"
  using alloc(1)
proof (cases rule: get_free_page_cases)
  case (page i)
  have t: "t = page_addr i" "aligned t" "t \<noteq> 0"
    using page page_addr_props [of i] by simp_all
  have tf: "f \<noteq> t"
    using f(3) page by (auto simp: page_in_use_def)
  let ?s2 = "store td (t OR 7) s1"
  have p2: "phys ?s2 x = (if x = td then t OR 7 else if frame x = t then 0 else phys s x)" for x
    using page by simp
  have entf: "phys ?s2 (ent f k) = phys s (ent f k)" if "k < 1024" for k
    unfolding p2 using that f(1,2) td tf by (auto simp: frame_ent)
  have entt: "phys ?s2 (ent t k) = 0" if "k < 1024" for k
    unfolding p2 using that t td by (auto simp: frame_ent)
  have sc: "share_count ?s2 f 0 1024 p = share_count s f 0 1024 p" for p
    by (intro share_count_cong) (simp only: entf)
  note ce = copy_entries_map [of f t 0 1024 ?s2, OF f(1) t(2) tf, simplified ent_0 add_0 sc]
    and co = copy_entries_other [of f t 0 1024 _ ?s2, OF f(1) t(2) tf, simplified ent_0 add_0]
    and cn = copy_entries_entry [of f t 0 1024 _ ?s2, OF f(1) t(2) tf, simplified ent_0 add_0]
  show thesis
  proof (rule that [of i])
    show "wf_mm s'"
      using ce s page by (simp add: s'_def wf_mm_def)
    show "phys s' td = t OR 7"
      using co [of td] td f(2) t unfolding s'_def p2 by auto
    show "\<forall>p < PAGING_PAGES. unat (refcount s' p)
          = unat (refcount s p) + share_count s f 0 1024 p + (if p = i then 1 else 0)"
    proof (intro allI impI)
      fix p assume p: "p < PAGING_PAGES"
      have "refcount s' p = refcount s1 p + of_nat (share_count s f 0 1024 p)"
        using ce s page p by (simp add: s'_def wf_mm_def)
      moreover have "unat (refcount s1 p) = unat (refcount s p) + (if p = i then 1 else 0)"
        using page s p by (simp add: wf_mm_def nth_list_update)
      ultimately show "unat (refcount s' p)
          = unat (refcount s p) + share_count s f 0 1024 p + (if p = i then 1 else 0)"
        using cnt [rule_format, OF p] page(3)
        by (cases "p = i") (simp_all add: unat_add_of_nat8)
    qed
    show "\<forall>k < 1024. phys s' (ent t k)
          = (if present (phys s (ent f k)) then ro (phys s (ent f k)) else 0)"
      using cn entf entt by (simp add: s'_def)
    show "\<forall>k < 1024. present (phys s (ent f k)) \<and> ro (phys s (ent f k)) > LOW_MEM \<longrightarrow>
          phys s' (ent f k) = ro (phys s (ent f k))"
      using cn entf by (simp add: s'_def)
    show "\<forall>x. frame x \<noteq> t \<and> x \<noteq> td \<longrightarrow> same_or_ro (phys s x) (phys s' x)"
    proof (intro allI impI)
      fix x assume "frame x \<noteq> t \<and> x \<noteq> td"
      then show "same_or_ro (phys s x) (phys s' x)"
        using co [of x] unfolding s'_def p2 by simp
    qed
    show "\<forall>x. frame x \<noteq> t \<and> frame x \<noteq> f \<and> x \<noteq> td \<longrightarrow> phys s' x = phys s x"
      using co unfolding s'_def p2 by auto
  qed (use page t tf in auto)
qed (use alloc in auto)


definition source_table :: "mm \<Rightarrow> u32 \<Rightarrow> nat \<Rightarrow> u32 \<Rightarrow> bool" where
  "source_table s fd n a \<longleftrightarrow> (\<exists>i<n. present (phys s (ent fd i)) \<and> frame (phys s (ent fd i)) = a)"

text \<open>What the directory loop leaves alone: pages in use keep their contents, source tables up to
  write protection, and only the target directory entries change in the directory.\<close>

definition fork_frame :: "u32 \<Rightarrow> u32 \<Rightarrow> nat \<Rightarrow> mm \<Rightarrow> mm \<Rightarrow> bool" where
  "fork_frame fd td n s s' \<longleftrightarrow>
    (\<forall>x. page_in_use s (frame x) \<and> (\<forall>i<n. x \<noteq> ent td i) \<longrightarrow>
       same_or_ro (phys s x) (phys s' x)
       \<and> (\<not> source_table s fd n (frame x) \<longrightarrow> phys s' x = phys s x))"

lemma page_in_use_0 [simp]: "page_in_use s 0"
  using page_addr_props(1) by (auto simp: page_in_use_def)

lemma ent_add [simp]: "ent (d + 4) i = ent d (Suc i)"
  by (simp add: ent_def algebra_simps)

lemma present_ro_cong: "ro e = ro e' \<Longrightarrow> present e = present e'"
  by (metis ro_simps(2))

lemma fork_ready_SucD:
  assumes "fork_ready fd td (Suc n) s"
  shows "wf_mm s" "frame fd = 0" "frame td = 0" "fd \<noteq> td" "\<not> present (phys s td)"
    and "\<forall>i<n. frame (ent fd (Suc i)) = 0 \<and> frame (ent td (Suc i)) = 0
      \<and> ent fd (Suc i) \<noteq> td \<and> ent td (Suc i) \<noteq> td"
    and "present (phys s fd) \<Longrightarrow> frame (phys s fd) \<noteq> 0 \<and> page_in_use s (frame (phys s fd))"
proof -
  show "wf_mm s" "frame fd = 0" "frame td = 0" "fd \<noteq> td" "\<not> present (phys s td)"
    and "present (phys s fd) \<Longrightarrow> frame (phys s fd) \<noteq> 0 \<and> page_in_use s (frame (phys s fd))"
    using assms unfolding fork_ready_def by (metis ent_0 zero_less_Suc)+
  show "\<forall>i<n. frame (ent fd (Suc i)) = 0 \<and> frame (ent td (Suc i)) = 0
      \<and> ent fd (Suc i) \<noteq> td \<and> ent td (Suc i) \<noteq> td"
    using assms unfolding fork_ready_def by (metis ent_0 zero_less_Suc Suc_less_eq nat.distinct(1))
qed

lemma fork_ready_mono:
  assumes "fork_ready fd td (Suc n) s" "wf_mm s'"
    and "\<forall>i<n. phys s' (ent fd (Suc i)) = phys s (ent fd (Suc i))
      \<and> phys s' (ent td (Suc i)) = phys s (ent td (Suc i))"
    and "\<forall>p. refcount s p \<noteq> 0 \<and> p < PAGING_PAGES \<longrightarrow> refcount s' p \<noteq> 0"
    and "\<forall>p < PAGING_PAGES. unat (refcount s' p) + dir_share_count s' (fd + 4) n p
         + (if refcount s' p = 0 then 1 else 0) < 256"
  shows "fork_ready (fd + 4) (td + 4) n s'"
proof -
  have "page_in_use s a \<Longrightarrow> page_in_use s' a" for a
    using assms(4) by (simp add: page_in_use_def)
  note use = this
  have src: "present (phys s (ent fd (Suc i))) \<Longrightarrow> frame (phys s (ent fd (Suc i))) \<noteq> 0
      \<and> page_in_use s (frame (phys s (ent fd (Suc i))))" "\<not> present (phys s (ent td (Suc i)))"
    "frame (ent fd (Suc i)) = 0 \<and> frame (ent td (Suc i)) = 0" if "i < n" for i
    using that assms(1) by (simp_all add: fork_ready_def)
  have dis: "\<forall>i<n. \<forall>j<n. ent fd (Suc i) \<noteq> ent td (Suc j)"
    "\<forall>i<n. \<forall>j<n. ent td (Suc i) = ent td (Suc j) \<longrightarrow> i = j"
    using assms(1) unfolding fork_ready_def by blast+
  show ?thesis
    unfolding fork_ready_def ent_add using assms(2,3,5) src use dis by simp
qed

text \<open>The round in the form the induction over the directory uses.\<close>

lemma fork_round:
  assumes r: "fork_ready fd td (Suc n) s" and p: "present (phys s fd)"
    and alloc: "get_free_page s = (t, s1)" "t \<noteq> 0"
  defines "s' \<equiv> copy_entries 1024 (frame (phys s fd)) t (store td (t OR 7) s1)"
  shows "fork_ready (fd + 4) (td + 4) n s'"
    and "shared_copy s (phys s fd) s' (phys s' td)"
    and "\<forall>x. page_in_use s (frame x) \<and> x \<noteq> td \<longrightarrow> same_or_ro (phys s x) (phys s' x)
      \<and> (frame x \<noteq> frame (phys s fd) \<longrightarrow> phys s' x = phys s x)"
    and "\<forall>q. page_in_use s q \<longrightarrow> page_in_use s' q \<and> q \<noteq> t"
    and "page_in_use s' t" "aligned t" "t \<noteq> 0" "phys s' td = t OR 7"
    and "\<forall>p < PAGING_PAGES. refcount s p \<noteq> 0 \<longrightarrow>
      unat (refcount s' p) = unat (refcount s p) + share_count s (frame (phys s fd)) 0 1024 p"
    and "\<forall>i<n. phys s' (ent fd (Suc i)) = phys s (ent fd (Suc i))"
    and "\<forall>q. dir_share_count s' (fd + 4) n q = dir_share_count s (fd + 4) n q"
proof -
  let ?f = "frame (phys s fd)"
  note d = fork_ready_SucD [OF r]
  have f: "aligned ?f" "?f \<noteq> 0" "page_in_use s ?f"
    using d(7) p by simp_all
  have cnt: "unat (refcount s q) + (share_count s ?f 0 1024 q + dir_share_count s (fd + 4) n q)
      + (if refcount s q = 0 then 1 else 0) < 256" if "q < PAGING_PAGES" for q
    using r that p by (auto simp: fork_ready_def dir_share_count_Suc)
  have cnt0: "\<forall>q < PAGING_PAGES. unat (refcount s q) + share_count s ?f 0 1024 q
      + (if refcount s q = 0 then 1 else 0) < 256"
    using cnt by fastforce
  obtain i where i: "i < PAGING_PAGES" "t = page_addr i" "refcount s i = 0" "aligned t" "t \<noteq> ?f"
    and s': "wf_mm s'" "phys s' td = t OR 7"
      "\<forall>p < PAGING_PAGES. unat (refcount s' p)
          = unat (refcount s p) + share_count s ?f 0 1024 p + (if p = i then 1 else 0)"
      "\<forall>k < 1024. phys s' (ent t k)
          = (if present (phys s (ent ?f k)) then ro (phys s (ent ?f k)) else 0)"
      "\<forall>k < 1024. present (phys s (ent ?f k)) \<and> ro (phys s (ent ?f k)) > LOW_MEM \<longrightarrow>
          phys s' (ent ?f k) = ro (phys s (ent ?f k))"
      "\<forall>x. frame x \<noteq> t \<and> x \<noteq> td \<longrightarrow> same_or_ro (phys s x) (phys s' x)"
      "\<forall>x. frame x \<noteq> t \<and> frame x \<noteq> ?f \<and> x \<noteq> td \<longrightarrow> phys s' x = phys s x"
    unfolding s'_def by (rule copy_dir_round [OF d(1) f d(3) alloc cnt0])
  have nt: "q \<noteq> t" if "page_in_use s q" for q
    using that i by (auto simp: page_in_use_def)
  show fr: "\<forall>x. page_in_use s (frame x) \<and> x \<noteq> td \<longrightarrow> same_or_ro (phys s x) (phys s' x)
      \<and> (frame x \<noteq> ?f \<longrightarrow> phys s' x = phys s x)"
    using s'(6,7) nt by simp
  have pos: "refcount s' q \<noteq> 0" if "refcount s q \<noteq> 0 \<or> q = i" "q < PAGING_PAGES" for q
  proof -
    have "0 < unat (refcount s' q)"
      using s'(3) that by (auto simp: unat_gt_0)
    then show ?thesis by (simp add: unat_gt_0)
  qed
  show "\<forall>q. page_in_use s q \<longrightarrow> page_in_use s' q \<and> q \<noteq> t"
    using pos nt by (auto simp: page_in_use_def)
  show "page_in_use s' t"
    using i pos page_addr_inject by (auto simp: page_in_use_def)
  show "aligned t" "t \<noteq> 0" "phys s' td = t OR 7"
    using i s' alloc by simp_all
  show "\<forall>p < PAGING_PAGES. refcount s p \<noteq> 0 \<longrightarrow>
      unat (refcount s' p) = unat (refcount s p) + share_count s ?f 0 1024 p"
    using s'(3) i(3) by auto
  show "shared_copy s (phys s fd) s' (phys s' td)"
    unfolding shared_copy_def s'(2) using p i s'(4,5) alloc by auto
  have dir: "phys s' (ent fd (Suc j)) = phys s (ent fd (Suc j))
      \<and> phys s' (ent td (Suc j)) = phys s (ent td (Suc j))" if "j < n" for j
    using fr d(6) that f(2) by simp
  have dsc: "dir_share_count s' (fd + 4) n q = dir_share_count s (fd + 4) n q" for q
  proof -
    have "share_count s' (frame (phys s (ent fd (Suc j)))) 0 1024 q
        = share_count s (frame (phys s (ent fd (Suc j)))) 0 1024 q"
      if "j < n" "present (phys s (ent fd (Suc j)))" for j
    proof (intro share_count_cong)
      fix k :: nat assume "0 \<le> k" "k < 0 + 1024"
      moreover have "frame (phys s (ent fd (Suc j))) \<noteq> 0"
        "page_in_use s (frame (phys s (ent fd (Suc j))))"
        using r that by (simp_all add: fork_ready_def)
      ultimately show "ro (phys s' (ent (frame (phys s (ent fd (Suc j)))) k))
          = ro (phys s (ent (frame (phys s (ent fd (Suc j)))) k))"
        using fr [rule_format, of "ent (frame (phys s (ent fd (Suc j)))) k"] d(3)
          frame_ent [of "frame (phys s (ent fd (Suc j)))" k]
        by (metis add_0 aligned_frame same_or_ro_ro)
    qed
    with dir show ?thesis
      unfolding dir_share_count_def ent_add by (intro arg_cong [of _ _ sum_list] map_cong) auto
  qed
  show "\<forall>q. dir_share_count s' (fd + 4) n q = dir_share_count s (fd + 4) n q"
    by (simp add: dsc)
  show "\<forall>i<n. phys s' (ent fd (Suc i)) = phys s (ent fd (Suc i))"
    using dir by simp
  show "fork_ready (fd + 4) (td + 4) n s'"
  proof (rule fork_ready_mono [OF r s'(1)])
    show "\<forall>p<PAGING_PAGES. unat (refcount s' p) + dir_share_count s' (fd + 4) n p
        + (if refcount s' p = 0 then 1 else 0) < 256"
    proof (intro allI impI)
      fix q assume q: "q < PAGING_PAGES"
      have "refcount s' q = 0 \<longrightarrow> refcount s q = 0 \<and> q \<noteq> i"
        using pos q by blast
      then show "unat (refcount s' q) + dir_share_count s' (fd + 4) n q
          + (if refcount s' q = 0 then 1 else 0) < 256"
        using cnt [OF q] s'(3) q i(3) unfolding dsc by auto
    qed
  qed (use dir pos in auto)
qed

lemma shared_copy_source:
  assumes "shared_copy s1 e s' e'"
    and "present e \<Longrightarrow> \<forall>k < 1024. same_or_ro (phys s (ent (frame e) k)) (phys s1 (ent (frame e) k))"
  shows "shared_copy s e s' e'"
proof (cases "present e")
  case True
  then have "\<forall>k < 1024. ro (phys s1 (ent (frame e) k)) = ro (phys s (ent (frame e) k))
      \<and> present (phys s1 (ent (frame e) k)) = present (phys s (ent (frame e) k))"
    using assms(2) same_or_ro_ro same_or_ro_present by blast
  with assms(1) True show ?thesis
    unfolding shared_copy_def by (auto cong: conj_cong)
qed (use assms in \<open>simp add: shared_copy_def\<close>)

lemma shared_copy_later:
  assumes "shared_copy s e s1 e'"
    and "present e \<Longrightarrow> \<forall>k < 1024. same_or_ro (phys s1 (ent (frame e) k)) (phys s' (ent (frame e) k))
      \<and> phys s' (ent (frame e') k) = phys s1 (ent (frame e') k)"
  shows "shared_copy s e s' e'"
proof (cases "present e")
  case True
  with assms(1) obtain t where t: "e' = t OR 7" "aligned t" "t \<noteq> frame e" "t \<noteq> 0"
      "\<forall>k < 1024. phys s1 (ent t k)
         = (if present (phys s (ent (frame e) k)) then ro (phys s (ent (frame e) k)) else 0)"
      "\<forall>k < 1024. present (phys s (ent (frame e) k)) \<and> ro (phys s (ent (frame e) k)) > LOW_MEM \<longrightarrow>
            phys s1 (ent (frame e) k) = ro (phys s (ent (frame e) k))"
    by (auto simp: shared_copy_def)
  have "frame e' = t"
    using t(1,2) by (simp add: aligned_def)
  then have "\<forall>k < 1024. phys s' (ent t k) = phys s1 (ent t k)"
    "\<forall>k < 1024. same_or_ro (phys s1 (ent (frame e) k)) (phys s' (ent (frame e) k))"
    using assms(2) True by simp_all
  moreover from this(2) have "\<forall>k < 1024. present (phys s (ent (frame e) k)) \<and> ro (phys s (ent (frame e) k)) > LOW_MEM \<longrightarrow>
            phys s' (ent (frame e) k) = ro (phys s (ent (frame e) k))"
    using t(6) by (metis same_or_ro_simps(3))
  ultimately show ?thesis
    using True t by (auto simp: shared_copy_def)
qed (use assms in \<open>simp add: shared_copy_def\<close>)

text \<open>The whole result of the directory loop.\<close>

definition fork_done :: "u32 \<Rightarrow> u32 \<Rightarrow> nat \<Rightarrow> mm \<Rightarrow> mm \<Rightarrow> bool" where
  "fork_done fd td n s s' \<longleftrightarrow>
    (\<forall>i<n. shared_copy s (phys s (ent fd i)) s' (phys s' (ent td i)))
    \<and> (\<forall>p < PAGING_PAGES. refcount s p \<noteq> 0 \<longrightarrow>
         unat (refcount s' p) = unat (refcount s p) + dir_share_count s fd n p)"

lemma all_less_Suc: "(\<forall>i<Suc n. P i) \<longleftrightarrow> P 0 \<and> (\<forall>i<n. P (Suc i))"
  by (metis less_Suc_eq_0_disj)

lemma fork_frame_skip:
  assumes "fork_frame (fd + 4) (td + 4) n s s'"
  shows "fork_frame fd td (Suc n) s s'"
proof -
  have "source_table s (fd + 4) n a \<Longrightarrow> source_table s fd (Suc n) a" for a
    unfolding source_table_def ent_add by (metis Suc_less_eq)
  then show ?thesis
    using assms unfolding fork_frame_def ent_add all_less_Suc by blast
qed

lemma fork_frame_step:
  assumes fr: "fork_frame (fd + 4) (td + 4) n s1 s'"
    and p: "present (phys s fd)"
    and d: "\<forall>i<n. phys s1 (ent fd (Suc i)) = phys s (ent fd (Suc i))"
    and s1: "\<forall>x. page_in_use s (frame x) \<and> x \<noteq> td \<longrightarrow> same_or_ro (phys s x) (phys s1 x)
      \<and> (frame x \<noteq> frame (phys s fd) \<longrightarrow> phys s1 x = phys s x)"
    and u: "\<forall>q. page_in_use s q \<longrightarrow> page_in_use s1 q \<and> q \<noteq> t"
  shows "fork_frame fd td (Suc n) s s'"
  unfolding fork_frame_def all_less_Suc ent_0
proof (intro allI impI)
  fix x assume x: "page_in_use s (frame x) \<and> x \<noteq> td \<and> (\<forall>i<n. x \<noteq> ent td (Suc i))"
  then have 1: "same_or_ro (phys s x) (phys s1 x)"
    "frame x \<noteq> frame (phys s fd) \<longrightarrow> phys s1 x = phys s x"
    using s1 by simp_all
  have "page_in_use s1 (frame x) \<and> (\<forall>i<n. x \<noteq> ent (td + 4) i)"
    using x u by simp
  with fr have 2: "same_or_ro (phys s1 x) (phys s' x)"
    "\<not> source_table s1 (fd + 4) n (frame x) \<longrightarrow> phys s' x = phys s1 x"
    unfolding fork_frame_def by blast+
  have "source_table s1 (fd + 4) n (frame x) \<Longrightarrow> source_table s fd (Suc n) (frame x)"
    using d unfolding source_table_def ent_add by (metis Suc_less_eq)
  moreover have "frame x = frame (phys s fd) \<Longrightarrow> source_table s fd (Suc n) (frame x)"
    unfolding source_table_def using p ent_0 by (metis zero_less_Suc)
  ultimately show "same_or_ro (phys s x) (phys s' x)
      \<and> (\<not> source_table s fd (Suc n) (frame x) \<longrightarrow> phys s' x = phys s x)"
    using 1 2 same_or_ro_trans by metis
qed

lemma fork_round_done:
  assumes r: "fork_ready fd td (Suc n) s" and p: "present (phys s fd)"
    and alloc: "get_free_page s = (t, s1)" "t \<noteq> 0"
  defines "s2 \<equiv> copy_entries 1024 (frame (phys s fd)) t (store td (t OR 7) s1)"
  assumes fr: "fork_frame (fd + 4) (td + 4) n s2 s'"
    and dn: "fork_done (fd + 4) (td + 4) n s2 s'"
  shows "fork_done fd td (Suc n) s s'"
proof -
  note rd = fork_round [OF r p alloc, folded s2_def]
  note d = fork_ready_SucD [OF r]
  have src: "page_in_use s a \<and> a \<noteq> 0" if "source_table s2 (fd + 4) n a" for a
    using that rd(10) r by (auto simp: source_table_def fork_ready_def)
  have td: "phys s' td = t OR 7"
  proof -
    have "\<not> source_table s2 (fd + 4) n 0" "\<forall>i<n. td \<noteq> ent td (Suc i)"
      using src d(6) by metis+
    then show ?thesis
      using fr d(3) rd(8) unfolding fork_frame_def ent_add by (metis page_in_use_0)
  qed
  have keep: "same_or_ro (phys s2 x) (phys s' x)
      \<and> (\<not> source_table s2 (fd + 4) n (frame x) \<longrightarrow> phys s' x = phys s2 x)"
    if "page_in_use s2 (frame x)" "frame x \<noteq> 0" for x
  proof -
    have "\<forall>i<n. x \<noteq> ent td (Suc i)"
      using that(2) d(6) by metis
    then show ?thesis
      using fr that(1) unfolding fork_frame_def ent_add by blast
  qed
  have "shared_copy s (phys s fd) s' (t OR 7)"
  proof (rule shared_copy_later)
    show "shared_copy s (phys s fd) s2 (t OR 7)"
      using rd(2,8) by simp
    have "\<not> source_table s2 (fd + 4) n t"
      using src rd(4) by blast
    then show "\<forall>k < 1024. same_or_ro (phys s2 (ent (frame (phys s fd)) k)) (phys s' (ent (frame (phys s fd)) k))
      \<and> phys s' (ent (frame (t OR 7)) k) = phys s2 (ent (frame (t OR 7)) k)"
      using keep rd(4,5,6,7) d(7) p by (simp add: frame_ent aligned_def [symmetric] aligned_def [of t, THEN iffD1])
  qed
  moreover have "shared_copy s (phys s (ent fd (Suc i))) s' (phys s' (ent td (Suc i)))" if i: "i < n" for i
  proof (rule shared_copy_source)
    show "shared_copy s2 (phys s (ent fd (Suc i))) s' (phys s' (ent td (Suc i)))"
      using dn i rd(10) unfolding fork_done_def ent_add by metis
    let ?g = "frame (phys s (ent fd (Suc i)))"
    assume "present (phys s (ent fd (Suc i)))"
    then have g: "?g \<noteq> 0" "page_in_use s ?g"
      using r i by (simp_all add: fork_ready_def)
    show "\<forall>k < 1024. same_or_ro (phys s (ent ?g k)) (phys s2 (ent ?g k))"
    proof (intro allI impI)
      fix k :: nat assume "k < 1024"
      then have "frame (ent ?g k) = ?g"
        by (simp add: frame_ent)
      with rd(3) g d(3) show "same_or_ro (phys s (ent ?g k)) (phys s2 (ent ?g k))"
        by metis
    qed
  qed
  moreover have "unat (refcount s' q) = unat (refcount s q) + dir_share_count s fd (Suc n) q"
    if q: "q < PAGING_PAGES" "refcount s q \<noteq> 0" for q
  proof -
    have u: "unat (refcount s2 q) = unat (refcount s q) + share_count s (frame (phys s fd)) 0 1024 q"
      using rd(9) q by blast
    moreover have "refcount s2 q \<noteq> 0"
      using u q by (metis add_is_0 unat_eq_zero)
    ultimately show ?thesis
      using dn q p rd(11) by (simp add: fork_done_def dir_share_count_Suc)
  qed
  ultimately show ?thesis
    unfolding fork_done_def all_less_Suc ent_0 td by blast
qed

lemma copy_dirs_correct:
  assumes "from \<noteq> 0" "fork_ready fd td n s"
  shows "\<exists>r s'. copy_dirs from n fd td s = Ret (r, s') \<and> (r = 0 \<or> r = - 1)
    \<and> fork_frame fd td n s s' \<and> (r = 0 \<longrightarrow> fork_done fd td n s s')"
  using assms(2)
proof (induction n arbitrary: fd td s)
  case 0
  then show ?case
    by (simp add: fork_frame_def fork_done_def dir_share_count_def)
next
  case (Suc n)
  note d = fork_ready_SucD [OF Suc.prems]
  show ?case
  proof (cases "present (phys s fd)")
    case False
    have "dir_share_count s fd (Suc n) q = dir_share_count s (fd + 4) n q" for q
      using False by (simp add: dir_share_count_Suc)
    moreover have "\<forall>p < PAGING_PAGES. unat (refcount s p) + dir_share_count s fd (Suc n) p
        + (if refcount s p = 0 then 1 else 0) < 256"
      using Suc.prems unfolding fork_ready_def by blast
    ultimately have "fork_ready (fd + 4) (td + 4) n s"
      using d(1) by (intro fork_ready_mono [OF Suc.prems]) simp_all
    from Suc.IH [OF this] obtain r s' where r: "copy_dirs from n (fd + 4) (td + 4) s = Ret (r, s')"
      "r = 0 \<or> r = - 1" "fork_frame (fd + 4) (td + 4) n s s'"
      "r = 0 \<longrightarrow> fork_done (fd + 4) (td + 4) n s s'" by blast
    have fr: "fork_frame fd td (Suc n) s s'"
      by (rule fork_frame_skip [OF r(3)])
    have "phys s' td = phys s td"
    proof -
      have "\<not> source_table s (fd + 4) n 0"
        using Suc.prems by (auto simp: source_table_def fork_ready_def)
      moreover have "\<forall>i<n. td \<noteq> ent td (Suc i)"
        using d(6) by metis
      ultimately show ?thesis
        using r(3) d(3) unfolding fork_frame_def ent_add by (metis page_in_use_0)
    qed
    then have "shared_copy s (phys s fd) s' (phys s' td)"
      using False d(5) by (simp add: shared_copy_def)
    then have "r = 0 \<longrightarrow> fork_done fd td (Suc n) s s'"
      using r(4) False unfolding fork_done_def all_less_Suc dir_share_count_Suc ent_0 ent_add by simp
    with r fr False d(5) show ?thesis by simp
  next
    case True
    obtain t s1 where alloc: "get_free_page s = (t, s1)"
      by fastforce
    show ?thesis
    proof (cases "t = 0")
      case True
      with alloc have "s1 = s"
        by (cases rule: get_free_page_cases) (use page_addr_props(1) in auto)
      with True alloc \<open>present (phys s fd)\<close> d(5) show ?thesis
        by (simp add: fork_frame_def)
    next
      case False
      define s2 where "s2 = copy_entries 1024 (frame (phys s fd)) t (store td (t OR 7) s1)"
      note rd = fork_round [OF Suc.prems \<open>present (phys s fd)\<close> alloc False, folded s2_def]
      from Suc.IH [OF rd(1)] obtain r s' where r: "copy_dirs from n (fd + 4) (td + 4) s2 = Ret (r, s')"
        "r = 0 \<or> r = - 1" "fork_frame (fd + 4) (td + 4) n s2 s'"
        "r = 0 \<longrightarrow> fork_done (fd + 4) (td + 4) n s2 s'" by blast
      have eq: "copy_dirs from (Suc n) fd td s = Ret (r, s')"
        using r(1) alloc False True d(5) assms(1) by (simp add: s2_def Let_def)
      have fr: "fork_frame fd td (Suc n) s s'"
        by (rule fork_frame_step [OF r(3) True rd(10,3,4)])
      have "fork_done fd td (Suc n) s s'" if "r = 0"
        using fork_round_done [OF Suc.prems \<open>present (phys s fd)\<close> alloc False, folded s2_def, OF r(3)]
          that r(4) by blast
      with eq r(2) fr show ?thesis by blast
    qed
  qed
qed

text \<open>C1: copying an address space, as \<open>fork\<close> does, returns 0 or runs out of pages and returns -1;
  when it returns 0, the child maps exactly the parent's pages, read-only in both processes above
  1 MB, each page's reference count has gone up by the number of entries that map it, and in
  either case nothing else changes in the pages that were in use.\<close>

theorem copy_page_tables_shares:
  assumes "from AND 0x3fffff = 0" "to AND 0x3fffff = 0" "from \<noteq> 0"
    and "n = unat (drop_bit 22 (sz + 0x3fffff))" "fork_ready (dir_addr from) (dir_addr to) n s"
  shows "\<exists>r s'. copy_page_tables from to sz s = Ret (r, s') \<and> (r = 0 \<or> r = - 1)
    \<and> fork_frame (dir_addr from) (dir_addr to) n s s'
    \<and> (r = 0 \<longrightarrow> fork_done (dir_addr from) (dir_addr to) n s s')"
  using copy_dirs_correct [OF assms(3,5)] assms(1,2,4) by (simp add: copy_page_tables_def)

definition fork_example :: mm where
  "fork_example = \<lparr>phys = (\<lambda>x. if x = 64 then 0xfff007 else if x = 0xfff000 then 0xffe007 else 0),
     mem_map = (replicate PAGING_PAGES 0)[3839 := 1, 3838 := 1], HIGH_MEMORY = 0x1000000\<rparr>"

lemma share_count_le_1:
  assumes "\<And>i. 0 < i \<Longrightarrow> i < 1024 \<Longrightarrow> \<not> present (phys s (ent t i))"
  shows "share_count s t 0 1024 p \<le> 1"
proof -
  have "share_count s t (Suc 0) 1023 p = 0"
    using assms by (auto simp: share_count_def shares_def)
  then show ?thesis
    using share_count_Suc [of s t 0 1023 p] by simp
qed

lemma fork_example_ready: "fork_ready (dir_addr 0x4000000) (dir_addr 0x8000000) 1 fork_example"
proof -
  have a: "dir_addr 0x4000000 = 64" "dir_addr 0x8000000 = 128" "frame 64 = 0" "frame 128 = 0"
    "frame 0xfff007 = 0xfff000" "present 0xfff007" "\<not> present 0" "aligned 0xfff000" "(0xfff000 :: u32) \<noteq> 0"
    by (simp_all add: dir_addr_def frame_def present_def aligned_def drop_bit_eq_div)
  have p: "page_addr 3839 = 0xfff000"
    by (simp add: page_addr_of_nat)
  have l: "length (mem_map fork_example) = PAGING_PAGES"
    by (simp add: fork_example_def)
  have use: "page_in_use fork_example 0xfff000"
    unfolding page_in_use_def
  proof (intro allI impI)
    fix q assume "q < PAGING_PAGES" "0xfff000 = page_addr q"
    then have "q = 3839"
      using page_addr_inject [of q 3839] p by (simp add: PAGING_PAGES_def)
    then show "refcount fork_example q \<noteq> 0"
      by (simp add: fork_example_def nth_list_update PAGING_PAGES_def)
  qed
  have "share_count fork_example 0xfff000 0 1024 q \<le> 1" for q
  proof (rule share_count_le_1)
    fix i :: nat assume i: "0 < i" "i < 1024"
    then have "ent 0xfff000 i \<noteq> 0xfff000" "frame (ent 0xfff000 i) = 0xfff000"
      using ent_inject [of i 0 "0xfff000"] a(8) by (simp_all add: frame_ent)
    moreover from this have "ent 0xfff000 i \<noteq> 64"
      using a(3,9) by metis
    ultimately show "\<not> present (phys fork_example (ent 0xfff000 i))"
      using a(7) by (simp add: fork_example_def)
  qed
  then have dsc: "dir_share_count fork_example 64 1 q \<le> 1" for q
    using a by (simp add: dir_share_count_def fork_example_def [THEN arg_cong [of _ _ phys]])
  have cnt: "unat (refcount fork_example q) \<le> 1" if "q < PAGING_PAGES" for q
  proof -
    have "3838 < PAGING_PAGES" "3839 < PAGING_PAGES"
      by (simp_all add: PAGING_PAGES_def)
    with that show ?thesis by (simp add: fork_example_def nth_list_update)
  qed
  have b: "unat (refcount fork_example q) + dir_share_count fork_example 64 1 q
      + (if refcount fork_example q = 0 then 1 else 0) < 256" if "q < PAGING_PAGES" for q
    using dsc [of q] cnt [OF that] by (auto split: if_split)
  from use b l show ?thesis
    unfolding fork_ready_def a by (simp add: a wf_mm_def fork_example_def)
qed

lemma copy_page_tables_shares_witness:
  "\<exists>r s'. copy_page_tables 0x4000000 0x8000000 0x1000 fork_example = Ret (r, s') \<and> (r = 0 \<or> r = - 1)
    \<and> fork_frame (dir_addr 0x4000000) (dir_addr 0x8000000) 1 fork_example s'
    \<and> (r = 0 \<longrightarrow> fork_done (dir_addr 0x4000000) (dir_addr 0x8000000) 1 fork_example s')"
  by (rule copy_page_tables_shares [OF _ _ _ _ fork_example_ready]) (simp_all add: drop_bit_eq_div)

section \<open>Copy on write\<close>

text \<open>A table entry a write fault can be about: its table is a page in use (or below 1 MB), and so is
  the page it maps, which is not the table itself.\<close>

definition mapped_entry :: "u32 \<Rightarrow> mm \<Rightarrow> bool" where
  "mapped_entry te s \<longleftrightarrow> wf_mm s \<and> page_in_use s (frame te) \<and> frame te \<noteq> frame (phys s te)
    \<and> (frame (phys s te) < LOW_MEM
       \<or> (\<exists>q < PAGING_PAGES. frame (phys s te) = page_addr q \<and> refcount s q \<noteq> 0))"

definition writable :: "u32 \<Rightarrow> bool" where
  "writable e \<longleftrightarrow> bit e 1"

text \<open>The word a process sees at offset \<open>k\<close> of the page an entry maps.\<close>

definition seen :: "u32 \<Rightarrow> mm \<Rightarrow> u32 \<Rightarrow> u32" where
  "seen te s k = phys s (frame (phys s te) + k)"

lemma writable_flags [simp]: "writable (a OR 7)" "writable (a OR 2)" "\<not> writable (ro e)"
proof -
  show "writable (a OR 7)" "writable (a OR 2)" "\<not> writable (ro e)"
    unfolding writable_def ro_def bit_or_iff bit_and_iff bit_not_iff bit_7_2 by auto
qed

lemma mapped_entry_low:
  "mapped_entry te s \<Longrightarrow> frame (phys s te) < LOW_MEM \<Longrightarrow> q < PAGING_PAGES \<Longrightarrow> frame (phys s te) \<noteq> page_addr q"
  using page_addr_props(4) [of q] by auto

text \<open>A private page is only made writable again.\<close>

lemma un_wp_page_private:
  assumes "LOW_MEM \<le> frame (phys s te)" "refcount s (MAP_NR (frame (phys s te))) = 1"
  shows "un_wp_page te s = Ret (store te (phys s te OR 2) s)"
  using assms by (simp add: un_wp_page_def)

text \<open>A shared page, or one below 1 MB, is copied to a new page.\<close>

lemma un_wp_page_copy:
  assumes m: "mapped_entry te s"
    and shared: "\<not> (LOW_MEM \<le> frame (phys s te) \<and> refcount s (MAP_NR (frame (phys s te))) = 1)"
    and alloc: "get_free_page s = (new, s1)" "new \<noteq> 0"
  obtains i s' where "un_wp_page te s = Ret s'" "i < PAGING_PAGES" "new = page_addr i"
    "refcount s i = 0" "phys s' te = new OR 7"
    "\<forall>k. unat k < 4096 \<longrightarrow> phys s' (new + k) = phys s (frame (phys s te) + k)"
    "\<forall>x. x \<noteq> te \<and> frame x \<noteq> new \<longrightarrow> phys s' x = phys s x"
    "mem_map s' = (if LOW_MEM \<le> frame (phys s te)
       then (mem_map s)[i := 1, MAP_NR (frame (phys s te)) := refcount s (MAP_NR (frame (phys s te))) - 1]
       else (mem_map s)[i := 1])"
    "MAP_NR (frame (phys s te)) \<noteq> i \<or> frame (phys s te) < LOW_MEM"
  using alloc(1)
proof (cases rule: get_free_page_cases)
  case (page i)
  let ?o = "frame (phys s te)"
  have al: "aligned new" "frame te \<noteq> new"
    using page m page_addr_props(2) [of i] by (auto simp: mapped_entry_def page_in_use_def)
  have on: "?o \<noteq> new \<and> (MAP_NR ?o \<noteq> i \<or> ?o < LOW_MEM)"
  proof (cases "?o < LOW_MEM")
    case True
    then show ?thesis using page page_addr_props(4) [of i] by auto
  next
    case False
    then obtain q where "q < PAGING_PAGES" "?o = page_addr q" "refcount s q \<noteq> 0"
      using m by (auto simp: mapped_entry_def)
    moreover from this have "MAP_NR ?o = q"
      using page_addr_props(3) [of q] by simp
    ultimately show ?thesis
      using page page_addr_inject [of q i] by auto
  qed
  define s2 where "s2 = store te (new OR 7)
    (if LOW_MEM \<le> ?o then s1\<lparr>mem_map := (mem_map s1)[MAP_NR ?o := refcount s1 (MAP_NR ?o) - 1]\<rparr> else s1)"
  have ph: "phys s2 = (\<lambda>x. if x = te then new OR 7 else if frame x = new then 0 else phys s x)"
    using page by (auto simp: s2_def)
  have res: "un_wp_page te s = Ret (copy_page ?o new s2)"
    using alloc shared unfolding un_wp_page_def Let_def s2_def by (auto simp: not_le)
  show thesis
  proof (rule that [OF res page(1,2,3)])
    show "phys (copy_page ?o new s2) te = new OR 7"
      using al by (simp add: copy_page_simps ph)
    show "\<forall>k. unat k < 4096 \<longrightarrow> phys (copy_page ?o new s2) (new + k) = phys s (?o + k)"
    proof (intro allI impI)
      fix k :: u32 assume k: "unat k < 4096"
      then have f: "frame (new + k) = new" "frame (?o + k) = ?o"
        using al(1) by (simp_all add: frame_offset)
      moreover have "?o + k \<noteq> te"
        using f m unfolding mapped_entry_def by metis
      ultimately show "phys (copy_page ?o new s2) (new + k) = phys s (?o + k)"
        using al on by (simp add: copy_page_simps ph)
    qed
    show "\<forall>x. x \<noteq> te \<and> frame x \<noteq> new \<longrightarrow> phys (copy_page ?o new s2) x = phys s x"
      using al by (simp add: copy_page_simps ph)
    show "mem_map (copy_page ?o new s2) = (if LOW_MEM \<le> ?o
       then (mem_map s)[i := 1, MAP_NR ?o := refcount s (MAP_NR ?o) - 1] else (mem_map s)[i := 1])"
      using page on by (auto simp: copy_page_simps s2_def)
    show "MAP_NR ?o \<noteq> i \<or> ?o < LOW_MEM"
      using on by blast
  qed
qed (erule notE [OF alloc(2)])

lemma un_wp_page_full:
  assumes "frame (phys s te) < LOW_MEM \<or> refcount s (MAP_NR (frame (phys s te))) \<noteq> 1"
    and "\<forall>i < PAGING_PAGES. refcount s i \<noteq> 0"
  shows "un_wp_page te s = Exit (int SIGSEGV)"
proof -
  have "get_free_page s = (0, s)" using assms(2) by (simp add: get_free_page_def scasb_None [symmetric])
  then show ?thesis using assms(1) by (auto simp: un_wp_page_def Let_def oom_def)
qed

lemma un_wp_page_keeps:
  assumes m: "mapped_entry te s"
    and own: "LOW_MEM \<le> frame (phys s te)" "refcount s (MAP_NR (frame (phys s te))) = 1"
  obtains s' where "un_wp_page te s = Ret s'" "writable (phys s' te)"
    "\<forall>k. unat k < 4096 \<longrightarrow> seen te s' k = seen te s k"
    "refcount s' (MAP_NR (frame (phys s' te))) = 1" "\<forall>x. x \<noteq> te \<longrightarrow> phys s' x = phys s x"
proof (rule that [OF un_wp_page_private [OF own]])
  have "frame (phys s te) + k \<noteq> te" if "unat k < 4096" for k
    using m frame_offset [OF aligned_frame that] unfolding mapped_entry_def by metis
  then show "\<forall>k. unat k < 4096 \<longrightarrow> seen te (store te (phys s te OR 2) s) k = seen te s k"
    by (simp add: seen_def)
qed (use own(2) in simp_all)

lemma un_wp_page_parts:
  assumes m: "mapped_entry te s"
    and shared: "\<not> (LOW_MEM \<le> frame (phys s te) \<and> refcount s (MAP_NR (frame (phys s te))) = 1)"
    and free: "\<not> (\<forall>i < PAGING_PAGES. refcount s i \<noteq> 0)"
  obtains s' where "un_wp_page te s = Ret s'" "writable (phys s' te)"
    "\<forall>k. unat k < 4096 \<longrightarrow> seen te s' k = seen te s k"
    "refcount s' (MAP_NR (frame (phys s' te))) = 1"
    "LOW_MEM \<le> frame (phys s te) \<Longrightarrow>
      refcount s' (MAP_NR (frame (phys s te))) = refcount s (MAP_NR (frame (phys s te))) - 1"
    "\<forall>x. x \<noteq> te \<and> page_in_use s (frame x) \<longrightarrow> phys s' x = phys s x"
proof -
  let ?o = "frame (phys s te)"
  have len: "length (mem_map s) = PAGING_PAGES" using m by (simp add: mapped_entry_def wf_mm_def)
  obtain new s1 where alloc: "get_free_page s = (new, s1)" by fastforce
  have nz: "new \<noteq> 0"
    using free page_addr_props(1) by (cases rule: get_free_page_cases [OF alloc]) auto
  obtain i s' where c: "un_wp_page te s = Ret s'" "i < PAGING_PAGES"
    "new = page_addr i" "refcount s i = 0" "phys s' te = new OR 7"
    "\<forall>k. unat k < 4096 \<longrightarrow> phys s' (new + k) = phys s (?o + k)"
    "\<forall>x. x \<noteq> te \<and> frame x \<noteq> new \<longrightarrow> phys s' x = phys s x"
    "mem_map s' = (if LOW_MEM \<le> ?o
       then (mem_map s)[i := 1, MAP_NR ?o := refcount s (MAP_NR ?o) - 1] else (mem_map s)[i := 1])"
    "MAP_NR ?o \<noteq> i \<or> ?o < LOW_MEM"
    by (rule un_wp_page_copy [OF m shared alloc nz])
  have n: "frame new = new" "MAP_NR new = i"
    using c(2,3) page_addr_props [of i] by (simp_all add: aligned_def)
  have o: "MAP_NR ?o < PAGING_PAGES" if "LOW_MEM \<le> ?o"
    using m that page_addr_props(3) unfolding mapped_entry_def by (metis less_imp_le not_le)
  have use: "frame x \<noteq> new" if "page_in_use s (frame x)" for x
    using that c(2,3,4) by (auto simp: page_in_use_def)
  show thesis
  proof (rule that [OF c(1)])
    show "writable (phys s' te)" "\<forall>k. unat k < 4096 \<longrightarrow> seen te s' k = seen te s k"
      using c(5,6) n by (simp_all add: seen_def)
    show "refcount s' (MAP_NR (frame (phys s' te))) = 1"
      using c(2,5,8,9) n len by (auto simp: nth_list_update)
    show "refcount s' (MAP_NR ?o) = refcount s (MAP_NR ?o) - 1" if "LOW_MEM \<le> ?o"
      using c(8) o len that by simp
    show "\<forall>x. x \<noteq> te \<and> page_in_use s (frame x) \<longrightarrow> phys s' x = phys s x"
      using c(7) use by blast
  qed
qed

text \<open>C11: after a write fault on a present page the faulting process sees the same contents through
  the same entry, which is now writable and maps a page nobody else refers to; memory in use is
  otherwise unchanged, and the only failure is the end of the process, exactly when the page is
  shared (or below 1 MB) and no page is free.\<close>

theorem do_wp_page_correct:
  assumes "mapped_entry (entry_addr address s) s"
  shows "let te = entry_addr address s; old = frame (phys s te);
      shared = (old < LOW_MEM \<or> refcount s (MAP_NR old) \<noteq> 1);
      full = (\<forall>i < PAGING_PAGES. refcount s i \<noteq> 0)
    in if shared \<and> full then do_wp_page code address s = Exit (int SIGSEGV)
       else \<exists>s'. do_wp_page code address s = Ret s' \<and> writable (phys s' te)
         \<and> (\<forall>k. unat k < 4096 \<longrightarrow> seen te s' k = seen te s k)
         \<and> refcount s' (MAP_NR (frame (phys s' te))) = 1
         \<and> (shared \<longrightarrow> old \<ge> LOW_MEM \<longrightarrow> refcount s' (MAP_NR old) = refcount s (MAP_NR old) - 1)
         \<and> (\<forall>x. x \<noteq> te \<and> page_in_use s (frame x) \<longrightarrow> phys s' x = phys s x)"
proof (cases "LOW_MEM \<le> frame (phys s (entry_addr address s)) \<and> refcount s (MAP_NR (frame (phys s (entry_addr address s)))) = 1")
  case own: True
  show ?thesis
    by (rule un_wp_page_keeps [OF assms own [THEN conjunct1] own [THEN conjunct2]])
      (use own in \<open>auto simp: Let_def do_wp_page_def\<close>)
next
  case False
  then have shared: "frame (phys s (entry_addr address s)) < LOW_MEM
      \<or> refcount s (MAP_NR (frame (phys s (entry_addr address s)))) \<noteq> 1" by auto
  show ?thesis
  proof (cases "\<forall>i < PAGING_PAGES. refcount s i \<noteq> 0")
    case True
    then show ?thesis
      unfolding Let_def do_wp_page_def using shared un_wp_page_full [OF shared True] by simp
  next
    case free: False
    show ?thesis
      by (rule un_wp_page_parts [OF assms False free]) (use free in \<open>simp add: Let_def do_wp_page_def\<close>)
  qed
qed

definition cow_example :: mm where
  "cow_example = fork_example\<lparr>mem_map := (replicate PAGING_PAGES 0)[3839 := 1, 3838 := 2]\<rparr>"

lemma cow_example_entry: "entry_addr 0x4000000 cow_example = 0xfff000"
  "mapped_entry 0xfff000 cow_example"
proof -
  have l: "3838 < PAGING_PAGES" "3839 < PAGING_PAGES" "page_addr 3839 = 0xfff000" "page_addr 3838 = 0xffe000"
    by (simp_all add: PAGING_PAGES_def page_addr_of_nat)
  show "entry_addr 0x4000000 cow_example = 0xfff000"
    by (simp add: entry_addr_def cow_example_def fork_example_def frame_def drop_bit_eq_div)
  have f: "frame 0xfff000 = 0xfff000" "frame 0xffe007 = 0xffe000"
    by (simp_all add: frame_def)
  have "page_in_use cow_example 0xfff000"
    unfolding page_in_use_def
  proof (intro allI impI)
    fix q assume "q < PAGING_PAGES" "0xfff000 = page_addr q"
    then have "q = 3839"
      using page_addr_inject [of q 3839] l by simp
    then show "refcount cow_example q \<noteq> 0"
      using l by (simp add: cow_example_def nth_list_update)
  qed
  moreover have "\<exists>q < PAGING_PAGES. 0xffe000 = page_addr q \<and> refcount cow_example q \<noteq> 0"
    using l by (intro exI [of _ 3838]) (simp add: cow_example_def nth_list_update)
  ultimately show "mapped_entry 0xfff000 cow_example"
    by (simp add: mapped_entry_def f cow_example_def fork_example_def wf_mm_def)
qed

lemma do_wp_page_correct_witness:
  "\<exists>s'. do_wp_page 7 0x4000000 cow_example = Ret s' \<and> writable (phys s' 0xfff000)
    \<and> (\<forall>k. unat k < 4096 \<longrightarrow> seen 0xfff000 s' k = seen 0xfff000 cow_example k)
    \<and> refcount s' (MAP_NR (frame (phys s' 0xfff000))) = 1"
proof -
  have m: "mapped_entry (entry_addr 0x4000000 cow_example) cow_example"
    using cow_example_entry by simp
  have "refcount cow_example 0 = 0" "0 < PAGING_PAGES"
    by (simp_all add: cow_example_def nth_list_update PAGING_PAGES_def)
  then have "\<not> (\<forall>i < PAGING_PAGES. refcount cow_example i \<noteq> 0)"
    by blast
  with do_wp_page_correct [OF m, of 7] show ?thesis
    unfolding Let_def cow_example_entry(1) by auto
qed

section \<open>The allocator's contract\<close>

text \<open>C21: \<open>get_free_page\<close> returns 0 and changes nothing when no page is free; otherwise it returns the
  free page with the highest address, now with one reference and all zero, and changes nothing else.\<close>

theorem get_free_page_spec:
  "get_free_page s =
    (if \<forall>i < PAGING_PAGES. refcount s i \<noteq> 0 then (0, s)
     else let i = Max {i. i < PAGING_PAGES \<and> refcount s i = 0}
          in (page_addr i, s\<lparr>mem_map := (mem_map s)[i := 1],
                             phys := (\<lambda>x. if frame x = page_addr i then 0 else phys s x)\<rparr>))"
proof (cases "scasb PAGING_PAGES (mem_map s)")
  case None
  then have "\<forall>i < PAGING_PAGES. refcount s i \<noteq> 0"
    by (simp add: scasb_None)
  with None show ?thesis
    by (simp add: get_free_page_def)
next
  case (Some i)
  note i = scasb_Some [OF Some]
  then have m: "Max {i. i < PAGING_PAGES \<and> refcount s i = 0} = i"
    by (intro Max_eqI) (auto simp: not_less [symmetric])
  have "aligned (page_addr i)"
    using i page_addr_props(2) [of i] by simp
  then have "clear_page (page_addr i) (s\<lparr>mem_map := (mem_map s)[i := 1]\<rparr>)
    = s\<lparr>mem_map := (mem_map s)[i := 1], phys := (\<lambda>x. if frame x = page_addr i then 0 else phys s x)\<rparr>"
    by (simp add: clear_page_def in_page cong: if_cong)
  with Some i show ?thesis
    unfolding m by (auto simp: get_free_page_def Let_def page_addr_def)
qed

lemma get_free_page_spec_witness: "fst (get_free_page cow_example) = page_addr 3837"
proof -
  have b: "3837 < PAGING_PAGES" "3838 < PAGING_PAGES" "3839 < PAGING_PAGES" "PAGING_PAGES = 3840"
    by (simp_all add: PAGING_PAGES_def)
  have r: "refcount cow_example i = (if i = 3838 then 2 else if i = 3839 then 1 else 0)"
    if "i < PAGING_PAGES" for i
    using that b(1-3) by (simp add: cow_example_def nth_list_update)
  have "Max {i. i < PAGING_PAGES \<and> refcount cow_example i = 0} = 3837"
  proof (rule Max_eqI)
    fix y assume "y \<in> {i. i < PAGING_PAGES \<and> refcount cow_example i = 0}"
    then have "y < PAGING_PAGES" "y \<noteq> 3838" "y \<noteq> 3839"
      using r by (auto split: if_splits)
    then show "y \<le> 3837" using b(4) by simp
  qed (use r b in auto)
  moreover have "\<not> (\<forall>i < PAGING_PAGES. refcount cow_example i \<noteq> 0)"
    using r b by (intro notI) (drule spec [of _ 3837], simp)
  ultimately show ?thesis
    by (subst get_free_page_spec) (simp only: if_False Let_def fst_conv)
qed

text \<open>A page that has just been allocated can be freed, and that undoes the allocation: every
  reference count is what it was.\<close>

theorem get_free_page_round_trip:
  assumes "mm_ok s" "get_free_page s = (a, s')" "a \<noteq> 0"
  shows "\<exists>s''. free_page a s' = Ret s'' \<and> mm_ok s'' \<and> (\<forall>i. page_count s'' i = page_count s i)"
  using mm_pages.alloc_free_count [OF assms] by auto

text \<open>After \<open>mem_init\<close> with the page-aligned memory layout of \<open>main\<close> exactly the pages of main
  memory are free, pages outside it are marked used, and the allocator's invariant holds.\<close>

theorem mem_init_correct:
  assumes "main_memory lo hi"
  shows "mm_ok (mem_init (page_addr lo) (page_addr hi) s)
    \<and> (\<forall>i < PAGING_PAGES. refcount (mem_init (page_addr lo) (page_addr hi) s) i
         = (if lo \<le> i \<and> i < hi then 0 else USED))"
proof -
  let ?s = "mem_init (page_addr lo) (page_addr hi) s"
  have h: "HIGH_MEMORY ?s = page_addr hi"
    by (simp add: mem_init_def Let_def)
  have c: "refcount ?s i = (if lo \<le> i \<and> i < hi then 0 else USED)" if "i < PAGING_PAGES" for i
    using that by (simp add: mem_init_map [OF assms])
  have "\<not> page_addr hi \<le> page_addr i" if "i < PAGING_PAGES" "i < hi" for i
    using that unat_page_addr [of hi] unat_page_addr [of i] assms
    by (simp add: main_memory_def word_le_nat_alt)
  moreover have "page_addr hi \<le> 0x1000000"
    using unat_page_addr [of hi] assms by (simp add: main_memory_def word_le_nat_alt PAGING_PAGES_def)
  moreover have "length (mem_map ?s) = PAGING_PAGES"
    by (simp add: mem_init_map [OF assms])
  ultimately have "mm_ok ?s"
    unfolding mm_ok_def wf_mm_def h using c by (simp add: USED_def not_less)
  with c show ?thesis by blast
qed

text \<open>A machine with 16 MB of memory and 2 MB of buffers, as in \<open>main\<close>.\<close>

lemma mem_init_correct_witness:
  "mm_ok (mem_init (page_addr 768) (page_addr 3840) cow_example)
    \<and> refcount (mem_init (page_addr 768) (page_addr 3840) cow_example) 3839 = 0"
proof -
  have m: "main_memory 768 3840"
    by (simp add: main_memory_def PAGING_PAGES_def)
  show ?thesis
    using mem_init_correct [OF m, of cow_example] by (simp add: PAGING_PAGES_def)
qed

lemma mm_ok_cow_example: "mm_ok cow_example"
proof -
  have "page_addr i < 0x1000000" if "i < PAGING_PAGES" for i
    using that unat_page_addr [of i] by (simp add: word_less_nat_alt PAGING_PAGES_def)
  then show ?thesis
    by (auto simp: mm_ok_def wf_mm_def cow_example_def fork_example_def not_le [symmetric])
qed

lemma get_free_page_round_trip_witness:
  "\<exists>a s' s''. get_free_page cow_example = (a, s') \<and> a \<noteq> 0 \<and> free_page a s' = Ret s''
    \<and> (\<forall>i. page_count s'' i = page_count cow_example i)"
proof -
  obtain a s' where a: "get_free_page cow_example = (a, s')"
    by fastforce
  have "refcount cow_example 0 = 0" "0 < PAGING_PAGES"
    by (simp_all add: cow_example_def nth_list_update PAGING_PAGES_def)
  then have "a \<noteq> 0"
    using page_addr_props(1) by (cases rule: get_free_page_cases [OF a]) auto
  with get_free_page_round_trip [OF mm_ok_cow_example a] a show ?thesis by blast
qed

end
