(* ===== verification/Sched.thy ===== *)
theory Sched imports Tasks begin

unbundle bit_operations_syntax

text \<open>
  \<open>kernel/sched.c\<close>: the scheduler, sleeping and waking up, the timers of the clock interrupt and
  the small system calls on the current process.

  A task is named by its slot in the task table, a timer by its slot in \<open>timer_list\<close>. Calls the
  code makes out of this file (timer handlers, the speaker, port writes, coprocessor
  instructions) are appended to \<open>io\<close> in the order they are made. A timer handler is named by a
  number, 0 being the null pointer.
\<close>

section \<open>State\<close>

datatype event =
    Call nat
  | Outb u8 nat
  | Sysbeepstop
  | Fnsave nat
  | Frstor nat
  | Fninit
  | Ltr nat
  | Lldt nat
  | Set_gate nat nat

record timer =
  t_jiffies :: int
  t_fn :: nat
  t_next :: "nat option"

record sched =
  task :: "task_struct option list"
  current :: nat
  jiffies :: int
  startup_time :: int
  last_task_used_math :: "nat option"
  wait_motor :: "nat option list"
  mon_timer :: "int list"
  moff_timer :: "int list"
  current_DOR :: u8
  selected :: u8
  timer_list :: "timer list"
  next_timer :: "nat option"
  beepcount :: int
  gdt :: "desc_struct list"
  io :: "event list"

definition TIME_REQUESTS :: nat where "TIME_REQUESTS = 64"
definition FIRST_TSS_ENTRY :: nat where "FIRST_TSS_ENTRY = 4"
definition FIRST_LDT_ENTRY :: nat where "FIRST_LDT_ENTRY = 5"
definition FD_DOR :: nat where "FD_DOR = 0x3f2"

definition emit :: "event \<Rightarrow> sched \<Rightarrow> sched" where
  "emit e s = s\<lparr>io := io s @ [e]\<rparr>"

text \<open>A store to a field of the task in slot \<open>n\<close>, and the current task.\<close>

definition upd_task :: "nat \<Rightarrow> (task_struct \<Rightarrow> task_struct) \<Rightarrow> sched \<Rightarrow> sched" where
  "upd_task n f s = s\<lparr>task := (task s)[n := map_option f (task s ! n)]\<rparr>"

definition cur :: "sched \<Rightarrow> task_struct" where
  "cur s = the (task s ! current s)"

section \<open>The scheduler\<close>

definition S_bit :: "nat \<Rightarrow> u32" where
  "S_bit nr = push_bit (nr - 1) 1"

definition BLOCKABLE :: u32 where
  "BLOCKABLE = NOT (S_bit SIGKILL OR S_bit SIGSTOP)"

text \<open>The body of the first loop, for one task.\<close>

definition check_signals :: "int \<Rightarrow> task_struct \<Rightarrow> task_struct" where
  "check_signals now p =
    (let p = (if alarm p \<noteq> 0 \<and> alarm p < now
              then p\<lparr>signal := signal p OR push_bit (SIGALRM - 1) 1, alarm := 0\<rparr> else p)
     in if signal p AND NOT (BLOCKABLE AND blocked p) \<noteq> 0 \<and> state p = TASK_INTERRUPTIBLE
        then p\<lparr>state := TASK_RUNNING\<rparr> else p)"

text \<open>A loop \<open>for (p = &LAST_TASK; p > &FIRST_TASK; --p) if (*p)\<close> with body \<open>f\<close>.\<close>

fun each_task :: "nat \<Rightarrow> (task_struct \<Rightarrow> task_struct) \<Rightarrow> sched \<Rightarrow> sched" where
  "each_task 0 f s = s"
| "each_task (Suc i) f s = each_task i f (upd_task (Suc i) f s)"

text \<open>\<open>while (--i)\<close>: the runnable task with the greatest counter.\<close>

fun pick :: "nat \<Rightarrow> task_struct option list \<Rightarrow> int \<Rightarrow> nat \<Rightarrow> int \<times> nat" where
  "pick 0 ts c nxt = (c, nxt)"
| "pick (Suc i) ts c nxt =
    (if i = 0 then (c, nxt)
     else case ts ! i of
        None \<Rightarrow> pick i ts c nxt
      | Some p \<Rightarrow> if state p = TASK_RUNNING \<and> counter p > c then pick i ts (counter p) i
                  else pick i ts c nxt)"

definition recount :: "task_struct \<Rightarrow> task_struct" where
  "recount p = p\<lparr>counter := wrap32 (counter p div 2 + priority p)\<rparr>"

text \<open>The \<open>while (1)\<close> loop; it does not end when no recount makes a counter positive.\<close>

partial_function (option) choose_task :: "sched \<Rightarrow> (nat \<times> sched) option" where
  "choose_task s =
    (let (c, nxt) = pick NR_TASKS (task s) (- 1) 0
     in if c \<noteq> 0 then Some (nxt, s)
        else choose_task (each_task (NR_TASKS - 1) recount s))"

declare choose_task.simps [code]

text \<open>\<open>switch_to\<close>: the processor runs the chosen task.\<close>

definition switch_to :: "nat \<Rightarrow> sched \<Rightarrow> sched" where
  "switch_to n s = s\<lparr>current := n\<rparr>"

definition schedule :: "sched \<Rightarrow> sched option" where
  "schedule s =
    (case choose_task (each_task (NR_TASKS - 1) (check_signals (jiffies s)) s) of
       None \<Rightarrow> None
     | Some (nxt, s) \<Rightarrow> Some (switch_to nxt s))"

section \<open>Sleeping and waking up\<close>

text \<open>A process that sleeps gives the processor away in the middle of \<open>sleep_on\<close> and continues when
  it is scheduled again. The part before the call of \<open>schedule\<close> yields the new queue
  head and the value of the local variable \<open>tmp\<close>; the part after it runs with that value.\<close>

definition set_state :: "nat \<Rightarrow> int \<Rightarrow> sched \<Rightarrow> sched" where
  "set_state n v s = upd_task n (\<lambda>p. p\<lparr>state := v\<rparr>) s"

definition sys_pause :: "sched \<Rightarrow> sched option" where
  "sys_pause s = schedule (set_state (current s) TASK_INTERRUPTIBLE s)"

definition sleep_on_enter :: "nat option \<Rightarrow> sched \<Rightarrow> (nat option \<times> nat option \<times> sched) kres" where
  "sleep_on_enter p s =
    (if current s = 0 then Panic ''task[0] trying to sleep''
     else let tmp = p; p = Some (current s)
          in Ret (p, tmp, set_state (current s) TASK_UNINTERRUPTIBLE s))"

definition sleep_on_resume :: "nat option \<Rightarrow> sched \<Rightarrow> sched" where
  "sleep_on_resume tmp s = (case tmp of None \<Rightarrow> s | Some t \<Rightarrow> set_state t 0 s)"

definition interruptible_sleep_on_enter ::
  "nat option \<Rightarrow> sched \<Rightarrow> (nat option \<times> nat option \<times> sched) kres" where
  "interruptible_sleep_on_enter p s =
    (if current s = 0 then Panic ''task[0] trying to sleep''
     else let tmp = p; p = Some (current s)
          in Ret (p, tmp, set_state (current s) TASK_INTERRUPTIBLE s))"

text \<open>The first component says whether the process goes back to sleep (\<open>goto repeat\<close>).\<close>

definition interruptible_sleep_on_resume ::
  "nat option \<Rightarrow> nat option \<Rightarrow> sched \<Rightarrow> bool \<times> nat option \<times> sched" where
  "interruptible_sleep_on_resume p tmp s =
    (case p of
       Some q \<Rightarrow>
        if q \<noteq> current s
        then (True, p, set_state (current s) TASK_INTERRUPTIBLE (set_state q 0 s))
        else (False, None, case tmp of None \<Rightarrow> s | Some t \<Rightarrow> set_state t 0 s)
     | None \<Rightarrow> (False, None, case tmp of None \<Rightarrow> s | Some t \<Rightarrow> set_state t 0 s))"

definition wake_up :: "nat option \<Rightarrow> sched \<Rightarrow> nat option \<times> sched" where
  "wake_up p s = (case p of None \<Rightarrow> (p, s) | Some q \<Rightarrow> (None, set_state q 0 s))"

section \<open>Floppy motors\<close>

definition ticks_to_floppy_on :: "nat \<Rightarrow> sched \<Rightarrow> (int \<times> sched) kres" where
  "ticks_to_floppy_on nr s =
    (let mask = push_bit nr 0x10 :: u8
     in if nr > 3 then Panic ''floppy_on: nr>3''
        else
        let s = s\<lparr>moff_timer := (moff_timer s)[nr := 10000]\<rparr>;
            mask = mask OR current_DOR s;
            mask = (if selected s = 0 then (mask AND 0xFC) OR of_nat nr else mask);
            s = (if mask \<noteq> current_DOR s
                 then let s = emit (Outb mask FD_DOR) s;
                          s = (if (mask XOR current_DOR s) AND 0xf0 \<noteq> 0
                               then s\<lparr>mon_timer := (mon_timer s)[nr := c_div HZ 2]\<rparr>
                               else if mon_timer s ! nr < 2
                               then s\<lparr>mon_timer := (mon_timer s)[nr := 2]\<rparr>
                               else s)
                      in s\<lparr>current_DOR := mask\<rparr>
                 else s)
        in Ret (mon_timer s ! nr, s))"

text \<open>One test of the loop of \<open>floppy_on\<close>: the process continues when the motor is at speed and goes to
  sleep on the motor's queue otherwise, to test again when it is woken up.\<close>

definition floppy_on :: "nat \<Rightarrow> sched \<Rightarrow> (nat option option \<times> sched) kres" where
  "floppy_on nr s =
    kbind (ticks_to_floppy_on nr s)
      (\<lambda>(t, s). if t = 0 then Ret (None, s)
                else kbind (sleep_on_enter (wait_motor s ! nr) s)
                  (\<lambda>(p, tmp, s). Ret (Some tmp, s\<lparr>wait_motor := (wait_motor s)[nr := p]\<rparr>)))"

definition floppy_off :: "nat \<Rightarrow> sched \<Rightarrow> sched" where
  "floppy_off nr s = s\<lparr>moff_timer := (moff_timer s)[nr := 3 * HZ]\<rparr>"

definition floppy_tick :: "nat \<Rightarrow> sched \<Rightarrow> sched" where
  "floppy_tick i s =
    (let mask = push_bit i 0x10 :: u8
     in if mask AND current_DOR s = 0 then s
        else if mon_timer s ! i \<noteq> 0
        then let s = s\<lparr>mon_timer := (mon_timer s)[i := mon_timer s ! i - 1]\<rparr>
             in if mon_timer s ! i = 0
                then let (p, s) = wake_up (wait_motor s ! i) s
                     in s\<lparr>wait_motor := (wait_motor s)[i := p]\<rparr>
                else s
        else if moff_timer s ! i = 0
        then let s = s\<lparr>current_DOR := current_DOR s AND NOT mask\<rparr>
             in emit (Outb (current_DOR s) FD_DOR) s
        else s\<lparr>moff_timer := (moff_timer s)[i := moff_timer s ! i - 1]\<rparr>)"

definition do_floppy_timer :: "sched \<Rightarrow> sched" where
  "do_floppy_timer s = fold floppy_tick [0..<4] s"

section \<open>Timers\<close>

fun free_timer :: "nat \<Rightarrow> timer list \<Rightarrow> nat option" where
  "free_timer i [] = None"
| "free_timer i (t # ts) = (if t_fn t = 0 then Some i else free_timer (Suc i) ts)"

text \<open>The sorting loop of \<open>add_timer\<close>: contents are exchanged with the next element while that one
  is due earlier. The fuel is the size of the timer table, which no chain exceeds.\<close>

fun sift :: "nat \<Rightarrow> nat \<Rightarrow> timer list \<Rightarrow> timer list" where
  "sift 0 p tms = tms"
| "sift (Suc fuel) p tms =
    (case t_next (tms ! p) of
       None \<Rightarrow> tms
     | Some q \<Rightarrow>
        if t_jiffies (tms ! q) < t_jiffies (tms ! p)
        then let j = wrap32 (t_jiffies (tms ! p) - t_jiffies (tms ! q));
                 tms' = tms[p := (tms ! p)\<lparr>t_fn := t_fn (tms ! q), t_jiffies := t_jiffies (tms ! q)\<rparr>,
                          q := (tms ! q)\<lparr>t_fn := t_fn (tms ! p), t_jiffies := j\<rparr>]
             in sift fuel q tms'
        else tms)"

definition add_timer :: "int \<Rightarrow> nat \<Rightarrow> sched \<Rightarrow> sched kres" where
  "add_timer j fn s =
    (if fn = 0 then Ret s
     else if j \<le> 0 then Ret (emit (Call fn) s)
     else case free_timer 0 (timer_list s) of
        None \<Rightarrow> Panic ''No more time requests free''
      | Some p \<Rightarrow>
         let tms = (timer_list s)[p := \<lparr>t_jiffies = j, t_fn = fn, t_next = next_timer s\<rparr>]
         in Ret (s\<lparr>timer_list := sift TIME_REQUESTS p tms, next_timer := Some p\<rparr>))"

text \<open>The loop of \<open>do_timer\<close> over the timers that are due.\<close>

fun fire_timers :: "nat \<Rightarrow> sched \<Rightarrow> sched" where
  "fire_timers 0 s = s"
| "fire_timers (Suc fuel) s =
    (case next_timer s of
       None \<Rightarrow> s
     | Some p \<Rightarrow>
        if t_jiffies (timer_list s ! p) \<le> 0
        then let fn = t_fn (timer_list s ! p);
                 s = s\<lparr>timer_list := (timer_list s)[p := (timer_list s ! p)\<lparr>t_fn := 0\<rparr>]\<rparr>;
                 s = s\<lparr>next_timer := t_next (timer_list s ! p)\<rparr>
             in fire_timers fuel (emit (Call fn) s)
        else s)"

definition tick_timers :: "sched \<Rightarrow> sched" where
  "tick_timers s =
    (case next_timer s of
       None \<Rightarrow> s
     | Some p \<Rightarrow>
        fire_timers TIME_REQUESTS
          (s\<lparr>timer_list := (timer_list s)
               [p := (timer_list s ! p)\<lparr>t_jiffies := wrap32 (t_jiffies (timer_list s ! p) - 1)\<rparr>]\<rparr>))"

definition do_timer :: "int \<Rightarrow> sched \<Rightarrow> sched option" where
  "do_timer cpl s =
    (let s = (if beepcount s \<noteq> 0
              then let s = s\<lparr>beepcount := wrap32 (beepcount s - 1)\<rparr>
                   in if beepcount s = 0 then emit Sysbeepstop s else s
              else s);
         s = (if cpl \<noteq> 0 then upd_task (current s) (\<lambda>p. p\<lparr>utime := wrap32 (utime p + 1)\<rparr>) s
              else upd_task (current s) (\<lambda>p. p\<lparr>stime := wrap32 (stime p + 1)\<rparr>) s);
         s = tick_timers s;
         s = (if current_DOR s AND 0xf0 \<noteq> 0 then do_floppy_timer s else s);
         s = upd_task (current s) (\<lambda>p. p\<lparr>counter := wrap32 (counter p - 1)\<rparr>) s
     in if counter (cur s) > 0 then Some s
        else let s = upd_task (current s) (\<lambda>p. p\<lparr>counter := 0\<rparr>) s
             in if cpl = 0 then Some s else schedule s)"

section \<open>System calls on the current process\<close>

definition sys_alarm :: "int \<Rightarrow> sched \<Rightarrow> int \<times> sched" where
  "sys_alarm seconds s =
    (let old = alarm (cur s);
         old = (if old \<noteq> 0 then c_div (wrap32 (old - jiffies s)) HZ else old)
     in (old, upd_task (current s)
                (\<lambda>p. p\<lparr>alarm := if seconds > 0 then wrap32 (jiffies s + HZ * seconds) else 0\<rparr>) s))"

definition sys_getpid :: "sched \<Rightarrow> int" where "sys_getpid s = pid (cur s)"
definition sys_getppid :: "sched \<Rightarrow> int" where "sys_getppid s = father (cur s)"
definition sys_getuid :: "sched \<Rightarrow> int" where "sys_getuid s = uint (uid (cur s))"
definition sys_geteuid :: "sched \<Rightarrow> int" where "sys_geteuid s = uint (euid (cur s))"
definition sys_getgid :: "sched \<Rightarrow> int" where "sys_getgid s = uint (gid (cur s))"
definition sys_getegid :: "sched \<Rightarrow> int" where "sys_getegid s = uint (egid (cur s))"

definition sys_nice :: "int \<Rightarrow> sched \<Rightarrow> int \<times> sched" where
  "sys_nice increment s =
    (0, if wrap32 (priority (cur s) - increment) > 0
        then upd_task (current s) (\<lambda>p. p\<lparr>priority := wrap32 (priority p - increment)\<rparr>) s else s)"

text \<open>The coprocessor's registers follow the task that used it last.\<close>

definition math_state_restore :: "sched \<Rightarrow> sched" where
  "math_state_restore s =
    (if last_task_used_math s = Some (current s) then s
     else
     let s = (case last_task_used_math s of None \<Rightarrow> s | Some t \<Rightarrow> emit (Fnsave t) s);
         s = s\<lparr>last_task_used_math := Some (current s)\<rparr>
     in if used_math (cur s) \<noteq> 0 then emit (Frstor (current s)) s
        else upd_task (current s) (\<lambda>p. p\<lparr>used_math := 1\<rparr>) (emit Fninit s))"

section \<open>Initialisation\<close>

text \<open>\<open>_set_tssldt_desc\<close>: a descriptor of limit 104 at \<open>addr\<close>.\<close>

definition tssldt_desc :: "u32 \<Rightarrow> u32 \<Rightarrow> desc_struct" where
  "tssldt_desc addr ty =
    (104 OR push_bit 16 (addr AND 0xffff),
     (drop_bit 16 addr AND 0xff) OR push_bit 8 ty OR (addr AND 0xff000000))"

fun clear_tasks :: "nat \<Rightarrow> nat \<Rightarrow> nat \<Rightarrow> sched \<Rightarrow> sched" where
  "clear_tasks 0 i p s = s"
| "clear_tasks (Suc n) i p s =
     clear_tasks n (Suc i) (p + 2)
       (s\<lparr>task := (task s)[i := None], gdt := (gdt s)[p := (0, 0), Suc p := (0, 0)]\<rparr>)"

text \<open>\<open>sched_init\<close>; \<open>tss0\<close> and \<open>ldt0\<close> are the addresses of the first task's descriptors and
  \<open>mask\<close> the interrupt mask read from port \<open>0x21\<close>.\<close>

definition sched_init :: "u32 \<Rightarrow> u32 \<Rightarrow> u8 \<Rightarrow> sched \<Rightarrow> sched" where
  "sched_init tss0 ldt0 imr s =
    (let s = s\<lparr>gdt := (gdt s)[FIRST_TSS_ENTRY := tssldt_desc tss0 0x89,
                             FIRST_LDT_ENTRY := tssldt_desc ldt0 0x82]\<rparr>;
         s = clear_tasks (NR_TASKS - 1) 1 (2 + FIRST_TSS_ENTRY) s;
         LATCH = 1193180 div nat HZ
     in fold emit [Ltr 0, Lldt 0, Outb 0x36 0x43, Outb (of_nat LATCH) 0x40,
                   Outb (of_nat (LATCH div 256)) 0x40, Set_gate 0x20 0,
                   Outb (imr AND NOT 1) 0x21, Set_gate 0x80 3] s)"

section \<open>The task table\<close>

lemma upd_task_simps [simp]:
  "length (task (upd_task n f s)) = length (task s)"
  "current (upd_task n f s) = current s" "jiffies (upd_task n f s) = jiffies s"
  "timer_list (upd_task n f s) = timer_list s" "next_timer (upd_task n f s) = next_timer s"
  "mon_timer (upd_task n f s) = mon_timer s" "moff_timer (upd_task n f s) = moff_timer s"
  "wait_motor (upd_task n f s) = wait_motor s" "current_DOR (upd_task n f s) = current_DOR s"
  "io (upd_task n f s) = io s"
  by (simp_all add: upd_task_def)

lemma upd_task_nth:
  "i < length (task s) \<Longrightarrow>
    task (upd_task n f s) ! i = (if i = n then map_option f (task s ! i) else task s ! i)"
  by (auto simp: upd_task_def nth_list_update)

lemma each_task_nth:
  "i < length (task s) \<Longrightarrow> task (each_task n f s) ! i =
    (if 0 < i \<and> i \<le> n then map_option f (task s ! i) else task s ! i)"
  by (induction n f s rule: each_task.induct) (auto simp: upd_task_nth)

lemma each_task_simps [simp]:
  "length (task (each_task n f s)) = length (task s)" "current (each_task n f s) = current s"
  "jiffies (each_task n f s) = jiffies s"
  by (induction n f s rule: each_task.induct) simp_all

lemma each_task_task: "each_task n f s = s\<lparr>task := task (each_task n f s)\<rparr>"
proof (induction n f s rule: each_task.induct)
  case (2 i f s)
  have "each_task i f (upd_task (Suc i) f s)
    = (upd_task (Suc i) f s)\<lparr>task := task (each_task i f (upd_task (Suc i) f s))\<rparr>"
    by (rule 2)
  also have "\<dots> = s\<lparr>task := task (each_task i f (upd_task (Suc i) f s))\<rparr>"
    by (simp add: upd_task_def)
  finally show ?case by simp
qed simp

text \<open>A task other than the idle task that could run now.\<close>

definition ready :: "task_struct option list \<Rightarrow> nat \<Rightarrow> bool" where
  "ready ts i \<longleftrightarrow> 0 < i \<and> i < NR_TASKS \<and> (\<exists>p. ts ! i = Some p \<and> state p = TASK_RUNNING)"

abbreviation slice :: "task_struct option list \<Rightarrow> nat \<Rightarrow> int" where
  "slice ts i \<equiv> counter (the (ts ! i))"

lemma pick_spec:
  assumes "pick (Suc n) ts c0 n0 = (c, k)" "n < NR_TASKS"
  shows "(c = c0 \<and> k = n0 \<and> (\<forall>i. ready ts i \<and> i \<le> n \<longrightarrow> slice ts i \<le> c0))
    \<or> (c > c0 \<and> ready ts k \<and> k \<le> n \<and> slice ts k = c
       \<and> (\<forall>i. ready ts i \<and> i \<le> n \<longrightarrow> slice ts i \<le> c \<and> (k < i \<longrightarrow> slice ts i < c)))"
  using assms
proof (induction n arbitrary: c0 n0)
  case 0
  then show ?case by (auto simp: ready_def)
next
  case (Suc n)
  let ?i = "Suc n"
  show ?case
  proof (cases "ready ts ?i \<and> slice ts ?i > c0")
    case True
    then obtain p where p: "ts ! ?i = Some p" "state p = TASK_RUNNING" "counter p > c0"
      by (auto simp: ready_def)
    then have "pick (Suc n) ts (counter p) ?i = (c, k)"
      using Suc.prems by simp
    from Suc.IH [OF this] Suc.prems(2) True p show ?thesis
      by (auto simp: le_Suc_eq)
  next
    case False
    then have "pick (Suc n) ts c0 n0 = (c, k)"
      using Suc.prems by (auto simp: ready_def split: option.splits if_splits)
    from Suc.IH [OF this] Suc.prems(2) False show ?thesis
      by (auto simp: le_Suc_eq)
  qed
qed

lemma NR_TASKS_pred: "Suc (NR_TASKS - 1) = NR_TASKS" "NR_TASKS - 1 < NR_TASKS"
  by (auto simp: NR_TASKS_def)

lemma le_last_task [simp]: "i \<le> NR_TASKS - 1 \<longleftrightarrow> i < NR_TASKS"
  "i \<le> NR_TASKS - Suc 0 \<longleftrightarrow> i < NR_TASKS"
  by (auto simp: NR_TASKS_def)

text \<open>The well-formedness of the scheduler's state: 64 slots, and counters and priorities in the range
  in which \<open>counter / 2 + priority\<close> does not overflow.\<close>

definition slice_ok :: "task_struct \<Rightarrow> bool" where
  "slice_ok p \<longleftrightarrow> 0 \<le> counter p \<and> counter p < 2 ^ 31 \<and> 0 < priority p \<and> priority p < 2 ^ 30"

definition sched_ok :: "sched \<Rightarrow> bool" where
  "sched_ok s \<longleftrightarrow> length (task s) = NR_TASKS
    \<and> (\<forall>i p. 0 < i \<and> i < NR_TASKS \<and> task s ! i = Some p \<longrightarrow> slice_ok p)"

lemma check_signals_simps [simp]:
  "counter (check_signals now p) = counter p" "priority (check_signals now p) = priority p"
  by (simp_all add: check_signals_def Let_def)

lemma recount_simps [simp]:
  "state (recount p) = state p" "priority (recount p) = priority p"
  by (simp_all add: recount_def)

lemma recount_ok:
  assumes "slice_ok p"
  shows "slice_ok (recount p)" "0 < counter (recount p)"
    "counter (recount p) = counter p div 2 + priority p"
proof -
  have b: "0 \<le> counter p div 2" "counter p div 2 < 2 ^ 30" "0 < priority p" "priority p < 2 ^ 30"
    using assms unfolding slice_ok_def by simp_all linarith
  then have "wrap32 (counter p div 2 + priority p) = counter p div 2 + priority p"
    by (intro wrap32_id) simp_all
  with b show "slice_ok (recount p)" "0 < counter (recount p)"
    "counter (recount p) = counter p div 2 + priority p"
    by (simp_all add: slice_ok_def recount_def)
qed

lemma each_task_ok:
  assumes "sched_ok s" "\<And>p. slice_ok p \<Longrightarrow> slice_ok (f p)"
  shows "sched_ok (each_task (NR_TASKS - 1) f s)"
  using assms by (auto simp: sched_ok_def each_task_nth split: if_splits)

text \<open>What the loop leaves: the same tasks after at most one recount, which happens only when every
  ready task has used up its time slice; and the chosen task.\<close>

definition chosen :: "nat \<Rightarrow> task_struct option list \<Rightarrow> bool" where
  "chosen k ts \<longleftrightarrow>
    (if \<forall>i. \<not> ready ts i then k = 0
     else ready ts k \<and> 0 < slice ts k
       \<and> (\<forall>i. ready ts i \<longrightarrow> slice ts i \<le> slice ts k \<and> (k < i \<longrightarrow> slice ts i < slice ts k)))"

lemma pick_all:
  assumes "pick NR_TASKS ts (- 1) 0 = (c, k)" and ok: "\<forall>i. ready ts i \<longrightarrow> 0 \<le> slice ts i"
  shows "if c = 0 then \<forall>i. ready ts i \<longrightarrow> slice ts i = 0
    else chosen k ts" "c = 0 \<Longrightarrow> \<exists>i. ready ts i"
proof -
  have lim: "(ready ts i \<and> i < NR_TASKS) = ready ts i" for i
    by (auto simp: ready_def)
  have p: "(c = - 1 \<and> k = 0 \<and> (\<forall>i. ready ts i \<longrightarrow> slice ts i \<le> - 1))
    \<or> (c > - 1 \<and> ready ts k \<and> slice ts k = c
       \<and> (\<forall>i. ready ts i \<longrightarrow> slice ts i \<le> c \<and> (k < i \<longrightarrow> slice ts i < c)))"
    using pick_spec [where n = "NR_TASKS - 1", OF _ NR_TASKS_pred(2), of ts "- 1" 0 c k] assms(1)
    unfolding NR_TASKS_pred le_last_task lim by blast
  then show "if c = 0 then \<forall>i. ready ts i \<longrightarrow> slice ts i = 0 else chosen k ts"
    using ok by (fastforce simp: chosen_def)
  show "c = 0 \<Longrightarrow> \<exists>i. ready ts i"
    using p by auto
qed

lemma choose_task_step:
  assumes "sched_ok s"
  obtains k n where "n \<le> 1" "choose_task s = Some (k, s\<lparr>task := task (((each_task (NR_TASKS - 1) recount) ^^ n) s)\<rparr>)"
    "chosen k (task (((each_task (NR_TASKS - 1) recount) ^^ n) s))"
    "n = 1 \<longrightarrow> (\<forall>i. ready (task s) i \<longrightarrow> slice (task s) i = 0)"
proof -
  have ok: "\<forall>i. ready (task t) i \<longrightarrow> 0 \<le> slice (task t) i" if "sched_ok t" for t
    using that by (auto simp: ready_def sched_ok_def slice_ok_def)
  obtain c k where p: "pick NR_TASKS (task s) (- 1) 0 = (c, k)"
    by fastforce
  show thesis
  proof (cases "c = 0")
    case False
    with pick_all(1) [OF p ok [OF assms]] p show thesis
      by (intro that [of 0 k]) (simp_all add: choose_task.simps)
  next
    case True
    let ?t = "each_task (NR_TASKS - 1) recount s"
    have t: "sched_ok ?t"
      by (rule each_task_ok [OF assms]) (rule recount_ok)
    obtain c' k' where p': "pick NR_TASKS (task ?t) (- 1) 0 = (c', k')"
      by fastforce
    have len: "length (task s) = NR_TASKS"
      using assms by (simp add: sched_ok_def)
    obtain i p where i: "0 < i" "i < NR_TASKS" "task s ! i = Some p" "state p = TASK_RUNNING"
      using pick_all(2) [OF p ok [OF assms] True] by (auto simp: ready_def)
    have "slice_ok p"
      using assms i by (auto simp: sched_ok_def)
    then have "ready (task ?t) i \<and> 0 < slice (task ?t) i"
      using i len recount_ok(2) by (simp add: ready_def each_task_nth)
    then have "c' \<noteq> 0"
      using pick_all(1) [OF p' ok [OF t]] by (metis less_irrefl)
    then have "choose_task s = Some (k', ?t)" "chosen k' (task ?t)"
      using True p p' pick_all(1) [OF p' ok [OF t]] by (simp_all add: choose_task.simps)
    moreover have "\<forall>i. ready (task s) i \<longrightarrow> slice (task s) i = 0"
      using pick_all(1) [OF p ok [OF assms]] True by simp
    ultimately show thesis
      using each_task_task by (intro that [of 1 k']) simp_all
  qed
qed

text \<open>The table after the signal check and \<open>n\<close> recounts.\<close>

definition updated :: "nat \<Rightarrow> sched \<Rightarrow> task_struct option list" where
  "updated n s = map (\<lambda>i. if i = 0 then task s ! 0
     else map_option (\<lambda>p. (recount ^^ n) (check_signals (jiffies s) p)) (task s ! i)) [0..<NR_TASKS]"

lemma updated_each:
  assumes "length (task s) = NR_TASKS" "n \<le> 1"
  shows "task (((each_task (NR_TASKS - 1) recount) ^^ n)
    (each_task (NR_TASKS - 1) (check_signals (jiffies s)) s)) = updated n s"
proof (rule nth_equalityI)
  have "n = 0 \<or> n = 1"
    using assms(2) by auto
  then show "length (task (((each_task (NR_TASKS - 1) recount) ^^ n)
      (each_task (NR_TASKS - 1) (check_signals (jiffies s)) s))) = length (updated n s)"
    using assms(1) by (auto simp: updated_def)
  fix i assume "i < length (task (((each_task (NR_TASKS - 1) recount) ^^ n)
      (each_task (NR_TASKS - 1) (check_signals (jiffies s)) s)))"
  then have "i < NR_TASKS"
    using \<open>n = 0 \<or> n = 1\<close> assms(1) by auto
  then show "task (((each_task (NR_TASKS - 1) recount) ^^ n)
      (each_task (NR_TASKS - 1) (check_signals (jiffies s)) s)) ! i = updated n s ! i"
    using \<open>n = 0 \<or> n = 1\<close> assms(1)
    by (auto simp: updated_def each_task_nth option.map_comp comp_def)
qed

text \<open>C9: \<open>schedule\<close> always returns. It turns signals and expired alarms into runnable tasks and then
  runs a ready task with the greatest remaining time slice, the one with the highest number if
  there are several, and the idle task exactly when no task is ready; time slices are handed out
  anew at most once, and only when every ready task has used up its own.\<close>

theorem schedule_correct:
  assumes "sched_ok s"
  shows "\<exists>s' n. schedule s = Some s' \<and> n \<le> 1
    \<and> s' = s\<lparr>task := updated n s, current := current s'\<rparr>
    \<and> chosen (current s') (updated n s)
    \<and> (n = 1 \<longrightarrow> (\<forall>i. ready (updated 0 s) i \<longrightarrow> slice (updated 0 s) i = 0))"
proof -
  let ?t = "each_task (NR_TASKS - 1) (check_signals (jiffies s)) s"
  have len: "length (task s) = NR_TASKS"
    using assms by (simp add: sched_ok_def)
  have "sched_ok ?t"
    by (rule each_task_ok [OF assms]) (simp add: slice_ok_def)
  then obtain k n where kn: "n \<le> 1"
    "choose_task ?t = Some (k, ?t\<lparr>task := task (((each_task (NR_TASKS - 1) recount) ^^ n) ?t)\<rparr>)"
    "chosen k (task (((each_task (NR_TASKS - 1) recount) ^^ n) ?t))"
    "n = 1 \<longrightarrow> (\<forall>i. ready (task ?t) i \<longrightarrow> slice (task ?t) i = 0)"
    by (rule choose_task_step)
  have u: "task ?t = updated 0 s"
    using updated_each [OF len, of 0] by simp
  have "?t\<lparr>task := updated n s\<rparr> = s\<lparr>task := updated n s\<rparr>"
    by (subst each_task_task) simp
  with kn(2) have "choose_task ?t = Some (k, s\<lparr>task := updated n s\<rparr>)"
    unfolding updated_each [OF len kn(1)] by simp
  then have "schedule s = Some (s\<lparr>task := updated n s, current := k\<rparr>)"
    by (simp add: schedule_def switch_to_def)
  moreover have "chosen k (updated n s)"
    using kn(3) unfolding updated_each [OF len kn(1)] .
  ultimately show ?thesis
    using kn(1,4) unfolding u by (intro exI [of _ "s\<lparr>task := updated n s, current := k\<rparr>"] exI [of _ n]) simp
qed

definition two_tasks :: sched where
  "two_tasks = \<lparr>task = (replicate NR_TASKS None)[0 := Some (INIT_TASK 0),
       3 := Some ((INIT_TASK 0)\<lparr>counter := 0\<rparr>), 7 := Some ((INIT_TASK 0)\<lparr>counter := 0, priority := 20\<rparr>)],
     current = 3, jiffies = 0, startup_time = 0, last_task_used_math = None,
     wait_motor = replicate 4 None, mon_timer = replicate 4 0, moff_timer = replicate 4 0,
     current_DOR = 0x0C, selected = 0,
     timer_list = replicate TIME_REQUESTS \<lparr>t_jiffies = 0, t_fn = 0, t_next = None\<rparr>,
     next_timer = None, beepcount = 0, gdt = replicate 256 (0, 0), io = []\<rparr>"

lemma two_tasks_ok: "sched_ok two_tasks"
proof -
  have b: "3 < NR_TASKS" "7 < NR_TASKS" "0 < NR_TASKS"
    by (simp_all add: NR_TASKS_def)
  show ?thesis
    unfolding sched_ok_def
  proof (intro conjI allI impI)
    show "length (task two_tasks) = NR_TASKS"
      by (simp add: two_tasks_def)
    fix i p assume "0 < i \<and> i < NR_TASKS \<and> task two_tasks ! i = Some p"
    then show "slice_ok p"
      using b by (auto simp: two_tasks_def nth_list_update slice_ok_def INIT_TASK_def split: if_splits)
  qed
qed

lemma schedule_correct_witness:
  "\<exists>s' n. schedule two_tasks = Some s' \<and> n \<le> 1 \<and> chosen (current s') (updated n two_tasks)"
  using schedule_correct [OF two_tasks_ok] by blast

lemma schedule_ok:
  assumes "sched_ok s" "schedule s = Some s'"
  shows "sched_ok s'"
proof -
  obtain s'' n where s'': "schedule s = Some s''" "n \<le> 1" "s'' = s\<lparr>task := updated n s, current := current s''\<rparr>"
    using schedule_correct [OF assms(1)] by blast
  have "slice_ok p \<Longrightarrow> slice_ok ((recount ^^ n) (check_signals (jiffies s) p))" for p
  proof -
    assume "slice_ok p"
    then have "slice_ok (check_signals (jiffies s) p)"
      by (simp add: slice_ok_def)
    then show ?thesis
      by (induction n) (simp_all add: recount_ok)
  qed
  then have "sched_ok (s\<lparr>task := updated n s, current := current s''\<rparr>)"
    using assms(1) by (auto simp: sched_ok_def updated_def)
  with s'' assms(2) show ?thesis by simp
qed

text \<open>Only tasks in interruptible sleep change their state in \<open>schedule\<close>, and only to running.\<close>

definition state_of :: "sched \<Rightarrow> nat \<Rightarrow> int" where
  "state_of s i = state (the (task s ! i))"

lemma check_signals_state:
  "state (check_signals now p) = state p
    \<or> state p = TASK_INTERRUPTIBLE \<and> state (check_signals now p) = TASK_RUNNING"
  by (simp add: check_signals_def Let_def)

lemma recount_state [simp]: "state ((recount ^^ n) p) = state p"
  by (induction n) simp_all

lemma schedule_state:
  assumes "sched_ok s" "schedule s = Some s'" "i < NR_TASKS" "task s ! i = Some p"
  shows "state_of s' i = state_of s i
    \<or> state_of s i = TASK_INTERRUPTIBLE \<and> state_of s' i = TASK_RUNNING"
    and "task s' ! i \<noteq> None"
proof -
  obtain s'' n where s'': "schedule s = Some s''" "s'' = s\<lparr>task := updated n s, current := current s''\<rparr>"
    using schedule_correct [OF assms(1)] by blast
  then have "task s' = updated n s"
    using assms(2) by (metis option.inject sched.select_convs(1) sched.surjective sched.update_convs(1,2))
  then show "state_of s' i = state_of s i
    \<or> state_of s i = TASK_INTERRUPTIBLE \<and> state_of s' i = TASK_RUNNING" "task s' ! i \<noteq> None"
    using assms(3,4) check_signals_state [of "jiffies s" p]
    by (auto simp: state_of_def updated_def)
qed

end
