(* ===== verification/Timers.thy ===== *)
theory Timers imports Sched begin

text \<open>
  The timer queue of \<open>kernel/sched.c\<close> as the clock interrupt sees it: the linked slots of
  \<open>timer_list\<close> implement a list of delays, each relative to the one before. Insertion and the tick are
  related to that list; and what insertion means for the time each handler is called is stated exactly.
\<close>

section \<open>The abstract queue\<close>

fun chain :: "timer list \<Rightarrow> nat option \<Rightarrow> nat list \<Rightarrow> bool" where
  "chain tms None [] \<longleftrightarrow> True"
| "chain tms (Some p) (q # qs) \<longleftrightarrow> p = q \<and> p < length tms \<and> chain tms (t_next (tms ! p)) qs"
| "chain tms _ _ \<longleftrightarrow> False"

fun follow :: "nat \<Rightarrow> timer list \<Rightarrow> nat option \<Rightarrow> nat list" where
  "follow (Suc n) tms (Some p) = p # follow n tms (t_next (tms ! p))"
| "follow _ _ _ = []"

definition entries :: "timer list \<Rightarrow> nat list \<Rightarrow> (int \<times> nat) list" where
  "entries tms xs = map (\<lambda>i. (t_jiffies (tms ! i), t_fn (tms ! i))) xs"

definition slots :: "sched \<Rightarrow> nat list" where
  "slots s = follow TIME_REQUESTS (timer_list s) (next_timer s)"

definition timer_queue :: "sched \<Rightarrow> (int \<times> nat) list" where
  "timer_queue s = entries (timer_list s) (slots s)"

text \<open>The queue's slots are distinct and are exactly those in use, and every delay is positive.\<close>

definition timers_ok :: "sched \<Rightarrow> bool" where
  "timers_ok s \<longleftrightarrow> length (timer_list s) = TIME_REQUESTS
    \<and> chain (timer_list s) (next_timer s) (slots s) \<and> distinct (slots s)
    \<and> (\<forall>i < TIME_REQUESTS. t_fn (timer_list s ! i) \<noteq> 0 \<longleftrightarrow> i \<in> set (slots s))
    \<and> (\<forall>(d, f) \<in> set (timer_queue s). 0 < d \<and> d < 2 ^ 31)"

fun insert_timer :: "int \<times> nat \<Rightarrow> (int \<times> nat) list \<Rightarrow> (int \<times> nat) list" where
  "insert_timer (j, f) [] = [(j, f)]"
| "insert_timer (j, f) ((k, g) # q) =
    (if k < j then (k, g) # insert_timer (j - k, f) q else (j, f) # (k, g) # q)"

text \<open>When each handler is due, counted in ticks from time \<open>a\<close>.\<close>

fun due :: "int \<Rightarrow> (int \<times> nat) list \<Rightarrow> (int \<times> nat) list" where
  "due a [] = []"
| "due a ((d, f) # q) = (a + d, f) # due (a + d) q"

lemma chain_bound: "chain tms p xs \<Longrightarrow> set xs \<subseteq> {..<length tms}"
  by (induction tms p xs rule: chain.induct) auto

lemma follow_chain: "chain tms p xs \<Longrightarrow> length xs \<le> n \<Longrightarrow> follow n tms p = xs"
proof (induction tms p xs arbitrary: n rule: chain.induct)
  case (2 tms p q qs)
  then show ?case by (cases n) auto
qed auto

lemma chain_cong:
  assumes "length tms' = length tms" "\<And>i. i \<in> set xs \<Longrightarrow> t_next (tms' ! i) = t_next (tms ! i)"
  shows "chain tms' p xs = chain tms p xs"
  using assms by (induction tms p xs rule: chain.induct) auto

lemma distinct_slots:
  assumes "chain tms p xs" "distinct xs" "length tms = TIME_REQUESTS"
  shows "length xs \<le> TIME_REQUESTS"
  using card_mono [OF _ chain_bound [OF assms(1)]] assms(2,3) by (simp add: distinct_card)

lemma slots_eq:
  assumes "chain (timer_list s) (next_timer s) xs" "distinct xs"
    "length (timer_list s) = TIME_REQUESTS"
  shows "slots s = xs"
  unfolding slots_def using assms by (intro follow_chain distinct_slots) auto

section \<open>Insertion\<close>

lemma sift_length [simp]: "length (sift n p tms) = length tms"
  by (induction n p tms rule: sift.induct) (simp_all add: Let_def split: option.splits)

text \<open>The sorting loop exchanges contents along the chain and leaves the links alone.\<close>

lemma sift_chain:
  assumes "chain tms (Some p) (p # qs)" "distinct (p # qs)" "length qs \<le> n"
    and "\<forall>(d, f) \<in> set (entries tms (p # qs)). 0 < d \<and> d < 2 ^ 31"
  shows "entries (sift n p tms) (p # qs)
      = insert_timer (t_jiffies (tms ! p), t_fn (tms ! p)) (entries tms qs)
    \<and> (\<forall>i. t_next (sift n p tms ! i) = t_next (tms ! i))
    \<and> (\<forall>i. i \<notin> set (p # qs) \<longrightarrow> sift n p tms ! i = tms ! i)"
  using assms
proof (induction qs arbitrary: n p tms)
  case Nil
  then have "t_next (tms ! p) = None"
    by (cases "t_next (tms ! p)") auto
  then have "sift n p tms = tms"
    by (cases n) auto
  then show ?case by (simp add: entries_def)
next
  case (Cons q qs)
  obtain m where n: "n = Suc m" "length qs \<le> m"
    using Cons.prems(3) by (cases n) auto
  have nx: "t_next (tms ! p) = Some q"
    using Cons.prems(1) by (cases "t_next (tms ! p)") auto
  let ?j = "t_jiffies (tms ! p)" and ?k = "t_jiffies (tms ! q)"
  have bounds: "0 < ?k" "?k < 2 ^ 31" "0 < ?j" "?j < 2 ^ 31" "p < length tms" "q < length tms" "p \<noteq> q"
    using Cons.prems nx by (auto simp: entries_def)
  show ?case
  proof (cases "?k < ?j")
    case False
    then show ?thesis
      using nx n by (simp add: entries_def)
  next
    case True
    let ?t = "tms[p := (tms ! p)\<lparr>t_fn := t_fn (tms ! q), t_jiffies := ?k\<rparr>,
                  q := (tms ! q)\<lparr>t_fn := t_fn (tms ! p), t_jiffies := ?j - ?k\<rparr>]"
    have w: "wrap32 (?j - ?k) = ?j - ?k"
      using bounds True by (intro wrap32_id) simp_all
    have sift: "sift n p tms = sift m q ?t"
      using nx True n w by (simp add: Let_def)
    have nxt: "t_next (?t ! i) = t_next (tms ! i)" for i
      using bounds by (cases "i = q"; cases "i = p") (simp_all add: nth_list_update)
    have same: "?t ! i = tms ! i" if "i \<noteq> p" "i \<noteq> q" for i
      using that by simp
    have "?t ! i = tms ! i" if "i \<in> set qs" for i
      using that Cons.prems(2) by (intro same) auto
    then have ent: "entries ?t qs = entries tms qs"
      unfolding entries_def by (metis (no_types, lifting) map_cong)
    have "chain tms (Some q) (q # qs)"
      using Cons.prems(1) nx by simp
    then have "chain ?t (Some q) (q # qs)"
      using nxt by (subst chain_cong [of ?t tms]) simp_all
    moreover have "\<forall>(d, f) \<in> set (entries ?t (q # qs)). 0 < d \<and> d < 2 ^ 31"
      using Cons.prems(4) bounds True ent by (auto simp: entries_def)
    ultimately have ih: "entries (sift m q ?t) (q # qs)
          = insert_timer (t_jiffies (?t ! q), t_fn (?t ! q)) (entries ?t qs)"
        "\<And>i. t_next (sift m q ?t ! i) = t_next (?t ! i)"
        "\<And>i. i \<notin> set (q # qs) \<Longrightarrow> sift m q ?t ! i = ?t ! i"
      using Cons.IH [of ?t q m] Cons.prems(2) n(2) by auto
    have p: "sift m q ?t ! p = ?t ! p"
      using ih(3) Cons.prems(2) by auto
    have "entries (sift n p tms) (p # q # qs) = (?k, t_fn (tms ! q)) # entries (sift m q ?t) (q # qs)"
      using p bounds unfolding sift by (simp add: entries_def)
    also have "\<dots> = insert_timer (?j, t_fn (tms ! p)) (entries tms (q # qs))"
      unfolding ih(1) ent using bounds True by (simp add: entries_def)
    finally show ?thesis
      unfolding sift using ih(2,3) nxt same by auto
  qed
qed

lemma free_timer_Some:
  "free_timer i ts = Some p \<Longrightarrow> i \<le> p \<and> p < i + length ts \<and> t_fn (ts ! (p - i)) = 0"
proof (induction i ts rule: free_timer.induct)
  case (2 i t ts)
  then show ?case
    by (cases "t_fn t = 0") (auto simp: nth_Cons' Suc_diff_Suc)
qed simp

lemma free_timer_None: "free_timer i ts = None \<longleftrightarrow> (\<forall>t \<in> set ts. t_fn t \<noteq> 0)"
  by (induction i ts rule: free_timer.induct) auto

lemma insert_timer_set:
  "set (map snd (insert_timer (j, f) q)) = insert f (set (map snd q))"
  "length (insert_timer (j, f) q) = Suc (length q)"
  by (induction "(j, f)" q arbitrary: j rule: insert_timer.induct) auto

lemma insert_timer_pos:
  "\<forall>(d, f) \<in> set q. 0 < d \<and> d < 2 ^ 31 \<Longrightarrow> 0 < j \<Longrightarrow> j < 2 ^ 31 \<Longrightarrow>
    \<forall>(d, f) \<in> set (insert_timer (j, f) q). 0 < d \<and> d < (2 ^ 31 :: int)"
  by (induction "(j, f)" q arbitrary: j rule: insert_timer.induct) auto

lemma entries_fn: "length xs = length q \<Longrightarrow> entries tms xs = q \<Longrightarrow> map (\<lambda>i. t_fn (tms ! i)) xs = map snd q"
  by (auto simp: entries_def)

text \<open>Adding a timer while a slot is free.\<close>

lemma add_timer_queue:
  assumes ok: "timers_ok s" and j: "0 < j" "j < 2 ^ 31" "f \<noteq> 0"
    and free: "free_timer 0 (timer_list s) = Some p"
  obtains s' where "add_timer j f s = Ret s'" "timers_ok s'"
    "timer_queue s' = insert_timer (j, f) (timer_queue s)"
proof -
  let ?tm = "\<lparr>t_jiffies = j, t_fn = f, t_next = next_timer s\<rparr>"
  let ?t = "(timer_list s)[p := ?tm]"
  let ?r = "sift TIME_REQUESTS p ?t"
  let ?s = "s\<lparr>timer_list := ?r, next_timer := Some p\<rparr>"
  let ?xs = "slots s"
  have len: "length (timer_list s) = TIME_REQUESTS"
    using ok by (simp add: timers_ok_def)
  have p: "p < TIME_REQUESTS" "t_fn (timer_list s ! p) = 0"
    using free_timer_Some [OF free] len by simp_all
  then have new: "p \<notin> set ?xs"
    using ok by (auto simp: timers_ok_def)
  have same: "?t ! i = timer_list s ! i" if "i \<in> set ?xs" for i
    using that new by (cases "i = p") auto
  then have ent: "entries ?t ?xs = timer_queue s"
    unfolding timer_queue_def entries_def by (metis (no_types, lifting) map_cong)
  have "chain ?t (next_timer s) ?xs"
    using ok same by (subst chain_cong [of _ "timer_list s"]) (auto simp: timers_ok_def)
  then have ch: "chain ?t (Some p) (p # ?xs)"
    using p len by simp
  have d: "distinct (p # ?xs)"
    using ok new by (simp add: timers_ok_def)
  have l: "length ?xs \<le> TIME_REQUESTS"
    using ok len by (intro distinct_slots) (auto simp: timers_ok_def)
  have pos: "\<forall>(d, f) \<in> set (timer_queue s). 0 < d \<and> d < 2 ^ 31"
    using ok by (simp add: timers_ok_def)
  have e: "entries ?t (p # ?xs) = (j, f) # timer_queue s"
    using ent p len by (simp add: entries_def)
  have r: "entries ?r (p # ?xs) = insert_timer (j, f) (timer_queue s)"
    "\<And>i. t_next (?r ! i) = t_next (?t ! i)" "\<And>i. i \<notin> set (p # ?xs) \<Longrightarrow> ?r ! i = ?t ! i"
    using sift_chain [OF ch d l] pos j e ent p len by auto
  have "chain ?r (Some p) (p # ?xs) = chain ?t (Some p) (p # ?xs)"
    by (rule chain_cong) (simp_all only: sift_length r(2))
  with ch have ch': "chain ?r (Some p) (p # ?xs)"
    by (simp only:)
  have sl: "slots ?s = p # ?xs"
    using ch' d len by (intro slots_eq) simp_all
  have q: "timer_queue ?s = insert_timer (j, f) (timer_queue s)"
    unfolding timer_queue_def sl using r(1) by (simp add: timer_queue_def)
  have "length (p # ?xs) = length (insert_timer (j, f) (timer_queue s))"
    by (simp add: insert_timer_set timer_queue_def entries_def)
  then have fns: "set (map (\<lambda>i. t_fn (?r ! i)) (p # ?xs)) = insert f (set (map snd (timer_queue s)))"
    by (simp only: entries_fn [OF _ r(1)] insert_timer_set)
  have "\<forall>g \<in> set (map snd (timer_queue s)). g \<noteq> 0"
    using ok chain_bound [of "timer_list s" "next_timer s" ?xs] len
    by (auto simp: timers_ok_def timer_queue_def entries_def)
  with j(3) have "\<forall>g \<in> set (map (\<lambda>i. t_fn (?r ! i)) (p # ?xs)). g \<noteq> 0"
    unfolding fns by blast
  then have nz: "\<forall>i \<in> set (p # ?xs). t_fn (?r ! i) \<noteq> 0"
    unfolding set_map by blast
  have "timers_ok ?s"
    unfolding timers_ok_def sl q
  proof (intro conjI)
    show "\<forall>i < TIME_REQUESTS. (t_fn (timer_list ?s ! i) \<noteq> 0) = (i \<in> set (p # ?xs))"
    proof (intro allI impI)
      fix i assume i: "i < TIME_REQUESTS"
      show "(t_fn (timer_list ?s ! i) \<noteq> 0) = (i \<in> set (p # ?xs))"
      proof (cases "i \<in> set (p # ?xs)")
        case False
        then have "?r ! i = timer_list s ! i"
          using r(3) by simp
        with False i ok show ?thesis by (simp add: timers_ok_def)
      qed (use nz in auto)
    qed
    show "\<forall>(d, f) \<in> set (insert_timer (j, f) (timer_queue s)). 0 < d \<and> d < 2 ^ 31"
      using pos j by (intro insert_timer_pos) auto
  qed (use len ch' d in simp_all)
  moreover have "add_timer j f s = Ret ?s"
    using j free by (simp add: add_timer_def Let_def)
  ultimately show thesis
    using q that by blast
qed


lemma due_shift: "due (a + b) q = map (\<lambda>(t, f). (t + b, f)) (due a q)"
proof (induction q arbitrary: a)
  case (Cons x q)
  then show ?case
    using Cons [of "a + fst x"] by (cases x) (simp add: algebra_simps)
qed simp

lemma due_later: "\<forall>(d, f) \<in> set q. 0 < d \<Longrightarrow> \<forall>(t, f) \<in> set (due a q). a < t"
proof (induction q arbitrary: a)
  case (Cons x q)
  then have "\<forall>(t, f) \<in> set (due (a + fst x) q). a + fst x < t" "0 < fst x"
    by auto
  then show ?case by (cases x) fastforce
qed simp

definition last_due :: "int \<Rightarrow> (int \<times> nat) list \<Rightarrow> int" where
  "last_due a q = (if q = [] then a else fst (last q))"

lemma insert_timer_due:
  "due a (insert_timer (j, f) q) =
    (let early = takeWhile (\<lambda>(t, _). t < a + j) (due a q);
         late = dropWhile (\<lambda>(t, _). t < a + j) (due a q)
     in early @ (a + j, f) # map (\<lambda>(t, g). (t + (a + j - last_due a early), g)) late)"
proof (induction "(j, f)" q arbitrary: j a rule: insert_timer.induct)
  case (2 j k g q)
  show ?case
  proof (cases "k < j")
    case True
    have ld: "last_due a ((a + k, g) # e) = last_due (a + k) e" for e
      by (simp add: last_due_def)
    from 2 [OF True, of "a + k"] True show ?thesis
      by (simp add: Let_def ld algebra_simps)
  next
    case False
    then show ?thesis
      using due_shift [of "a + k" j q] by (simp add: last_due_def Let_def algebra_simps)
  qed
qed (simp add: last_due_def)

text \<open>C25: adding a timer due in \<open>j\<close> ticks, while a slot is free, keeps the queue well formed, leaves the
  handlers due before it where they are and makes the new one due in \<open>j\<close> ticks; but every handler
  that was due at that time or later is postponed, by the time between the new timer and its
  predecessor, because the successor's delay is not reduced.\<close>

theorem add_timer_due:
  assumes "timers_ok s" "0 < j" "j < 2 ^ 31" "f \<noteq> 0" "\<exists>t \<in> set (timer_list s). t_fn t = 0"
  shows "\<exists>s'. add_timer j f s = Ret s' \<and> timers_ok s'
    \<and> (let early = takeWhile (\<lambda>(t, _). t < j) (due 0 (timer_queue s));
           late = dropWhile (\<lambda>(t, _). t < j) (due 0 (timer_queue s))
       in due 0 (timer_queue s') =
         early @ (j, f) # map (\<lambda>(t, g). (t + (j - last_due 0 early), g)) late)"
proof -
  obtain p where "free_timer 0 (timer_list s) = Some p"
    using assms(5) free_timer_None [of 0 "timer_list s"] by fastforce
  from add_timer_queue [OF assms(1-4) this] obtain s' where s': "add_timer j f s = Ret s'"
    "timers_ok s'" "timer_queue s' = insert_timer (j, f) (timer_queue s)" .
  with insert_timer_due [of 0 j f "timer_queue s"] show ?thesis by simp
qed

definition motor_timers :: sched where
  "motor_timers = two_tasks\<lparr>
     timer_list := (timer_list two_tasks)
       [2 := \<lparr>t_jiffies = 5, t_fn = 11, t_next = Some 9\<rparr>, 9 := \<lparr>t_jiffies = 3, t_fn = 12, t_next = None\<rparr>],
     next_timer := Some 2\<rparr>"

lemma motor_timers_queue:
  "slots motor_timers = [2, 9]" "timer_queue motor_timers = [(5, 11), (3, 12)]"
  "timers_ok motor_timers"
proof -
  have b: "2 < TIME_REQUESTS" "9 < TIME_REQUESTS" "0 < TIME_REQUESTS"
    by (simp_all add: TIME_REQUESTS_def)
  have t: "timer_list motor_timers ! 2 = \<lparr>t_jiffies = 5, t_fn = 11, t_next = Some 9\<rparr>"
    "timer_list motor_timers ! 9 = \<lparr>t_jiffies = 3, t_fn = 12, t_next = None\<rparr>"
    "next_timer motor_timers = Some 2" "length (timer_list motor_timers) = TIME_REQUESTS"
    using b(1-3) by (simp_all add: motor_timers_def two_tasks_def)
  show s: "slots motor_timers = [2, 9]"
    by (rule slots_eq) (use b(1,2) in \<open>simp_all add: t\<close>)
  show q: "timer_queue motor_timers = [(5, 11), (3, 12)]"
    by (simp add: timer_queue_def s entries_def t)
  have "i < TIME_REQUESTS \<longrightarrow> i \<noteq> 2 \<longrightarrow> i \<noteq> 9 \<longrightarrow> t_fn (timer_list motor_timers ! i) = 0" for i
    using b(1-3) by (simp add: motor_timers_def two_tasks_def)
  then have "\<forall>i < TIME_REQUESTS. t_fn (timer_list motor_timers ! i) \<noteq> 0 \<longleftrightarrow> i \<in> {2, 9}"
    using t by fastforce
  then show "timers_ok motor_timers"
    unfolding timers_ok_def s q using t b(1,2) by simp
qed

text \<open>The handler 12, due in 8 ticks, is called after 10 once a timer for 7 ticks is added.\<close>

lemma add_timer_due_witness:
  "\<exists>s'. add_timer 7 13 motor_timers = Ret s' \<and> due 0 (timer_queue motor_timers) = [(5, 11), (8, 12)]
    \<and> due 0 (timer_queue s') = [(5, 11), (7, 13), (10, 12)]"
proof -
  have "0 < length (timer_list motor_timers)" "t_fn (timer_list motor_timers ! 0) = 0"
    using motor_timers_queue(3) motor_timers_queue(1)
    by (auto simp: timers_ok_def TIME_REQUESTS_def dest: spec [of _ 0])
  then have "\<exists>t \<in> set (timer_list motor_timers). t_fn t = 0"
    using nth_mem by blast
  from add_timer_due [OF motor_timers_queue(3) _ _ _ this, of 7 13] show ?thesis
    by (auto simp: motor_timers_queue last_due_def)
qed

section \<open>The tick\<close>

lemma entries_Cons:
  "entries tms (x # xs) = (t_jiffies (tms ! x), t_fn (tms ! x)) # entries tms xs"
  by (simp add: entries_def)

lemma fire_timers_stop:
  "(\<And>p. next_timer s = Some p \<Longrightarrow> 0 < t_jiffies (timer_list s ! p)) \<Longrightarrow> fire_timers n s = s"
  by (cases n) (auto split: option.splits)

lemma chain_head:
  "chain tms p (x # xs) \<Longrightarrow> p = Some x \<and> x < length tms \<and> chain tms (t_next (tms ! x)) xs"
  by (cases p) auto

lemma timers_okI:
  assumes "length (timer_list s) = TIME_REQUESTS" "chain (timer_list s) (next_timer s) xs" "distinct xs"
    "\<forall>i < TIME_REQUESTS. t_fn (timer_list s ! i) \<noteq> 0 \<longleftrightarrow> i \<in> set xs"
    "\<forall>i \<in> set xs. 0 < t_jiffies (timer_list s ! i) \<and> t_jiffies (timer_list s ! i) < 2 ^ 31"
  shows "timers_ok s" "slots s = xs" "timer_queue s = entries (timer_list s) xs"
proof -
  show x: "slots s = xs"
    by (rule slots_eq [OF assms(2,3,1)])
  then show q: "timer_queue s = entries (timer_list s) xs"
    by (simp add: timer_queue_def)
  show "timers_ok s"
    unfolding timers_ok_def x q using assms by (auto simp: entries_def)
qed

definition ticked :: "(int \<times> nat) list \<Rightarrow> (int \<times> nat) list" where
  "ticked q = (case q of [] \<Rightarrow> [] | (d, f) # q' \<Rightarrow> if d = 1 then q' else (d - 1, f) # q')"

lemma tick_timers_queue:
  assumes ok: "timers_ok s"
  shows "timers_ok (tick_timers s) \<and> timer_queue (tick_timers s) = ticked (timer_queue s)
    \<and> io (tick_timers s) = io s @ (case timer_queue s of (d, f) # q \<Rightarrow> if d = 1 then [Call f] else [] | [] \<Rightarrow> [])"
proof (cases "slots s")
  case Nil
  then have "next_timer s = None"
    using ok by (cases "next_timer s") (auto simp: timers_ok_def)
  with ok Nil show ?thesis
    by (simp add: tick_timers_def timer_queue_def entries_def ticked_def)
next
  case (Cons p xs)
  have len: "length (timer_list s) = TIME_REQUESTS" and d: "distinct (p # xs)"
    and fns: "\<forall>i < TIME_REQUESTS. t_fn (timer_list s ! i) \<noteq> 0 \<longleftrightarrow> i \<in> set (p # xs)"
    and ch: "chain (timer_list s) (next_timer s) (p # xs)"
    using ok Cons by (auto simp: timers_ok_def)
  note h = chain_head [OF ch]
  have pos: "\<forall>i \<in> set (p # xs). 0 < t_jiffies (timer_list s ! i) \<and> t_jiffies (timer_list s ! i) < 2 ^ 31"
    using ok Cons by (auto simp: timers_ok_def timer_queue_def entries_def)
  let ?d = "t_jiffies (timer_list s ! p)" and ?f = "t_fn (timer_list s ! p)"
  have w: "wrap32 (?d - 1) = ?d - 1"
    using pos by (intro wrap32_id) simp_all
  let ?t = "(timer_list s)[p := (timer_list s ! p)\<lparr>t_jiffies := ?d - 1\<rparr>]"
  have q: "timer_queue s = (?d, ?f) # entries (timer_list s) xs"
    by (simp add: timer_queue_def Cons entries_def)
  have same: "(timer_list s)[p := x] ! i = timer_list s ! i" if "i \<in> set xs" for i x
    using that d by (intro nth_list_update_neq) auto
  have ent: "entries ((timer_list s)[p := x]) xs = entries (timer_list s) xs" for x
    using same unfolding entries_def by (metis (no_types, lifting) map_cong)
  have tick: "tick_timers s = fire_timers TIME_REQUESTS (s\<lparr>timer_list := ?t\<rparr>)"
    using h by (simp add: tick_timers_def w)
  show ?thesis
  proof (cases "?d = 1")
    case False
    then have "1 < ?d"
      using pos by force
    then have s': "tick_timers s = s\<lparr>timer_list := ?t\<rparr>"
      unfolding tick using h by (intro fire_timers_stop) auto
    have "t_next (?t ! i) = t_next (timer_list s ! i)" for i
      using h by (cases "i = p") simp_all
    then have "chain ?t (next_timer s) (p # xs)"
      using ch by (subst chain_cong [of _ "timer_list s"]) simp_all
    moreover have "\<forall>i \<in> set (p # xs). 0 < t_jiffies (?t ! i) \<and> t_jiffies (?t ! i) < 2 ^ 31"
      using pos \<open>1 < ?d\<close> h same by auto
    moreover have "\<forall>i < TIME_REQUESTS. t_fn (?t ! i) \<noteq> 0 \<longleftrightarrow> i \<in> set (p # xs)"
      using fns h by (auto simp: nth_list_update)
    ultimately have "timers_ok (tick_timers s)"
        "timer_queue (tick_timers s) = entries (timer_list (tick_timers s)) (p # xs)"
      unfolding s' using timers_okI [of "s\<lparr>timer_list := ?t\<rparr>" "p # xs"] len d by simp_all
    then show ?thesis
      using False h by (simp add: s' q ticked_def entries_Cons ent)
  next
    case True
    let ?u = "?t[p := (?t ! p)\<lparr>t_fn := 0\<rparr>]"
    let ?s = "emit (Call ?f) (s\<lparr>timer_list := ?u, next_timer := t_next (timer_list s ! p)\<rparr>)"
    have nx: "0 < t_jiffies (?u ! i)" if "t_next (timer_list s ! p) = Some i" for i
    proof -
      have "i \<in> set xs"
        using h that by (cases xs) auto
      then show ?thesis
        using same pos d by (auto simp: nth_list_update)
    qed
    obtain m where m: "TIME_REQUESTS = Suc m"
      by (simp add: TIME_REQUESTS_def)
    have "tick_timers s = fire_timers m ?s"
      unfolding tick m using h True by (simp add: Let_def)
    also have "\<dots> = ?s"
      using nx by (intro fire_timers_stop) (simp add: emit_def)
    finally have s': "tick_timers s = ?s" .
    have up: "?u = (timer_list s)[p := (timer_list s ! p)\<lparr>t_jiffies := 0, t_fn := 0\<rparr>]"
      using h True by simp
    have c: "chain ?u (t_next (timer_list s ! p)) xs"
      using h same unfolding up by (subst chain_cong [of _ "timer_list s"]) auto
    have po: "\<forall>i \<in> set xs. 0 < t_jiffies (?u ! i) \<and> t_jiffies (?u ! i) < 2 ^ 31"
      unfolding up using pos same by auto
    have fn: "\<forall>i < TIME_REQUESTS. t_fn (?u ! i) \<noteq> 0 \<longleftrightarrow> i \<in> set xs"
      unfolding up using fns h d by (auto simp: nth_list_update)
    have e: "timer_list ?s = ?u" "next_timer ?s = t_next (timer_list s ! p)" "io ?s = io s @ [Call ?f]"
      by (simp_all add: emit_def)
    have "timers_ok ?s" "timer_queue ?s = entries ?u xs"
      using timers_okI [of ?s xs, unfolded e] len d c po fn by simp_all
    then show ?thesis
      unfolding s' q e(3) using True ent up by (simp add: ticked_def)
  qed
qed

lemma ticked_due:
  assumes "\<forall>(d, f) \<in> set q. 0 < d"
  shows "due 0 (ticked q) = map (\<lambda>(t, f). (t - 1, f)) (filter (\<lambda>(t, _). 1 < t) (due 0 q))"
proof (cases q)
  case (Cons x q')
  obtain d f where x: "x = (d, f)"
    by fastforce
  have "\<forall>(t, f) \<in> set (due d q'). d < t"
    using assms Cons by (intro due_later) auto
  then have "filter (\<lambda>(t, _). 1 < t) (due d q') = due d q'"
    using assms Cons x by (auto simp: filter_id_conv)
  moreover have "due (d - 1) q' = map (\<lambda>(t, f). (t - 1, f)) (due d q')"
    using due_shift [of d "- 1" q'] by simp
  ultimately show ?thesis
    using assms Cons x by (cases "d = 1") (simp_all add: ticked_def)
qed (simp add: ticked_def)

text \<open>C22: a clock tick brings every handler one tick nearer and calls the one that becomes due, exactly
  once, taking it off the queue.\<close>

theorem tick_timers_due:
  assumes "timers_ok s"
  shows "timers_ok (tick_timers s)
    \<and> due 0 (timer_queue (tick_timers s))
      = map (\<lambda>(t, f). (t - 1, f)) (filter (\<lambda>(t, _). 1 < t) (due 0 (timer_queue s)))
    \<and> io (tick_timers s) = io s @ map (\<lambda>(t, f). Call f) (filter (\<lambda>(t, _). t \<le> 1) (due 0 (timer_queue s)))"
proof -
  note q = tick_timers_queue [OF assms]
  have pos: "\<forall>(d, f) \<in> set (timer_queue s). 0 < d"
    using assms by (auto simp: timers_ok_def)
  have "(case timer_queue s of (d, f) # q \<Rightarrow> if d = 1 then [Call f] else [] | [] \<Rightarrow> [])
    = map (\<lambda>(t, f). Call f) (filter (\<lambda>(t, _). t \<le> 1) (due 0 (timer_queue s)))"
  proof (cases "timer_queue s")
    case (Cons x q')
    obtain d f where x: "x = (d, f)"
      by fastforce
    have "\<forall>(t, f) \<in> set (due d q'). d < t"
      using pos Cons by (intro due_later) auto
    then have "filter (\<lambda>(t, _). t \<le> 1) (due d q') = []"
      using pos Cons x by (auto simp: filter_empty_conv)
    then show ?thesis
      using pos Cons x by auto
  qed simp
  with q ticked_due [OF pos] show ?thesis by simp
qed

lemma tick_timers_due_witness:
  "due 0 (timer_queue (tick_timers motor_timers)) = [(4, 11), (7, 12)]
    \<and> timers_ok (tick_timers motor_timers)"
  using tick_timers_due [OF motor_timers_queue(3)] by (simp add: motor_timers_queue)

end
