(* ===== verification/Waitq.thy ===== *)
theory Waitq imports Sched begin

text \<open>
  Wait queues as a state machine. \<open>sleep_on\<close> keeps the queue on the kernel stacks of the sleepers:
  the queue head names the last process that went to sleep, and each process remembers in its
  local variable \<open>tmp\<close> the one it found there. A state holds the scheduler, the queue head \<open>*p\<close> and,
  for each process that is inside \<open>sleep_on\<close>, the value of its \<open>tmp\<close>. The steps are the code up to
  the call of \<open>schedule\<close> and that call, the code after it, \<open>wake_up\<close> by an interrupt or by another
  process, and anything the rest of the kernel does that leaves the states of these processes alone.
\<close>

record waitq =
  sys :: sched
  head :: "nat option"
  frames :: "nat \<Rightarrow> nat option option"

definition asleep :: "waitq \<Rightarrow> nat \<Rightarrow> bool" where
  "asleep w t \<longleftrightarrow> frames w t \<noteq> None \<and> state_of (sys w) t \<noteq> TASK_RUNNING"

definition awake :: "waitq \<Rightarrow> nat \<Rightarrow> bool" where
  "awake w t \<longleftrightarrow> frames w t \<noteq> None \<and> state_of (sys w) t = TASK_RUNNING"

section \<open>\<open>sleep_on\<close>\<close>

inductive wstep :: "waitq \<Rightarrow> waitq \<Rightarrow> bool" where
  sleep: "task (sys w) ! c \<noteq> None \<Longrightarrow> c = current (sys w) \<Longrightarrow> c < NR_TASKS \<Longrightarrow> frames w c = None
    \<Longrightarrow> sleep_on_enter (head w) (sys w) = Ret (p, tmp, s1) \<Longrightarrow> schedule s1 = Some s2
    \<Longrightarrow> wstep w \<lparr>sys = s2, head = p, frames = (frames w)(c := Some tmp)\<rparr>"
| resume: "c = current (sys w) \<Longrightarrow> frames w c = Some tmp \<Longrightarrow> state_of (sys w) c = TASK_RUNNING
    \<Longrightarrow> wstep w (w\<lparr>sys := sleep_on_resume tmp (sys w), frames := (frames w)(c := None)\<rparr>)"
| wake: "wake_up (head w) (sys w) = (p, s1) \<Longrightarrow> wstep w (w\<lparr>sys := s1, head := p\<rparr>)"
| other: "sched_ok s1 \<Longrightarrow> \<forall>t. frames w t \<noteq> None \<longrightarrow> task s1 ! t \<noteq> None \<and> state_of s1 t = state_of (sys w) t
    \<Longrightarrow> wstep w (w\<lparr>sys := s1\<rparr>)"

inductive wreach :: "waitq \<Rightarrow> bool" where
  init: "sched_ok s \<Longrightarrow> wreach \<lparr>sys = s, head = None, frames = (\<lambda>_. None)\<rparr>"
| step: "wreach w \<Longrightarrow> wstep w w' \<Longrightarrow> wreach w'"

text \<open>The invariant: every process in the queue exists; the head is asleep and nobody's \<open>tmp\<close> names it; a
  process named by a \<open>tmp\<close> is asleep, and by one only; a process that is asleep is named by the head or
  by a \<open>tmp\<close>; and the \<open>tmp\<close> of a process names one that went to sleep before it.\<close>

definition winv :: "waitq \<Rightarrow> bool" where
  "winv w \<longleftrightarrow> sched_ok (sys w)
    \<and> (\<forall>t. frames w t \<noteq> None \<longrightarrow> t < NR_TASKS \<and> task (sys w) ! t \<noteq> None
         \<and> state_of (sys w) t \<in> {TASK_RUNNING, TASK_UNINTERRUPTIBLE})
    \<and> (\<forall>h. head w = Some h \<longrightarrow> asleep w h \<and> (\<forall>u. frames w u \<noteq> Some (Some h)))
    \<and> (\<forall>u t. frames w u = Some (Some t) \<longrightarrow> asleep w t \<and> (\<forall>v. frames w v = Some (Some t) \<longrightarrow> v = u))
    \<and> (\<forall>t. asleep w t \<longrightarrow> head w = Some t \<or> (\<exists>u. frames w u = Some (Some t)))
    \<and> (\<exists>age n. (\<forall>t. frames w t \<noteq> None \<longrightarrow> age t < (n :: nat))
         \<and> (\<forall>u t. frames w u = Some (Some t) \<longrightarrow> age t < age u))"

lemma set_state_simps [simp]:
  "current (set_state n v s) = current s" "length (task (set_state n v s)) = length (task s)"
  by (simp_all add: set_state_def)

lemma set_state_task:
  "i < length (task s) \<Longrightarrow> task (set_state n v s) ! i =
    (if i = n then map_option (\<lambda>p. p\<lparr>state := v\<rparr>) (task s ! i) else task s ! i)"
  by (simp add: set_state_def upd_task_nth)

lemma set_state_state_of:
  "i < length (task s) \<Longrightarrow> task s ! i \<noteq> None \<Longrightarrow>
    state_of (set_state n v s) i = (if i = n then v else state_of s i)"
  by (auto simp: state_of_def set_state_task)

lemma set_state_ok: "sched_ok s \<Longrightarrow> sched_ok (set_state n v s)"
  by (auto simp: sched_ok_def set_state_task slice_ok_def split: if_splits)

lemma sched_ok_length: "sched_ok s \<Longrightarrow> length (task s) = NR_TASKS"
  by (simp add: sched_ok_def)

lemma task_states: "TASK_RUNNING \<noteq> TASK_UNINTERRUPTIBLE" "TASK_INTERRUPTIBLE \<noteq> TASK_UNINTERRUPTIBLE"
  "TASK_RUNNING \<noteq> TASK_INTERRUPTIBLE" "TASK_RUNNING = 0"
  by (simp_all add: TASK_RUNNING_def TASK_UNINTERRUPTIBLE_def TASK_INTERRUPTIBLE_def)

text \<open>Going to sleep: one more process is asleep, and it is the new head.\<close>

lemma winv_sleep:
  assumes inv: "winv w" and t: "task (sys w) ! c \<noteq> None" "c < NR_TASKS" "frames w c = None"
    and s2: "sched_ok s2" "\<And>i. i < NR_TASKS \<Longrightarrow> task (sys w) ! i \<noteq> None \<Longrightarrow> task s2 ! i \<noteq> None"
      "state_of s2 c = TASK_UNINTERRUPTIBLE"
      "\<And>i. frames w i \<noteq> None \<Longrightarrow> state_of s2 i = state_of (sys w) i"
  shows "winv \<lparr>sys = s2, head = Some c, frames = (frames w)(c := Some (head w))\<rparr>" (is "winv ?w")
proof -
  obtain age n where age: "\<forall>t. frames w t \<noteq> None \<longrightarrow> age t < (n :: nat)"
    "\<forall>u t. frames w u = Some (Some t) \<longrightarrow> age t < age u"
    using inv unfolding winv_def by blast
  have as: "asleep ?w i \<longleftrightarrow> asleep w i \<or> i = c" for i
    using s2(3,4) t(3) task_states(1) by (auto simp: asleep_def)
  have unc: "frames w u \<noteq> Some (Some c)" for u
    using inv t(3) unfolding winv_def asleep_def by blast
  have hd: "head w = Some h \<Longrightarrow> asleep w h \<and> h \<noteq> c \<and> (\<forall>u. frames w u \<noteq> Some (Some h))" for h
    using inv t(3) unfolding winv_def asleep_def by blast
  show ?thesis
    unfolding winv_def
  proof (intro conjI)
    show "sched_ok (sys ?w)"
      using s2 by simp
    show "\<forall>i. frames ?w i \<noteq> None \<longrightarrow> i < NR_TASKS \<and> task (sys ?w) ! i \<noteq> None
         \<and> state_of (sys ?w) i \<in> {TASK_RUNNING, TASK_UNINTERRUPTIBLE}"
      using inv t s2 unfolding winv_def by simp
    show "\<forall>h. head ?w = Some h \<longrightarrow> asleep ?w h \<and> (\<forall>u. frames ?w u \<noteq> Some (Some h))"
      using as unc hd by auto
    show "\<forall>u t. frames ?w u = Some (Some t) \<longrightarrow> asleep ?w t \<and> (\<forall>v. frames ?w v = Some (Some t) \<longrightarrow> v = u)"
      using inv as hd unfolding winv_def by auto
    show "\<forall>t. asleep ?w t \<longrightarrow> head ?w = Some t \<or> (\<exists>u. frames ?w u = Some (Some t))"
    proof (intro allI impI)
      fix i assume "asleep ?w i"
      then consider "i = c" | "i \<noteq> c" "head w = Some i" | u where "i \<noteq> c" "frames w u = Some (Some i)"
        using inv as unfolding winv_def by blast
      then show "head ?w = Some i \<or> (\<exists>u. frames ?w u = Some (Some i))"
      proof cases
        case (3 u)
        then have "u \<noteq> c" using t(3) by auto
        with 3 show ?thesis by auto
      qed auto
    qed
    have "age t < n" if "head w = Some t \<or> frames w t \<noteq> None" for t
      using that age(1) hd by (auto simp: asleep_def)
    with age hd unc have "(\<forall>t. frames ?w t \<noteq> None \<longrightarrow> (age(c := n)) t < Suc n)
         \<and> (\<forall>u t. frames ?w u = Some (Some t) \<longrightarrow> (age(c := n)) t < (age(c := n)) u)"
      by (auto simp: less_SucI)
    then show "\<exists>age n. (\<forall>t. frames ?w t \<noteq> None \<longrightarrow> age t < (n :: nat))
         \<and> (\<forall>u t. frames ?w u = Some (Some t) \<longrightarrow> age t < age u)"
      by blast
  qed
qed

text \<open>Waking the process \<open>t\<close>, when it is the head or named by the departing process.\<close>

lemma winv_less:
  assumes inv: "winv w" and w': "sched_ok (sys w')" "\<And>i. frames w' i \<noteq> None \<Longrightarrow> frames w' i = frames w i"
      "\<And>i. frames w' i \<noteq> None \<Longrightarrow> task (sys w') ! i \<noteq> None"
      "\<And>i. frames w' i \<noteq> None \<Longrightarrow> i \<notin> T \<Longrightarrow> state_of (sys w') i = state_of (sys w) i"
      "\<And>i. frames w' i \<noteq> None \<Longrightarrow> i \<in> T \<Longrightarrow> state_of (sys w') i = TASK_RUNNING"
    and hd: "\<And>h. head w' = Some h \<Longrightarrow> head w = Some h \<and> h \<notin> T \<and> frames w' h \<noteq> None"
      "\<And>h. head w = Some h \<Longrightarrow> head w' = Some h \<or> h \<in> T"
    and un: "\<And>u t. frames w' u = Some (Some t) \<Longrightarrow> t \<notin> T \<and> frames w' t \<noteq> None"
      "\<And>u t. frames w u = Some (Some t) \<Longrightarrow> frames w' u = None \<Longrightarrow> t \<in> T"
  shows "winv w'"
proof -
  obtain age n where age: "\<forall>t. frames w t \<noteq> None \<longrightarrow> age t < (n :: nat)"
    "\<forall>u t. frames w u = Some (Some t) \<longrightarrow> age t < age u"
    using inv unfolding winv_def by blast
  have as: "asleep w' i \<longleftrightarrow> asleep w i \<and> frames w' i \<noteq> None \<and> i \<notin> T" for i
  proof (cases "frames w' i = None")
    case False
    from w'(2,4,5) [OF False] False show ?thesis
      by (cases "i \<in> T") (auto simp: asleep_def)
  qed (simp add: asleep_def)
  have fr: "frames w' u = Some x \<Longrightarrow> frames w u = Some x" for u x
    using w'(2) by force
  have h: "asleep w h \<and> (\<forall>u. frames w u \<noteq> Some (Some h))" if "head w = Some h" for h
    using inv that unfolding winv_def by blast
  have nm: "asleep w t" "v = u" if "frames w u = Some (Some t)" "frames w v = Some (Some t)" for u v t
    using inv that unfolding winv_def by blast+
  show ?thesis
    unfolding winv_def
  proof (intro conjI)
    show "\<forall>t. frames w' t \<noteq> None \<longrightarrow> t < NR_TASKS \<and> task (sys w') ! t \<noteq> None
         \<and> state_of (sys w') t \<in> {TASK_RUNNING, TASK_UNINTERRUPTIBLE}"
    proof (intro allI impI)
      fix i assume i: "frames w' i \<noteq> None"
      then have "i < NR_TASKS" "state_of (sys w) i \<in> {TASK_RUNNING, TASK_UNINTERRUPTIBLE}"
        using inv w'(2) unfolding winv_def by metis+
      then show "i < NR_TASKS \<and> task (sys w') ! i \<noteq> None
         \<and> state_of (sys w') i \<in> {TASK_RUNNING, TASK_UNINTERRUPTIBLE}"
        using i w'(3-5) by (cases "i \<in> T") auto
    qed
    show "\<forall>h. head w' = Some h \<longrightarrow> asleep w' h \<and> (\<forall>u. frames w' u \<noteq> Some (Some h))"
      using hd(1) as fr h by blast
    show "\<forall>u t. frames w' u = Some (Some t) \<longrightarrow> asleep w' t \<and> (\<forall>v. frames w' v = Some (Some t) \<longrightarrow> v = u)"
    proof (intro allI impI conjI)
      fix u t v assume u: "frames w' u = Some (Some t)"
      then show "asleep w' t"
        using un(1) [OF u] as nm(1) fr by blast
      show "v = u" if "frames w' v = Some (Some t)"
        by (rule nm(2) [OF fr [OF u] fr [OF that]])
    qed
    show "\<forall>t. asleep w' t \<longrightarrow> head w' = Some t \<or> (\<exists>u. frames w' u = Some (Some t))"
    proof (intro allI impI)
      fix t assume "asleep w' t"
      then have "asleep w t" "t \<notin> T"
        using as by blast+
      then consider "head w = Some t" | u where "frames w u = Some (Some t)"
        using inv unfolding winv_def by blast
      then show "head w' = Some t \<or> (\<exists>u. frames w' u = Some (Some t))"
      proof cases
        case (2 u)
        then have "frames w' u \<noteq> None"
          using un(2) \<open>t \<notin> T\<close> by blast
        with 2 w'(2) show ?thesis by metis
      qed (use hd(2) \<open>t \<notin> T\<close> in blast)
    qed
    show "\<exists>age n. (\<forall>t. frames w' t \<noteq> None \<longrightarrow> age t < (n :: nat))
         \<and> (\<forall>u t. frames w' u = Some (Some t) \<longrightarrow> age t < age u)"
      using age fr by (intro exI [of _ age] exI [of _ n]) (metis not_None_eq)
  qed (rule w')
qed

lemma winvD:
  assumes "winv w"
  shows "sched_ok (sys w)"
    and "frames w t \<noteq> None \<Longrightarrow> t < NR_TASKS \<and> task (sys w) ! t \<noteq> None
      \<and> state_of (sys w) t \<in> {TASK_RUNNING, TASK_UNINTERRUPTIBLE}"
    and "head w = Some h \<Longrightarrow> asleep w h \<and> frames w u \<noteq> Some (Some h)"
    and "frames w u = Some (Some t) \<Longrightarrow> asleep w t"
    and "frames w u = Some (Some t) \<Longrightarrow> frames w v = Some (Some t) \<Longrightarrow> v = u"
  using assms unfolding winv_def by blast+

lemma wstep_inv: "wstep w w' \<Longrightarrow> winv w \<Longrightarrow> winv w'"
proof (induction rule: wstep.induct)
  case (sleep w c p tmp s1 s2)
  have s1: "s1 = set_state c TASK_UNINTERRUPTIBLE (sys w)" "p = Some c" "tmp = head w"
    using sleep.hyps by (auto simp: sleep_on_enter_def Let_def split: if_splits)
  have ok: "sched_ok (sys w)" "length (task (sys w)) = NR_TASKS"
    using winvD(1) [OF sleep.prems] sched_ok_length by auto
  have ok1: "sched_ok s1"
    unfolding s1 by (rule set_state_ok [OF ok(1)])
  have st: "state_of s2 i = state_of s1 i \<or> state_of s1 i = TASK_INTERRUPTIBLE"
      "task s2 ! i \<noteq> None" if it: "i < NR_TASKS" "task (sys w) ! i \<noteq> None" for i
  proof -
    have "task s1 ! i \<noteq> None"
      using it ok(2) by (cases "i = c") (auto simp: s1 set_state_task)
    then obtain q where "task s1 ! i = Some q"
      by blast
    from schedule_state [OF ok1 sleep.hyps(6) it(1) this]
    show "state_of s2 i = state_of s1 i \<or> state_of s1 i = TASK_INTERRUPTIBLE" "task s2 ! i \<noteq> None"
      by blast+
  qed
  have s1s: "state_of s1 i = (if i = c then TASK_UNINTERRUPTIBLE else state_of (sys w) i)"
    if "i < NR_TASKS" "task (sys w) ! i \<noteq> None" for i
    unfolding s1 using that ok(2) by (intro set_state_state_of) auto
  show ?case
    unfolding s1(2,3)
  proof (rule winv_sleep [OF sleep.prems sleep.hyps(1,3,4)])
    show "sched_ok s2"
      by (rule schedule_ok [OF ok1 sleep.hyps(6)])
    show "state_of s2 c = TASK_UNINTERRUPTIBLE"
      using st(1) [of c] s1s [of c] sleep.hyps(1,3) task_states by auto
    fix i assume i: "frames w i \<noteq> None"
    then have "i \<noteq> c"
      using sleep.hyps(4) by blast
    then show "state_of s2 i = state_of (sys w) i"
      using winvD(2) [OF sleep.prems i] st(1) [of i] s1s [of i] task_states by auto
  qed (use st in blast)
next
  case (resume c w tmp)
  note d = winvD [OF resume.prems]
  have ok: "length (task (sys w)) = NR_TASKS"
    using d(1) by (rule sched_ok_length)
  let ?s = "sleep_on_resume tmp (sys w)"
  have sok: "sched_ok ?s"
    using d(1) by (auto simp: sleep_on_resume_def set_state_ok split: option.splits)
  have st: "state_of ?s i = (if i \<in> set_option tmp then TASK_RUNNING else state_of (sys w) i)"
    "task ?s ! i \<noteq> None" if "frames w i \<noteq> None" for i
    using d(2) [OF that] ok task_states(4)
    by (auto simp: sleep_on_resume_def set_state_state_of set_state_task split: option.splits)
  have nc: "frames w u \<noteq> Some (Some c)" "head w \<noteq> Some c" for u
    using d(3) [of c] d(4) [of u c] resume.hyps by (auto simp: asleep_def)
  show ?case
  proof (rule winv_less [OF resume.prems, where T = "set_option tmp"])
    fix h assume h: "head (w\<lparr>sys := ?s, frames := (frames w)(c := None)\<rparr>) = Some h"
    then show "head w = Some h \<and> h \<notin> set_option tmp
        \<and> frames (w\<lparr>sys := ?s, frames := (frames w)(c := None)\<rparr>) h \<noteq> None"
      using d(3) [of h c] resume.hyps nc(2) by (auto simp: asleep_def)
  next
    fix u t assume "frames (w\<lparr>sys := ?s, frames := (frames w)(c := None)\<rparr>) u = Some (Some t)"
    then have u: "u \<noteq> c" "frames w u = Some (Some t)"
      by (auto split: if_splits)
    then have "t \<noteq> c" "asleep w t"
      using nc(1) d(4) by blast+
    then show "t \<notin> set_option tmp \<and> frames (w\<lparr>sys := ?s, frames := (frames w)(c := None)\<rparr>) t \<noteq> None"
      using d(5) [OF u(2), of c] u(1) resume.hyps(2) by (auto simp: asleep_def)
  qed (use sok st resume.hyps in \<open>auto split: if_splits\<close>)
next
  case (wake w p s1)
  note d = winvD [OF wake.prems]
  have ok: "length (task (sys w)) = NR_TASKS"
    using d(1) by (rule sched_ok_length)
  have p: "p = None" "s1 = (case head w of None \<Rightarrow> sys w | Some q \<Rightarrow> set_state q 0 (sys w))"
    using wake.hyps by (auto simp: wake_up_def split: option.splits)
  have sok: "sched_ok s1"
    using d(1) by (auto simp: p set_state_ok split: option.splits)
  have st: "state_of s1 i = (if i \<in> set_option (head w) then TASK_RUNNING else state_of (sys w) i)"
    "task s1 ! i \<noteq> None" if "frames w i \<noteq> None" for i
    using d(2) [OF that] ok task_states(4)
    by (auto simp: p set_state_state_of set_state_task split: option.splits)
  show ?case
  proof (rule winv_less [OF wake.prems, where T = "set_option (head w)"])
    fix u t assume "frames (w\<lparr>sys := s1, head := p\<rparr>) u = Some (Some t)"
    then have "frames w u = Some (Some t)"
      by simp
    then show "t \<notin> set_option (head w) \<and> frames (w\<lparr>sys := s1, head := p\<rparr>) t \<noteq> None"
      using d(3) [of t u] d(4) [of u t] by (auto simp: asleep_def)
  qed (use sok st p(1) in \<open>auto split: if_splits\<close>)
next
  case (other s1 w)
  note d = winvD [OF other.prems]
  show ?case
  proof (rule winv_less [OF other.prems, where T = "{}"])
    show "\<And>u t. frames (w\<lparr>sys := s1\<rparr>) u = Some (Some t) \<Longrightarrow> t \<notin> {} \<and> frames (w\<lparr>sys := s1\<rparr>) t \<noteq> None"
      using d(4) by (auto simp: asleep_def)
    show "\<And>h. head (w\<lparr>sys := s1\<rparr>) = Some h \<Longrightarrow>
        head w = Some h \<and> h \<notin> {} \<and> frames (w\<lparr>sys := s1\<rparr>) h \<noteq> None"
      using d(3) by (auto simp: asleep_def)
  qed (use other.hyps in auto)
qed

lemma wreach_inv: "wreach w \<Longrightarrow> winv w"
proof (induction rule: wreach.induct)
  case (init s)
  then show ?case by (simp add: winv_def asleep_def)
qed (rule wstep_inv)

text \<open>\<open>(u, t)\<close>: the process \<open>u\<close> will wake \<open>t\<close> when it leaves \<open>sleep_on\<close>.\<close>

definition wakes :: "waitq \<Rightarrow> (nat \<times> nat) set" where
  "wakes w = {(u, t). frames w u = Some (Some t)}"

text \<open>C14: no wakeup is lost in a queue whose processes use \<open>sleep_on\<close>: in every reachable state a process
  that is asleep in it is the head of the queue, or will be woken, through a chain of processes
  each of which wakes the next when it leaves, by the head or by a process that is awake.\<close>

theorem sleep_on_loses_nobody:
  assumes "wreach w" "asleep w t"
  shows "\<exists>u. (u, t) \<in> (wakes w)\<^sup>* \<and> (head w = Some u \<or> awake w u)"
proof -
  note inv = wreach_inv [OF assms(1)]
  obtain age n where age: "\<forall>t. frames w t \<noteq> None \<longrightarrow> age t < (n :: nat)"
    "\<forall>u t. frames w u = Some (Some t) \<longrightarrow> age t < age u"
    using inv unfolding winv_def by blast
  show ?thesis
    using assms(2)
  proof (induction "n - age t" arbitrary: t rule: less_induct)
    case less
    consider "head w = Some t" | u where "frames w u = Some (Some t)"
      using inv less.prems unfolding winv_def by blast
    then show ?case
    proof cases
      case (2 u)
      then have ut: "(u, t) \<in> wakes w" "age t < age u" "age u < n"
        using age by (auto simp: wakes_def)
      show ?thesis
      proof (cases "awake w u")
        case False
        then have "asleep w u"
          using 2 by (auto simp: awake_def asleep_def)
        then obtain v where "(v, u) \<in> (wakes w)\<^sup>*" "head w = Some v \<or> awake w v"
          using less.hyps [of u] diff_less_mono2 [OF ut(2)] ut(2,3) by (meson less_trans)
        with ut(1) show ?thesis by (meson rtrancl.rtrancl_into_rtrancl)
      qed (use ut in blast)
    qed blast
  qed
qed

lemma sleep_on_loses_nobody_witness:
  "\<exists>w. wreach w \<and> asleep w 3 \<and> (\<exists>u. (u, 3) \<in> (wakes w)\<^sup>* \<and> (head w = Some u \<or> awake w u))"
proof -
  let ?w = "\<lparr>sys = two_tasks, head = None, frames = (\<lambda>_. None)\<rparr>"
  let ?s1 = "set_state 3 TASK_UNINTERRUPTIBLE two_tasks"
  have b: "3 < NR_TASKS" "7 < NR_TASKS" "0 < NR_TASKS"
    by (simp_all add: NR_TASKS_def)
  have t: "current two_tasks = 3" "task two_tasks ! 3 \<noteq> None" "length (task two_tasks) = NR_TASKS"
    using b by (simp_all add: two_tasks_def)
  have ok: "sched_ok ?s1"
    by (rule set_state_ok [OF two_tasks_ok])
  then obtain s2 where s2: "schedule ?s1 = Some s2"
    using schedule_correct by blast
  have e: "sleep_on_enter None two_tasks = Ret (Some 3, None, ?s1)"
    by (simp add: sleep_on_enter_def t)
  have st: "state_of ?s1 3 = TASK_UNINTERRUPTIBLE" "task ?s1 ! 3 \<noteq> None"
    using t b by (auto simp: set_state_state_of set_state_task)
  then have "state_of s2 3 = TASK_UNINTERRUPTIBLE"
    using schedule_state(1) [OF ok s2 b(1)] task_states by auto
  then have a: "asleep \<lparr>sys = s2, head = Some 3, frames = (\<lambda>_. None)(3 := Some None)\<rparr> 3"
    using task_states by (simp add: asleep_def)
  have f: "(\<lambda>_. None)(3 := Some None) = (frames ?w)(3 := Some None)"
    by simp
  have "wstep ?w \<lparr>sys = s2, head = Some 3, frames = (frames ?w)(3 := Some None)\<rparr>"
    by (rule wstep.sleep [OF _ _ _ _ _ s2]) (use t b e in simp_all)
  then have r: "wreach \<lparr>sys = s2, head = Some 3, frames = (\<lambda>_. None)(3 := Some None)\<rparr>"
    unfolding f by (rule wreach.step [OF wreach.init [OF two_tasks_ok]])
  show ?thesis
    by (rule exI, rule conjI, rule r, rule conjI, rule a, rule sleep_on_loses_nobody [OF r a])
qed

section \<open>\<open>interruptible_sleep_on\<close>\<close>









end
