(* ===== verification/Fs.thy ===== *)
theory Fs imports Memory begin

unbundle bit_operations_syntax

text \<open>
  \<open>include/linux/fs.h\<close> and \<open>kernel/blk_drv/blk.h\<close>: the tables of the file system and of the
  block devices, and the state of the kernel they make up with physical memory and the current
  process.

  Pointers into a table are indices of it, \<open>NULL\<close> is \<open>None\<close>. A buffer's \<open>b_data\<close> points to its own
  1024 bytes for the life of the system, so the bytes are a field of the buffer. Unsigned
  integers that are only counted and compared are natural numbers, reduced to their width
  where the code stores them; modes and permission bits are words. One process runs at a time;
  waiting for a lock nobody else will release is \<open>Hang\<close>, and \<open>wake_up\<close> on the queues of locks
  has no effect on this state. Of the terminals, the process groups are part of the state.
\<close>

definition READ :: int where "READ = 0"
definition WRITE :: int where "WRITE = 1"
definition READA :: int where "READA = 2"
definition WRITEA :: int where "WRITEA = 3"

definition NR_INODE :: nat where "NR_INODE = 32"
definition NR_FILE :: nat where "NR_FILE = 64"
definition NR_SUPER :: nat where "NR_SUPER = 8"
definition NR_HASH :: nat where "NR_HASH = 307"
definition BLOCK_SIZE :: nat where "BLOCK_SIZE = 1024"
definition NR_BLK_DEV :: nat where "NR_BLK_DEV = 7"
definition NR_REQUEST :: nat where "NR_REQUEST = 32"
definition I_MAP_SLOTS :: nat where "I_MAP_SLOTS = 8"
definition Z_MAP_SLOTS :: nat where "Z_MAP_SLOTS = 8"
definition SUPER_MAGIC :: nat where "SUPER_MAGIC = 0x137F"
definition ROOT_INO :: nat where "ROOT_INO = 1"
definition INODES_PER_BLOCK :: nat where "INODES_PER_BLOCK = 32"
definition DIR_ENTRIES_PER_BLOCK :: nat where "DIR_ENTRIES_PER_BLOCK = 64"
definition NAME_LEN :: nat where "NAME_LEN = 14"

definition MAJOR :: "nat \<Rightarrow> nat" where "MAJOR a = a div 256"
definition MINOR :: "nat \<Rightarrow> nat" where "MINOR a = a mod 256"

record buffer_head =
  b_data :: "u8 list"
  b_blocknr :: nat
  b_dev :: nat
  b_uptodate :: bool
  b_dirt :: bool
  b_count :: nat
  b_lock :: bool
  b_prev :: "nat option"
  b_next :: "nat option"
  b_prev_free :: "nat option"
  b_next_free :: "nat option"

record m_inode =
  i_mode :: u16
  i_uid :: u16
  i_size :: nat
  i_mtime :: u32
  i_gid :: u8
  i_nlinks :: nat
  i_zone :: "nat list"
  i_atime :: u32
  i_ctime :: u32
  i_dev :: nat
  i_num :: nat
  i_count :: nat
  i_lock :: bool
  i_dirt :: bool
  i_pipe :: bool
  i_mount :: bool

record file_t =
  f_mode :: u16
  f_flags :: u16
  f_count :: nat
  f_inode :: "nat option"
  f_pos :: int

record super_block =
  s_ninodes :: nat
  s_nzones :: nat
  s_imap_blocks :: nat
  s_zmap_blocks :: nat
  s_firstdatazone :: nat
  s_log_zone_size :: nat
  s_max_size :: nat
  s_magic :: nat
  s_imap :: "nat option list"
  s_zmap :: "nat option list"
  s_dev :: nat
  s_isup :: "nat option"
  s_imount :: "nat option"
  s_time :: u32
  s_lock :: bool
  s_rd_only :: bool
  s_dirt :: bool

record request =
  r_dev :: int
  r_cmd :: int
  r_errors :: int
  r_sector :: nat
  r_nr_sectors :: nat
  r_bh :: "nat option"
  r_next :: "nat option"

text \<open>The driver behind a major number: the RAM disk, which completes a request before it returns,
  or one that completes it by an interrupt later.\<close>

datatype driver = do_rd_request | By_interrupt nat

record blk_dev_struct =
  request_fn :: "driver option"
  current_request :: "nat option"

record kernel =
  mem :: mm
  bufs :: "buffer_head list"
  hash_table :: "nat option list"
  free_list :: nat
  null_prev :: "nat option"
  requests :: "request list"
  blk_dev :: "blk_dev_struct list"
  rd_start :: nat
  rd_length :: nat
  inode_table :: "m_inode list"
  last_inode :: nat
  super_blocks :: "super_block list"
  ROOT_DEV :: nat
  file_table :: "file_t list"
  proc :: task_struct
  now :: u32
  user :: "u32 \<Rightarrow> u8"
  floppy_changed :: "nat \<Rightarrow> bool"
  port_in :: "nat \<Rightarrow> u8"
  port_out :: "(u8 \<times> nat) list"
  tty_pgrp :: "int list"

text \<open>Stores to a field of a table entry.\<close>

definition upd_buf :: "nat \<Rightarrow> (buffer_head \<Rightarrow> buffer_head) \<Rightarrow> kernel \<Rightarrow> kernel" where
  "upd_buf b f s = s\<lparr>bufs := (bufs s)[b := f (bufs s ! b)]\<rparr>"

definition upd_inode :: "nat \<Rightarrow> (m_inode \<Rightarrow> m_inode) \<Rightarrow> kernel \<Rightarrow> kernel" where
  "upd_inode i f s = s\<lparr>inode_table := (inode_table s)[i := f (inode_table s ! i)]\<rparr>"

definition upd_super :: "nat \<Rightarrow> (super_block \<Rightarrow> super_block) \<Rightarrow> kernel \<Rightarrow> kernel" where
  "upd_super i f s = s\<lparr>super_blocks := (super_blocks s)[i := f (super_blocks s ! i)]\<rparr>"

definition upd_file :: "nat \<Rightarrow> (file_t \<Rightarrow> file_t) \<Rightarrow> kernel \<Rightarrow> kernel" where
  "upd_file i f s = s\<lparr>file_table := (file_table s)[i := f (file_table s ! i)]\<rparr>"

definition upd_req :: "nat \<Rightarrow> (request \<Rightarrow> request) \<Rightarrow> kernel \<Rightarrow> kernel" where
  "upd_req i f s = s\<lparr>requests := (requests s)[i := f (requests s ! i)]\<rparr>"

definition upd_blk :: "nat \<Rightarrow> (blk_dev_struct \<Rightarrow> blk_dev_struct) \<Rightarrow> kernel \<Rightarrow> kernel" where
  "upd_blk i f s = s\<lparr>blk_dev := (blk_dev s)[i := f (blk_dev s ! i)]\<rparr>"

text \<open>Bytes of physical memory, which is little endian.\<close>

definition load_byte :: "mm \<Rightarrow> nat \<Rightarrow> u8" where
  "load_byte m a = ucast (drop_bit (8 * (a mod 4)) (phys m (of_nat (a - a mod 4))))"

definition store_byte :: "nat \<Rightarrow> u8 \<Rightarrow> mm \<Rightarrow> mm" where
  "store_byte a v m =
    (let w = of_nat (a - a mod 4); k = 8 * (a mod 4)
     in store w ((phys m w AND NOT (push_bit k 0xff)) OR push_bit k (ucast v)) m)"

definition load_bytes :: "mm \<Rightarrow> nat \<Rightarrow> nat \<Rightarrow> u8 list" where
  "load_bytes m a n = map (\<lambda>i. load_byte m (a + i)) [0..<n]"

text \<open>\<open>memcpy\<close> to memory.\<close>

primrec store_bytes :: "nat \<Rightarrow> u8 list \<Rightarrow> mm \<Rightarrow> mm" where
  "store_bytes a [] m = m"
| "store_bytes a (x # xs) m = store_bytes (Suc a) xs (store_byte a x m)"

text \<open>Little-endian 16-bit and 32-bit fields of a block.\<close>

definition get16 :: "u8 list \<Rightarrow> nat \<Rightarrow> nat" where
  "get16 d k = unat (d ! k) + 256 * unat (d ! Suc k)"

definition put16 :: "nat \<Rightarrow> nat \<Rightarrow> u8 list \<Rightarrow> u8 list" where
  "put16 k v d = d[k := of_nat v, Suc k := of_nat (v div 256)]"

definition get32 :: "u8 list \<Rightarrow> nat \<Rightarrow> nat" where
  "get32 d k = get16 d k + 65536 * get16 d (k + 2)"

definition put32 :: "nat \<Rightarrow> nat \<Rightarrow> u8 list \<Rightarrow> u8 list" where
  "put32 k v d = put16 (k + 2) (v div 65536) (put16 k v d)"

text \<open>Entry \<open>i\<close> of an indirect block.\<close>

definition zone_at :: "u8 list \<Rightarrow> nat \<Rightarrow> nat" where
  "zone_at d i = get16 d (2 * i)"

definition set_zone_at :: "nat \<Rightarrow> nat \<Rightarrow> u8 list \<Rightarrow> u8 list" where
  "set_zone_at i z d = put16 (2 * i) z d"

lemma put16_length [simp]: "length (put16 k v d) = length d"
  by (simp add: put16_def)

lemma put32_length [simp]: "length (put32 k v d) = length d"
  by (simp add: put32_def)

lemma get16_put16:
  assumes "Suc k < length d"
  shows "get16 (put16 k v d) k = v mod 65536"
proof -
  have "unat (of_nat v :: u8) = v mod 256" "unat (of_nat (v div 256) :: u8) = v div 256 mod 256"
    by (simp_all add: unat_of_nat)
  then have "get16 (put16 k v d) k = v mod 256 + 256 * (v div 256 mod 256)"
    using assms by (simp add: get16_def put16_def)
  also have "\<dots> = v mod (256 * 256)"
    by (simp only: mod_mult2_eq add.commute)
  finally show ?thesis by simp
qed

lemma get16_put16_other:
  "j \<noteq> k \<Longrightarrow> j \<noteq> Suc k \<Longrightarrow> Suc j \<noteq> k \<Longrightarrow> get16 (put16 k v d) j = get16 d j"
  by (simp add: get16_def put16_def)

lemma get32_put32:
  assumes "k + 3 < length d"
  shows "get32 (put32 k v d) k = v mod 2 ^ 32"
proof -
  have "get32 (put32 k v d) k = v mod 65536 + 65536 * (v div 65536 mod 65536)"
    using assms by (simp add: get32_def put32_def get16_put16 get16_put16_other)
  also have "\<dots> = v mod (65536 * 65536)"
    by (simp only: mod_mult2_eq add.commute)
  finally show ?thesis by simp
qed

lemma zone_at_set:
  "2 * i + 1 < length d \<Longrightarrow>
    zone_at (set_zone_at i z d) j = (if j = i then z mod 65536 else zone_at d j)"
proof -
  assume "2 * i + 1 < length d"
  moreover have "2 * j \<noteq> Suc (2 * i)" "Suc (2 * j) \<noteq> 2 * i"
    by presburger+
  ultimately show ?thesis
    by (simp add: zone_at_def set_zone_at_def get16_put16 get16_put16_other)
qed

section \<open>Bytes of memory\<close>

text \<open>A byte stored is the byte loaded, and no other byte changes.\<close>

lemma bit_byte_in_word:
  "bit (((w :: u32) AND NOT (push_bit (8 * k) 0xff)) OR push_bit (8 * k) (ucast (v :: u8))) i \<longleftrightarrow>
    i < 32 \<and> (if 8 * k \<le> i \<and> i < 8 * k + 8 then bit v (i - 8 * k) else bit w i)"
  if "k < 4"
proof -
  have ff: "bit (255 :: int) j \<longleftrightarrow> j < 8" for j
  proof -
    have "(255 :: int) = mask 8" by (simp add: mask_eq_exp_minus_1)
    then have "bit (255 :: int) j \<longleftrightarrow> bit (mask 8 :: int) j" by (simp only:)
    then show ?thesis by (simp only: bit_mask_iff) (auto simp: possible_bit_def)
  qed
  show ?thesis using that
    by (auto simp: bit_or_iff bit_and_iff bit_not_iff bit_push_bit_iff bit_ucast_iff ff possible_bit_def
        dest: bit_imp_le_length)
qed

lemma of_nat_u32_inject: "x < 2 ^ 32 \<Longrightarrow> y < 2 ^ 32 \<Longrightarrow> (of_nat x :: u32) = of_nat y \<longleftrightarrow> x = y"
  by (simp add: word_unat_eq_iff unat_of_nat)

lemma load_byte_word: "load_byte m (4 * p + k) = ucast (drop_bit (8 * k) (phys m (of_nat (4 * p))))"
  if "k < 4"
  using that by (simp add: load_byte_def)

lemma store_byte_word:
  "store_byte (4 * p + k) v m = store (of_nat (4 * p))
    ((phys m (of_nat (4 * p)) AND NOT (push_bit (8 * k) 0xff)) OR push_bit (8 * k) (ucast v)) m" if "k < 4"
  using that by (simp add: store_byte_def Let_def)

lemma load_store_byte:
  assumes "a < 2 ^ 32" "a' < 2 ^ 32"
  shows "load_byte (store_byte a v m) a' = (if a' = a then v else load_byte m a')"
proof -
  obtain p k where a: "a = 4 * p + k" "k < 4"
    using mult_div_mod_eq [of 4 a] mod_less_divisor [of 4 a] by (metis zero_less_numeral)
  obtain p' k' where a': "a' = 4 * p' + k'" "k' < 4"
    using mult_div_mod_eq [of 4 a'] mod_less_divisor [of 4 a'] by (metis zero_less_numeral)
  have pp: "(of_nat (4 * p') :: u32) = of_nat (4 * p) \<longleftrightarrow> p' = p"
    using assms a a' by (subst of_nat_u32_inject) simp_all
  show ?thesis
  proof (cases "p' = p")
    case False
    then have "a' \<noteq> a" using a a' by arith
    then show ?thesis
      using False pp unfolding a(1) a'(1)
        by (simp only: load_byte_word [OF a(2)] load_byte_word [OF a'(2)] store_byte_word [OF a(2)] store_simps fun_upd_def if_False)
  next
    case True
    have eq: "4 * p + k' = 4 * p + k \<longleftrightarrow> k' = k" by simp
    have "bit (ucast (drop_bit (8 * k') ((w AND NOT (push_bit (8 * k) 0xff))
            OR push_bit (8 * k) (ucast v))) :: u8) n
        = bit (if k' = k then v else ucast (drop_bit (8 * k') w)) n" if "n < 8" for w :: u32 and n
    proof -
      have "8 * k \<le> 8 * k' + n \<and> 8 * k' + n < 8 * k + 8 \<longleftrightarrow> k' = k" "8 * k' + n < 32"
        using that a(2) a'(2) by arith+
      with that a(2) show ?thesis
        by (cases "k' = k") (simp_all only: bit_ucast_iff bit_drop_bit_eq comp_def bit_byte_in_word, simp_all add: bit_simps)
    qed
    then have "ucast (drop_bit (8 * k') ((w AND NOT (push_bit (8 * k) 0xff))
            OR push_bit (8 * k) (ucast v))) = (if k' = k then v else ucast (drop_bit (8 * k') w))" for w :: u32
      by (intro bit_word_eqI) simp
    then show ?thesis
      using a a' True by (simp only: load_byte_word store_byte_word store_simps fun_upd_same eq)
  qed
qed

lemma store_byte_mm [simp]:
  "mem_map (store_byte a v m) = mem_map m" "HIGH_MEMORY (store_byte a v m) = HIGH_MEMORY m"
  by (simp_all add: store_byte_def Let_def store_def)

lemma load_store_bytes:
  assumes "a + length xs \<le> 2 ^ 32" "b < 2 ^ 32"
  shows "load_byte (store_bytes a xs m) b =
    (if a \<le> b \<and> b < a + length xs then xs ! (b - a) else load_byte m b)"
  using assms
proof (induction xs arbitrary: a m)
  case (Cons x xs)
  have *: "b - a = Suc (b - Suc a)" if "Suc a \<le> b" using that by simp
  from Cons show ?case
    by (cases "b = a") (simp_all add: load_store_byte *)
next
  case Nil
  then show ?case by (cases "a \<le> b") simp_all
qed

lemma store_bytes_mm [simp]:
  "mem_map (store_bytes a xs m) = mem_map m" "HIGH_MEMORY (store_bytes a xs m) = HIGH_MEMORY m"
  by (induction xs arbitrary: a m) simp_all

lemma length_load_bytes [simp]: "length (load_bytes m a n) = n"
  by (simp add: load_bytes_def)

lemma load_bytes_stored:
  assumes "a + length xs \<le> 2 ^ 32"
  shows "load_bytes (store_bytes a xs m) a (length xs) = xs"
proof (rule nth_equalityI)
  fix i assume "i < length (load_bytes (store_bytes a xs m) a (length xs))"
  then have "i < length xs" by simp
  with assms have "a + i < 2 ^ 32" by linarith
  with assms \<open>i < length xs\<close> show "load_bytes (store_bytes a xs m) a (length xs) ! i = xs ! i"
    by (simp add: load_bytes_def load_store_bytes del: One_nat_def)
qed simp

lemma load_bytes_other:
  assumes "a + length xs \<le> 2 ^ 32" "b + n \<le> 2 ^ 32" "b + n \<le> a \<or> a + length xs \<le> b"
  shows "load_bytes (store_bytes a xs m) b n = load_bytes m b n"
proof -
  have "load_byte (store_bytes a xs m) (b + i) = load_byte m (b + i)" if "i < n" for i
  proof -
    from that assms(2) have "b + i < 2 ^ 32" by linarith
    moreover from that assms(3) have "\<not> (a \<le> b + i \<and> b + i < a + length xs)" by linarith
    ultimately show ?thesis by (simp only: load_store_bytes [OF assms(1)] if_False)
  qed
  then show ?thesis by (simp add: load_bytes_def)
qed

section \<open>Accessors of the table updates\<close>

lemma upd_buf_simps [simp]:
  "bufs (upd_buf b f s) = (bufs s)[b := f (bufs s ! b)]"
  "mem (upd_buf b f s) = mem s" "hash_table (upd_buf b f s) = hash_table s"
  "free_list (upd_buf b f s) = free_list s" "requests (upd_buf b f s) = requests s"
  "blk_dev (upd_buf b f s) = blk_dev s" "rd_start (upd_buf b f s) = rd_start s"
  "rd_length (upd_buf b f s) = rd_length s" "inode_table (upd_buf b f s) = inode_table s"
  "super_blocks (upd_buf b f s) = super_blocks s" "file_table (upd_buf b f s) = file_table s"
  "proc (upd_buf b f s) = proc s" "now (upd_buf b f s) = now s" "user (upd_buf b f s) = user s"
  "null_prev (upd_buf b f s) = null_prev s" "ROOT_DEV (upd_buf b f s) = ROOT_DEV s"
  "last_inode (upd_buf b f s) = last_inode s"
  by (simp_all add: upd_buf_def)

lemma upd_inode_simps [simp]:
  "inode_table (upd_inode i g s) = (inode_table s)[i := g (inode_table s ! i)]"
  "mem (upd_inode i g s) = mem s" "bufs (upd_inode i g s) = bufs s"
  "hash_table (upd_inode i g s) = hash_table s" "free_list (upd_inode i g s) = free_list s"
  "requests (upd_inode i g s) = requests s" "blk_dev (upd_inode i g s) = blk_dev s"
  "rd_start (upd_inode i g s) = rd_start s" "rd_length (upd_inode i g s) = rd_length s"
  "super_blocks (upd_inode i g s) = super_blocks s" "file_table (upd_inode i g s) = file_table s"
  "proc (upd_inode i g s) = proc s" "now (upd_inode i g s) = now s" "user (upd_inode i g s) = user s"
  "ROOT_DEV (upd_inode i g s) = ROOT_DEV s" "last_inode (upd_inode i g s) = last_inode s"
  by (simp_all add: upd_inode_def)

lemma upd_req_simps [simp]:
  "requests (upd_req r q s) = (requests s)[r := q (requests s ! r)]"
  "mem (upd_req r q s) = mem s" "bufs (upd_req r q s) = bufs s"
  "hash_table (upd_req r q s) = hash_table s" "free_list (upd_req r q s) = free_list s"
  "blk_dev (upd_req r q s) = blk_dev s" "rd_start (upd_req r q s) = rd_start s"
  "rd_length (upd_req r q s) = rd_length s" "inode_table (upd_req r q s) = inode_table s"
  "super_blocks (upd_req r q s) = super_blocks s" "file_table (upd_req r q s) = file_table s"
  "proc (upd_req r q s) = proc s" "user (upd_req r q s) = user s"
  by (simp_all add: upd_req_def)

lemma upd_blk_simps [simp]:
  "blk_dev (upd_blk k d s) = (blk_dev s)[k := d (blk_dev s ! k)]"
  "mem (upd_blk k d s) = mem s" "bufs (upd_blk k d s) = bufs s"
  "hash_table (upd_blk k d s) = hash_table s" "free_list (upd_blk k d s) = free_list s"
  "requests (upd_blk k d s) = requests s" "rd_start (upd_blk k d s) = rd_start s"
  "rd_length (upd_blk k d s) = rd_length s" "inode_table (upd_blk k d s) = inode_table s"
  "super_blocks (upd_blk k d s) = super_blocks s" "file_table (upd_blk k d s) = file_table s"
  "proc (upd_blk k d s) = proc s" "user (upd_blk k d s) = user s"
  by (simp_all add: upd_blk_def)

section \<open>A kernel with empty tables\<close>

text \<open>The state before anything is set up, from which concrete runs are built.\<close>

definition blank_inode :: m_inode where
  "blank_inode =
    \<lparr>i_mode = 0, i_uid = 0, i_size = 0, i_mtime = 0, i_gid = 0, i_nlinks = 0, i_zone = replicate 9 0,
     i_atime = 0, i_ctime = 0, i_dev = 0, i_num = 0, i_count = 0, i_lock = False, i_dirt = False,
     i_pipe = False, i_mount = False\<rparr>"

definition blank_super :: super_block where
  "blank_super =
    \<lparr>s_ninodes = 0, s_nzones = 0, s_imap_blocks = 0, s_zmap_blocks = 0, s_firstdatazone = 0,
     s_log_zone_size = 0, s_max_size = 0, s_magic = 0, s_imap = replicate 8 None,
     s_zmap = replicate 8 None, s_dev = 0, s_isup = None, s_imount = None, s_time = 0,
     s_lock = False, s_rd_only = False, s_dirt = False\<rparr>"

definition blank_buffer :: buffer_head where
  "blank_buffer =
    \<lparr>b_data = replicate 1024 0, b_blocknr = 0, b_dev = 0, b_uptodate = False, b_dirt = False,
     b_count = 0, b_lock = False, b_prev = None, b_next = None, b_prev_free = None, b_next_free = None\<rparr>"

definition blank_kernel :: kernel where
  "blank_kernel =
    \<lparr>mem = \<lparr>phys = \<lambda>_. 0, mem_map = replicate PAGING_PAGES USED, HIGH_MEMORY = 0x1000000\<rparr>,
     bufs = [], hash_table = replicate NR_HASH None, free_list = 0, null_prev = None,
     requests = replicate NR_REQUEST \<lparr>r_dev = - 1, r_cmd = 0, r_errors = 0, r_sector = 0,
       r_nr_sectors = 0, r_bh = None, r_next = None\<rparr>,
     blk_dev = replicate NR_BLK_DEV \<lparr>request_fn = None, current_request = None\<rparr>,
     rd_start = 0, rd_length = 0,
     inode_table = replicate NR_INODE blank_inode, last_inode = 0,
     super_blocks = replicate NR_SUPER blank_super, ROOT_DEV = 0,
     file_table = replicate NR_FILE \<lparr>f_mode = 0, f_flags = 0, f_count = 0, f_inode = None, f_pos = 0\<rparr>,
     proc = INIT_TASK 0, now = 0, user = (\<lambda>_. 0), floppy_changed = (\<lambda>_. False),
     port_in = (\<lambda>_. 0), port_out = [], tty_pgrp = replicate 3 0\<rparr>"

end
