(* ===== verification/Blk.thy ===== *)
theory Blk imports Fs begin

unbundle bit_operations_syntax

text \<open>
  \<open>kernel/blk_drv\<close>: the request queue with its elevator (\<open>ll_rw_blk.c\<close>, \<open>blk.h\<close>) and the RAM disk
  (\<open>ramdisk.c\<close>). The RAM disk's driver works through the queue of its major number before it
  returns, so a transfer to or from it is complete when \<open>ll_rw_block\<close> returns; a driver that works
  by interrupts (disk and floppy) leaves the request in the queue and the buffer locked.
\<close>

section \<open>Ending a request\<close>

text \<open>\<open>unlock_buffer\<close>; the warning it prints about an unlocked buffer does not change the state.\<close>

definition unlock_buffer :: "nat \<Rightarrow> kernel \<Rightarrow> kernel" where
  "unlock_buffer b s = upd_buf b (\<lambda>h. h\<lparr>b_lock := False\<rparr>) s"

definition lock_buffer :: "nat \<Rightarrow> kernel \<Rightarrow> kernel kres" where
  "lock_buffer b s = (if b_lock (bufs s ! b) then Hang else Ret (upd_buf b (\<lambda>h. h\<lparr>b_lock := True\<rparr>) s))"

definition end_request :: "nat \<Rightarrow> bool \<Rightarrow> kernel \<Rightarrow> kernel" where
  "end_request maj ok s =
    (case current_request (blk_dev s ! maj) of
       None \<Rightarrow> s
     | Some r \<Rightarrow>
        let s = (case r_bh (requests s ! r) of
                   None \<Rightarrow> s
                 | Some b \<Rightarrow> unlock_buffer b (upd_buf b (\<lambda>h. h\<lparr>b_uptodate := ok\<rparr>) s));
            s = upd_req r (\<lambda>q. q\<lparr>r_dev := - 1\<rparr>) s
        in upd_blk maj (\<lambda>d. d\<lparr>current_request := r_next (requests s ! r)\<rparr>) s)"

section \<open>The RAM disk\<close>

text \<open>One round of \<open>do_rd_request\<close> for the request at the head of the queue. Addresses are 32 bits
  wide.\<close>

definition rd_transfer :: "request \<Rightarrow> kernel \<Rightarrow> (bool \<times> kernel) kres" where
  "rd_transfer r s =
    (let addr = (rd_start s + r_sector r * 512) mod 2 ^ 32;
         len = r_nr_sectors r * 512
     in if MINOR (nat (r_dev r)) \<noteq> 1 \<or> (addr + len) mod 2 ^ 32 > (rd_start s + rd_length s) mod 2 ^ 32
        then Ret (False, s)
        else case r_bh r of
          None \<Rightarrow> Hang
        | Some b \<Rightarrow>
           if r_cmd r = WRITE
           then Ret (True, s\<lparr>mem := store_bytes addr (take len (b_data (bufs s ! b))) (mem s)\<rparr>)
           else if r_cmd r = READ
           then Ret (True, upd_buf b (\<lambda>h. h\<lparr>b_data := load_bytes (mem s) addr len\<rparr>) s)
           else Panic ''unknown ramdisk-command'')"

text \<open>The loop; every round takes a request off the queue, so it ends within \<open>NR_REQUEST\<close> rounds.\<close>

primrec rd_requests :: "nat \<Rightarrow> kernel \<Rightarrow> kernel kres" where
  "rd_requests 0 s = (if current_request (blk_dev s ! 1) = None then Ret s else Hang)"
| "rd_requests (Suc n) s =
    (case current_request (blk_dev s ! 1) of
       None \<Rightarrow> Ret s
     | Some r \<Rightarrow>
        let q = requests s ! r
        in if MAJOR (nat (r_dev q)) \<noteq> 1 then Panic ''ramdisk: request list destroyed''
           else if (case r_bh q of None \<Rightarrow> False | Some b \<Rightarrow> \<not> b_lock (bufs s ! b))
           then Panic ''ramdisk: block not locked''
           else kbind (rd_transfer q s)
                  (\<lambda>(ok, s). rd_requests n (end_request 1 ok s)))"

definition rd_init :: "nat \<Rightarrow> nat \<Rightarrow> kernel \<Rightarrow> nat \<times> kernel" where
  "rd_init mem_start len s =
    (let s = upd_blk 1 (\<lambda>d. d\<lparr>request_fn := Some do_rd_request\<rparr>) s;
         s = s\<lparr>rd_start := mem_start, rd_length := len\<rparr>
     in (len, s\<lparr>mem := store_bytes mem_start (replicate len 0) (mem s)\<rparr>))"

definition run_driver :: "driver \<Rightarrow> kernel \<Rightarrow> kernel kres" where
  "run_driver d s =
    (case d of do_rd_request \<Rightarrow> rd_requests NR_REQUEST s | By_interrupt n \<Rightarrow> Ret s)"

section \<open>The elevator\<close>

definition IN_ORDER :: "request \<Rightarrow> request \<Rightarrow> bool" where
  "IN_ORDER s1 s2 \<longleftrightarrow> r_cmd s1 < r_cmd s2 \<or> (r_cmd s1 = r_cmd s2
    \<and> (r_dev s1 < r_dev s2 \<or> (r_dev s1 = r_dev s2 \<and> r_sector s1 < r_sector s2)))"

text \<open>The loop that looks for the request after which a new one goes.\<close>

fun queue_point :: "nat \<Rightarrow> nat \<Rightarrow> nat \<Rightarrow> request list \<Rightarrow> nat" where
  "queue_point 0 tmp req rs = tmp"
| "queue_point (Suc n) tmp req rs =
    (case r_next (rs ! tmp) of
       None \<Rightarrow> tmp
     | Some nx \<Rightarrow>
        if (IN_ORDER (rs ! tmp) (rs ! req) \<or> \<not> IN_ORDER (rs ! tmp) (rs ! nx))
           \<and> IN_ORDER (rs ! req) (rs ! nx)
        then tmp else queue_point n nx req rs)"

definition add_request :: "nat \<Rightarrow> nat \<Rightarrow> kernel \<Rightarrow> kernel kres" where
  "add_request maj req s =
    (let s = upd_req req (\<lambda>q. q\<lparr>r_next := None\<rparr>) s;
         s = (case r_bh (requests s ! req) of None \<Rightarrow> s | Some b \<Rightarrow> upd_buf b (\<lambda>h. h\<lparr>b_dirt := False\<rparr>) s)
     in case current_request (blk_dev s ! maj) of
          None \<Rightarrow>
           let s = upd_blk maj (\<lambda>d. d\<lparr>current_request := Some req\<rparr>) s
           in (case request_fn (blk_dev s ! maj) of None \<Rightarrow> Hang | Some d \<Rightarrow> run_driver d s)
        | Some t \<Rightarrow>
           let tmp = queue_point NR_REQUEST t req (requests s);
               s = upd_req req (\<lambda>q. q\<lparr>r_next := r_next (requests s ! tmp)\<rparr>) s
           in Ret (upd_req tmp (\<lambda>q. q\<lparr>r_next := Some req\<rparr>) s))"

text \<open>The search for a free entry of the request table, downwards.\<close>

primrec free_request :: "nat \<Rightarrow> request list \<Rightarrow> nat option" where
  "free_request 0 rs = None"
| "free_request (Suc n) rs = (if r_dev (rs ! n) < 0 then Some n else free_request n rs)"

definition make_request :: "nat \<Rightarrow> int \<Rightarrow> nat \<Rightarrow> kernel \<Rightarrow> kernel kres" where
  "make_request maj rw b s =
    (let rw_ahead = (rw = READA \<or> rw = WRITEA)
     in if rw_ahead \<and> b_lock (bufs s ! b) then Ret s
        else
        let rw = (if rw = READA then READ else if rw = WRITEA then WRITE else rw)
        in if rw \<noteq> READ \<and> rw \<noteq> WRITE then Panic ''Bad block dev command, must be R/W/RA/WA''
           else kbind (lock_buffer b s) (\<lambda>s.
             if (rw = WRITE \<and> \<not> b_dirt (bufs s ! b)) \<or> (rw = READ \<and> b_uptodate (bufs s ! b))
             then Ret (unlock_buffer b s)
             else
             case free_request (if rw = READ then NR_REQUEST else NR_REQUEST * 2 div 3) (requests s) of
               None \<Rightarrow> if rw_ahead then Ret (unlock_buffer b s) else Hang
             | Some r \<Rightarrow>
                let h = bufs s ! b;
                    q = \<lparr>r_dev = int (b_dev h), r_cmd = rw, r_errors = 0,
                         r_sector = (b_blocknr h * 2) mod 2 ^ 32, r_nr_sectors = 2,
                         r_bh = Some b, r_next = None\<rparr>
                in add_request maj r (upd_req r (\<lambda>_. q) s)))"

definition ll_rw_block :: "int \<Rightarrow> nat \<Rightarrow> kernel \<Rightarrow> kernel kres" where
  "ll_rw_block rw b s =
    (let maj = MAJOR (b_dev (bufs s ! b))
     in if maj \<ge> NR_BLK_DEV \<or> request_fn (blk_dev s ! maj) = None then Ret s
        else make_request maj rw b s)"

definition blk_dev_init :: "kernel \<Rightarrow> kernel" where
  "blk_dev_init s =
    s\<lparr>requests := map (\<lambda>q. q\<lparr>r_dev := - 1, r_next := None\<rparr>) (requests s)\<rparr>"

end
