(* ===== verification/Buffer.thy ===== *)
theory Buffer imports Blk begin

unbundle bit_operations_syntax

text \<open>
  \<open>fs/buffer.c\<close>: the buffer cache. The hash chains (\<open>b_next\<close>, \<open>b_prev\<close>) and the ring of all buffers
  (\<open>b_next_free\<close>, \<open>b_prev_free\<close>) are kept link by link as in the code.

  When every unused buffer is dirty, \<open>getblk\<close> writes the device out, which makes the code call
  \<open>sync_inodes\<close> of \<open>inode.c\<close>, which reads blocks itself. The operations that may get there take that
  function as their argument \<open>si\<close> and are used with the model of \<open>sync_inodes\<close> once it is
  defined.
\<close>

section \<open>Locks and write-back\<close>

definition wait_on_buffer :: "nat \<Rightarrow> kernel \<Rightarrow> kernel kres" where
  "wait_on_buffer b s = (if b_lock (bufs s ! b) then Hang else Ret s)"

text \<open>The body of the loops of \<open>sync_dev\<close> and \<open>sys_sync\<close>.\<close>

definition sync_buffer :: "nat \<Rightarrow> nat \<Rightarrow> kernel \<Rightarrow> kernel kres" where
  "sync_buffer dev b s =
    (if b_dev (bufs s ! b) \<noteq> dev then Ret s
     else kbind (wait_on_buffer b s) (\<lambda>s.
       if b_dev (bufs s ! b) = dev \<and> b_dirt (bufs s ! b) then ll_rw_block WRITE b s else Ret s))"

definition sync_any_buffer :: "nat \<Rightarrow> kernel \<Rightarrow> kernel kres" where
  "sync_any_buffer b s =
    kbind (wait_on_buffer b s) (\<lambda>s. if b_dirt (bufs s ! b) then ll_rw_block WRITE b s else Ret s)"

definition all_bufs :: "kernel \<Rightarrow> nat list" where
  "all_bufs s = [0..<length (bufs s)]"

definition sys_sync_si :: "(kernel \<Rightarrow> kernel kres) \<Rightarrow> kernel \<Rightarrow> (int \<times> kernel) kres" where
  "sys_sync_si si s =
    kbind (si s) (\<lambda>s. kbind (kfold sync_any_buffer (all_bufs s) s) (\<lambda>s. Ret (0, s)))"

definition sync_dev_si :: "(kernel \<Rightarrow> kernel kres) \<Rightarrow> nat \<Rightarrow> kernel \<Rightarrow> (int \<times> kernel) kres" where
  "sync_dev_si si dev s =
    kbind (kfold (sync_buffer dev) (all_bufs s) s) (\<lambda>s.
    kbind (si s) (\<lambda>s.
    kbind (kfold (sync_buffer dev) (all_bufs s) s) (\<lambda>s. Ret (0, s))))"

definition invalidate_buffer :: "nat \<Rightarrow> nat \<Rightarrow> kernel \<Rightarrow> kernel kres" where
  "invalidate_buffer dev b s =
    (if b_dev (bufs s ! b) \<noteq> dev then Ret s
     else kbind (wait_on_buffer b s) (\<lambda>s.
       if b_dev (bufs s ! b) = dev
       then Ret (upd_buf b (\<lambda>h. h\<lparr>b_uptodate := False, b_dirt := False\<rparr>) s) else Ret s))"

definition invalidate_buffers :: "nat \<Rightarrow> kernel \<Rightarrow> kernel kres" where
  "invalidate_buffers dev s = kfold (invalidate_buffer dev) (all_bufs s) s"

section \<open>Hash chains and the ring\<close>

definition hashfn :: "nat \<Rightarrow> nat \<Rightarrow> nat" where
  "hashfn dev block = (dev XOR block) mod NR_HASH"

definition remove_from_queues :: "nat \<Rightarrow> kernel \<Rightarrow> kernel kres" where
  "remove_from_queues b s =
    (let s = (case b_next (bufs s ! b) of
                None \<Rightarrow> s | Some n \<Rightarrow> upd_buf n (\<lambda>h. h\<lparr>b_prev := b_prev (bufs s ! b)\<rparr>) s);
         s = (case b_prev (bufs s ! b) of
                None \<Rightarrow> s | Some p \<Rightarrow> upd_buf p (\<lambda>h. h\<lparr>b_next := b_next (bufs s ! b)\<rparr>) s);
         k = hashfn (b_dev (bufs s ! b)) (b_blocknr (bufs s ! b));
         s = (if hash_table s ! k = Some b
              then s\<lparr>hash_table := (hash_table s)[k := b_next (bufs s ! b)]\<rparr> else s)
     in case (b_prev_free (bufs s ! b), b_next_free (bufs s ! b)) of
          (Some p, Some n) \<Rightarrow>
            let s = upd_buf p (\<lambda>h. h\<lparr>b_next_free := Some n\<rparr>) s;
                s = upd_buf n (\<lambda>h. h\<lparr>b_prev_free := Some p\<rparr>) s
            in Ret (if free_list s = b then s\<lparr>free_list := n\<rparr> else s)
        | _ \<Rightarrow> Panic ''Free block list corrupted'')"

text \<open>\<open>insert_into_queues\<close>. When the hash chain is empty, the store \<open>bh->b_next->b_prev = bh\<close> goes through
  the null pointer; it is recorded in \<open>null_prev\<close>.\<close>

definition insert_into_queues :: "nat \<Rightarrow> kernel \<Rightarrow> kernel" where
  "insert_into_queues b s =
    (let f = free_list s;
         s = upd_buf b (\<lambda>h. h\<lparr>b_next_free := Some f\<rparr>) s;
         p = b_prev_free (bufs s ! f);
         s = upd_buf b (\<lambda>h. h\<lparr>b_prev_free := p\<rparr>) s;
         s = upd_buf (the p) (\<lambda>h. h\<lparr>b_next_free := Some b\<rparr>) s;
         s = upd_buf f (\<lambda>h. h\<lparr>b_prev_free := Some b\<rparr>) s;
         s = upd_buf b (\<lambda>h. h\<lparr>b_prev := None, b_next := None\<rparr>) s
     in if b_dev (bufs s ! b) = 0 then s
        else
        let k = hashfn (b_dev (bufs s ! b)) (b_blocknr (bufs s ! b));
            nx = hash_table s ! k;
            s = upd_buf b (\<lambda>h. h\<lparr>b_next := nx\<rparr>) s;
            s = s\<lparr>hash_table := (hash_table s)[k := Some b]\<rparr>
        in case nx of
             None \<Rightarrow> s\<lparr>null_prev := Some b\<rparr>
           | Some n \<Rightarrow> upd_buf n (\<lambda>h. h\<lparr>b_prev := Some b\<rparr>) s)"

text \<open>A walk along a hash chain. A chain holds each buffer at most once, so the number of buffers is
  enough steps.\<close>

fun find_from :: "nat \<Rightarrow> nat option \<Rightarrow> nat \<Rightarrow> nat \<Rightarrow> buffer_head list \<Rightarrow> nat option" where
  "find_from 0 tmp dev block bs = None"
| "find_from (Suc n) tmp dev block bs =
    (case tmp of
       None \<Rightarrow> None
     | Some b \<Rightarrow> if b_dev (bs ! b) = dev \<and> b_blocknr (bs ! b) = block then Some b
                else find_from n (b_next (bs ! b)) dev block bs)"

definition find_buffer :: "nat \<Rightarrow> nat \<Rightarrow> kernel \<Rightarrow> nat option" where
  "find_buffer dev block s =
    find_from (length (bufs s)) (hash_table s ! hashfn dev block) dev block (bufs s)"

definition incr_count :: "nat \<Rightarrow> kernel \<Rightarrow> kernel" where
  "incr_count b s = upd_buf b (\<lambda>h. h\<lparr>b_count := (b_count h + 1) mod 256\<rparr>) s"

definition decr_count :: "nat \<Rightarrow> kernel \<Rightarrow> kernel" where
  "decr_count b s = upd_buf b (\<lambda>h. h\<lparr>b_count := (b_count h + 255) mod 256\<rparr>) s"

text \<open>A process that did not have to wait finds the buffer as it was, so the retry of the loop is
  never taken in this model; it is kept with a bound.\<close>

primrec get_hash_table_loop :: "nat \<Rightarrow> nat \<Rightarrow> nat \<Rightarrow> kernel \<Rightarrow> (nat option \<times> kernel) kres" where
  "get_hash_table_loop 0 dev block s = Hang"
| "get_hash_table_loop (Suc n) dev block s =
    (case find_buffer dev block s of
       None \<Rightarrow> Ret (None, s)
     | Some b \<Rightarrow>
        kbind (wait_on_buffer b (incr_count b s)) (\<lambda>s.
          if b_dev (bufs s ! b) = dev \<and> b_blocknr (bufs s ! b) = block then Ret (Some b, s)
          else get_hash_table_loop n dev block (decr_count b s)))"

definition get_hash_table :: "nat \<Rightarrow> nat \<Rightarrow> kernel \<Rightarrow> (nat option \<times> kernel) kres" where
  "get_hash_table dev block s = get_hash_table_loop 2 dev block s"

section \<open>Getting and releasing a buffer\<close>

definition BADNESS :: "buffer_head \<Rightarrow> nat" where
  "BADNESS h = 2 * (if b_dirt h then 1 else 0) + (if b_lock h then 1 else 0)"

text \<open>The loop of \<open>getblk\<close> around the ring.\<close>

fun pick_buffer :: "nat \<Rightarrow> nat \<Rightarrow> nat option \<Rightarrow> nat \<Rightarrow> buffer_head list \<Rightarrow> nat option" where
  "pick_buffer 0 tmp bh fl bs = bh"
| "pick_buffer (Suc n) tmp bh fl bs =
    (let h = bs ! tmp;
         next_one = (\<lambda>bh. case b_next_free h of
                       None \<Rightarrow> bh
                     | Some nx \<Rightarrow> if nx = fl then bh else pick_buffer n nx bh fl bs)
     in if b_count h \<noteq> 0 then next_one bh
        else if bh = None \<or> BADNESS h < BADNESS (bs ! the bh)
        then if BADNESS h = 0 then Some tmp else next_one (Some tmp)
        else next_one bh)"

text \<open>\<open>while (bh->b_dirt)\<close>; the flag says that the buffer came into use.\<close>

primrec clean_buffer ::
  "(kernel \<Rightarrow> kernel kres) \<Rightarrow> nat \<Rightarrow> nat \<Rightarrow> kernel \<Rightarrow> (bool \<times> kernel) kres" where
  "clean_buffer si 0 b s = (if b_dirt (bufs s ! b) then Hang else Ret (False, s))"
| "clean_buffer si (Suc n) b s =
    (if \<not> b_dirt (bufs s ! b) then Ret (False, s)
     else kbind (sync_dev_si si (b_dev (bufs s ! b)) s) (\<lambda>(_, s).
          kbind (wait_on_buffer b s) (\<lambda>s.
          if b_count (bufs s ! b) \<noteq> 0 then Ret (True, s) else clean_buffer si n b s)))"

text \<open>The end of \<open>getblk\<close>: the buffer is ours.\<close>

definition take_buffer :: "nat \<Rightarrow> nat \<Rightarrow> nat \<Rightarrow> kernel \<Rightarrow> (nat \<times> kernel) kres" where
  "take_buffer b dev block s =
    (let s = upd_buf b (\<lambda>h. h\<lparr>b_count := 1, b_dirt := False, b_uptodate := False\<rparr>) s
     in kbind (remove_from_queues b s) (\<lambda>s.
          let s = upd_buf b (\<lambda>h. h\<lparr>b_dev := dev, b_blocknr := block\<rparr>) s
          in Ret (b, insert_into_queues b s)))"

primrec getblk_loop ::
  "(kernel \<Rightarrow> kernel kres) \<Rightarrow> nat \<Rightarrow> nat \<Rightarrow> nat \<Rightarrow> kernel \<Rightarrow> (nat \<times> kernel) kres" where
  "getblk_loop si 0 dev block s = Hang"
| "getblk_loop si (Suc n) dev block s =
    kbind (get_hash_table dev block s) (\<lambda>(r, s).
      case r of
        Some b \<Rightarrow> Ret (b, s)
      | None \<Rightarrow>
         (case pick_buffer (length (bufs s)) (free_list s) None (free_list s) (bufs s) of
            None \<Rightarrow> Hang
          | Some b \<Rightarrow>
             kbind (wait_on_buffer b s) (\<lambda>s.
             if b_count (bufs s ! b) \<noteq> 0 then getblk_loop si n dev block s
             else kbind (clean_buffer si n b s) (\<lambda>(busy, s).
               if busy \<or> find_buffer dev block s \<noteq> None then getblk_loop si n dev block s
               else take_buffer b dev block s))))"

text \<open>A repetition happens only after write-back by this process. Each makes buffers clean, so that
  few are needed; the bound is the number of rounds after which the model gives up.\<close>

definition GETBLK_ROUNDS :: nat where "GETBLK_ROUNDS = 8"

definition getblk_si :: "(kernel \<Rightarrow> kernel kres) \<Rightarrow> nat \<Rightarrow> nat \<Rightarrow> kernel \<Rightarrow> (nat \<times> kernel) kres" where
  "getblk_si si dev block s = getblk_loop si GETBLK_ROUNDS dev block s"

definition brelse :: "nat option \<Rightarrow> kernel \<Rightarrow> kernel kres" where
  "brelse buf s =
    (case buf of
       None \<Rightarrow> Ret s
     | Some b \<Rightarrow> kbind (wait_on_buffer b s) (\<lambda>s.
        if b_count (bufs s ! b) = 0 then Panic ''Trying to free free buffer''
        else Ret (upd_buf b (\<lambda>h. h\<lparr>b_count := b_count h - 1\<rparr>) s)))"

section \<open>Reading\<close>

definition bread_si ::
  "(kernel \<Rightarrow> kernel kres) \<Rightarrow> nat \<Rightarrow> nat \<Rightarrow> kernel \<Rightarrow> (nat option \<times> kernel) kres" where
  "bread_si si dev block s =
    kbind (getblk_si si dev block s) (\<lambda>(b, s).
      if b_uptodate (bufs s ! b) then Ret (Some b, s)
      else kbind (ll_rw_block READ b s) (\<lambda>s. kbind (wait_on_buffer b s) (\<lambda>s.
        if b_uptodate (bufs s ! b) then Ret (Some b, s)
        else kbind (brelse (Some b) s) (\<lambda>s. Ret (None, s)))))"

text \<open>\<open>bread_page\<close>: the first loop starts the transfers, the second copies the blocks.\<close>

fun bread_page_start ::
  "(kernel \<Rightarrow> kernel kres) \<Rightarrow> nat \<Rightarrow> nat list \<Rightarrow> kernel \<Rightarrow> (nat option list \<times> kernel) kres" where
  "bread_page_start si dev [] s = Ret ([], s)"
| "bread_page_start si dev (n # ns) s =
    (if n = 0 then kbind (bread_page_start si dev ns s) (\<lambda>(bs, s). Ret (None # bs, s))
     else kbind (getblk_si si dev n s) (\<lambda>(b, s).
          kbind (if b_uptodate (bufs s ! b) then Ret s else ll_rw_block READ b s) (\<lambda>s.
          kbind (bread_page_start si dev ns s) (\<lambda>(bs, s). Ret (Some b # bs, s)))))"

fun bread_page_copy :: "nat \<Rightarrow> nat option list \<Rightarrow> kernel \<Rightarrow> kernel kres" where
  "bread_page_copy address [] s = Ret s"
| "bread_page_copy address (None # bs) s = bread_page_copy (address + BLOCK_SIZE) bs s"
| "bread_page_copy address (Some b # bs) s =
    kbind (wait_on_buffer b s) (\<lambda>s.
      let s = (if b_uptodate (bufs s ! b)
               then s\<lparr>mem := store_bytes address (b_data (bufs s ! b)) (mem s)\<rparr> else s)
      in kbind (brelse (Some b) s) (bread_page_copy (address + BLOCK_SIZE) bs))"

definition bread_page_si ::
  "(kernel \<Rightarrow> kernel kres) \<Rightarrow> nat \<Rightarrow> nat \<Rightarrow> nat list \<Rightarrow> kernel \<Rightarrow> kernel kres" where
  "bread_page_si si address dev ns s =
    kbind (bread_page_start si dev ns s) (\<lambda>(bs, s). bread_page_copy address bs s)"

text \<open>\<open>breada\<close>: the read-ahead of the further blocks passes \<open>bh\<close>, not \<open>tmp\<close>, to \<open>ll_rw_block\<close>.\<close>

fun breada_ahead :: "(kernel \<Rightarrow> kernel kres) \<Rightarrow> nat \<Rightarrow> nat \<Rightarrow> nat list \<Rightarrow> kernel \<Rightarrow> kernel kres" where
  "breada_ahead si dev b [] s = Ret s"
| "breada_ahead si dev b (n # ns) s =
    kbind (getblk_si si dev n s) (\<lambda>(t, s).
    kbind (if b_uptodate (bufs s ! t) then Ret s else ll_rw_block READA b s) (\<lambda>s.
      breada_ahead si dev b ns (decr_count t s)))"

definition breada_si ::
  "(kernel \<Rightarrow> kernel kres) \<Rightarrow> nat \<Rightarrow> nat \<Rightarrow> nat list \<Rightarrow> kernel \<Rightarrow> (nat option \<times> kernel) kres" where
  "breada_si si dev block rest s =
    kbind (getblk_si si dev block s) (\<lambda>(b, s).
    kbind (if b_uptodate (bufs s ! b) then Ret s else ll_rw_block READ b s) (\<lambda>s.
    kbind (breada_ahead si dev b rest s) (\<lambda>s.
    kbind (wait_on_buffer b s) (\<lambda>s.
      if b_uptodate (bufs s ! b) then Ret (Some b, s)
      else kbind (brelse (Some b) s) (\<lambda>s. Ret (None, s))))))"

section \<open>Initialisation\<close>

text \<open>The addresses of the data blocks, from the end of the buffer area down, while the buffer
  heads (36 bytes each) grow upwards from \<open>h\<close>; the area from 640 KB to 1 MB is left out.\<close>

definition sizeof_buffer_head :: nat where "sizeof_buffer_head = 36"

fun buffer_blocks :: "nat \<Rightarrow> nat \<Rightarrow> nat \<Rightarrow> nat list" where
  "buffer_blocks 0 h b = []"
| "buffer_blocks (Suc n) h b =
    (if b < BLOCK_SIZE \<or> b - BLOCK_SIZE < h + sizeof_buffer_head then []
     else let b = b - BLOCK_SIZE
          in b # buffer_blocks n (h + sizeof_buffer_head) (if b = 0x100000 then 0xA0000 else b))"

definition init_buffer :: "mm \<Rightarrow> (nat \<Rightarrow> nat) \<Rightarrow> nat list \<Rightarrow> nat \<Rightarrow> buffer_head" where
  "init_buffer m old blocks i =
    (let n = length blocks
     in \<lparr>b_data = load_bytes m (blocks ! i) BLOCK_SIZE, b_blocknr = old i, b_dev = 0,
         b_uptodate = False, b_dirt = False, b_count = 0, b_lock = False,
         b_prev = None, b_next = None,
         b_prev_free = Some (if i = 0 then n - 1 else i - 1),
         b_next_free = Some (if i = n - 1 then 0 else i + 1)\<rparr>)"

text \<open>\<open>start_buffer\<close> is the address of \<open>end\<close>; \<open>old\<close> is what memory holds where \<open>b_blocknr\<close> comes to lie,
  which the code does not initialise.\<close>

definition buffer_init :: "nat \<Rightarrow> nat \<Rightarrow> (nat \<Rightarrow> nat) \<Rightarrow> kernel \<Rightarrow> kernel" where
  "buffer_init start_buffer buffer_end old s =
    (let b = (if buffer_end = 1048576 then 640 * 1024 else buffer_end);
         blocks = buffer_blocks (b div BLOCK_SIZE) start_buffer b
     in s\<lparr>bufs := map (init_buffer (mem s) old blocks) [0..<length blocks],
          free_list := 0, hash_table := replicate NR_HASH None\<rparr>)"

end
