(* ===== verification/Inode_Sync.thy ===== *)
theory Inode_Sync imports Buffer begin

unbundle bit_operations_syntax

text \<open>
  The part of \<open>fs/inode.c\<close> that writes inodes back, with \<open>get_super\<close> of \<open>fs/super.c\<close>, which it needs; and
  the buffer operations with \<open>sync_inodes\<close> in place.

  \<open>sync_inodes\<close> reads blocks, and reading a block calls \<open>sync_inodes\<close> when every unused buffer is
  dirty. A process that gets there holds the lock of the inode it is writing, and the inner
  \<open>sync_inodes\<close> waits for that lock, so the recursion is never useful beyond one level.
\<close>

section \<open>File types\<close>

definition S_IFMT :: u16 where "S_IFMT = 0xF000"
definition S_IFREG :: u16 where "S_IFREG = 0x8000"
definition S_IFBLK :: u16 where "S_IFBLK = 0x6000"
definition S_IFDIR :: u16 where "S_IFDIR = 0x4000"
definition S_IFCHR :: u16 where "S_IFCHR = 0x2000"
definition S_IFIFO :: u16 where "S_IFIFO = 0x1000"

definition S_ISREG :: "u16 \<Rightarrow> bool" where "S_ISREG m \<longleftrightarrow> m AND S_IFMT = S_IFREG"
definition S_ISDIR :: "u16 \<Rightarrow> bool" where "S_ISDIR m \<longleftrightarrow> m AND S_IFMT = S_IFDIR"
definition S_ISCHR :: "u16 \<Rightarrow> bool" where "S_ISCHR m \<longleftrightarrow> m AND S_IFMT = S_IFCHR"
definition S_ISBLK :: "u16 \<Rightarrow> bool" where "S_ISBLK m \<longleftrightarrow> m AND S_IFMT = S_IFBLK"
definition S_ISFIFO :: "u16 \<Rightarrow> bool" where "S_ISFIFO m \<longleftrightarrow> m AND S_IFMT = S_IFIFO"

section \<open>Super block table\<close>

definition wait_on_super :: "nat \<Rightarrow> kernel \<Rightarrow> kernel kres" where
  "wait_on_super i s = (if s_lock (super_blocks s ! i) then Hang else Ret s)"

fun get_super_from :: "nat \<Rightarrow> nat \<Rightarrow> nat \<Rightarrow> kernel \<Rightarrow> nat option kres" where
  "get_super_from 0 i dev s = Ret None"
| "get_super_from (Suc n) i dev s =
    (if s_dev (super_blocks s ! i) = dev then kbind (wait_on_super i s) (\<lambda>_. Ret (Some i))
     else get_super_from n (Suc i) dev s)"

definition get_super :: "nat \<Rightarrow> kernel \<Rightarrow> nat option kres" where
  "get_super dev s = (if dev = 0 then Ret None else get_super_from NR_SUPER 0 dev s)"

section \<open>Inode locks\<close>

definition wait_on_inode :: "nat \<Rightarrow> kernel \<Rightarrow> kernel kres" where
  "wait_on_inode i s = (if i_lock (inode_table s ! i) then Hang else Ret s)"

definition lock_inode :: "nat \<Rightarrow> kernel \<Rightarrow> kernel kres" where
  "lock_inode i s =
    (if i_lock (inode_table s ! i) then Hang else Ret (upd_inode i (\<lambda>n. n\<lparr>i_lock := True\<rparr>) s))"

definition unlock_inode :: "nat \<Rightarrow> kernel \<Rightarrow> kernel" where
  "unlock_inode i s = upd_inode i (\<lambda>n. n\<lparr>i_lock := False\<rparr>) s"

section \<open>Inodes on disk\<close>

text \<open>\<open>struct d_inode\<close>: 32 bytes, the leading fields of \<open>struct m_inode\<close>.\<close>

definition put_d_inode :: "nat \<Rightarrow> m_inode \<Rightarrow> u8 list \<Rightarrow> u8 list" where
  "put_d_inode k n d =
    (let d = put16 k (unat (i_mode n)) d;
         d = put16 (k + 2) (unat (i_uid n)) d;
         d = put32 (k + 4) (i_size n) d;
         d = put32 (k + 8) (unat (i_mtime n)) d;
         d = d[k + 12 := i_gid n, k + 13 := of_nat (i_nlinks n)]
     in fold (\<lambda>j d. put16 (k + 14 + 2 * j) (i_zone n ! j) d) [0..<9] d)"

definition get_d_inode :: "u8 list \<Rightarrow> nat \<Rightarrow> m_inode \<Rightarrow> m_inode" where
  "get_d_inode d k n =
    n\<lparr>i_mode := of_nat (get16 d k), i_uid := of_nat (get16 d (k + 2)),
      i_size := get32 d (k + 4), i_mtime := of_nat (get32 d (k + 8)),
      i_gid := d ! (k + 12), i_nlinks := unat (d ! (k + 13)),
      i_zone := map (\<lambda>j. get16 d (k + 14 + 2 * j)) [0..<9]\<rparr>"

text \<open>The block of the inode table that holds an inode, and the offset in it. The number is unsigned
  arithmetic, because \<open>INODES_PER_BLOCK\<close> is a \<open>size_t\<close>.\<close>

definition inode_index :: "nat \<Rightarrow> nat" where
  "inode_index num = (num + (2 ^ 32 - 1)) mod 2 ^ 32"

definition inode_block :: "super_block \<Rightarrow> nat \<Rightarrow> nat" where
  "inode_block sb num =
    2 + s_imap_blocks sb + s_zmap_blocks sb + inode_index num div INODES_PER_BLOCK"

definition inode_offset :: "nat \<Rightarrow> nat" where
  "inode_offset num = 32 * (inode_index num mod INODES_PER_BLOCK)"

section \<open>Writing inodes\<close>

definition write_inode_si :: "(kernel \<Rightarrow> kernel kres) \<Rightarrow> nat \<Rightarrow> kernel \<Rightarrow> kernel kres" where
  "write_inode_si si i s =
    kbind (lock_inode i s) (\<lambda>s.
    let n = inode_table s ! i
    in if \<not> i_dirt n \<or> i_dev n = 0 then Ret (unlock_inode i s)
       else kbind (get_super (i_dev n) s) (\<lambda>r.
         case r of
           None \<Rightarrow> Panic ''trying to write inode without device''
         | Some sb \<Rightarrow>
            kbind (bread_si si (i_dev n) (inode_block (super_blocks s ! sb) (i_num n)) s) (\<lambda>(r, s).
              case r of
                None \<Rightarrow> Panic ''unable to read i-node block''
              | Some b \<Rightarrow>
                 let n = inode_table s ! i;
                     s = upd_buf b (\<lambda>h. h\<lparr>b_data := put_d_inode (inode_offset (i_num n)) n (b_data h),
                                           b_dirt := True\<rparr>) s;
                     s = upd_inode i (\<lambda>n. n\<lparr>i_dirt := False\<rparr>) s
                 in kbind (brelse (Some b) s) (\<lambda>s. Ret (unlock_inode i s)))))"

definition sync_inode_si :: "(kernel \<Rightarrow> kernel kres) \<Rightarrow> nat \<Rightarrow> kernel \<Rightarrow> kernel kres" where
  "sync_inode_si si i s =
    kbind (wait_on_inode i s) (\<lambda>s.
      if i_dirt (inode_table s ! i) \<and> \<not> i_pipe (inode_table s ! i) then write_inode_si si i s else Ret s)"

text \<open>\<open>n\<close> is the number of nested calls that are followed; the innermost does not return.\<close>

primrec sync_inodes_at :: "nat \<Rightarrow> kernel \<Rightarrow> kernel kres" where
  "sync_inodes_at 0 s = Hang"
| "sync_inodes_at (Suc n) s = kfold (sync_inode_si (sync_inodes_at n)) [0..<NR_INODE] s"

definition sync_inodes :: "kernel \<Rightarrow> kernel kres" where
  "sync_inodes s = sync_inodes_at 1 s"

definition write_inode :: "nat \<Rightarrow> kernel \<Rightarrow> kernel kres" where
  "write_inode i s = write_inode_si sync_inodes i s"

abbreviation getblk :: "nat \<Rightarrow> nat \<Rightarrow> kernel \<Rightarrow> (nat \<times> kernel) kres" where
  "getblk \<equiv> getblk_si sync_inodes"

abbreviation bread :: "nat \<Rightarrow> nat \<Rightarrow> kernel \<Rightarrow> (nat option \<times> kernel) kres" where
  "bread \<equiv> bread_si sync_inodes"

abbreviation sync_dev :: "nat \<Rightarrow> kernel \<Rightarrow> (int \<times> kernel) kres" where
  "sync_dev \<equiv> sync_dev_si sync_inodes"

abbreviation sys_sync :: "kernel \<Rightarrow> (int \<times> kernel) kres" where
  "sys_sync \<equiv> sys_sync_si sync_inodes"

end
