(* ===== verification/Bitmap.thy ===== *)
theory Bitmap imports Inode_Sync begin

unbundle bit_operations_syntax

text \<open>
  \<open>fs/bitmap.c\<close>: the block and inode bitmaps. The bit instructions address bit \<open>nr\<close> of the memory
  from \<open>addr\<close> on, which on this processor is bit \<open>nr mod 8\<close> of byte \<open>nr div 8\<close>. \<open>new_inode\<close> is
  with the inode table, which it allocates from. A map buffer that is \<open>NULL\<close> where the code
  dereferences it without a test ends the model run (\<open>Hang\<close>).
\<close>

section \<open>Bits\<close>

definition test_bit :: "nat \<Rightarrow> u8 list \<Rightarrow> bool" where
  "test_bit nr d \<longleftrightarrow> bit (d ! (nr div 8)) (nr mod 8)"

definition clear_block :: "u8 list \<Rightarrow> u8 list" where
  "clear_block d = replicate BLOCK_SIZE 0"

text \<open>\<open>set_bit\<close> returns the old bit, \<open>clear_bit\<close> its complement.\<close>

definition set_bit :: "nat \<Rightarrow> u8 list \<Rightarrow> bool \<times> u8 list" where
  "set_bit nr d = (test_bit nr d, d[nr div 8 := d ! (nr div 8) OR push_bit (nr mod 8) 1])"

definition clear_bit :: "nat \<Rightarrow> u8 list \<Rightarrow> bool \<times> u8 list" where
  "clear_bit nr d = (\<not> test_bit nr d, d[nr div 8 := d ! (nr div 8) AND NOT (push_bit (nr mod 8) 1)])"

text \<open>\<open>bsfl\<close>: the lowest bit that is 1, from bit \<open>k\<close> on; and the scan of the 256 words.\<close>

fun bsfl :: "nat \<Rightarrow> nat \<Rightarrow> u32 \<Rightarrow> nat" where
  "bsfl 0 k x = k"
| "bsfl (Suc n) k x = (if bit x k then k else bsfl n (Suc k) x)"

fun find_zero_words :: "nat \<Rightarrow> nat \<Rightarrow> u8 list \<Rightarrow> nat" where
  "find_zero_words 0 pos d = pos"
| "find_zero_words (Suc n) pos d =
    (let w = NOT (of_nat (get32 d (pos div 8)) :: u32)
     in if w \<noteq> 0 then pos + bsfl 32 0 w
        else if pos + 32 < 8192 then find_zero_words n (pos + 32) d else pos + 32)"

definition find_first_zero :: "u8 list \<Rightarrow> nat" where
  "find_first_zero d = find_zero_words 256 0 d"

section \<open>Blocks\<close>

text \<open>The end of \<open>free_block\<close>: the bit in the map.\<close>

definition free_zone :: "nat \<Rightarrow> nat \<Rightarrow> kernel \<Rightarrow> kernel kres" where
  "free_zone i block s =
    (let sb = super_blocks s ! i;
         k = block + 1 - s_firstdatazone sb
     in case s_zmap sb ! (k div 8192) of
          None \<Rightarrow> Hang
        | Some m \<Rightarrow>
           let (was_clear, d) = clear_bit (k mod 8192) (b_data (bufs s ! m));
               s = upd_buf m (\<lambda>h. h\<lparr>b_data := d\<rparr>) s
           in if was_clear then Panic ''free_block: bit already cleared''
              else Ret (upd_buf m (\<lambda>h. h\<lparr>b_dirt := True\<rparr>) s))"

definition free_block :: "nat \<Rightarrow> nat \<Rightarrow> kernel \<Rightarrow> kernel kres" where
  "free_block dev block s =
    kbind (get_super dev s) (\<lambda>r.
      case r of
        None \<Rightarrow> Panic ''trying to free block on nonexistent device''
      | Some i \<Rightarrow>
         let sb = super_blocks s ! i
         in if block < s_firstdatazone sb \<or> block \<ge> s_nzones sb
            then Panic ''trying to free block not in datazone''
            else kbind (get_hash_table dev block s) (\<lambda>(r, s).
              case r of
                Some b \<Rightarrow>
                 if b_count (bufs s ! b) \<noteq> 1 then Ret s
                 else kbind (brelse (Some b)
                        (upd_buf b (\<lambda>h. h\<lparr>b_dirt := False, b_uptodate := False\<rparr>) s))
                        (\<lambda>s. free_zone i block s)
              | None \<Rightarrow> free_zone i block s))"

text \<open>The search through the maps of \<open>new_block\<close> and \<open>new_inode\<close>: the map's number, its buffer and the
  first bit that is 0.\<close>

fun search_maps :: "nat \<Rightarrow> nat option list \<Rightarrow> kernel \<Rightarrow> (nat \<times> nat \<times> nat) option" where
  "search_maps i [] s = None"
| "search_maps i (None # ms) s = search_maps (Suc i) ms s"
| "search_maps i (Some b # ms) s =
    (let j = find_first_zero (b_data (bufs s ! b))
     in if j < 8192 then Some (i, b, j) else search_maps (Suc i) ms s)"

text \<open>When the bit found lies beyond the last block, 0 is returned and the bit stays set.\<close>

definition new_block :: "nat \<Rightarrow> kernel \<Rightarrow> (nat \<times> kernel) kres" where
  "new_block dev s =
    kbind (get_super dev s) (\<lambda>r.
      case r of
        None \<Rightarrow> Panic ''trying to get new block from nonexistant device''
      | Some i \<Rightarrow>
         let sb = super_blocks s ! i
         in (case search_maps 0 (take 8 (s_zmap sb)) s of
               None \<Rightarrow> Ret (0, s)
             | Some (k, b, j) \<Rightarrow>
                let (was_set, d) = set_bit j (b_data (bufs s ! b));
                    s = upd_buf b (\<lambda>h. h\<lparr>b_data := d\<rparr>) s
                in if was_set then Panic ''new_block: bit already set''
                   else
                   let s = upd_buf b (\<lambda>h. h\<lparr>b_dirt := True\<rparr>) s;
                       j = j + k * 8192 + s_firstdatazone sb - 1
                   in if j \<ge> s_nzones sb then Ret (0, s)
                      else kbind (getblk dev j s) (\<lambda>(b, s).
                        if b_count (bufs s ! b) \<noteq> 1 then Panic ''new block: count is != 1''
                        else
                        let s = upd_buf b (\<lambda>h. h\<lparr>b_data := clear_block (b_data h),
                                                b_uptodate := True, b_dirt := True\<rparr>) s
                        in kbind (brelse (Some b) s) (\<lambda>s. Ret (j, s)))))"

section \<open>Inodes\<close>

definition zero_inode :: m_inode where
  "zero_inode =
    \<lparr>i_mode = 0, i_uid = 0, i_size = 0, i_mtime = 0, i_gid = 0, i_nlinks = 0, i_zone = replicate 9 0,
     i_atime = 0, i_ctime = 0, i_dev = 0, i_num = 0, i_count = 0, i_lock = False, i_dirt = False,
     i_pipe = False, i_mount = False\<rparr>"

definition free_inode :: "nat option \<Rightarrow> kernel \<Rightarrow> kernel kres" where
  "free_inode inode s =
    (case inode of
       None \<Rightarrow> Ret s
     | Some i \<Rightarrow>
        let n = inode_table s ! i
        in if i_dev n = 0 then Ret (upd_inode i (\<lambda>_. zero_inode) s)
           else if i_count n > 1 then Panic ''free_inode''
           else if i_nlinks n \<noteq> 0 then Panic ''trying to free inode with links''
           else kbind (get_super (i_dev n) s) (\<lambda>r.
             case r of
               None \<Rightarrow> Panic ''trying to free inode on nonexistent device''
             | Some k \<Rightarrow>
                let sb = super_blocks s ! k
                in if i_num n < 1 \<or> i_num n > s_ninodes sb
                   then Panic ''trying to free inode 0 or nonexistant inode''
                   else (case s_imap sb ! (i_num n div 8192) of
                       None \<Rightarrow> Panic ''nonexistent imap in superblock''
                     | Some m \<Rightarrow>
                        let (_, d) = clear_bit (i_num n mod 8192) (b_data (bufs s ! m));
                            s = upd_buf m (\<lambda>h. h\<lparr>b_data := d, b_dirt := True\<rparr>) s
                        in Ret (upd_inode i (\<lambda>_. zero_inode) s))))"

end
