(* ===== verification/Truncate.thy ===== *)
theory Truncate imports Bitmap begin

text \<open>
  \<open>fs/truncate.c\<close>: freeing all blocks of a file.
\<close>

text \<open>The loop over the 512 entries of an indirect block; \<open>f\<close> frees what a nonzero entry names. The
  buffer is read afresh for each entry, as the code does through its pointer.\<close>

fun free_entries :: "(nat \<Rightarrow> kernel \<Rightarrow> kernel kres) \<Rightarrow> nat \<Rightarrow> nat \<Rightarrow> nat \<Rightarrow> kernel \<Rightarrow> kernel kres" where
  "free_entries f b 0 i s = Ret s"
| "free_entries f b (Suc n) i s =
    (let z = zone_at (b_data (bufs s ! b)) i
     in kbind (if z \<noteq> 0 then f z s else Ret s) (free_entries f b n (Suc i)))"

definition free_ind :: "nat \<Rightarrow> nat \<Rightarrow> kernel \<Rightarrow> kernel kres" where
  "free_ind dev block s =
    (if block = 0 then Ret s
     else kbind (bread dev block s) (\<lambda>(r, s).
       kbind (case r of
                None \<Rightarrow> Ret s
              | Some b \<Rightarrow> kbind (free_entries (free_block dev) b 512 0 s) (brelse (Some b)))
         (free_block dev block)))"

definition free_dind :: "nat \<Rightarrow> nat \<Rightarrow> kernel \<Rightarrow> kernel kres" where
  "free_dind dev block s =
    (if block = 0 then Ret s
     else kbind (bread dev block s) (\<lambda>(r, s).
       kbind (case r of
                None \<Rightarrow> Ret s
              | Some b \<Rightarrow> kbind (free_entries (free_ind dev) b 512 0 s) (brelse (Some b)))
         (free_block dev block)))"

definition truncate_zone :: "nat \<Rightarrow> nat \<Rightarrow> kernel \<Rightarrow> kernel kres" where
  "truncate_zone i k s =
    (let n = inode_table s ! i
     in if i_zone n ! k = 0 then Ret s
        else kbind (free_block (i_dev n) (i_zone n ! k) s)
               (\<lambda>s. Ret (upd_inode i (\<lambda>n. n\<lparr>i_zone := (i_zone n)[k := 0]\<rparr>) s)))"

definition truncate :: "nat \<Rightarrow> kernel \<Rightarrow> kernel kres" where
  "truncate i s =
    (let n = inode_table s ! i
     in if \<not> (S_ISREG (i_mode n) \<or> S_ISDIR (i_mode n)) then Ret s
        else
        kbind (kfold (truncate_zone i) [0..<7] s) (\<lambda>s.
        kbind (free_ind (i_dev (inode_table s ! i)) (i_zone (inode_table s ! i) ! 7) s) (\<lambda>s.
        kbind (free_dind (i_dev (inode_table s ! i)) (i_zone (inode_table s ! i) ! 8) s) (\<lambda>s.
        Ret (upd_inode i (\<lambda>n. n\<lparr>i_zone := (i_zone n)[7 := 0, 8 := 0], i_size := 0, i_dirt := True,
                                  i_mtime := now s, i_ctime := now s\<rparr>) s)))))"

end
