(* ===== verification/Inode.thy ===== *)
theory Inode imports Truncate begin

unbundle bit_operations_syntax

text \<open>
  \<open>fs/inode.c\<close>: block mapping, and the inode table with its reference counts; and \<open>new_inode\<close> of
  \<open>fs/bitmap.c\<close>.
\<close>

section \<open>Invalidating\<close>

definition invalidate_inode :: "nat \<Rightarrow> nat \<Rightarrow> kernel \<Rightarrow> kernel kres" where
  "invalidate_inode dev i s =
    kbind (wait_on_inode i s) (\<lambda>s.
      if i_dev (inode_table s ! i) = dev
      then Ret (upd_inode i (\<lambda>n. n\<lparr>i_dev := 0, i_dirt := False\<rparr>) s) else Ret s)"

definition invalidate_inodes :: "nat \<Rightarrow> kernel \<Rightarrow> kernel kres" where
  "invalidate_inodes dev s = kfold (invalidate_inode dev) [0..<NR_INODE] s"

section \<open>Block mapping\<close>

text \<open>Allocating the block a zone of the inode names, if there is none.\<close>

definition fill_zone :: "nat \<Rightarrow> nat \<Rightarrow> bool \<Rightarrow> kernel \<Rightarrow> kernel kres" where
  "fill_zone i k create s =
    (if create \<and> i_zone (inode_table s ! i) ! k = 0
     then kbind (new_block (i_dev (inode_table s ! i)) s) (\<lambda>(z, s).
            let z = z mod 65536;
                s = upd_inode i (\<lambda>n. n\<lparr>i_zone := (i_zone n)[k := z]\<rparr>) s
            in Ret (if z \<noteq> 0 then upd_inode i (\<lambda>n. n\<lparr>i_ctime := now s, i_dirt := True\<rparr>) s else s))
     else Ret s)"

text \<open>Reading, and if wanted filling, entry \<open>k\<close> of the indirect block \<open>z\<close>.\<close>

definition map_entry :: "nat \<Rightarrow> nat \<Rightarrow> nat \<Rightarrow> bool \<Rightarrow> kernel \<Rightarrow> (nat \<times> kernel) kres" where
  "map_entry dev z k create s =
    kbind (bread dev z s) (\<lambda>(r, s).
      case r of
        None \<Rightarrow> Ret (0, s)
      | Some b \<Rightarrow>
         let e = zone_at (b_data (bufs s ! b)) k
         in kbind (if create \<and> e = 0
                   then kbind (new_block dev s) (\<lambda>(e, s).
                     Ret (e, if e \<noteq> 0
                             then upd_buf b (\<lambda>h. h\<lparr>b_data := set_zone_at k e (b_data h), b_dirt := True\<rparr>) s
                             else s))
                   else Ret (e, s))
              (\<lambda>(e, s). kbind (brelse (Some b) s) (\<lambda>s. Ret (e, s))))"

definition bmap' :: "nat \<Rightarrow> int \<Rightarrow> bool \<Rightarrow> kernel \<Rightarrow> (nat \<times> kernel) kres" where
  "bmap' i block create s =
    (if block < 0 then Panic ''_bmap: block<0''
     else if block \<ge> 7 + 512 + 512 * 512 then Panic ''_bmap: block>big''
     else
     let k = nat block
     in if k < 7
        then kbind (fill_zone i k create s) (\<lambda>s. Ret (i_zone (inode_table s ! i) ! k, s))
        else if k - 7 < 512
        then kbind (fill_zone i 7 create s) (\<lambda>s.
               if i_zone (inode_table s ! i) ! 7 = 0 then Ret (0, s)
               else map_entry (i_dev (inode_table s ! i)) (i_zone (inode_table s ! i) ! 7) (k - 7) create s)
        else
        let k = k - 7 - 512
        in kbind (fill_zone i 8 create s) (\<lambda>s.
             if i_zone (inode_table s ! i) ! 8 = 0 then Ret (0, s)
             else kbind (map_entry (i_dev (inode_table s ! i)) (i_zone (inode_table s ! i) ! 8)
                           (k div 512) create s) (\<lambda>(z, s).
               if z = 0 then Ret (0, s)
               else map_entry (i_dev (inode_table s ! i)) z (k mod 512) create s)))"

definition bmap :: "nat \<Rightarrow> int \<Rightarrow> kernel \<Rightarrow> (nat \<times> kernel) kres" where
  "bmap i block s = bmap' i block False s"

definition create_block :: "nat \<Rightarrow> int \<Rightarrow> kernel \<Rightarrow> (nat \<times> kernel) kres" where
  "create_block i block s = bmap' i block True s"

section \<open>Reference counts\<close>

definition decr_i_count :: "nat \<Rightarrow> kernel \<Rightarrow> kernel" where
  "decr_i_count i s = upd_inode i (\<lambda>n. n\<lparr>i_count := (i_count n + 65535) mod 65536\<rparr>) s"

definition incr_i_count :: "nat \<Rightarrow> kernel \<Rightarrow> kernel" where
  "incr_i_count i s = upd_inode i (\<lambda>n. n\<lparr>i_count := (i_count n + 1) mod 65536\<rparr>) s"

text \<open>The part of \<open>iput\<close> from the label \<open>repeat\<close> on. Writing the inode makes it clean, so a second
  round is the last.\<close>

primrec iput_repeat :: "nat \<Rightarrow> nat \<Rightarrow> kernel \<Rightarrow> kernel kres" where
  "iput_repeat 0 i s = Hang"
| "iput_repeat (Suc f) i s =
    (let n = inode_table s ! i
     in if i_count n > 1 then Ret (decr_i_count i s)
        else if i_nlinks n = 0 then kbind (truncate i s) (free_inode (Some i))
        else if i_dirt n
        then kbind (write_inode i s) (\<lambda>s. kbind (wait_on_inode i s) (iput_repeat f i))
        else Ret (decr_i_count i s))"

definition iput :: "nat option \<Rightarrow> kernel \<Rightarrow> kernel kres" where
  "iput inode s =
    (case inode of
       None \<Rightarrow> Ret s
     | Some i \<Rightarrow>
        kbind (wait_on_inode i s) (\<lambda>s.
        let n = inode_table s ! i
        in if i_count n = 0 then Panic ''iput: trying to free free inode''
           else if i_pipe n
           then let s = decr_i_count i s
                in if i_count (inode_table s ! i) \<noteq> 0 then Ret s
                   else kbind (free_page (of_nat (i_size n)) (mem s)) (\<lambda>m.
                     Ret (upd_inode i (\<lambda>n. n\<lparr>i_count := 0, i_dirt := False, i_pipe := False\<rparr>) (s\<lparr>mem := m\<rparr>)))
           else if i_dev n = 0 then Ret (decr_i_count i s)
           else kbind (if S_ISBLK (i_mode n)
                       then kbind (sync_dev (i_zone n ! 0) s) (\<lambda>(_, s). wait_on_inode i s)
                       else Ret s)
                  (iput_repeat 3 i)))"

text \<open>The search of \<open>get_empty_inode\<close>, which goes on from where the last one stopped.\<close>

primrec scan_inodes :: "nat \<Rightarrow> nat \<Rightarrow> nat option \<Rightarrow> m_inode list \<Rightarrow> nat option \<times> nat" where
  "scan_inodes 0 last_i found ns = (found, last_i)"
| "scan_inodes (Suc k) last_i found ns =
    (let l = (if last_i + 1 \<ge> NR_INODE then 0 else last_i + 1)
     in if i_count (ns ! l) = 0
        then if \<not> i_dirt (ns ! l) \<and> \<not> i_lock (ns ! l) then (Some l, l) else scan_inodes k l (Some l) ns
        else scan_inodes k l found ns)"

text \<open>\<open>while (inode->i_dirt)\<close>: a write that leaves the inode dirty is repeated for ever.\<close>

primrec clean_inode :: "nat \<Rightarrow> nat \<Rightarrow> kernel \<Rightarrow> kernel kres" where
  "clean_inode 0 i s = (if i_dirt (inode_table s ! i) then Hang else Ret s)"
| "clean_inode (Suc f) i s =
    (if i_dirt (inode_table s ! i)
     then kbind (write_inode i s) (\<lambda>s. kbind (wait_on_inode i s) (clean_inode f i)) else Ret s)"

primrec get_empty_inode_loop :: "nat \<Rightarrow> kernel \<Rightarrow> (nat option \<times> kernel) kres" where
  "get_empty_inode_loop 0 s = Hang"
| "get_empty_inode_loop (Suc f) s =
    (let (r, l) = scan_inodes NR_INODE (last_inode s) None (inode_table s);
         s = s\<lparr>last_inode := l\<rparr>
     in case r of
          None \<Rightarrow> Panic ''No free inodes in mem''
        | Some i \<Rightarrow>
           kbind (wait_on_inode i s) (\<lambda>s. kbind (clean_inode 2 i s) (\<lambda>s.
             if i_count (inode_table s ! i) \<noteq> 0 then get_empty_inode_loop f s
             else Ret (Some i, upd_inode i (\<lambda>_. zero_inode\<lparr>i_count := 1\<rparr>) s))))"

definition get_empty_inode :: "kernel \<Rightarrow> (nat option \<times> kernel) kres" where
  "get_empty_inode s = get_empty_inode_loop 2 s"

definition get_pipe_inode :: "kernel \<Rightarrow> (nat option \<times> kernel) kres" where
  "get_pipe_inode s =
    kbind (get_empty_inode s) (\<lambda>(r, s).
      case r of
        None \<Rightarrow> Ret (None, s)
      | Some i \<Rightarrow>
         let (a, m) = get_free_page (mem s);
             s = s\<lparr>mem := m\<rparr>;
             s = upd_inode i (\<lambda>n. n\<lparr>i_size := unat a\<rparr>) s
         in if a = 0 then Ret (None, upd_inode i (\<lambda>n. n\<lparr>i_count := 0\<rparr>) s)
            else Ret (Some i, upd_inode i (\<lambda>n. n\<lparr>i_count := 2, i_zone := (i_zone n)[0 := 0, 1 := 0],
                                                i_pipe := True\<rparr>) s))"

definition read_inode :: "nat \<Rightarrow> kernel \<Rightarrow> kernel kres" where
  "read_inode i s =
    kbind (lock_inode i s) (\<lambda>s.
    let n = inode_table s ! i
    in kbind (get_super (i_dev n) s) (\<lambda>r.
         case r of
           None \<Rightarrow> Panic ''trying to read inode without dev''
         | Some sb \<Rightarrow>
            kbind (bread (i_dev n) (inode_block (super_blocks s ! sb) (i_num n)) s) (\<lambda>(r, s).
              case r of
                None \<Rightarrow> Panic ''unable to read i-node block''
              | Some b \<Rightarrow>
                 let s = upd_inode i (get_d_inode (b_data (bufs s ! b)) (inode_offset (i_num n))) s
                 in kbind (brelse (Some b) s) (\<lambda>s. Ret (unlock_inode i s)))))"

text \<open>The super block mounted on inode \<open>i\<close>.\<close>

primrec find_mount :: "nat \<Rightarrow> nat \<Rightarrow> nat \<Rightarrow> super_block list \<Rightarrow> nat option" where
  "find_mount 0 k i sbs = None"
| "find_mount (Suc n) k i sbs = (if s_imount (sbs ! k) = Some i then Some k else find_mount n (Suc k) i sbs)"

text \<open>The loop of \<open>iget\<close>; it starts over for each mount point it crosses.\<close>

primrec iget_loop ::
  "nat \<Rightarrow> nat \<Rightarrow> nat \<Rightarrow> nat \<Rightarrow> nat option \<Rightarrow> kernel \<Rightarrow> (nat option \<times> kernel) kres" where
  "iget_loop 0 i dev nr spare s = Hang"
| "iget_loop (Suc f) i dev nr spare s =
    (if i \<ge> NR_INODE
     then case spare of
            None \<Rightarrow> Ret (None, s)
          | Some e \<Rightarrow>
             let s = upd_inode e (\<lambda>n. n\<lparr>i_dev := dev mod 65536, i_num := nr mod 65536\<rparr>) s
             in kbind (read_inode e s) (\<lambda>s. Ret (Some e, s))
     else
     let n = inode_table s ! i
     in if i_dev n \<noteq> dev \<or> i_num n \<noteq> nr then iget_loop f (Suc i) dev nr spare s
        else
        kbind (wait_on_inode i s) (\<lambda>s.
        let n = inode_table s ! i
        in if i_dev n \<noteq> dev \<or> i_num n \<noteq> nr then iget_loop f 0 dev nr spare s
           else
           let s = incr_i_count i s
           in if i_mount (inode_table s ! i)
              then case find_mount NR_SUPER 0 i (super_blocks s) of
                     None \<Rightarrow> kbind (iput spare s) (\<lambda>s. Ret (Some i, s))
                   | Some k \<Rightarrow>
                      kbind (iput (Some i) s) (\<lambda>s.
                        iget_loop f 0 (s_dev (super_blocks s ! k)) ROOT_INO spare s)
              else kbind (iput spare s) (\<lambda>s. Ret (Some i, s))))"

text \<open>Each pass over the table takes at most \<open>NR_INODE + 1\<close> steps, and there are at most \<open>NR_SUPER\<close>
  mounted file systems to cross.\<close>

definition IGET_STEPS :: nat where
  "IGET_STEPS = (NR_INODE + 1) * (NR_SUPER + 1)"

definition iget :: "nat \<Rightarrow> nat \<Rightarrow> kernel \<Rightarrow> (nat option \<times> kernel) kres" where
  "iget dev nr s =
    (if dev = 0 then Panic ''iget with dev==0''
     else kbind (get_empty_inode s) (\<lambda>(spare, s). iget_loop IGET_STEPS 0 dev nr spare s))"

section \<open>New inodes\<close>

definition new_inode :: "nat \<Rightarrow> kernel \<Rightarrow> (nat option \<times> kernel) kres" where
  "new_inode dev s =
    kbind (get_empty_inode s) (\<lambda>(r, s).
      case r of
        None \<Rightarrow> Ret (None, s)
      | Some i \<Rightarrow>
         kbind (get_super dev s) (\<lambda>r.
           case r of
             None \<Rightarrow> Panic ''new_inode with unknown device''
           | Some k \<Rightarrow>
              let sb = super_blocks s ! k;
                  fail = kbind (iput (Some i) s) (\<lambda>s. Ret (None, s))
              in (case search_maps 0 (take 8 (s_imap sb)) s of
                    None \<Rightarrow> fail
                  | Some (m, b, j) \<Rightarrow>
                     if j + m * 8192 > s_ninodes sb then fail
                     else
                     let (was_set, d) = set_bit j (b_data (bufs s ! b));
                         s = upd_buf b (\<lambda>h. h\<lparr>b_data := d\<rparr>) s
                     in if was_set then Panic ''new_inode: bit already set''
                        else
                        let s = upd_buf b (\<lambda>h. h\<lparr>b_dirt := True\<rparr>) s
                        in Ret (Some i, upd_inode i (\<lambda>n. n\<lparr>
                             i_count := 1, i_nlinks := 1, i_dev := dev mod 65536,
                             i_uid := euid (proc s), i_gid := ucast (egid (proc s)), i_dirt := True,
                             i_num := (j + m * 8192) mod 65536,
                             i_mtime := now s, i_atime := now s, i_ctime := now s\<rparr>) s))))"

end
