(* ===== verification/Super.thy ===== *)
theory Super imports Inode begin

unbundle bit_operations_syntax

text \<open>
  \<open>fs/super.c\<close> without the system calls \<open>mount\<close> and \<open>umount\<close>: the table of super blocks, and mounting
  the root file system; \<open>check_disk_change\<close> of \<open>fs/buffer.c\<close>. Whether a floppy drive reports a
  changed disk is part of the state (\<open>floppy_changed\<close>); waiting for a key has no effect on it.
\<close>

definition lock_super :: "nat \<Rightarrow> kernel \<Rightarrow> kernel kres" where
  "lock_super i s =
    (if s_lock (super_blocks s ! i) then Hang else Ret (upd_super i (\<lambda>b. b\<lparr>s_lock := True\<rparr>) s))"

definition free_super :: "nat \<Rightarrow> kernel \<Rightarrow> kernel" where
  "free_super i s = upd_super i (\<lambda>b. b\<lparr>s_lock := False\<rparr>) s"

definition brelse_maps :: "nat \<Rightarrow> kernel \<Rightarrow> kernel kres" where
  "brelse_maps i s =
    kbind (kfold (\<lambda>k s. brelse (s_imap (super_blocks s ! i) ! k) s) [0..<I_MAP_SLOTS] s)
      (kfold (\<lambda>k s. brelse (s_zmap (super_blocks s ! i) ! k) s) [0..<Z_MAP_SLOTS])"

definition put_super :: "nat \<Rightarrow> kernel \<Rightarrow> kernel kres" where
  "put_super dev s =
    (if dev = ROOT_DEV s then Ret s
     else kbind (get_super dev s) (\<lambda>r.
       case r of
         None \<Rightarrow> Ret s
       | Some i \<Rightarrow>
          if s_imount (super_blocks s ! i) \<noteq> None then Ret s
          else kbind (lock_super i s) (\<lambda>s.
               kbind (brelse_maps i (upd_super i (\<lambda>b. b\<lparr>s_dev := 0\<rparr>) s)) (\<lambda>s.
               Ret (free_super i s)))))"

definition check_disk_change :: "nat \<Rightarrow> kernel \<Rightarrow> kernel kres" where
  "check_disk_change dev s =
    (if MAJOR dev \<noteq> 2 then Ret s
     else if \<not> floppy_changed s (dev mod 4) then Ret s
     else kbind (kfold (\<lambda>i s. if s_dev (super_blocks s ! i) = dev
                               then put_super (s_dev (super_blocks s ! i)) s else Ret s) [0..<NR_SUPER] s)
            (\<lambda>s. kbind (invalidate_inodes dev s) (invalidate_buffers dev)))"

text \<open>\<open>struct d_super_block\<close>\<close>

definition get_d_super :: "u8 list \<Rightarrow> super_block \<Rightarrow> super_block" where
  "get_d_super d b =
    b\<lparr>s_ninodes := get16 d 0, s_nzones := get16 d 2, s_imap_blocks := get16 d 4,
      s_zmap_blocks := get16 d 6, s_firstdatazone := get16 d 8, s_log_zone_size := get16 d 10,
      s_max_size := get32 d 12, s_magic := get16 d 16\<rparr>"

text \<open>Reading the map blocks: \<open>n\<close> more from slot \<open>k\<close> on, the next from \<open>block\<close>. A slot beyond the
  array is the next field of the structure in the code; here the store is dropped.\<close>

primrec read_maps ::
  "nat \<Rightarrow> (nat option list \<Rightarrow> super_block \<Rightarrow> super_block) \<Rightarrow> (super_block \<Rightarrow> nat option list)
    \<Rightarrow> nat \<Rightarrow> nat \<Rightarrow> nat \<Rightarrow> nat \<Rightarrow> kernel \<Rightarrow> (nat \<times> kernel) kres" where
  "read_maps 0 put get i k dev block s = Ret (block, s)"
| "read_maps (Suc n) put get i k dev block s =
    kbind (bread dev block s) (\<lambda>(r, s).
      let s = upd_super i (\<lambda>b. put ((get b)[k := r]) b) s
      in if r = None then Ret (block, s) else read_maps n put get i (Suc k) dev (block + 1) s)"

fun free_super_slot :: "nat \<Rightarrow> super_block list \<Rightarrow> nat option" where
  "free_super_slot i [] = None"
| "free_super_slot i (b # bs) = (if s_dev b = 0 then Some i else free_super_slot (Suc i) bs)"

definition read_super :: "nat \<Rightarrow> kernel \<Rightarrow> (nat option \<times> kernel) kres" where
  "read_super dev s =
    (if dev = 0 then Ret (None, s)
     else
     kbind (check_disk_change dev s) (\<lambda>s.
     kbind (get_super dev s) (\<lambda>r.
     case r of
       Some i \<Rightarrow> Ret (Some i, s)
     | None \<Rightarrow>
      (case free_super_slot 0 (super_blocks s) of
         None \<Rightarrow> Ret (None, s)
       | Some i \<Rightarrow>
          let s = upd_super i (\<lambda>b. b\<lparr>s_dev := dev, s_isup := None, s_imount := None, s_time := 0,
                                    s_rd_only := False, s_dirt := False\<rparr>) s;
              give_up = (\<lambda>s. Ret (None, free_super i (upd_super i (\<lambda>b. b\<lparr>s_dev := 0\<rparr>) s)))
          in
          kbind (lock_super i s) (\<lambda>s.
          kbind (bread dev 1 s) (\<lambda>(r, s).
          case r of
            None \<Rightarrow> give_up s
          | Some b \<Rightarrow>
             let s = upd_super i (get_d_super (b_data (bufs s ! b))) s
             in
             kbind (brelse (Some b) s) (\<lambda>s.
             if s_magic (super_blocks s ! i) \<noteq> SUPER_MAGIC then give_up s
             else
             let s = upd_super i (\<lambda>b. b\<lparr>s_imap := replicate I_MAP_SLOTS None,
                                       s_zmap := replicate Z_MAP_SLOTS None\<rparr>) s;
                 ni = s_imap_blocks (super_blocks s ! i);
                 nz = s_zmap_blocks (super_blocks s ! i)
             in
             kbind (read_maps ni (\<lambda>m. s_imap_update (\<lambda>_. m)) s_imap i 0 dev 2 s) (\<lambda>(block, s).
             kbind (read_maps nz (\<lambda>m. s_zmap_update (\<lambda>_. m)) s_zmap i 0 dev block s) (\<lambda>(block, s).
             if block \<noteq> 2 + ni + nz then kbind (brelse_maps i s) give_up
             else case (s_imap (super_blocks s ! i) ! 0, s_zmap (super_blocks s ! i) ! 0) of
                    (Some m, Some z) \<Rightarrow>
                      let s = upd_buf m (\<lambda>h. h\<lparr>b_data := (b_data h)[0 := b_data h ! 0 OR 1]\<rparr>) s;
                          s = upd_buf z (\<lambda>h. h\<lparr>b_data := (b_data h)[0 := b_data h ! 0 OR 1]\<rparr>) s
                      in Ret (Some i, free_super i s)
                  | _ \<Rightarrow> Hang)))))))))"

text \<open>The counting loops of \<open>mount_root\<close>, whose result is printed.\<close>

definition count_free :: "nat \<Rightarrow> nat option list \<Rightarrow> kernel \<Rightarrow> nat" where
  "count_free n maps s =
    length (filter (\<lambda>i. case maps ! (i div 8192) of
                          None \<Rightarrow> False
                        | Some b \<Rightarrow> \<not> test_bit (i mod 8192) (b_data (bufs s ! b))) [0..<n])"

definition mount_root :: "kernel \<Rightarrow> (nat \<times> nat \<times> kernel) kres" where
  "mount_root s =
    (let s = s\<lparr>file_table := map (\<lambda>f. f\<lparr>f_count := 0\<rparr>) (file_table s),
               super_blocks := map (\<lambda>b. b\<lparr>s_dev := 0, s_lock := False\<rparr>) (super_blocks s)\<rparr>
     in
     kbind (read_super (ROOT_DEV s) s) (\<lambda>(r, s).
     case r of
       None \<Rightarrow> Panic ''Unable to mount root''
     | Some p \<Rightarrow>
        kbind (iget (ROOT_DEV s) ROOT_INO s) (\<lambda>(r, s).
        case r of
          None \<Rightarrow> Panic ''Unable to read root i-node''
        | Some mi \<Rightarrow>
           let s = upd_inode mi (\<lambda>n. n\<lparr>i_count := (i_count n + 3) mod 65536\<rparr>) s;
               s = upd_super p (\<lambda>b. b\<lparr>s_isup := Some mi, s_imount := Some mi\<rparr>) s;
               s = s\<lparr>proc := (proc s)\<lparr>pwd := Some mi, root := Some mi\<rparr>\<rparr>;
               sb = super_blocks s ! p
           in Ret (count_free (s_nzones sb) (s_zmap sb) s,
                   count_free (s_ninodes sb + 1) (s_imap sb) s, s))))"

end
