(* ===== verification/File_dev.thy ===== *)
theory File_dev imports Inode begin

unbundle bit_operations_syntax

text \<open>
  \<open>fs/file_dev.c\<close> and \<open>fs/block_dev.c\<close>: reading and writing regular files and block devices, with the
  error numbers of \<open>include/errno.h\<close> and the accesses to the memory of the process. That memory is
  the function \<open>user\<close> from the address a system call is given to a byte.
\<close>

section \<open>Error numbers and flags\<close>

definition ERROR :: int where "ERROR = 99"
definition EPERM :: int where "EPERM = 1"
definition ENOENT :: int where "ENOENT = 2"
definition ESRCH :: int where "ESRCH = 3"
definition EIO :: int where "EIO = 5"
definition ENOEXEC :: int where "ENOEXEC = 8"
definition EBADF :: int where "EBADF = 9"
definition ECHILD :: int where "ECHILD = 10"
definition EAGAIN :: int where "EAGAIN = 11"
definition ENOMEM :: int where "ENOMEM = 12"
definition EACCES :: int where "EACCES = 13"
definition ENOTBLK :: int where "ENOTBLK = 15"
definition EBUSY :: int where "EBUSY = 16"
definition EEXIST :: int where "EEXIST = 17"
definition EXDEV :: int where "EXDEV = 18"
definition ENODEV :: int where "ENODEV = 19"
definition ENOTDIR :: int where "ENOTDIR = 20"
definition EISDIR :: int where "EISDIR = 21"
definition EINVAL :: int where "EINVAL = 22"
definition ENFILE :: int where "ENFILE = 23"
definition EMFILE :: int where "EMFILE = 24"
definition ENOTTY :: int where "ENOTTY = 25"
definition ENOSPC :: int where "ENOSPC = 28"
definition ESPIPE :: int where "ESPIPE = 29"
definition ENOTEMPTY :: int where "ENOTEMPTY = 39"

definition O_ACCMODE :: u16 where "O_ACCMODE = 3"
definition O_CREAT :: u16 where "O_CREAT = 0x40"
definition O_EXCL :: u16 where "O_EXCL = 0x80"
definition O_TRUNC :: u16 where "O_TRUNC = 0x200"
definition O_APPEND :: u16 where "O_APPEND = 0x400"
definition O_NONBLOCK :: u16 where "O_NONBLOCK = 0x800"

section \<open>Memory of the process\<close>

primrec put_fs_bytes :: "u8 list \<Rightarrow> u32 \<Rightarrow> kernel \<Rightarrow> kernel" where
  "put_fs_bytes [] a s = s"
| "put_fs_bytes (x # xs) a s = put_fs_bytes xs (a + 1) (s\<lparr>user := (user s)(a := x)\<rparr>)"

definition get_fs_bytes :: "u32 \<Rightarrow> nat \<Rightarrow> kernel \<Rightarrow> u8 list" where
  "get_fs_bytes a n s = map (\<lambda>i. user s (a + of_nat i)) [0..<n]"

text \<open>\<open>n\<close> bytes from offset \<open>k\<close> of a block, and bytes \<open>xs\<close> put there.\<close>

definition block_slice :: "nat \<Rightarrow> nat \<Rightarrow> u8 list \<Rightarrow> u8 list" where
  "block_slice k n d = take n (drop k d)"

definition block_patch :: "nat \<Rightarrow> u8 list \<Rightarrow> u8 list \<Rightarrow> u8 list" where
  "block_patch k xs d = take k d @ xs @ drop (k + length xs) d"

section \<open>Regular files\<close>

text \<open>The loop of \<open>file_read\<close>; every round moves at least one byte, so \<open>count\<close> rounds are enough. The
  result is what is left to read.\<close>

primrec file_read_loop ::
  "nat \<Rightarrow> nat \<Rightarrow> nat \<Rightarrow> u32 \<Rightarrow> int \<Rightarrow> kernel \<Rightarrow> (int \<times> kernel) kres" where
  "file_read_loop 0 i fl buf left s = Ret (left, s)"
| "file_read_loop (Suc n) i fl buf left s =
    (if left = 0 then Ret (left, s)
     else
     kbind (bmap i (c_div (f_pos (file_table s ! fl)) 1024) s) (\<lambda>(nr, s).
     kbind (if nr \<noteq> 0 then kbind (bread (i_dev (inode_table s ! i)) nr s) (\<lambda>(r, s). Ret (r = None, r, s))
            else Ret (False, None, s)) (\<lambda>(failed, bh, s).
       if failed then Ret (left, s)
       else
       let nr = c_mod (f_pos (file_table s ! fl)) 1024;
           chars = min (1024 - nr) left;
           s = upd_file fl (\<lambda>f. f\<lparr>f_pos := wrap32 (f_pos f + chars)\<rparr>) s
       in case bh of
            Some b \<Rightarrow>
             let s = put_fs_bytes (block_slice (nat nr) (nat chars) (b_data (bufs s ! b))) buf s
             in kbind (brelse (Some b) s)
                  (file_read_loop n i fl (buf + of_int chars) (left - chars))
          | None \<Rightarrow>
             file_read_loop n i fl (buf + of_int chars) (left - chars)
               (put_fs_bytes (replicate (nat chars) 0) buf s))))"

definition file_read :: "nat \<Rightarrow> nat \<Rightarrow> u32 \<Rightarrow> int \<Rightarrow> kernel \<Rightarrow> (int \<times> kernel) kres" where
  "file_read i fl buf count s =
    (if count \<le> 0 then Ret (0, s)
     else kbind (file_read_loop (nat count) i fl buf count s) (\<lambda>(left, s).
       let s = upd_inode i (\<lambda>n. n\<lparr>i_atime := now s\<rparr>) s
       in Ret (if count - left \<noteq> 0 then count - left else - ERROR, s)))"

text \<open>The loop of \<open>file_write\<close>, with the local variables \<open>i\<close> (here \<open>written\<close>) and \<open>pos\<close>.\<close>

primrec file_write_loop ::
  "nat \<Rightarrow> nat \<Rightarrow> u32 \<Rightarrow> int \<Rightarrow> int \<Rightarrow> int \<Rightarrow> kernel \<Rightarrow> (int \<times> int \<times> kernel) kres" where
  "file_write_loop 0 i buf count written pos s = Ret (written, pos, s)"
| "file_write_loop (Suc n) i buf count written pos s =
    (if written \<ge> count then Ret (written, pos, s)
     else
     kbind (create_block i (c_div pos 1024) s) (\<lambda>(block, s).
       if block = 0 then Ret (written, pos, s)
       else kbind (bread (i_dev (inode_table s ! i)) block s) (\<lambda>(r, s).
         case r of
           None \<Rightarrow> Ret (written, pos, s)
         | Some b \<Rightarrow>
            let k = c_mod pos 1024;
                c = min (1024 - k) (count - written);
                s = upd_buf b (\<lambda>h. h\<lparr>b_dirt := True\<rparr>) s;
                pos = wrap32 (pos + c);
                s = (if nat (pos mod 2 ^ 32) > i_size (inode_table s ! i)
                     then upd_inode i (\<lambda>n. n\<lparr>i_size := nat (pos mod 2 ^ 32), i_dirt := True\<rparr>) s else s);
                s = upd_buf b (\<lambda>h. h\<lparr>b_data := block_patch (nat k) (get_fs_bytes buf (nat c) s) (b_data h)\<rparr>) s
            in kbind (brelse (Some b) s)
                 (file_write_loop n i (buf + of_int c) count (written + c) pos))))"

definition file_write :: "nat \<Rightarrow> nat \<Rightarrow> u32 \<Rightarrow> int \<Rightarrow> kernel \<Rightarrow> (int \<times> kernel) kres" where
  "file_write i fl buf count s =
    (let f = file_table s ! fl;
         append = (f_flags f AND O_APPEND \<noteq> 0);
         pos = (if append then wrap32 (int (i_size (inode_table s ! i))) else f_pos f)
     in kbind (file_write_loop (nat count) i buf count 0 pos s) (\<lambda>(written, pos, s).
          let s = upd_inode i (\<lambda>n. n\<lparr>i_mtime := now s\<rparr>) s;
              s = (if \<not> append
                   then upd_inode i (\<lambda>n. n\<lparr>i_ctime := now s\<rparr>) (upd_file fl (\<lambda>f. f\<lparr>f_pos := pos\<rparr>) s)
                   else s)
          in Ret (if written \<noteq> 0 then written else - 1, s)))"

section \<open>Block devices\<close>

text \<open>A full block is taken from \<open>getblk\<close> without reading it, a part of one is read first. The position
  is returned with the result.\<close>

primrec block_write_loop ::
  "nat \<Rightarrow> nat \<Rightarrow> nat \<Rightarrow> nat \<Rightarrow> u32 \<Rightarrow> int \<Rightarrow> int \<Rightarrow> int \<Rightarrow> kernel \<Rightarrow> (int \<times> int \<times> kernel) kres"
where
  "block_write_loop 0 dev block offset buf count written pos s = Ret (written, pos, s)"
| "block_write_loop (Suc n) dev block offset buf count written pos s =
    (if count \<le> 0 then Ret (written, pos, s)
     else
     let chars = min (1024 - int offset) count
     in kbind (if chars = 1024 then kbind (getblk dev block s) (\<lambda>(b, s). Ret (Some b, s))
               else breada_si sync_inodes dev block [block + 1, block + 2] s) (\<lambda>(r, s).
          case r of
            None \<Rightarrow> Ret (if written \<noteq> 0 then written else - EIO, pos, s)
          | Some b \<Rightarrow>
             let s = upd_buf b (\<lambda>h. h\<lparr>
                       b_data := block_patch offset (get_fs_bytes buf (nat chars) s) (b_data h),
                       b_dirt := True\<rparr>) s
             in kbind (brelse (Some b) s)
                  (block_write_loop n dev (block + 1) 0 (buf + of_int chars) (count - chars)
                     (written + chars) (wrap32 (pos + chars)))))"

definition block_write :: "nat \<Rightarrow> int \<Rightarrow> u32 \<Rightarrow> int \<Rightarrow> kernel \<Rightarrow> (int \<times> int \<times> kernel) kres" where
  "block_write dev pos buf count s =
    block_write_loop (nat count) dev (nat (pos div 1024)) (nat (pos mod 1024)) buf count 0 pos s"

primrec block_read_loop ::
  "nat \<Rightarrow> nat \<Rightarrow> nat \<Rightarrow> nat \<Rightarrow> u32 \<Rightarrow> int \<Rightarrow> int \<Rightarrow> int \<Rightarrow> kernel \<Rightarrow> (int \<times> int \<times> kernel) kres"
where
  "block_read_loop 0 dev block offset buf count got pos s = Ret (got, pos, s)"
| "block_read_loop (Suc n) dev block offset buf count got pos s =
    (if count \<le> 0 then Ret (got, pos, s)
     else
     let chars = min (1024 - int offset) count
     in kbind (breada_si sync_inodes dev block [block + 1, block + 2] s) (\<lambda>(r, s).
          case r of
            None \<Rightarrow> Ret (if got \<noteq> 0 then got else - EIO, pos, s)
          | Some b \<Rightarrow>
             let s = put_fs_bytes (block_slice offset (nat chars) (b_data (bufs s ! b))) buf s
             in kbind (brelse (Some b) s)
                  (block_read_loop n dev (block + 1) 0 (buf + of_int chars) (count - chars)
                     (got + chars) (wrap32 (pos + chars)))))"

definition block_read :: "nat \<Rightarrow> int \<Rightarrow> u32 \<Rightarrow> int \<Rightarrow> kernel \<Rightarrow> (int \<times> int \<times> kernel) kres" where
  "block_read dev pos buf count s =
    block_read_loop (nat count) dev (nat (pos div 1024)) (nat (pos mod 1024)) buf count 0 pos s"

end
