(* ===== verification/Pipe.thy ===== *)
theory Pipe imports File_dev begin

unbundle bit_operations_syntax

text \<open>
  \<open>fs/pipe.c\<close>: pipes. A pipe is one page of memory used as a ring of 4095 bytes; the page's address is
  in \<open>i_size\<close>, the head and tail in the first two zones. A process that finds the pipe empty (or
  full) and the other end open sleeps until the other end acts; with one process that is
  \<open>Hang\<close>.
\<close>

definition PAGE_SIZE :: nat where "PAGE_SIZE = 4096"

definition PIPE_HEAD :: "m_inode \<Rightarrow> nat" where "PIPE_HEAD n = i_zone n ! 0"
definition PIPE_TAIL :: "m_inode \<Rightarrow> nat" where "PIPE_TAIL n = i_zone n ! 1"

definition PIPE_SIZE :: "m_inode \<Rightarrow> nat" where
  "PIPE_SIZE n = nat ((int (PIPE_HEAD n) - int (PIPE_TAIL n)) mod int PAGE_SIZE)"

text \<open>The loops; every round moves at least one byte.\<close>

primrec read_pipe_loop :: "nat \<Rightarrow> nat \<Rightarrow> u32 \<Rightarrow> int \<Rightarrow> int \<Rightarrow> kernel \<Rightarrow> (int \<times> kernel) kres" where
  "read_pipe_loop 0 i buf count got s = Ret (got, s)"
| "read_pipe_loop (Suc f) i buf count got s =
    (if count \<le> 0 then Ret (got, s)
     else
     let n = inode_table s ! i; avail = PIPE_SIZE n
     in if avail = 0
        then if i_count n \<noteq> 2 then Ret (got, s) else Hang
        else
        let chars = min (min (PAGE_SIZE - PIPE_TAIL n) (nat count)) avail;
            from = PIPE_TAIL n;
            s = upd_inode i (\<lambda>n. n\<lparr>i_zone := (i_zone n)[1 := (PIPE_TAIL n + chars) mod PAGE_SIZE]\<rparr>) s;
            s = put_fs_bytes (load_bytes (mem s) (i_size n + from) chars) buf s
        in read_pipe_loop f i (buf + of_nat chars) (count - int chars) (got + int chars) s)"

definition read_pipe :: "nat \<Rightarrow> u32 \<Rightarrow> int \<Rightarrow> kernel \<Rightarrow> (int \<times> kernel) kres" where
  "read_pipe i buf count s = read_pipe_loop (nat count) i buf count 0 s"

primrec write_pipe_loop :: "nat \<Rightarrow> nat \<Rightarrow> u32 \<Rightarrow> int \<Rightarrow> int \<Rightarrow> kernel \<Rightarrow> (int \<times> kernel) kres" where
  "write_pipe_loop 0 i buf count written s = Ret (written, s)"
| "write_pipe_loop (Suc f) i buf count written s =
    (if count \<le> 0 then Ret (written, s)
     else
     let n = inode_table s ! i; room = PAGE_SIZE - 1 - PIPE_SIZE n
     in if room = 0
        then if i_count n \<noteq> 2
             then Ret (if written \<noteq> 0 then written else - 1,
                       s\<lparr>proc := (proc s)\<lparr>signal := signal (proc s) OR sigbit SIGPIPE\<rparr>\<rparr>)
             else Hang
        else
        let chars = min (min (PAGE_SIZE - PIPE_HEAD n) (nat count)) room;
            to = PIPE_HEAD n;
            s = upd_inode i (\<lambda>n. n\<lparr>i_zone := (i_zone n)[0 := (PIPE_HEAD n + chars) mod PAGE_SIZE]\<rparr>) s;
            s = s\<lparr>mem := store_bytes (i_size n + to) (get_fs_bytes buf chars s) (mem s)\<rparr>
        in write_pipe_loop f i (buf + of_nat chars) (count - int chars) (written + int chars) s)"

definition write_pipe :: "nat \<Rightarrow> u32 \<Rightarrow> int \<Rightarrow> kernel \<Rightarrow> (int \<times> kernel) kres" where
  "write_pipe i buf count s = write_pipe_loop (nat count) i buf count 0 s"

section \<open>\<open>sys_pipe\<close>\<close>

text \<open>The first \<open>n\<close> free slots from slot \<open>k\<close> on.\<close>

fun free_slots :: "nat \<Rightarrow> nat \<Rightarrow> bool list \<Rightarrow> nat list" where
  "free_slots n k [] = []"
| "free_slots n k (x # xs) =
    (if n = 0 then [] else if x then k # free_slots (n - 1) (Suc k) xs else free_slots n (Suc k) xs)"

text \<open>\<open>put_fs_long\<close>\<close>

definition put_fs_long :: "u32 \<Rightarrow> u32 \<Rightarrow> kernel \<Rightarrow> kernel" where
  "put_fs_long v a s =
    put_fs_bytes [ucast v, ucast (drop_bit 8 v), ucast (drop_bit 16 v), ucast (drop_bit 24 v)] a s"

definition upd_filp :: "nat \<Rightarrow> nat option \<Rightarrow> kernel \<Rightarrow> kernel" where
  "upd_filp fd f s = s\<lparr>proc := (proc s)\<lparr>filp := (filp (proc s))[fd := f]\<rparr>\<rparr>"

definition sys_pipe :: "u32 \<Rightarrow> kernel \<Rightarrow> (int \<times> kernel) kres" where
  "sys_pipe fildes s =
    (let fs = free_slots 2 0 (map (\<lambda>f. f_count f = 0) (file_table s));
         s = fold (\<lambda>f. upd_file f (\<lambda>x. x\<lparr>f_count := f_count x + 1\<rparr>)) fs s
     in if length fs < 2
        then Ret (- 1, if length fs = 1 then upd_file (fs ! 0) (\<lambda>x. x\<lparr>f_count := 0\<rparr>) s else s)
        else
        let fds = free_slots 2 0 (map (\<lambda>f. f = None) (filp (proc s)));
            s = fold (\<lambda>(fd, f). upd_filp fd (Some f)) (zip fds fs) s;
            undo = fold (\<lambda>f. upd_file f (\<lambda>x. x\<lparr>f_count := 0\<rparr>)) fs
        in if length fds < 2
           then Ret (- 1, undo (if length fds = 1 then upd_filp (fds ! 0) None s else s))
           else kbind (get_pipe_inode s) (\<lambda>(r, s).
             case r of
               None \<Rightarrow> Ret (- 1, undo (fold (\<lambda>fd. upd_filp fd None) fds s))
             | Some i \<Rightarrow>
                let s = upd_file (fs ! 0) (\<lambda>f. f\<lparr>f_inode := Some i, f_pos := 0, f_mode := 1\<rparr>) s;
                    s = upd_file (fs ! 1) (\<lambda>f. f\<lparr>f_inode := Some i, f_pos := 0, f_mode := 2\<rparr>) s;
                    s = put_fs_long (of_nat (fds ! 0)) fildes s;
                    s = put_fs_long (of_nat (fds ! 1)) (fildes + 4) s
                in Ret (0, s)))"

end
