(* ===== verification/Rw.thy ===== *)
theory Rw imports Pipe begin

unbundle bit_operations_syntax

text \<open>
  \<open>fs/read_write.c\<close>, \<open>fs/char_dev.c\<close> and \<open>fs/ioctl.c\<close>: the system calls that dispatch on the kind of
  file. The terminal driver is an argument of the character-device operations.
\<close>

type_synonym tty_rw = "int \<Rightarrow> nat \<Rightarrow> u32 \<Rightarrow> int \<Rightarrow> kernel \<Rightarrow> (int \<times> kernel) kres"

section \<open>Character devices\<close>

definition rw_ttyx :: "tty_rw \<Rightarrow> int \<Rightarrow> nat \<Rightarrow> u32 \<Rightarrow> int \<Rightarrow> int \<Rightarrow> kernel \<Rightarrow> (int \<times> int \<times> kernel) kres" where
  "rw_ttyx drv rw minor buf count pos s =
    kbind (drv rw minor buf count s) (\<lambda>(r, s). Ret (r, pos, s))"

definition rw_tty :: "tty_rw \<Rightarrow> int \<Rightarrow> nat \<Rightarrow> u32 \<Rightarrow> int \<Rightarrow> int \<Rightarrow> kernel \<Rightarrow> (int \<times> int \<times> kernel) kres" where
  "rw_tty drv rw minor buf count pos s =
    (if tty (proc s) < 0 then Ret (- EPERM, pos, s)
     else rw_ttyx drv rw (nat (tty (proc s))) buf count pos s)"

primrec rw_port_loop :: "nat \<Rightarrow> int \<Rightarrow> u32 \<Rightarrow> int \<Rightarrow> kernel \<Rightarrow> int \<times> kernel" where
  "rw_port_loop 0 rw buf i s = (i, s)"
| "rw_port_loop (Suc n) rw buf i s =
    (if i \<ge> 65536 then (i, s)
     else rw_port_loop n rw (buf + 1) (i + 1)
            (if rw = READ then put_fs_bytes [port_in s (nat i)] buf s
             else s\<lparr>port_out := port_out s @ [(user s buf, nat i)]\<rparr>))"

definition rw_port :: "int \<Rightarrow> u32 \<Rightarrow> int \<Rightarrow> int \<Rightarrow> kernel \<Rightarrow> (int \<times> int \<times> kernel) kres" where
  "rw_port rw buf count pos s =
    (let (i, s) = rw_port_loop (nat count) rw buf pos s in Ret (i - pos, pos + (i - pos), s))"

definition rw_memory :: "int \<Rightarrow> nat \<Rightarrow> u32 \<Rightarrow> int \<Rightarrow> int \<Rightarrow> kernel \<Rightarrow> (int \<times> int \<times> kernel) kres" where
  "rw_memory rw minor buf count pos s =
    (if minor = 3 then Ret (if rw = READ then 0 else count, pos, s)
     else if minor = 4 then rw_port rw buf count pos s
     else Ret (- EIO, pos, s))"

text \<open>\<open>crw_table\<close>: majors 1, 4 and 5 have a driver; the table has 8 entries.\<close>

definition rw_char :: "tty_rw \<Rightarrow> int \<Rightarrow> nat \<Rightarrow> u32 \<Rightarrow> int \<Rightarrow> int \<Rightarrow> kernel \<Rightarrow> (int \<times> int \<times> kernel) kres" where
  "rw_char drv rw dev buf count pos s =
    (if MAJOR dev = 1 then rw_memory rw (MINOR dev) buf count pos s
     else if MAJOR dev = 4 then rw_ttyx drv rw (MINOR dev) buf count pos s
     else if MAJOR dev = 5 then rw_tty drv rw (MINOR dev) buf count pos s
     else Ret (- ENODEV, pos, s))"

definition sys_ioctl ::
  "(nat \<Rightarrow> nat \<Rightarrow> u32 \<Rightarrow> kernel \<Rightarrow> (int \<times> kernel) kres) \<Rightarrow> nat \<Rightarrow> nat \<Rightarrow> u32 \<Rightarrow> kernel \<Rightarrow> (int \<times> kernel) kres" where
  "sys_ioctl tty_ioctl fd cmd arg s =
    (if fd \<ge> NR_OPEN then Ret (- EBADF, s)
     else case filp (proc s) ! fd of
       None \<Rightarrow> Ret (- EBADF, s)
     | Some f \<Rightarrow>
        let n = inode_table s ! the (f_inode (file_table s ! f)); dev = i_zone n ! 0
        in if \<not> S_ISCHR (i_mode n) \<and> \<not> S_ISBLK (i_mode n) then Ret (- EINVAL, s)
           else if MAJOR dev \<ge> 8 then Ret (- ENODEV, s)
           else if MAJOR dev \<noteq> 4 \<and> MAJOR dev \<noteq> 5 then Ret (- ENOTTY, s)
           else tty_ioctl dev cmd arg s)"

section \<open>\<open>lseek\<close>, \<open>read\<close> and \<open>write\<close>\<close>

definition IS_SEEKABLE :: "nat \<Rightarrow> bool" where
  "IS_SEEKABLE x \<longleftrightarrow> 1 \<le> x \<and> x \<le> 3"

definition sys_lseek :: "nat \<Rightarrow> int \<Rightarrow> int \<Rightarrow> kernel \<Rightarrow> int \<times> kernel" where
  "sys_lseek fd offset origin s =
    (if fd \<ge> NR_OPEN then (- EBADF, s)
     else case filp (proc s) ! fd of
       None \<Rightarrow> (- EBADF, s)
     | Some f \<Rightarrow>
       (case f_inode (file_table s ! f) of
          None \<Rightarrow> (- EBADF, s)
        | Some i \<Rightarrow>
           if \<not> IS_SEEKABLE (MAJOR (i_dev (inode_table s ! i))) then (- EBADF, s)
           else if i_pipe (inode_table s ! i) then (- ESPIPE, s)
           else if origin = 0
           then if offset < 0 then (- EINVAL, s)
                else (offset, upd_file f (\<lambda>x. x\<lparr>f_pos := offset\<rparr>) s)
           else if origin = 1
           then let p = wrap32 (f_pos (file_table s ! f) + offset)
                in if p < 0 then (- EINVAL, s) else (p, upd_file f (\<lambda>x. x\<lparr>f_pos := p\<rparr>) s)
           else if origin = 2
           then let p = wrap32 (int (i_size (inode_table s ! i)) + offset)
                in if p < 0 then (- EINVAL, s) else (p, upd_file f (\<lambda>x. x\<lparr>f_pos := p\<rparr>) s)
           else (- EINVAL, s)))"

text \<open>A result with a new file position.\<close>

definition set_pos :: "nat \<Rightarrow> (int \<times> int \<times> kernel) kres \<Rightarrow> (int \<times> kernel) kres" where
  "set_pos f r = kbind r (\<lambda>(v, pos, s). Ret (v, upd_file f (\<lambda>x. x\<lparr>f_pos := pos\<rparr>) s))"

text \<open>The comparison with \<open>i_size\<close>, an \<open>unsigned long\<close>, is unsigned.\<close>

definition sys_read :: "tty_rw \<Rightarrow> nat \<Rightarrow> u32 \<Rightarrow> int \<Rightarrow> kernel \<Rightarrow> (int \<times> kernel) kres" where
  "sys_read drv fd buf count s =
    (if fd \<ge> NR_OPEN \<or> count < 0 \<or> filp (proc s) ! fd = None then Ret (- EINVAL, s)
     else if count = 0 then Ret (0, s)
     else
     let f = the (filp (proc s) ! fd);
         fl = file_table s ! f;
         i = the (f_inode fl);
         n = inode_table s ! i
     in if i_pipe n then if f_mode fl AND 1 \<noteq> 0 then read_pipe i buf count s else Ret (- EIO, s)
        else if S_ISCHR (i_mode n)
        then set_pos f (rw_char drv READ (i_zone n ! 0) buf count (f_pos fl) s)
        else if S_ISBLK (i_mode n)
        then set_pos f (block_read (i_zone n ! 0) (f_pos fl) buf count s)
        else if S_ISDIR (i_mode n) \<or> S_ISREG (i_mode n)
        then let count = (if nat ((count + f_pos fl) mod 2 ^ 32) > i_size n
                          then wrap32 (int (i_size n) - f_pos fl) else count)
             in if count \<le> 0 then Ret (0, s) else file_read i f buf count s
        else Ret (- EINVAL, s))"

definition sys_write :: "tty_rw \<Rightarrow> nat \<Rightarrow> u32 \<Rightarrow> int \<Rightarrow> kernel \<Rightarrow> (int \<times> kernel) kres" where
  "sys_write drv fd buf count s =
    (if fd \<ge> NR_OPEN \<or> count < 0 \<or> filp (proc s) ! fd = None then Ret (- EINVAL, s)
     else if count = 0 then Ret (0, s)
     else
     let f = the (filp (proc s) ! fd);
         fl = file_table s ! f;
         i = the (f_inode fl);
         n = inode_table s ! i
     in if i_pipe n then if f_mode fl AND 2 \<noteq> 0 then write_pipe i buf count s else Ret (- EIO, s)
        else if S_ISCHR (i_mode n)
        then set_pos f (rw_char drv WRITE (i_zone n ! 0) buf count (f_pos fl) s)
        else if S_ISBLK (i_mode n)
        then set_pos f (block_write (i_zone n ! 0) (f_pos fl) buf count s)
        else if S_ISREG (i_mode n) then file_write i f buf count s
        else Ret (- EINVAL, s))"

end
