(* ===== verification/Elevator.thy ===== *)
theory Elevator imports Blk "HOL-Library.Product_Lexorder" "HOL-Library.Multiset" begin

text \<open>
  The request queue as a list. The chain of \<open>r_next\<close> pointers of the code is abstracted to the list of
  request numbers it visits; \<open>add_request\<close> then is the insertion function \<open>elevator\<close> on lists, and the
  queue always consists of at most two ascending sweeps over the device.
\<close>

section \<open>The elevator on lists\<close>

fun elevator :: "('a \<Rightarrow> 'k::linorder) \<Rightarrow> 'a \<Rightarrow> 'a list \<Rightarrow> 'a list" where
  "elevator k x [] = [x]"
| "elevator k x [a] = [a, x]"
| "elevator k x (a # b # q) =
    (if (k a < k x \<or> \<not> k a < k b) \<and> k x < k b then a # x # b # q else a # elevator k x (b # q))"

lemma mset_elevator: "mset (elevator k x q) = add_mset x (mset q)"
  by (induction k x q rule: elevator.induct) auto

lemma set_elevator [simp]: "set (elevator k x q) = insert x (set q)"
  using arg_cong [OF mset_elevator, of set_mset k x q] by simp

lemma distinct_elevator: "distinct (elevator k x q) \<longleftrightarrow> distinct q \<and> x \<notin> set q"
  using mset_elevator [of k x q] by (metis distinct.simps(2) mset.simps(2) mset_eq_imp_distinct_iff)

lemma hd_elevator: "q \<noteq> [] \<Longrightarrow> hd (elevator k x q) = hd q"
  by (cases "(k, x, q)" rule: elevator.cases) auto

abbreviation ascending :: "('a \<Rightarrow> 'k::linorder) \<Rightarrow> 'a list \<Rightarrow> bool" where
  "ascending k \<equiv> sorted_wrt (\<lambda>a b. k a < k b)"

definition two_sweeps :: "('a \<Rightarrow> 'k::linorder) \<Rightarrow> 'a list \<Rightarrow> bool" where
  "two_sweeps k q \<longleftrightarrow> (\<exists>xs ys. q = xs @ ys \<and> ascending k xs \<and> ascending k ys)"

lemma elevator_ascending:
  "ascending k (a # q) \<Longrightarrow> k a < k x \<Longrightarrow> k x \<notin> k ` set q \<Longrightarrow> ascending k (elevator k x (a # q))"
proof (induction q arbitrary: a)
  case (Cons b q)
  show ?case
  proof (cases "k x < k b")
    case True
    with Cons.prems show ?thesis by (auto intro: less_trans)
  next
    case False
    with Cons.prems have "k b < k x" by (auto simp: not_less le_less)
    with Cons have "ascending k (elevator k x (b # q))" by simp
    with False Cons.prems show ?thesis by auto
  qed
qed simp

lemma elevator_before: "ascending k (a # q) \<Longrightarrow> k x < k a \<Longrightarrow> elevator k x (a # q) = a # q @ [x]"
proof (induction q arbitrary: a)
  case (Cons b q)
  then have "elevator k x (b # q) = b # q @ [x]" by (intro Cons.IH) (auto intro: less_trans)
  with Cons.prems show ?case by auto
qed simp

lemma elevator_skip:
  assumes "ascending k (a # xs)" "ys \<noteq> []" "\<not> k (last (a # xs)) < k (hd ys)" "k x < k a"
  shows "elevator k x (a # xs @ ys) =
    (if k x < k (hd ys) then a # xs @ x # ys else a # xs @ elevator k x ys)"
  using assms
proof (induction xs arbitrary: a)
  case Nil
  then show ?case by (cases ys) auto
next
  case (Cons b xs)
  then have "elevator k x (b # xs @ ys) =
      (if k x < k (hd ys) then b # xs @ x # ys else b # xs @ elevator k x ys)"
    by (intro Cons.IH) (auto intro: less_trans)
  with Cons.prems show ?case by auto
qed

lemma elevator_into_first:
  assumes "ascending k (a # xs)" "ys \<noteq> []" "\<not> k (last (a # xs)) < k (hd ys)" "k a < k x" "k x \<notin> k ` set xs"
  shows "\<exists>zs. elevator k x (a # xs @ ys) = zs @ ys \<and> ascending k zs \<and> set zs = insert x (set (a # xs))
    \<or> elevator k x (a # xs @ ys) = a # xs @ elevator k x ys \<and> k (last (a # xs)) < k x"
  using assms
proof (induction xs arbitrary: a)
  case Nil
  then show ?case by (cases ys) auto
next
  case (Cons b xs)
  show ?case
  proof (cases "k x < k b")
    case True
    with Cons.prems show ?thesis
      by (intro exI [of _ "a # x # b # xs"]) (auto intro: less_trans)
  next
    case False
    then have bx: "k b < k x" using Cons.prems(5) by (auto simp: not_less le_less)
    have step: "elevator k x (a # (b # xs) @ ys) = a # elevator k x (b # xs @ ys)"
      using False by simp
    from Cons.IH [of b] Cons.prems bx obtain zs where
      "elevator k x (b # xs @ ys) = zs @ ys \<and> ascending k zs \<and> set zs = insert x (set (b # xs))
       \<or> elevator k x (b # xs @ ys) = b # xs @ elevator k x ys \<and> k (last (b # xs)) < k x"
      by auto
    then show ?thesis
    proof
      assume z: "elevator k x (b # xs @ ys) = zs @ ys \<and> ascending k zs \<and> set zs = insert x (set (b # xs))"
      with Cons.prems show ?thesis
        unfolding step by (intro exI [of _ "a # zs"] disjI1) (auto intro: less_trans)
    next
      assume "elevator k x (b # xs @ ys) = b # xs @ elevator k x ys \<and> k (last (b # xs)) < k x"
      with Cons.prems show ?thesis unfolding step by auto
    qed
  qed
qed

lemma two_sweeps_one: "ascending k xs \<Longrightarrow> two_sweeps k xs"
  unfolding two_sweeps_def by (metis append_Nil2 sorted_wrt.simps(1))

lemma two_sweeps_append: "ascending k xs \<Longrightarrow> ascending k ys \<Longrightarrow> two_sweeps k (xs @ ys)"
  by (auto simp: two_sweeps_def)

lemma ascending_join:
  assumes "ascending k xs" "ascending k (b # ys)" "xs \<noteq> [] \<Longrightarrow> k (last xs) < k b"
  shows "ascending k (xs @ b # ys)"
proof -
  have "k u < k v" if "u \<in> set xs" "v \<in> set (b # ys)" for u v
  proof -
    have "k u \<le> k (last xs)" using assms(1) that(1)
      by (induction xs) (auto split: if_splits intro: less_imp_le)
    moreover have "k (last xs) < k b" using assms(3) that(1) by (cases xs) auto
    moreover have "k b \<le> k v" using assms(2) that(2) by auto
    ultimately show ?thesis by simp
  qed
  then show ?thesis using assms(1,2) by (simp add: sorted_wrt_append)
qed

lemma elevator_one_sweep:
  assumes "ascending k q" "k x \<notin> k ` set q"
  shows "two_sweeps k (elevator k x q)"
proof (cases q)
  case (Cons a zs)
  show ?thesis
  proof (cases "k a < k x")
    case True
    then show ?thesis
      using elevator_ascending [of k a zs x] assms by (auto simp: Cons intro!: two_sweeps_one)
  next
    case False
    then have "k x < k a" using assms(2) by (auto simp: Cons)
    then have "elevator k x q = (a # zs) @ [x]"
      using elevator_before [of k a zs x] assms(1) by (simp add: Cons)
    then show ?thesis
      using assms(1) two_sweeps_append [of k "a # zs" "[x]"] by (simp add: Cons)
  qed
qed (simp add: two_sweeps_one)

lemma elevator_two_runs:
  assumes "ascending k (a # xs)" "ascending k (b # ys)" "\<not> k (last (a # xs)) < k b"
    and new: "k x \<notin> k ` set (a # xs @ b # ys)"
  shows "two_sweeps k (elevator k x (a # xs @ b # ys))"
proof -
  have tail: "two_sweeps k (a # xs @ elevator k x (b # ys))" if "k b < k x"
    using two_sweeps_append [OF assms(1) elevator_ascending [OF assms(2) that]] new
    by (simp add: image_Un)
  show ?thesis
  proof (cases "k a < k x")
    case True
    from elevator_into_first [of k a xs "b # ys" x] assms True obtain zs where
      "elevator k x (a # xs @ b # ys) = zs @ b # ys \<and> ascending k zs
       \<or> elevator k x (a # xs @ b # ys) = a # xs @ elevator k x (b # ys) \<and> k (last (a # xs)) < k x"
      by auto
    then show ?thesis
      using tail two_sweeps_append [OF _ assms(2)] assms(3) by fastforce
  next
    case False
    then have "k x < k a" "k x < k b \<or> k b < k x" using new by auto
    moreover have "two_sweeps k (a # xs @ x # b # ys)" if "k x < k b"
      using two_sweeps_append [OF assms(1), of "x # b # ys"] assms(2) that by (auto intro: less_trans)
    ultimately show ?thesis
      using elevator_skip [of k a xs "b # ys" x] assms tail by auto
  qed
qed

text \<open>Two sweeps stay two sweeps.\<close>

lemma elevator_two_sweeps:
  assumes "two_sweeps k q" "k x \<notin> k ` set q"
  shows "two_sweeps k (elevator k x q)"
proof -
  obtain xs ys where q: "q = xs @ ys" "ascending k xs" "ascending k ys"
    using assms(1) by (auto simp: two_sweeps_def)
  consider "xs = [] \<or> ys = []" | a xs' b ys' where "xs = a # xs'" "ys = b # ys'"
    by (cases xs; cases ys) auto
  then show ?thesis
  proof cases
    case 1
    then show ?thesis using q assms(2) by (auto intro: elevator_one_sweep)
  next
    case 2
    show ?thesis
    proof (cases "k (last xs) < k b")
      case True
      then have "ascending k q" using ascending_join [of k xs b ys'] q by (simp add: 2)
      then show ?thesis using assms(2) by (rule elevator_one_sweep)
    next
      case False
      then show ?thesis using elevator_two_runs [of k a xs' b ys' x] q assms(2) by (simp add: 2)
    qed
  qed
qed

lemma two_sweeps_tl: "two_sweeps k q \<Longrightarrow> two_sweeps k (tl q)"
proof -
  assume "two_sweeps k q"
  then obtain xs ys where q: "q = xs @ ys" "ascending k xs" "ascending k ys"
    by (auto simp: two_sweeps_def)
  then show ?thesis
    by (cases xs; cases ys) (auto intro: two_sweeps_one two_sweeps_append)
qed

section \<open>The queue of a device\<close>

text \<open>The chain of requests from \<open>p\<close> on.\<close>

fun req_list :: "request list \<Rightarrow> nat option \<Rightarrow> nat list \<Rightarrow> bool" where
  "req_list rs p [] \<longleftrightarrow> p = None"
| "req_list rs p (r # q) \<longleftrightarrow> p = Some r \<and> r < length rs \<and> req_list rs (r_next (rs ! r)) q"

definition request_queue :: "kernel \<Rightarrow> nat \<Rightarrow> nat list \<Rightarrow> bool" where
  "request_queue s maj q \<longleftrightarrow> distinct q \<and> req_list (requests s) (current_request (blk_dev s ! maj)) q"

definition request_key :: "request \<Rightarrow> int \<times> int \<times> nat" where
  "request_key r = (r_cmd r, r_dev r, r_sector r)"

lemma IN_ORDER_key: "IN_ORDER a b \<longleftrightarrow> request_key a < request_key b"
  by (auto simp: IN_ORDER_def request_key_def less_prod_def)

abbreviation key_of :: "kernel \<Rightarrow> nat \<Rightarrow> int \<times> int \<times> nat" where
  "key_of s r \<equiv> request_key (requests s ! r)"

lemma req_list_update:
  "r \<notin> set q \<Longrightarrow> req_list (rs[r := x]) p q \<longleftrightarrow> req_list rs p q"
  by (induction q arbitrary: p) auto

lemma req_list_bounds: "req_list rs p q \<Longrightarrow> set q \<subseteq> {..<length rs}"
  by (induction q arbitrary: p) auto

lemma req_list_short: "req_list rs p q \<Longrightarrow> distinct q \<Longrightarrow> length q \<le> length rs"
  using card_mono [of "{..<length rs}" "set q"] req_list_bounds by (fastforce simp: distinct_card)

text \<open>The link made by \<open>add_request\<close> at the place \<open>queue_point\<close> finds.\<close>

definition link_after :: "nat \<Rightarrow> nat \<Rightarrow> request list \<Rightarrow> request list" where
  "link_after t r rs = (let rs = rs[r := (rs ! r)\<lparr>r_next := r_next (rs ! t)\<rparr>]
    in rs[t := (rs ! t)\<lparr>r_next := Some r\<rparr>])"

lemma link_after_elevator:
  assumes "req_list rs (Some t) (t # q)" "distinct (t # q)" "r \<notin> set (t # q)" "r < length rs"
    and "length q < n"
  shows "req_list (link_after (queue_point n t r rs) r rs) (Some t)
      (elevator (\<lambda>i. request_key (rs ! i)) r (t # q))
    \<and> queue_point n t r rs \<in> set (t # q)"
  using assms
proof (induction q arbitrary: t n)
  case Nil
  then obtain m where n: "n = Suc m" by (cases n) auto
  from Nil have "r_next (rs ! t) = None" "t < length rs" "t \<noteq> r" by auto
  with Nil n show ?case by (simp add: link_after_def Let_def)
next
  case (Cons b q)
  then obtain m where n: "n = Suc m" by (cases n) auto
  have nx: "r_next (rs ! t) = Some b" and t: "t < length rs" "t \<noteq> r" "b < length rs" "b \<noteq> r" "t \<noteq> b"
    using Cons.prems by auto
  let ?k = "\<lambda>i. request_key (rs ! i)"
  show ?case
  proof (cases "(?k t < ?k r \<or> \<not> ?k t < ?k b) \<and> ?k r < ?k b")
    case True
    then have "queue_point n t r rs = t" by (simp add: n nx IN_ORDER_key)
    moreover have "req_list (link_after t r rs) (Some b) (b # q)"
      using Cons.prems unfolding link_after_def Let_def by (subst req_list_update, simp, subst req_list_update) auto
    ultimately show ?thesis
      using True Cons.prems t nx by (simp add: link_after_def Let_def)
  next
    case False
    then have p: "queue_point n t r rs = queue_point m b r rs" by (auto simp: n nx IN_ORDER_key)
    have ih: "req_list (link_after (queue_point m b r rs) r rs) (Some b) (elevator ?k r (b # q))"
      "queue_point m b r rs \<in> set (b # q)"
      using Cons.IH [of b m] Cons.prems n by auto
    then have "queue_point m b r rs \<noteq> t" using Cons.prems(2) by auto
    then have "link_after (queue_point m b r rs) r rs ! t = rs ! t"
      using t by (simp add: link_after_def Let_def)
    moreover have "length (link_after (queue_point m b r rs) r rs) = length rs"
      by (simp add: link_after_def Let_def)
    ultimately show ?thesis
      using ih False t nx by (simp add: p)
  qed
qed

lemma link_after_fields:
  "length (link_after t r rs) = length rs"
  "request_key (link_after t r rs ! i) = request_key (rs ! i)"
  "r_bh (link_after t r rs ! i) = r_bh (rs ! i)" "r_errors (link_after t r rs ! i) = r_errors (rs ! i)"
  "r_nr_sectors (link_after t r rs ! i) = r_nr_sectors (rs ! i)"
  by (auto simp: link_after_def Let_def request_key_def nth_upd)

text \<open>C10: adding a request to a busy device. The pointer chain becomes the list with the request
  inserted by the elevator; the request being served stays at the head, and the queues of the
  other devices are as before.\<close>

theorem add_request_elevator:
  assumes q: "request_queue s maj (t # q)" and r: "r < length (requests s)" "r \<notin> set (t # q)"
    and n: "length (requests s) \<le> NR_REQUEST"
  shows "\<exists>s'. add_request maj r s = Ret s'
    \<and> request_queue s' maj (elevator (key_of s) r (t # q)) \<and> key_of s' = key_of s
    \<and> (\<forall>maj' q'. request_queue s maj' q' \<and> set q' \<inter> insert r (set (t # q)) = {} \<longrightarrow> request_queue s' maj' q')"
proof -
  define rs where "rs = (requests s)[r := (requests s ! r)\<lparr>r_next := None\<rparr>]"
  have key: "request_key (rs ! i) = key_of s i" for i
    by (simp add: rs_def request_key_def nth_upd)
  have cur: "current_request (blk_dev s ! maj) = Some t" and d: "distinct (t # q)"
    using q by (simp_all add: request_queue_def)
  have "req_list rs (Some t) (t # q)"
    using q cur unfolding rs_def req_list_update [OF r(2)] request_queue_def by simp
  moreover have "length q < NR_REQUEST"
    using req_list_short [of "requests s" "Some t" "t # q"] q cur n by (simp add: request_queue_def)
  ultimately have link: "req_list (link_after (queue_point NR_REQUEST t r rs) r rs) (Some t)
      (elevator (\<lambda>i. request_key (rs ! i)) r (t # q))" and pt: "queue_point NR_REQUEST t r rs \<in> set (t # q)"
    using link_after_elevator [of rs t q r NR_REQUEST] d r by (simp_all add: rs_def)
  define p where "p = queue_point NR_REQUEST t r rs"
  define s1 where "s1 = (case r_bh (requests s ! r) of None \<Rightarrow> upd_req r (\<lambda>q. q\<lparr>r_next := None\<rparr>) s
    | Some b \<Rightarrow> upd_buf b (\<lambda>h. h\<lparr>b_dirt := False\<rparr>) (upd_req r (\<lambda>q. q\<lparr>r_next := None\<rparr>) s))"
  define s' where "s' = upd_req p (\<lambda>q. q\<lparr>r_next := Some r\<rparr>) (upd_req r (\<lambda>q. q\<lparr>r_next := r_next (rs ! p)\<rparr>) s1)"
  have s1: "requests s1 = rs" "blk_dev s1 = blk_dev s"
    by (simp_all add: s1_def rs_def split: option.split)
  have "add_request maj r s = Ret s'"
    using s1 r(1) cur by (auto simp: add_request_def Let_def s'_def s1_def p_def rs_def split: option.split)
  moreover have req': "requests s' = link_after p r rs" "blk_dev s' = blk_dev s"
    using pt r(2) by (auto simp: s'_def s1 link_after_def Let_def p_def)
  moreover have "request_queue s' maj (elevator (key_of s) r (t # q))"
    using link d r(2) cur by (simp add: request_queue_def req' p_def key distinct_elevator del: elevator.simps)
  moreover have "key_of s' = key_of s"
    by (simp add: fun_eq_iff req' link_after_fields key)
  moreover have "request_queue s' maj' q'"
    if "request_queue s maj' q'" "set q' \<inter> insert r (set (t # q)) = {}" for maj' q'
  proof -
    have "r \<notin> set q'" "p \<notin> set q'" using that(2) pt by (auto simp: p_def)
    then show ?thesis
      using that(1) by (simp add: request_queue_def req' link_after_def Let_def rs_def req_list_update)
  qed
  ultimately show ?thesis by blast
qed

lemma two_sweeps_cong:
  assumes "\<And>i. i \<in> set q \<Longrightarrow> k i = k' i"
  shows "two_sweeps k q \<longleftrightarrow> two_sweeps k' q"
proof -
  have "ascending k zs \<longleftrightarrow> ascending k' zs" if "set zs \<subseteq> set q" for zs
  proof (rule iffI)
    assume "ascending k zs" then show "ascending k' zs"
      by (rule sorted_wrt_mono_rel [rotated]) (use that assms in \<open>metis subsetD\<close>)
  next
    assume "ascending k' zs" then show "ascending k zs"
      by (rule sorted_wrt_mono_rel [rotated]) (use that assms in \<open>metis subsetD\<close>)
  qed
  then show ?thesis unfolding two_sweeps_def
    by (metis set_append sup_ge1 sup_ge2)
qed

lemma end_request_queue:
  assumes "request_queue s maj (t # q)" "maj < length (blk_dev s)"
  shows "request_queue (end_request maj ok s) maj q"
    and "i \<in> set q \<Longrightarrow> key_of (end_request maj ok s) i = key_of s i"
proof -
  have cur: "current_request (blk_dev s ! maj) = Some t" and t: "t \<notin> set q" "distinct q"
    and chain: "t < length (requests s)" "req_list (requests s) (r_next (requests s ! t)) q"
    using assms(1) by (simp_all add: request_queue_def)
  have req: "requests (end_request maj ok s) = (requests s)[t := (requests s ! t)\<lparr>r_dev := - 1\<rparr>]"
    and blk: "blk_dev (end_request maj ok s)
      = (blk_dev s)[maj := (blk_dev s ! maj)\<lparr>current_request := r_next (requests s ! t)\<rparr>]"
    using cur chain(1) by (simp_all add: end_request_def unlock_buffer_def Let_def split: option.split)
  show "request_queue (end_request maj ok s) maj q"
    using t chain(2) assms(2) by (simp add: request_queue_def req blk req_list_update)
  show "i \<in> set q \<Longrightarrow> key_of (end_request maj ok s) i = key_of s i"
    using t(1) by (auto simp: req nth_upd)
qed

text \<open>The queue of a device is always at most two sweeps over it: a request that is added keeps
  that shape, keeps its place at the head to the one being served, and adds nothing else; and so
  does the end of the request at the head.\<close>

theorem request_queue_two_sweeps:
  assumes q: "request_queue s maj (t # q)" "two_sweeps (key_of s) (t # q)"
    and n: "length (requests s) \<le> NR_REQUEST" "maj < length (blk_dev s)"
    and r: "r < length (requests s)" "r \<notin> set (t # q)" "key_of s r \<notin> key_of s ` set (t # q)"
  shows "(\<exists>s' q'. add_request maj r s = Ret s' \<and> request_queue s' maj (t # q')
      \<and> mset q' = add_mset r (mset q) \<and> two_sweeps (key_of s') (t # q'))
    \<and> request_queue (end_request maj ok s) maj q \<and> two_sweeps (key_of (end_request maj ok s)) q"
proof
  obtain s' where s': "add_request maj r s = Ret s'" "key_of s' = key_of s"
    "request_queue s' maj (elevator (key_of s) r (t # q))"
    using add_request_elevator [OF q(1) r(1,2) n(1)] by blast
  obtain q' where q': "elevator (key_of s) r (t # q) = t # q'"
    using hd_elevator [of "t # q" "key_of s" r] by (cases "elevator (key_of s) r (t # q)") (auto dest: arg_cong [of _ _ set])
  have "mset (t # q') = add_mset r (mset (t # q))"
    unfolding q' [symmetric] by (rule mset_elevator)
  then show "\<exists>s' q'. add_request maj r s = Ret s' \<and> request_queue s' maj (t # q')
      \<and> mset q' = add_mset r (mset q) \<and> two_sweeps (key_of s') (t # q')"
    using s' elevator_two_sweeps [OF q(2) r(3)] unfolding q' by auto
  show "request_queue (end_request maj ok s) maj q \<and> two_sweeps (key_of (end_request maj ok s)) q"
    using end_request_queue [OF q(1) n(2)] two_sweeps_tl [OF q(2)]
      two_sweeps_cong [of q "key_of (end_request maj ok s)" "key_of s"] by auto
qed

section \<open>A queue of three requests\<close>

definition queue_example :: kernel where
  "queue_example =
    (let rq = (\<lambda>sec nx. \<lparr>r_dev = 0x301, r_cmd = READ, r_errors = 0, r_sector = sec, r_nr_sectors = 2,
                         r_bh = None, r_next = nx\<rparr>)
     in blank_kernel\<lparr>requests := [rq 40 (Some 2), rq 20 None, rq 60 (Some 3), rq 10 None],
          blk_dev := (blk_dev blank_kernel)[3 := \<lparr>request_fn = Some (By_interrupt 0), current_request = Some 0\<rparr>]\<rparr>)"

lemma queue_example_ok:
  "request_queue queue_example 3 [0, 2, 3]" "two_sweeps (key_of queue_example) [0, 2, 3]"
  "key_of queue_example 1 \<notin> key_of queue_example ` set [0, 2, 3]" "length (requests queue_example) = 4"
  "3 < length (blk_dev queue_example)"
proof -
  show "two_sweeps (key_of queue_example) [0, 2, 3]"
    using two_sweeps_append [of "key_of queue_example" "[0, 2]" "[3]"]
    by (simp add: queue_example_def Let_def request_key_def)
qed (simp_all add: request_queue_def queue_example_def Let_def blank_kernel_def NR_BLK_DEV_def request_key_def)

lemma add_request_elevator_witness:
  "\<exists>s'. add_request 3 1 queue_example = Ret s' \<and> request_queue s' 3 [0, 2, 3, 1]"
proof -
  have "elevator (key_of queue_example) 1 [0, 2, 3] = [0, 2, 3, 1]"
    by (simp add: queue_example_def Let_def request_key_def)
  then show ?thesis
    using add_request_elevator [of queue_example 3 0 "[2, 3]" 1] queue_example_ok by (auto simp: NR_REQUEST_def)
qed

lemma request_queue_two_sweeps_witness:
  "\<exists>s' q'. add_request 3 1 queue_example = Ret s' \<and> request_queue s' 3 (0 # q') \<and> mset q' = {#1, 2, 3#}"
proof -
  obtain s' q' where "add_request 3 1 queue_example = Ret s'" "request_queue s' 3 (0 # q')"
    "mset q' = add_mset 1 (mset [2, 3])"
    using request_queue_two_sweeps [of queue_example 3 0 "[2, 3]" 1 True] queue_example_ok
    unfolding NR_REQUEST_def by auto
  then show ?thesis by auto
qed

end
