(* ===== verification/Ramdisk.thy ===== *)
theory Ramdisk imports Buffer begin

text \<open>
  The contract of a block device that completes its requests before it returns, and the RAM disk as
  an instance of it: what is written to a block is what is read from it, other blocks do not
  change, and every request is taken off the queue again. From the contract follow the round trip
  through the device and the effect of writing back all dirty buffers.
\<close>

section \<open>The contract\<close>

locale block_device =
  fixes rw :: "int \<Rightarrow> nat \<Rightarrow> 's \<Rightarrow> 's kres"
    and buf :: "'s \<Rightarrow> nat \<Rightarrow> buffer_head"
    and disk :: "'s \<Rightarrow> nat \<Rightarrow> u8 list"
    and ready :: "'s \<Rightarrow> bool"
    and on_dev :: "'s \<Rightarrow> nat \<Rightarrow> bool"
  assumes write_block: "ready s \<Longrightarrow> on_dev s b \<Longrightarrow> b_dirt (buf s b) \<Longrightarrow>
      \<exists>s'. rw WRITE b s = Ret s' \<and> ready s' \<and> on_dev s' = on_dev s
        \<and> disk s' = (disk s)(b_blocknr (buf s b) := b_data (buf s b))
        \<and> buf s' = (buf s)(b := (buf s b)\<lparr>b_uptodate := True, b_dirt := False\<rparr>)"
    and read_block: "ready s \<Longrightarrow> on_dev s b \<Longrightarrow> \<not> b_uptodate (buf s b) \<Longrightarrow>
      \<exists>s'. rw READ b s = Ret s' \<and> ready s' \<and> on_dev s' = on_dev s \<and> disk s' = disk s
        \<and> buf s' = (buf s)(b := (buf s b)\<lparr>b_data := disk s (b_blocknr (buf s b)), b_uptodate := True,
              b_dirt := False\<rparr>)"
begin

lemma write_then_read:
  assumes "ready s" "on_dev s b" "b_dirt (buf s b)" "on_dev s c" "c \<noteq> b" "\<not> b_uptodate (buf s c)"
    and "b_blocknr (buf s c) = b_blocknr (buf s b)"
  shows "\<exists>s'. kbind (rw WRITE b s) (rw READ c) = Ret s'
    \<and> b_data (buf s' c) = b_data (buf s b) \<and> b_uptodate (buf s' c) \<and> \<not> b_dirt (buf s' b)"
proof -
  obtain s1 where 1: "rw WRITE b s = Ret s1" "ready s1" "on_dev s1 = on_dev s"
    "disk s1 = (disk s)(b_blocknr (buf s b) := b_data (buf s b))"
    "buf s1 = (buf s)(b := (buf s b)\<lparr>b_uptodate := True, b_dirt := False\<rparr>)"
    using write_block [OF assms(1-3)] by blast
  obtain s2 where "rw READ c s1 = Ret s2"
    "buf s2 = (buf s1)(c := (buf s1 c)\<lparr>b_data := disk s1 (b_blocknr (buf s1 c)), b_uptodate := True,
              b_dirt := False\<rparr>)"
    using read_block [of s1 c] 1 assms by auto
  with 1 assms show ?thesis by simp
qed

text \<open>Writing back every dirty buffer of the device in a list.\<close>

definition write_back :: "nat \<Rightarrow> 's \<Rightarrow> 's kres" where
  "write_back b s = (if on_dev s b \<and> b_dirt (buf s b) then rw WRITE b s else Ret s)"

definition consistent :: "'s \<Rightarrow> bool" where
  "consistent s \<longleftrightarrow> (\<forall>b c. on_dev s b \<longrightarrow> on_dev s c \<longrightarrow> b_blocknr (buf s b) = b_blocknr (buf s c) \<longrightarrow> b = c)"

definition cleaned :: "buffer_head \<Rightarrow> buffer_head" where
  "cleaned h = (if b_dirt h then h\<lparr>b_uptodate := True, b_dirt := False\<rparr> else h)"

lemma cleaned_simps [simp]:
  "b_blocknr (cleaned h) = b_blocknr h" "b_data (cleaned h) = b_data h" "\<not> b_dirt (cleaned h)"
  "cleaned (cleaned h) = cleaned h"
  by (simp_all add: cleaned_def)

lemma write_back_all:
  assumes "ready s" "consistent s"
  shows "\<exists>s'. kfold write_back bs s = Ret s' \<and> ready s' \<and> on_dev s' = on_dev s
    \<and> buf s' = (\<lambda>b. if b \<in> set bs \<and> on_dev s b then cleaned (buf s b) else buf s b)
    \<and> (\<forall>b\<in>set bs. on_dev s b \<longrightarrow> b_dirt (buf s b) \<longrightarrow> disk s' (b_blocknr (buf s b)) = b_data (buf s b))
    \<and> (\<forall>n. (\<nexists>b. b \<in> set bs \<and> on_dev s b \<and> b_dirt (buf s b) \<and> b_blocknr (buf s b) = n) \<longrightarrow> disk s' n = disk s n)"
  using assms
proof (induction bs arbitrary: s)
  case Nil
  then show ?case by simp
next
  case (Cons b bs)
  show ?case
  proof (cases "on_dev s b \<and> b_dirt (buf s b)")
    case False
    then have same: "write_back b s = Ret s" by (auto simp: write_back_def)
    have clean: "on_dev s b \<Longrightarrow> cleaned (buf s b) = buf s b"
      using False by (simp add: cleaned_def)
    obtain s' where s': "kfold write_back bs s = Ret s'" "ready s'" "on_dev s' = on_dev s"
      "buf s' = (\<lambda>b. if b \<in> set bs \<and> on_dev s b then cleaned (buf s b) else buf s b)"
      "\<forall>b\<in>set bs. on_dev s b \<longrightarrow> b_dirt (buf s b) \<longrightarrow> disk s' (b_blocknr (buf s b)) = b_data (buf s b)"
      "\<forall>n. (\<nexists>b. b \<in> set bs \<and> on_dev s b \<and> b_dirt (buf s b) \<and> b_blocknr (buf s b) = n) \<longrightarrow> disk s' n = disk s n"
      using Cons.IH [OF Cons.prems] by blast
    show ?thesis
    proof (intro exI conjI)
      show "kfold write_back (b # bs) s = Ret s'" by (simp add: same s'(1))
      show "buf s' = (\<lambda>c. if c \<in> set (b # bs) \<and> on_dev s c then cleaned (buf s c) else buf s c)"
        unfolding s'(4) using clean by (intro ext) auto
      show "\<forall>c\<in>set (b # bs). on_dev s c \<longrightarrow> b_dirt (buf s c) \<longrightarrow> disk s' (b_blocknr (buf s c)) = b_data (buf s c)"
        using s'(5) False by simp
      show "\<forall>n. (\<nexists>c. c \<in> set (b # bs) \<and> on_dev s c \<and> b_dirt (buf s c) \<and> b_blocknr (buf s c) = n)
          \<longrightarrow> disk s' n = disk s n"
        using s'(6) False by (metis list.set_intros(2))
    qed (fact s'(2,3))+
  next
    case True
    then obtain t where t: "rw WRITE b s = Ret t" "ready t" "on_dev t = on_dev s"
      "disk t = (disk s)(b_blocknr (buf s b) := b_data (buf s b))"
      "buf t = (buf s)(b := cleaned (buf s b))"
      using write_block [OF Cons.prems(1), of b] by (auto simp: cleaned_def)
    have blk: "b_blocknr (buf t c) = b_blocknr (buf s c)" for c by (simp add: t(5))
    have cons: "consistent t"
      using Cons.prems(2) unfolding consistent_def blk t(3) .
    obtain s' where s': "kfold write_back bs t = Ret s'" "ready s'" "on_dev s' = on_dev s"
      "buf s' = (\<lambda>c. if c \<in> set bs \<and> on_dev s c then cleaned (buf t c) else buf t c)"
      "\<forall>c\<in>set bs. on_dev s c \<longrightarrow> b_dirt (buf t c) \<longrightarrow> disk s' (b_blocknr (buf t c)) = b_data (buf t c)"
      "\<forall>n. (\<nexists>c. c \<in> set bs \<and> on_dev s c \<and> b_dirt (buf t c) \<and> b_blocknr (buf t c) = n) \<longrightarrow> disk s' n = disk t n"
      using Cons.IH [OF t(2) cons] unfolding t(3) by blast
    have only: "c = b" if "on_dev s c" "b_blocknr (buf s c) = b_blocknr (buf s b)" for c
      using that True Cons.prems(2) unfolding consistent_def by blast
    have "\<nexists>c. c \<in> set bs \<and> on_dev s c \<and> b_dirt (buf t c) \<and> b_blocknr (buf t c) = b_blocknr (buf s b)"
      using only unfolding t(5) by (metis cleaned_simps(1,3) fun_upd_apply)
    then have here: "disk s' (b_blocknr (buf s b)) = b_data (buf s b)"
      using s'(6) by (simp add: t(4))
    have there: "disk s' (b_blocknr (buf s c)) = b_data (buf s c)"
      if "c \<in> set (b # bs)" "on_dev s c" "b_dirt (buf s c)" for c
    proof (cases "c = b")
      case True then show ?thesis by (simp add: here)
    next
      case False
      then have "buf t c = buf s c" "c \<in> set bs" using that(1) by (simp_all add: t(5))
      then show ?thesis using s'(5) that by metis
    qed
    have rest: "disk s' n = disk s n"
      if "\<nexists>c. c \<in> set (b # bs) \<and> on_dev s c \<and> b_dirt (buf s c) \<and> b_blocknr (buf s c) = n" for n
    proof -
      have "\<nexists>c. c \<in> set bs \<and> on_dev s c \<and> b_dirt (buf t c) \<and> b_blocknr (buf t c) = n"
        using that unfolding t(5) by (metis cleaned_simps(3) fun_upd_apply list.set_intros(2))
      then have "disk s' n = disk t n" using s'(6) by blast
      moreover have "n \<noteq> b_blocknr (buf s b)" using that True by auto
      ultimately show ?thesis by (simp add: t(4))
    qed
    have cleaned: "buf s' = (\<lambda>c. if c \<in> set (b # bs) \<and> on_dev s c then cleaned (buf s c) else buf s c)"
      unfolding s'(4) t(5) using True by (intro ext) auto
    show ?thesis
    proof (intro exI conjI)
      show "kfold write_back (b # bs) s = Ret s'"
        using True t(1) s'(1) by (simp add: write_back_def)
    qed (use s'(2,3) there rest cleaned in blast)+
  qed
qed

end

section \<open>The RAM disk\<close>

definition RAM_DEV :: nat where "RAM_DEV = 257"

definition rd_disk :: "kernel \<Rightarrow> nat \<Rightarrow> u8 list" where
  "rd_disk s n = (if 1024 * (n + 1) \<le> rd_length s then load_bytes (mem s) (rd_start s + 1024 * n) 1024 else [])"

text \<open>The driver is installed and idle, the memory of the disk lies in the address space, and a request
  is free in the part of the table that writing uses.\<close>

definition rd_ready :: "kernel \<Rightarrow> bool" where
  "rd_ready s \<longleftrightarrow> length (blk_dev s) = NR_BLK_DEV \<and> request_fn (blk_dev s ! 1) = Some do_rd_request
    \<and> current_request (blk_dev s ! 1) = None \<and> length (requests s) = NR_REQUEST
    \<and> rd_start s + rd_length s < 2 ^ 32 \<and> (\<exists>r<21. r_dev (requests s ! r) < 0)"

definition rd_buffer :: "kernel \<Rightarrow> nat \<Rightarrow> bool" where
  "rd_buffer s b \<longleftrightarrow> b < length (bufs s) \<and> b_dev (bufs s ! b) = RAM_DEV \<and> \<not> b_lock (bufs s ! b)
    \<and> length (b_data (bufs s ! b)) = 1024 \<and> 1024 * (b_blocknr (bufs s ! b) + 1) \<le> rd_length s"

lemma free_request_Some:
  "r < n \<Longrightarrow> r_dev (rs ! r) < 0 \<Longrightarrow> \<exists>q. free_request n rs = Some q \<and> q < n \<and> r_dev (rs ! q) < 0"
  by (induction n) (auto simp: less_Suc_eq)

text \<open>One request for an idle RAM disk: it is served and taken off the queue.\<close>

definition rd_served :: "nat \<Rightarrow> nat \<Rightarrow> int \<Rightarrow> kernel \<Rightarrow> kernel" where
  "rd_served r b rw s =
    (let h = bufs s ! b; a = rd_start s + 1024 * b_blocknr h
     in s\<lparr>requests := (requests s)[r := \<lparr>r_dev = - 1, r_cmd = rw, r_errors = 0,
             r_sector = 2 * b_blocknr h, r_nr_sectors = 2, r_bh = Some b, r_next = None\<rparr>],
           bufs := (bufs s)[b := h\<lparr>b_data := (if rw = WRITE then b_data h else load_bytes (mem s) a 1024),
                                   b_uptodate := True, b_dirt := False\<rparr>],
           mem := (if rw = WRITE then store_bytes a (b_data h) (mem s) else mem s)\<rparr>)"

lemma rd_requests_one:
  assumes "current_request (blk_dev s ! 1) = Some r" "requests s ! r = q" "r_next q = None"
    and "length (blk_dev s) = NR_BLK_DEV" "r < length (requests s)"
    and "r_bh q = Some b" "b < length (bufs s)" "b_lock (bufs s ! b)" "r_dev q = 257"
    and "rd_transfer q s = Ret (True, t)"
    and "blk_dev t = blk_dev s" "requests t = requests s" "length (bufs t) = length (bufs s)"
  shows "rd_requests (Suc (Suc n)) s = Ret (end_request 1 True t)"
proof -
  have "current_request (blk_dev (end_request 1 True t) ! 1) = None"
    using assms by (simp add: end_request_def unlock_buffer_def Let_def NR_BLK_DEV_def)
  then show ?thesis
    using assms by (simp add: MAJOR_def)
qed

lemma ll_rw_block_rd:
  assumes s: "rd_ready s" and b: "rd_buffer s b" and rw: "rw = READ \<or> rw = WRITE"
    and need: "if rw = WRITE then b_dirt (bufs s ! b) else \<not> b_uptodate (bufs s ! b)"
  shows "\<exists>r<NR_REQUEST. r_dev (requests s ! r) < 0 \<and> ll_rw_block rw b s = Ret (rd_served r b rw s)"
proof -
  obtain r where r: "free_request (if rw = READ then NR_REQUEST else NR_REQUEST * 2 div 3) (requests s) = Some r"
    "r < NR_REQUEST" "r_dev (requests s ! r) < 0"
  proof -
    obtain q where q: "q < 21" "r_dev (requests s ! q) < 0" using s by (auto simp: rd_ready_def)
    have n: "21 \<le> (if rw = READ then NR_REQUEST else NR_REQUEST * 2 div 3)"
      "(if rw = READ then NR_REQUEST else NR_REQUEST * 2 div 3) \<le> NR_REQUEST"
      by (simp_all add: NR_REQUEST_def)
    with q(1) have "q < (if rw = READ then NR_REQUEST else NR_REQUEST * 2 div 3)" by linarith
    from free_request_Some [of q _ "requests s", OF this q(2)] n(2) show ?thesis
      by (meson order.strict_trans2 that)
  qed
  define h where "h = bufs s ! b"
  have h: "b_dev h = 257" "\<not> b_lock h" "length (b_data h) = 1024" "1024 * b_blocknr h + 1024 \<le> rd_length s"
    "b < length (bufs s)"
    using b by (simp_all add: rd_buffer_def h_def RAM_DEV_def)
  have dev: "length (blk_dev s) = NR_BLK_DEV" "request_fn (blk_dev s ! 1) = Some do_rd_request"
    "current_request (blk_dev s ! 1) = None" "length (requests s) = NR_REQUEST"
    using s by (simp_all add: rd_ready_def)
  have nr: "1024 * b_blocknr h + 1024 + rd_start s < 2 ^ 32" using s h(4) by (simp add: rd_ready_def)
  then have sec: "b_blocknr h * 2 mod 4294967296 = 2 * b_blocknr h"
    "(rd_start s + 2 * b_blocknr h * 512) mod 4294967296 = rd_start s + 1024 * b_blocknr h"
    by simp_all
  have lim: "\<not> (rd_start s + rd_length s) mod 4294967296 < (rd_start s + 1024 * b_blocknr h + 1024) mod 4294967296"
    using s h(4) nr by (simp add: rd_ready_def)
  define q where "q = \<lparr>r_dev = 257, r_cmd = rw, r_errors = 0, r_sector = 2 * b_blocknr h, r_nr_sectors = 2,
    r_bh = Some b, r_next = None\<rparr>"
  define u where "u = upd_blk 1 (\<lambda>d. d\<lparr>current_request := Some r\<rparr>) (upd_buf b (\<lambda>h. h\<lparr>b_dirt := False\<rparr>)
    (upd_req r (\<lambda>_. q) (upd_buf b (\<lambda>h. h\<lparr>b_lock := True\<rparr>) s)))"
  have req: "make_request 1 rw b s = add_request 1 r (upd_req r (\<lambda>_. q) (upd_buf b (\<lambda>h. h\<lparr>b_lock := True\<rparr>) s))"
    using rw
  proof
    assume [simp]: "rw = READ"
    then have "\<not> b_uptodate h" "free_request NR_REQUEST (requests s) = Some r"
      using need r(1) by (simp_all add: h_def READ_def WRITE_def)
    with h show ?thesis
      by (simp add: make_request_def lock_buffer_def h_def [symmetric] q_def sec READ_def READA_def WRITE_def WRITEA_def Let_def)
  next
    assume [simp]: "rw = WRITE"
    then have "b_dirt h" "free_request (NR_REQUEST * 2 div 3) (requests s) = Some r"
      using need r(1) by (simp_all add: h_def READ_def WRITE_def)
    with h show ?thesis
      by (simp add: make_request_def lock_buffer_def h_def [symmetric] q_def sec READ_def READA_def WRITE_def WRITEA_def Let_def)
  qed
  have rl: "r < length (requests s)" using r(2) dev(4) by simp
  have next_None: "upd_req r (\<lambda>q. q\<lparr>r_next := None\<rparr>) (upd_req r (\<lambda>_. q) t) = upd_req r (\<lambda>_. q) t" if "r < length (requests t)" for t
    using that by (simp add: upd_req_def q_def)
  have add: "add_request 1 r (upd_req r (\<lambda>_. q) (upd_buf b (\<lambda>h. h\<lparr>b_lock := True\<rparr>) s)) = rd_requests NR_REQUEST u"
    unfolding add_request_def Let_def u_def
    using rl dev by (subst next_None, simp, subst next_None, simp) (simp add: q_def run_driver_def NR_BLK_DEV_def)
  define a where "a = rd_start s + 1024 * b_blocknr h"
  define t where "t = (if rw = WRITE then u\<lparr>mem := store_bytes a (b_data h) (mem s)\<rparr>
    else upd_buf b (\<lambda>h. h\<lparr>b_data := load_bytes (mem s) a 1024\<rparr>) u)"
  have "rd_transfer q u = Ret (True, t)"
    using rw h lim sec(2) by (auto simp: rd_transfer_def q_def u_def t_def a_def h_def [symmetric] MINOR_def Let_def READ_def WRITE_def)
  then have served: "rd_requests (Suc (Suc 30)) u = Ret (end_request 1 True t)"
    using rl dev h by (intro rd_requests_one [where q = q and r = r and b = b])
      (simp_all add: u_def t_def q_def NR_BLK_DEV_def)
  have idle: "(blk_dev s)[Suc 0 := (blk_dev s ! Suc 0)\<lparr>current_request := None\<rparr>] = blk_dev s"
  proof -
    have *: "d\<lparr>current_request := None\<rparr> = d" if "current_request d = None" for d :: blk_dev_struct
      using that by (cases d) simp
    show ?thesis using * [OF dev(3)] by (metis One_nat_def list_update_id)
  qed
  have same: "h\<lparr>b_dirt := False, b_data := d, b_uptodate := True, b_lock := False\<rparr>
      = h\<lparr>b_data := d, b_uptodate := True, b_dirt := False\<rparr>"
    "h\<lparr>b_dirt := False, b_uptodate := True, b_lock := False\<rparr> = h\<lparr>b_uptodate := True, b_dirt := False\<rparr>" for d
    using h(2) by (cases h, simp)+
  have "end_request 1 True t = rd_served r b rw s"
    using rl dev h same idle unfolding h_def
    by (simp add: same [unfolded h_def] end_request_def u_def t_def q_def NR_BLK_DEV_def rd_served_def a_def h_def Let_def unlock_buffer_def
       upd_req_def upd_blk_def upd_buf_def)
  moreover have "rd_requests (Suc (Suc 30)) u = Ret (end_request 1 True t)" by fact
  moreover have "ll_rw_block rw b s = make_request 1 rw b s"
    using h dev by (simp add: ll_rw_block_def MAJOR_def NR_BLK_DEV_def h_def [symmetric])
  ultimately show ?thesis
    using r req add by (auto simp: NR_REQUEST_def)
qed

lemma rd_served_simps:
  assumes "rd_ready s" "rd_buffer s b" "r < NR_REQUEST" "r_dev (requests s ! r) < 0"
  shows "rd_ready (rd_served r b rw s)" "rd_buffer (rd_served r b rw s) = rd_buffer s"
    "rd_disk (rd_served r b rw s) =
      (if rw = WRITE then (rd_disk s)(b_blocknr (bufs s ! b) := b_data (bufs s ! b)) else rd_disk s)"
proof -
  let ?h = "bufs s ! b"
  let ?a = "rd_start s + 1024 * b_blocknr ?h"
  obtain q where q: "q < 21" "r_dev (requests s ! q) < 0" using assms(1) by (auto simp: rd_ready_def)
  have "r_dev (requests (rd_served r b rw s) ! q) < 0"
    using q assms(1,3) by (cases "q = r") (simp_all add: rd_served_def Let_def rd_ready_def)
  with q(1) assms(1) show "rd_ready (rd_served r b rw s)"
    by (auto simp: rd_ready_def rd_served_def Let_def)
  show "rd_buffer (rd_served r b rw s) = rd_buffer s"
    using assms(2) by (auto simp: rd_buffer_def rd_served_def Let_def nth_list_update fun_eq_iff)
  show "rd_disk (rd_served r b rw s) =
      (if rw = WRITE then (rd_disk s)(b_blocknr ?h := b_data ?h) else rd_disk s)"
  proof (cases "rw = WRITE")
    case False
    then show ?thesis by (simp add: rd_served_def rd_disk_def fun_eq_iff Let_def)
  next
    case True
    have h: "length (b_data ?h) = 1024" "1024 * (b_blocknr ?h + 1) \<le> rd_length s" "rd_start s + rd_length s < 2 ^ 32"
      using assms(1,2) by (simp_all add: rd_buffer_def rd_ready_def)
    have eq: "rd_disk (rd_served r b rw s) n = (if 1024 * (n + 1) \<le> rd_length s
        then load_bytes (store_bytes ?a (b_data ?h) (mem s)) (rd_start s + 1024 * n) 1024 else [])" for n
      by (simp add: rd_disk_def rd_served_def True Let_def)
    have "load_bytes (store_bytes ?a (b_data ?h) (mem s)) ?a 1024 = b_data ?h"
      using load_bytes_stored [of ?a "b_data ?h" "mem s"] h by simp
    moreover have "load_bytes (store_bytes ?a (b_data ?h) (mem s)) (rd_start s + 1024 * n) 1024
        = load_bytes (mem s) (rd_start s + 1024 * n) 1024"
      if "n \<noteq> b_blocknr ?h" "1024 * (n + 1) \<le> rd_length s" for n
    proof (rule load_bytes_other)
      show "rd_start s + 1024 * n + 1024 \<le> ?a \<or> ?a + length (b_data ?h) \<le> rd_start s + 1024 * n"
        unfolding h(1) using that(1) by arith
    qed (use h that(2) in \<open>simp_all, linarith?\<close>)
    ultimately show ?thesis
      using True h(2) by (intro ext) (subst eq, simp add: rd_disk_def)
  qed
qed

interpretation rd: block_device ll_rw_block "\<lambda>s b. bufs s ! b" rd_disk rd_ready rd_buffer
proof
  fix s b assume s: "rd_ready s" "rd_buffer s b"
  have b: "b < length (bufs s)" using s(2) by (simp add: rd_buffer_def)
  have buf: "(\<lambda>c. bufs (rd_served r b rw s) ! c) = (\<lambda>c. bufs s ! c)(b := (bufs s ! b)\<lparr>b_data :=
      (if rw = WRITE then b_data (bufs s ! b) else load_bytes (mem s) (rd_start s + 1024 * b_blocknr (bufs s ! b)) 1024),
      b_uptodate := True, b_dirt := False\<rparr>)" for r rw
    using b by (simp add: rd_served_def Let_def fun_eq_iff nth_list_update)
  {
    assume "b_dirt (bufs s ! b)"
    then obtain r where r: "r < NR_REQUEST" "r_dev (requests s ! r) < 0"
      "ll_rw_block WRITE b s = Ret (rd_served r b WRITE s)"
      using ll_rw_block_rd [OF s, of WRITE] by auto
    show "\<exists>s'. ll_rw_block WRITE b s = Ret s' \<and> rd_ready s' \<and> rd_buffer s' = rd_buffer s
        \<and> rd_disk s' = (rd_disk s)(b_blocknr (bufs s ! b) := b_data (bufs s ! b))
        \<and> (\<lambda>c. bufs s' ! c) = (\<lambda>c. bufs s ! c)(b := (bufs s ! b)\<lparr>b_uptodate := True, b_dirt := False\<rparr>)"
      using rd_served_simps [OF s r(1,2), of WRITE] buf [of r WRITE] r(3)
      by simp
  next
    assume "\<not> b_uptodate (bufs s ! b)"
    then obtain r where r: "r < NR_REQUEST" "r_dev (requests s ! r) < 0"
      "ll_rw_block READ b s = Ret (rd_served r b READ s)"
      using ll_rw_block_rd [OF s, of READ] by (auto simp: READ_def WRITE_def)
    show "\<exists>s'. ll_rw_block READ b s = Ret s' \<and> rd_ready s' \<and> rd_buffer s' = rd_buffer s
        \<and> rd_disk s' = rd_disk s
        \<and> (\<lambda>c. bufs s' ! c) = (\<lambda>c. bufs s ! c)(b := (bufs s ! b)\<lparr>b_data := rd_disk s (b_blocknr (bufs s ! b)),
             b_uptodate := True, b_dirt := False\<rparr>)"
      using rd_served_simps [OF s r(1,2), of READ] buf [of r READ] r(3) s(2)
      by (simp add: READ_def WRITE_def rd_disk_def rd_buffer_def)
  }
qed

text \<open>C15: what is written to a block of the RAM disk is what a later read of the block brings into
  another buffer; both requests complete, and the buffer written is clean.\<close>

theorem ramdisk_round_trip:
  assumes "rd_ready s" "rd_buffer s b" "b_dirt (bufs s ! b)"
    and "rd_buffer s c" "c \<noteq> b" "\<not> b_uptodate (bufs s ! c)"
    and "b_blocknr (bufs s ! c) = b_blocknr (bufs s ! b)"
  shows "\<exists>s'. kbind (ll_rw_block WRITE b s) (ll_rw_block READ c) = Ret s'
    \<and> b_data (bufs s' ! c) = b_data (bufs s ! b) \<and> b_uptodate (bufs s' ! c) \<and> \<not> b_dirt (bufs s' ! b)"
  by (rule rd.write_then_read [OF assms])

definition rd_example :: kernel where
  "rd_example =
    (let s = snd (rd_init 0x200000 0x2000 blank_kernel)
     in s\<lparr>bufs := [blank_buffer\<lparr>b_dev := RAM_DEV, b_blocknr := 3, b_data := replicate 1024 7,
                                 b_uptodate := True, b_dirt := True\<rparr>,
                   blank_buffer\<lparr>b_dev := RAM_DEV, b_blocknr := 3\<rparr>]\<rparr>)"

lemma rd_example_ok:
  "rd_ready rd_example" "rd_buffer rd_example 0" "rd_buffer rd_example 1"
  by (simp_all add: rd_ready_def rd_buffer_def rd_example_def rd_init_def Let_def blank_kernel_def
      NR_BLK_DEV_def NR_REQUEST_def blank_buffer_def exI [of _ 0])

lemma ramdisk_round_trip_witness:
  "\<exists>s'. kbind (ll_rw_block WRITE 0 rd_example) (ll_rw_block READ 1) = Ret s'
    \<and> b_data (bufs s' ! 1) = replicate 1024 7"
proof -
  have "bufs rd_example ! 0 = blank_buffer\<lparr>b_dev := RAM_DEV, b_blocknr := 3, b_data := replicate 1024 7,
      b_uptodate := True, b_dirt := True\<rparr>" "bufs rd_example ! 1 = blank_buffer\<lparr>b_dev := RAM_DEV, b_blocknr := 3\<rparr>"
    by (simp_all add: rd_example_def Let_def)
  then show ?thesis
    using ramdisk_round_trip [of rd_example 0 1] rd_example_ok by (auto simp: blank_buffer_def)
qed

end
