(* ===== verification/Cache.thy ===== *)
theory Cache imports Buffer begin

text \<open>
  Facts about the buffer cache that its clients use: a block found in the cache is returned by
  \<open>getblk\<close> and \<open>bread\<close> without any transfer, and only the links and the identity of buffers decide
  what is found.
\<close>

section \<open>What a search depends on\<close>

definition same_links :: "kernel \<Rightarrow> kernel \<Rightarrow> bool" where
  "same_links s t \<longleftrightarrow> length (bufs t) = length (bufs s) \<and> hash_table t = hash_table s
    \<and> (\<forall>b. b_dev (bufs t ! b) = b_dev (bufs s ! b) \<and> b_blocknr (bufs t ! b) = b_blocknr (bufs s ! b)
          \<and> b_next (bufs t ! b) = b_next (bufs s ! b))"

lemma same_links_refl [simp]: "same_links s s"
  by (simp add: same_links_def)

lemma same_links_trans: "same_links s t \<Longrightarrow> same_links t u \<Longrightarrow> same_links s u"
  by (simp add: same_links_def)

lemma same_links_upd_buf:
  "b_dev (f (bufs s ! b)) = b_dev (bufs s ! b) \<Longrightarrow> b_blocknr (f (bufs s ! b)) = b_blocknr (bufs s ! b) \<Longrightarrow>
    b_next (f (bufs s ! b)) = b_next (bufs s ! b) \<Longrightarrow> same_links s (upd_buf b f s)"
  by (simp add: same_links_def nth_upd)

lemma find_from_same_links:
  "same_links s t \<Longrightarrow> find_from n p dev block (bufs t) = find_from n p dev block (bufs s)"
  by (induction n p dev block "bufs s" rule: find_from.induct) (auto simp: same_links_def split: option.splits)

lemma find_buffer_same_links: "same_links s t \<Longrightarrow> find_buffer dev block t = find_buffer dev block s"
  using find_from_same_links [of s t] by (simp add: find_buffer_def same_links_def)

lemma find_from_Some:
  "find_from n p dev block bs = Some b \<Longrightarrow> b_dev (bs ! b) = dev \<and> b_blocknr (bs ! b) = block"
  by (induction n p dev block bs rule: find_from.induct) (auto split: option.splits if_splits)

lemma find_buffer_Some: "find_buffer dev block s = Some b \<Longrightarrow> b_dev (bufs s ! b) = dev \<and> b_blocknr (bufs s ! b) = block"
  by (auto simp: find_buffer_def dest: find_from_Some)

section \<open>Hits\<close>

text \<open>A block in the cache, valid and not locked, with room in its count.\<close>

definition cached :: "nat \<Rightarrow> nat \<Rightarrow> nat \<Rightarrow> kernel \<Rightarrow> bool" where
  "cached dev block b s \<longleftrightarrow> find_buffer dev block s = Some b \<and> b < length (bufs s)
    \<and> b_uptodate (bufs s ! b) \<and> \<not> b_lock (bufs s ! b) \<and> b_count (bufs s ! b) < 255"

lemma get_hash_table_hit:
  assumes "find_buffer dev block s = Some b" "\<not> b_lock (bufs s ! b)" "b < length (bufs s)"
  shows "get_hash_table dev block s = Ret (Some b, incr_count b s)"
  using assms find_buffer_Some [OF assms(1)]
  by (simp add: get_hash_table_def numeral_2_eq_2 wait_on_buffer_def incr_count_def)

lemma getblk_hit:
  assumes "find_buffer dev block s = Some b" "\<not> b_lock (bufs s ! b)" "b < length (bufs s)"
  shows "getblk_si si dev block s = Ret (b, incr_count b s)"
proof -
  obtain n where n: "GETBLK_ROUNDS = Suc n" by (simp add: GETBLK_ROUNDS_def)
  show ?thesis unfolding getblk_si_def n by (simp add: get_hash_table_hit [OF assms])
qed

lemma bread_hit:
  assumes "cached dev block b s"
  shows "bread_si si dev block s = Ret (Some b, incr_count b s)"
  using assms getblk_hit [of dev block s b si] by (simp add: bread_si_def cached_def incr_count_def)

lemma brelse_incr:
  assumes "\<not> b_lock (bufs s ! b)" "b_count (bufs s ! b) < 255" "b < length (bufs s)"
    and "\<And>h. b_count (f h) = b_count h" "\<And>h. b_lock (f h) = b_lock h"
  shows "brelse (Some b) (upd_buf b f (incr_count b s)) =
    Ret (upd_buf b (\<lambda>h. (f (h\<lparr>b_count := b_count h + 1\<rparr>))\<lparr>b_count := b_count h\<rparr>) s)"
  using assms by (simp add: brelse_def wait_on_buffer_def incr_count_def upd_buf_def)

text \<open>Taking a block and giving it back leaves the state as it was.\<close>

lemma brelse_hit:
  assumes "\<not> b_lock (bufs s ! b)" "b_count (bufs s ! b) < 255" "b < length (bufs s)"
  shows "brelse (Some b) (incr_count b s) = Ret s"
proof -
  have "(bufs s)[b := (bufs s ! b)\<lparr>b_count := b_count (bufs s ! b)\<rparr>] = bufs s"
    by (metis buffer_head.surjective buffer_head.update_convs(6) list_update_id)
  then show ?thesis
    using assms by (simp add: brelse_def wait_on_buffer_def incr_count_def upd_buf_def)
qed

end
