(* ===== verification/Disk_Inode.thy ===== *)
theory Disk_Inode imports Inode Cache begin

unbundle bit_operations_syntax

text \<open>
  Inodes between memory and disk: the encoding of \<open>struct d_inode\<close> is undone by its decoding and
  touches only the 32 bytes of the inode, and an inode written through the buffer cache is the inode
  read back into any other slot of the table.
\<close>

section \<open>The encoding\<close>

lemma nth_put16: "j \<noteq> k \<Longrightarrow> j \<noteq> Suc k \<Longrightarrow> put16 k v d ! j = d ! j"
  by (simp add: put16_def)

definition put_zones :: "nat \<Rightarrow> nat list \<Rightarrow> nat \<Rightarrow> u8 list \<Rightarrow> u8 list" where
  "put_zones k z n d = fold (\<lambda>j d. put16 (k + 2 * j) (z ! j) d) [0..<n] d"

lemma put_zones_Suc: "put_zones k z (Suc n) d = put16 (k + 2 * n) (z ! n) (put_zones k z n d)"
  by (simp add: put_zones_def)

lemma put_zones_0 [simp]: "put_zones k z 0 d = d"
  by (simp add: put_zones_def)

lemma put_zones_length [simp]: "length (put_zones k z n d) = length d"
  by (induction n) (simp_all add: put_zones_Suc)

lemma nth_put_zones: "j < k \<or> k + 2 * n \<le> j \<Longrightarrow> put_zones k z n d ! j = d ! j"
  by (induction n) (auto simp: put_zones_Suc nth_put16)

lemma get_put_zones:
  "k + 2 * n \<le> length d \<Longrightarrow> j < n \<Longrightarrow> get16 (put_zones k z n d) (k + 2 * j) = z ! j mod 65536"
proof (induction n)
  case (Suc n)
  show ?case
  proof (cases "j = n")
    case False
    then have "Suc (2 * j) < 2 * n" using Suc.prems by simp
    with False Suc show ?thesis by (simp add: put_zones_Suc get16_put16_other)
  qed (use Suc in \<open>simp add: put_zones_Suc get16_put16\<close>)
qed simp

text \<open>Fields the disk holds, each within its width.\<close>

definition storable :: "m_inode \<Rightarrow> bool" where
  "storable n \<longleftrightarrow> i_size n < 2 ^ 32 \<and> i_nlinks n < 256 \<and> length (i_zone n) = 9 \<and> (\<forall>z\<in>set (i_zone n). z < 65536)"

text \<open>\<open>n\<close>'s fields on disk in a slot of the table that held \<open>o\<close>.\<close>

definition disk_fields :: "m_inode \<Rightarrow> m_inode \<Rightarrow> m_inode" where
  "disk_fields n m = m\<lparr>i_mode := i_mode n, i_uid := i_uid n, i_size := i_size n, i_mtime := i_mtime n,
     i_gid := i_gid n, i_nlinks := i_nlinks n, i_zone := i_zone n\<rparr>"

lemma put_d_inode_zones:
  "put_d_inode k n d = put_zones (k + 14) (i_zone n) 9
    ((put32 (k + 8) (unat (i_mtime n)) (put32 (k + 4) (i_size n) (put16 (k + 2) (unat (i_uid n))
       (put16 k (unat (i_mode n)) d))))[k + 12 := i_gid n, k + 13 := of_nat (i_nlinks n)])"
  by (simp add: put_d_inode_def put_zones_def Let_def)

lemma put_d_inode_length [simp]: "length (put_d_inode k n d) = length d"
  by (simp add: put_d_inode_zones)

lemma nth_put_d_inode: "j < k \<or> k + 32 \<le> j \<Longrightarrow> put_d_inode k n d ! j = d ! j"
  by (auto simp: put_d_inode_zones nth_put_zones put32_def nth_put16 nth_upd)

text \<open>Each field of the encoding read back.\<close>

lemma get16_cong: "d ! k = d' ! k \<Longrightarrow> d ! Suc k = d' ! Suc k \<Longrightarrow> get16 d k = get16 d' k"
  by (simp add: get16_def)

lemma get16_list_update: "j \<noteq> k \<Longrightarrow> j \<noteq> Suc k \<Longrightarrow> get16 (d[j := x]) k = get16 d k"
  by (simp add: get16_def)

lemma get16_before_zones: "Suc j < k \<Longrightarrow> get16 (put_zones k z n d) j = get16 d j"
  by (rule get16_cong) (simp_all add: nth_put_zones)

lemma get_put_d_inode:
  assumes "k + 32 \<le> length d" "storable n"
  shows "get_d_inode (put_d_inode k n d) k m = disk_fields n m"
proof -
  let ?d = "put_d_inode k n d"
  have "get16 ?d k = unat (i_mode n)" "get16 ?d (k + 2) = unat (i_uid n)"
    using assms(1) unsigned_less [of "i_mode n", where ?'a = nat] unsigned_less [of "i_uid n", where ?'a = nat]
    by (simp_all add: put_d_inode_zones get16_before_zones get16_list_update put32_def get16_put16 get16_put16_other)
  moreover have "get32 ?d (k + 4) = i_size n"
  proof -
    have "get32 ?d (k + 4) = get32 (put32 (k + 4) (i_size n) (put16 (k + 2) (unat (i_uid n)) (put16 k (unat (i_mode n)) d))) (k + 4)"
      by (simp add: put_d_inode_zones get32_def get16_before_zones get16_list_update put32_def get16_put16_other
          add.commute)
    then show ?thesis using assms by (simp add: get32_put32 storable_def)
  qed
  moreover have "get32 ?d (k + 8) = unat (i_mtime n)"
  proof -
    have "get32 ?d (k + 8) = get32 (put32 (k + 8) (unat (i_mtime n)) (put32 (k + 4) (i_size n)
        (put16 (k + 2) (unat (i_uid n)) (put16 k (unat (i_mode n)) d)))) (k + 8)"
      by (simp add: put_d_inode_zones get32_def get16_before_zones get16_list_update)
    then show ?thesis using assms u32_bounds(3) [of "i_mtime n"] by (simp add: get32_put32)
  qed
  moreover have "?d ! (k + 12) = i_gid n" "unat (?d ! (k + 13)) = i_nlinks n"
    using assms by (simp_all add: put_d_inode_zones nth_put_zones storable_def unat_of_nat)
  moreover have "map (\<lambda>j. get16 ?d (k + 14 + 2 * j)) [0..<9] = i_zone n"
  proof (rule nth_equalityI)
    fix j assume "j < length (map (\<lambda>j. get16 ?d (k + 14 + 2 * j)) [0..<9])"
    then have "j < 9" by simp
    moreover from this have "get16 ?d (k + 14 + 2 * j) = i_zone n ! j mod 65536"
      unfolding put_d_inode_zones using assms(1) by (intro get_put_zones) simp_all
    moreover have "i_zone n ! j < 65536" using \<open>j < 9\<close> assms(2) by (simp add: storable_def)
    ultimately show "map (\<lambda>j. get16 ?d (k + 14 + 2 * j)) [0..<9] ! j = i_zone n ! j" by simp
  qed (use assms(2) in \<open>simp add: storable_def\<close>)
  ultimately show ?thesis
    by (simp add: get_d_inode_def disk_fields_def del: upt_Suc)
qed

section \<open>Through the cache\<close>

lemma get_super_from_cong: "super_blocks t = super_blocks s \<Longrightarrow> get_super_from n i dev t = get_super_from n i dev s"
proof (induction n i dev s rule: get_super_from.induct)
  case (2 n i dev s)
  then show ?case by (simp add: wait_on_super_def)
qed simp

lemma get_super_cong: "super_blocks t = super_blocks s \<Longrightarrow> get_super dev t = get_super dev s"
  using get_super_from_cong [of t s] by (simp add: get_super_def)

lemma cached_cong: "bufs t = bufs s \<Longrightarrow> hash_table t = hash_table s \<Longrightarrow> cached dev block b t = cached dev block b s"
  using find_buffer_same_links [of s t dev block] by (simp add: cached_def same_links_def)

lemma buffer_head_same [simp]: "h\<lparr>b_count := b_count h\<rparr> = h"
  by (cases h) simp

lemma locked_hit:
  assumes "cached dev block b s"
  shows "bread_si si dev block (upd_inode i f s) = Ret (Some b, incr_count b (upd_inode i f s))"
  using bread_hit [of dev block b "upd_inode i f s" si] assms cached_cong [of "upd_inode i f s" s] by simp

lemma get_super_upd_inode [simp]: "get_super dev (upd_inode i f s) = get_super dev s"
  by (rule get_super_cong) simp

lemma lock_inode_Ret: "\<not> i_lock (inode_table s ! i) \<Longrightarrow> lock_inode i s = Ret (upd_inode i (\<lambda>n. n\<lparr>i_lock := True\<rparr>) s)"
  by (simp add: lock_inode_def)

lemma put_d_inode_lock [simp]: "put_d_inode p (n\<lparr>i_lock := l\<rparr>) d = put_d_inode p n d"
  by (simp add: put_d_inode_def)

lemma write_inode_si_hit:
  fixes s i defines "n \<equiv> inode_table s ! i"
  assumes "i < length (inode_table s)" "\<not> i_lock n" "i_dirt n" "i_dev n \<noteq> 0"
    and sb: "get_super (i_dev n) s = Ret (Some k)"
    and hit: "cached (i_dev n) (inode_block (super_blocks s ! k) (i_num n)) b s"
  shows "write_inode_si si i s = Ret (s\<lparr>
    bufs := (bufs s)[b := (bufs s ! b)\<lparr>b_data := put_d_inode (inode_offset (i_num n)) n (b_data (bufs s ! b)),
      b_dirt := True\<rparr>],
    inode_table := (inode_table s)[i := n\<lparr>i_lock := False, i_dirt := False\<rparr>]\<rparr>)"
proof -
  let ?u = "incr_count b (upd_inode i (\<lambda>n. n\<lparr>i_lock := True\<rparr>) s)"
  let ?F = "\<lambda>h. h\<lparr>b_data := put_d_inode (inode_offset (i_num n)) n (b_data h), b_dirt := True\<rparr>"
  have b: "\<not> b_lock (bufs s ! b)" "b_count (bufs s ! b) < 255" "b < length (bufs s)"
    using hit by (simp_all add: cached_def)
  have "inode_table ?u ! i = n\<lparr>i_lock := True\<rparr>"
    using assms(2) by (simp add: n_def incr_count_def)
  then have "write_inode_si si i s = kbind (brelse (Some b) (upd_inode i (\<lambda>n. n\<lparr>i_dirt := False\<rparr>) (upd_buf b ?F ?u)))
      (\<lambda>s. Ret (unlock_inode i s))"
    using assms(2-5) sb unfolding write_inode_si_def lock_inode_Ret [OF assms(3) [unfolded n_def]]
    by (simp add: n_def locked_hit [OF hit [unfolded n_def]] Let_def)
  moreover have "h\<lparr>b_count := c, b_data := x, b_dirt := y, b_count := b_count h\<rparr> = h\<lparr>b_data := x, b_dirt := y\<rparr>"
    for h c x y by (cases h) simp
  moreover have "n\<lparr>i_lock := True, i_dirt := False, i_lock := False\<rparr> = n\<lparr>i_lock := False, i_dirt := False\<rparr>"
    by (cases n) simp
  ultimately show ?thesis
    using assms(2) b unfolding n_def
    by (simp add: brelse_def wait_on_buffer_def incr_count_def unlock_inode_def upd_buf_def upd_inode_def)
qed

lemmas write_inode_hit = write_inode_si_hit [where si = sync_inodes, folded write_inode_def]

lemma read_inode_hit:
  fixes s i defines "n \<equiv> inode_table s ! i"
  assumes "i < length (inode_table s)" "\<not> i_lock n"
    and sb: "get_super (i_dev n) s = Ret (Some k)"
    and hit: "cached (i_dev n) (inode_block (super_blocks s ! k) (i_num n)) b s"
  shows "read_inode i s = Ret (s\<lparr>inode_table := (inode_table s)[i :=
    (get_d_inode (b_data (bufs s ! b)) (inode_offset (i_num n)) n)\<lparr>i_lock := False\<rparr>]\<rparr>)"
proof -
  let ?u = "incr_count b (upd_inode i (\<lambda>n. n\<lparr>i_lock := True\<rparr>) s)"
  have b: "\<not> b_lock (bufs s ! b)" "b_count (bufs s ! b) < 255" "b < length (bufs s)"
    using hit by (simp_all add: cached_def)
  have "b_data (bufs ?u ! b) = b_data (bufs s ! b)" using b by (simp add: incr_count_def)
  then have "read_inode i s = kbind (brelse (Some b)
      (upd_inode i (get_d_inode (b_data (bufs s ! b)) (inode_offset (i_num n))) ?u)) (\<lambda>s. Ret (unlock_inode i s))"
    using assms(2,3) sb unfolding read_inode_def lock_inode_Ret [OF assms(3) [unfolded n_def]]
    by (simp add: n_def locked_hit [OF hit [unfolded n_def]] Let_def)
  moreover have "(get_d_inode d p (n\<lparr>i_lock := True\<rparr>))\<lparr>i_lock := False\<rparr> = (get_d_inode d p n)\<lparr>i_lock := False\<rparr>" for d p
    by (simp add: get_d_inode_def)
  ultimately show ?thesis
    using assms(2) b unfolding n_def
    by (simp add: brelse_def wait_on_buffer_def incr_count_def unlock_inode_def upd_buf_def upd_inode_def)
qed

text \<open>C18: an inode written to disk and read back into another slot of the inode table has the same
  contents, and the slot it was written from is clean.\<close>

theorem inode_write_read:
  assumes i: "i < length (inode_table s)" "\<not> i_lock (inode_table s ! i)" "i_dirt (inode_table s ! i)"
      "i_dev (inode_table s ! i) \<noteq> 0" "storable (inode_table s ! i)"
    and e: "e < length (inode_table s)" "e \<noteq> i" "\<not> i_lock (inode_table s ! e)"
      "i_dev (inode_table s ! e) = i_dev (inode_table s ! i)" "i_num (inode_table s ! e) = i_num (inode_table s ! i)"
    and sb: "get_super (i_dev (inode_table s ! i)) s = Ret (Some k)"
    and hit: "cached (i_dev (inode_table s ! i)) (inode_block (super_blocks s ! k) (i_num (inode_table s ! i))) b s"
      "length (b_data (bufs s ! b)) = 1024"
  shows "\<exists>t. kbind (write_inode i s) (read_inode e) = Ret t
    \<and> inode_table t ! e = disk_fields (inode_table s ! i) (inode_table s ! e)
    \<and> \<not> i_dirt (inode_table t ! i)"
proof -
  let ?n = "inode_table s ! i" and ?m = "inode_table s ! e"
  define t where "t = s\<lparr>
    bufs := (bufs s)[b := (bufs s ! b)\<lparr>b_data := put_d_inode (inode_offset (i_num ?n)) ?n (b_data (bufs s ! b)),
      b_dirt := True\<rparr>],
    inode_table := (inode_table s)[i := ?n\<lparr>i_lock := False, i_dirt := False\<rparr>]\<rparr>"
  have w: "write_inode i s = Ret t"
    unfolding t_def by (rule write_inode_hit [OF i(1-4) sb hit(1)])
  have te: "inode_table t ! e = ?m" "e < length (inode_table t)" using e by (simp_all add: t_def)
  have "same_links s t" by (simp add: t_def same_links_def nth_upd)
  then have hit': "cached (i_dev ?m) (inode_block (super_blocks t ! k) (i_num ?m)) b t"
    using hit(1) find_buffer_same_links [of s t] by (simp add: cached_def e(4,5), simp add: t_def)
  have sb': "get_super (i_dev ?m) t = Ret (Some k)"
    using sb get_super_cong [of t s] by (simp add: t_def e(4))
  define v where "v = t\<lparr>inode_table := (inode_table t)[e :=
      (get_d_inode (b_data (bufs t ! b)) (inode_offset (i_num ?m)) ?m)\<lparr>i_lock := False\<rparr>]\<rparr>"
  have r: "read_inode e t = Ret v"
    using read_inode_hit [of e t k b] te e(3) sb' hit' by (simp add: v_def)
  have "b_data (bufs t ! b) = put_d_inode (inode_offset (i_num ?n)) ?n (b_data (bufs s ! b))"
    using hit(1) by (simp add: t_def cached_def)
  moreover have "inode_offset (i_num ?n) + 32 \<le> 1024"
    by (simp add: inode_offset_def INODES_PER_BLOCK_def)
  ultimately have "get_d_inode (b_data (bufs t ! b)) (inode_offset (i_num ?m)) ?m = disk_fields ?n ?m"
    using i(5) hit(2) by (simp add: get_put_d_inode e(5))
  moreover have "(disk_fields ?n m)\<lparr>i_lock := False\<rparr> = disk_fields ?n m" if "\<not> i_lock m" for m
    using that by (cases m) (simp add: disk_fields_def)
  ultimately have "inode_table v ! e = disk_fields ?n ?m"
    using te(2) e(3) by (simp add: v_def)
  moreover have "\<not> i_dirt (inode_table v ! i)"
    using i(1) e(2) by (simp add: v_def t_def)
  ultimately show ?thesis by (simp add: w r)
qed

definition disk_example :: kernel where
  "disk_example = blank_kernel\<lparr>
     bufs := [blank_buffer\<lparr>b_dev := 257, b_blocknr := 4, b_uptodate := True\<rparr>],
     hash_table := (replicate NR_HASH None)[261 := Some 0],
     super_blocks := (super_blocks blank_kernel)[0 := blank_super\<lparr>s_dev := 257, s_imap_blocks := 1, s_zmap_blocks := 1\<rparr>],
     inode_table := (inode_table blank_kernel)[
       2 := blank_inode\<lparr>i_dev := 257, i_num := 7, i_dirt := True, i_mode := 0x81a4, i_size := 5000,
                        i_nlinks := 2, i_zone := [11, 12, 13, 14, 15, 0, 0, 0, 0]\<rparr>,
       5 := blank_inode\<lparr>i_dev := 257, i_num := 7, i_count := 1\<rparr>]\<rparr>"

lemma inode_write_read_witness:
  "\<exists>t. kbind (write_inode 2 disk_example) (read_inode 5) = Ret t
    \<and> i_size (inode_table t ! 5) = 5000 \<and> i_count (inode_table t ! 5) = 1 \<and> \<not> i_dirt (inode_table t ! 2)"
proof -
  have eqs: "inode_table disk_example ! 2 = blank_inode\<lparr>i_dev := 257, i_num := 7, i_dirt := True, i_mode := 0x81a4,
      i_size := 5000, i_nlinks := 2, i_zone := [11, 12, 13, 14, 15, 0, 0, 0, 0]\<rparr>"
    "inode_table disk_example ! 5 = blank_inode\<lparr>i_dev := 257, i_num := 7, i_count := 1\<rparr>"
    "length (inode_table disk_example) = 32"
    "super_blocks disk_example ! 0 = blank_super\<lparr>s_dev := 257, s_imap_blocks := 1, s_zmap_blocks := 1\<rparr>"
    "bufs disk_example = [blank_buffer\<lparr>b_dev := 257, b_blocknr := 4, b_uptodate := True\<rparr>]"
    by (simp_all add: disk_example_def blank_kernel_def NR_INODE_def NR_SUPER_def)
  have "hashfn 257 4 = 261" by code_simp
  then have "hash_table disk_example ! hashfn 257 4 = Some 0" by (simp add: disk_example_def NR_HASH_def)
  then have hit: "cached 257 4 0 disk_example"
    by (simp add: cached_def find_buffer_def eqs blank_buffer_def)
  have sup: "get_super 257 disk_example = Ret (Some 0)"
    by (simp add: get_super_def NR_SUPER_def eqs(4) wait_on_super_def numeral_eq_Suc blank_super_def)
  show ?thesis
    using inode_write_read [of 2 disk_example 5 0 0] hit sup
    by (auto simp: eqs blank_inode_def blank_super_def storable_def inode_block_def inode_index_def
        INODES_PER_BLOCK_def disk_fields_def blank_buffer_def)
qed

end
