(* ===== verification/Inode_Flush.thy ===== *)
theory Inode_Flush imports Disk_Inode begin

text \<open>
  \<open>sync_inodes\<close> when the block of every dirty inode is in the cache: each dirty inode is put into its 32
  bytes of that block, the block becomes dirty and the inode clean, and nothing else changes.
\<close>

section \<open>One inode\<close>

definition must_write :: "m_inode \<Rightarrow> bool" where
  "must_write n \<longleftrightarrow> i_dirt n \<and> \<not> i_pipe n \<and> i_dev n \<noteq> 0"

text \<open>The buffer that holds the inode on disk.\<close>

definition home :: "kernel \<Rightarrow> nat \<Rightarrow> nat option" where
  "home s i =
    (case get_super (i_dev (inode_table s ! i)) s of
       Ret (Some k) \<Rightarrow> find_buffer (i_dev (inode_table s ! i))
          (inode_block (super_blocks s ! k) (i_num (inode_table s ! i))) s
     | _ \<Rightarrow> None)"

definition holds :: "kernel \<Rightarrow> nat \<Rightarrow> nat \<Rightarrow> bool" where
  "holds s b i \<longleftrightarrow> must_write (inode_table s ! i) \<and> home s i = Some b"

definition flushable :: "kernel \<Rightarrow> nat \<Rightarrow> bool" where
  "flushable s i \<longleftrightarrow> (case home s i of None \<Rightarrow> False | Some b \<Rightarrow>
     b < length (bufs s) \<and> b_uptodate (bufs s ! b) \<and> \<not> b_lock (bufs s ! b) \<and> b_count (bufs s ! b) < 255
     \<and> length (b_data (bufs s ! b)) = 1024)"

definition put_inode :: "m_inode \<Rightarrow> u8 list \<Rightarrow> u8 list" where
  "put_inode n = put_d_inode (inode_offset (i_num n)) n"

definition flush :: "nat \<Rightarrow> kernel \<Rightarrow> kernel" where
  "flush i s =
    (let n = inode_table s ! i
     in if \<not> must_write n then s
        else case home s i of None \<Rightarrow> s | Some b \<Rightarrow>
          s\<lparr>bufs := (bufs s)[b := (bufs s ! b)\<lparr>b_data := put_inode n (b_data (bufs s ! b)), b_dirt := True\<rparr>],
            inode_table := (inode_table s)[i := n\<lparr>i_dirt := False\<rparr>]\<rparr>)"

lemma sync_inode_flush:
  assumes "i < length (inode_table s)" "\<not> i_lock (inode_table s ! i)"
    and "must_write (inode_table s ! i) \<longrightarrow> flushable s i"
  shows "sync_inode_si si i s = Ret (flush i s)"
proof (cases "must_write (inode_table s ! i)")
  case False
  let ?n = "inode_table s ! i"
  have "write_inode_si si i s = Ret s" if "i_dirt ?n" "\<not> i_pipe ?n"
  proof -
    have "i_dev ?n = 0" using that False by (simp add: must_write_def)
    moreover have "?n\<lparr>i_lock := False\<rparr> = ?n" using assms(2) by (cases ?n) simp
    then have "s\<lparr>inode_table := (inode_table s)[i := ?n\<lparr>i_lock := False\<rparr>]\<rparr> = s" by simp
    ultimately show ?thesis
      using assms(1,2) by (simp add: write_inode_si_def lock_inode_def unlock_inode_def upd_inode_def)
  qed
  then show ?thesis using False assms(2) by (simp add: sync_inode_si_def wait_on_inode_def flush_def)
next
  case True
  let ?n = "inode_table s ! i"
  from True assms(3) obtain b where b: "home s i = Some b" "b < length (bufs s)" "b_uptodate (bufs s ! b)"
    "\<not> b_lock (bufs s ! b)" "b_count (bufs s ! b) < 255"
    by (auto simp: flushable_def split: option.splits)
  then obtain k where k: "get_super (i_dev ?n) s = Ret (Some k)"
    "cached (i_dev ?n) (inode_block (super_blocks s ! k) (i_num ?n)) b s"
    by (auto simp: home_def cached_def split: kres.splits option.splits)
  have "?n\<lparr>i_lock := False, i_dirt := False\<rparr> = ?n\<lparr>i_dirt := False\<rparr>" using assms(2) by (cases ?n) simp
  then have "write_inode_si si i s = Ret (flush i s)"
    using write_inode_si_hit [OF assms(1,2) _ _ k, of si] True b(1)
    by (simp add: must_write_def flush_def put_inode_def Let_def)
  then show ?thesis
    using True assms(2) by (simp add: sync_inode_si_def wait_on_inode_def must_write_def)
qed


section \<open>All of them\<close>

definition flushed :: "kernel \<Rightarrow> nat \<Rightarrow> nat list \<Rightarrow> u8 list \<Rightarrow> u8 list" where
  "flushed s b is d = fold (\<lambda>i d. if holds s b i then put_inode (inode_table s ! i) d else d) is d"

text \<open>\<open>t\<close> is \<open>s\<close> after the inodes of a list have been written.\<close>

definition flushes :: "nat list \<Rightarrow> kernel \<Rightarrow> kernel \<Rightarrow> bool" where
  "flushes is s t \<longleftrightarrow> t = s\<lparr>bufs := bufs t, inode_table := inode_table t\<rparr>
    \<and> length (bufs t) = length (bufs s) \<and> length (inode_table t) = length (inode_table s)
    \<and> (\<forall>i. inode_table t ! i = (if i \<in> set is \<and> must_write (inode_table s ! i)
         then (inode_table s ! i)\<lparr>i_dirt := False\<rparr> else inode_table s ! i))
    \<and> (\<forall>b. bufs t ! b = (bufs s ! b)\<lparr>b_data := flushed s b is (b_data (bufs s ! b)),
         b_dirt := b_dirt (bufs s ! b) \<or> (\<exists>i\<in>set is. holds s b i)\<rparr>)"

lemma flushesD:
  assumes "flushes is s t"
  shows "hash_table t = hash_table s" "super_blocks t = super_blocks s" "same_links s t"
proof -
  have t: "t = s\<lparr>bufs := bufs t, inode_table := inode_table t\<rparr>" using assms by (simp add: flushes_def)
  show h: "hash_table t = hash_table s" "super_blocks t = super_blocks s"
    using arg_cong [OF t, of hash_table] arg_cong [OF t, of super_blocks] by simp_all
  show "same_links s t" using assms h by (simp add: flushes_def same_links_def)
qed

lemma flushes_home:
  assumes "flushes is s t"
  shows "home t i = home s i" "must_write (inode_table t ! i) \<longleftrightarrow> must_write (inode_table s ! i) \<and> i \<notin> set is"
    "i \<notin> set is \<Longrightarrow> inode_table t ! i = inode_table s ! i" "flushable t i = flushable s i"
proof -
  have n: "inode_table t ! i = (if i \<in> set is \<and> must_write (inode_table s ! i)
         then (inode_table s ! i)\<lparr>i_dirt := False\<rparr> else inode_table s ! i)" for i
    using assms by (simp add: flushes_def)
  have key: "i_dev (inode_table t ! i) = i_dev (inode_table s ! i)" "i_num (inode_table t ! i) = i_num (inode_table s ! i)"
    by (simp_all add: n)
  show h: "home t i = home s i"
    using flushesD [OF assms] find_buffer_same_links [of s t] get_super_cong [of t s]
    unfolding home_def key by (simp cong: kres.case_cong option.case_cong)
  show "must_write (inode_table t ! i) \<longleftrightarrow> must_write (inode_table s ! i) \<and> i \<notin> set is"
    "i \<notin> set is \<Longrightarrow> inode_table t ! i = inode_table s ! i"
    by (auto simp: n must_write_def)
  have len: "length (flushed s b js d) = length d" for b js d
    by (induction js arbitrary: d) (simp_all add: flushed_def put_inode_def)
  show "flushable t i = flushable s i"
    using assms by (simp add: flushable_def h flushes_def len cong: option.case_cong)
qed

lemma flushes_Nil: "flushes [] s s"
  by (simp add: flushes_def flushed_def)

lemma flushes_one:
  assumes "i < length (inode_table s)" "must_write (inode_table s ! i) \<longrightarrow> flushable s i"
  shows "flushes [i] s (flush i s)"
proof (cases "must_write (inode_table s ! i)")
  case False
  then show ?thesis by (simp add: flushes_def flushed_def flush_def holds_def)
next
  case True
  with assms(2) obtain b where b: "home s i = Some b" "b < length (bufs s)"
    by (auto simp: flushable_def split: option.splits)
  have eq: "h\<lparr>b_data := b_data h, b_dirt := b_dirt h\<rparr> = h" for h :: buffer_head by (cases h) simp
  show ?thesis
    using True b assms(1) by (simp add: flushes_def flushed_def flush_def holds_def Let_def nth_list_update eq)
qed

lemma flushes_append:
  assumes 1: "flushes is s t" and 2: "flushes js t u" and d: "set is \<inter> set js = {}"
  shows "flushes (is @ js) s u"
proof -
  have same: "inode_table t ! j = inode_table s ! j" "holds t b j = holds s b j" if "j \<in> set js" for j b
    using that d flushes_home [OF 1] by (auto simp: holds_def)
  have "fold (\<lambda>i d. if holds t b i then put_inode (inode_table t ! i) d else d) js d
      = fold (\<lambda>i d. if holds s b i then put_inode (inode_table s ! i) d else d) js d" for b d
    by (rule fold_cong) (auto simp: fun_eq_iff same)
  then have fl: "flushed t b js (flushed s b is d) = flushed s b (is @ js) d" for b d
    by (simp add: flushed_def)
  have dirt: "(\<exists>i\<in>set (is @ js). holds s b i) \<longleftrightarrow> (\<exists>i\<in>set is. holds s b i) \<or> (\<exists>i\<in>set js. holds t b i)" for b
    using same(2) by auto
  have "u = s\<lparr>bufs := bufs u, inode_table := inode_table u\<rparr>"
  proof -
    have t: "t = s\<lparr>bufs := bufs t, inode_table := inode_table t\<rparr>"
      and u: "u = t\<lparr>bufs := bufs u, inode_table := inode_table u\<rparr>"
      using 1 2 by (simp_all add: flushes_def)
    have "t\<lparr>bufs := B, inode_table := I\<rparr> = s\<lparr>bufs := B, inode_table := I\<rparr>" for B I
      using arg_cong [OF t, of "\<lambda>t. t\<lparr>bufs := B, inode_table := I\<rparr>"] by simp
    then show ?thesis using u by metis
  qed
  moreover have "inode_table u ! i = (if i \<in> set (is @ js) \<and> must_write (inode_table s ! i)
         then (inode_table s ! i)\<lparr>i_dirt := False\<rparr> else inode_table s ! i)" for i
    using 1 2 d flushes_home(2) [OF 1, of i] by (auto simp: flushes_def)
  ultimately show ?thesis
    using 1 2 unfolding flushes_def dirt by (simp add: fl)
qed

lemma kfold_flush:
  "distinct is \<Longrightarrow> \<forall>i\<in>set is. i < length (inode_table s) \<and> \<not> i_lock (inode_table s ! i)
      \<and> (must_write (inode_table s ! i) \<longrightarrow> flushable s i) \<Longrightarrow>
    \<exists>t. kfold (sync_inode_si si) is s = Ret t \<and> flushes is s t"
proof (induction "is" arbitrary: s)
  case Nil
  then show ?case using flushes_Nil by simp
next
  case (Cons i xs)
  let ?u = "flush i s"
  have u: "flushes [i] s ?u" using Cons.prems by (intro flushes_one) simp_all
  have len: "length (inode_table ?u) = length (inode_table s)" using u by (simp add: flushes_def)
  have "\<forall>j\<in>set xs. j < length (inode_table ?u) \<and> \<not> i_lock (inode_table ?u ! j)
      \<and> (must_write (inode_table ?u ! j) \<longrightarrow> flushable ?u j)"
  proof
    fix j assume j: "j \<in> set xs"
    then have "j \<noteq> i" using Cons.prems(1) by auto
    then show "j < length (inode_table ?u) \<and> \<not> i_lock (inode_table ?u ! j)
      \<and> (must_write (inode_table ?u ! j) \<longrightarrow> flushable ?u j)"
      using Cons.prems(2) j flushes_home [OF u, of j] by (simp add: len)
  qed
  then obtain t where t: "kfold (sync_inode_si si) xs ?u = Ret t" "flushes xs ?u t"
    using Cons.IH [of ?u] Cons.prems(1) by auto
  have "sync_inode_si si i s = Ret ?u" using Cons.prems(2) by (intro sync_inode_flush) simp_all
  moreover have "flushes (i # xs) s t" using flushes_append [OF u t(2)] Cons.prems(1) by simp
  ultimately show ?case using t(1) by simp
qed

lemma sync_inodes_flush:
  assumes "length (inode_table s) = NR_INODE"
    and "\<forall>i<NR_INODE. \<not> i_lock (inode_table s ! i) \<and> (must_write (inode_table s ! i) \<longrightarrow> flushable s i)"
  shows "\<exists>t. sync_inodes s = Ret t \<and> flushes [0..<NR_INODE] s t"
  using kfold_flush [of "[0..<NR_INODE]" s "sync_inodes_at 0"] assms by (simp add: sync_inodes_def)


section \<open>What is in the blocks afterwards\<close>

definition covers :: "kernel \<Rightarrow> nat \<Rightarrow> nat \<Rightarrow> bool" where
  "covers s i j \<longleftrightarrow> inode_offset (i_num (inode_table s ! i)) \<le> j \<and> j < inode_offset (i_num (inode_table s ! i)) + 32"

lemma put_inode_simps [simp]: "length (put_inode n d) = length d"
  "\<not> covers s i j \<Longrightarrow> put_inode (inode_table s ! i) d ! j = d ! j"
  by (auto simp: put_inode_def covers_def nth_put_d_inode)

lemma flushed_Nil [simp]: "flushed s b [] d = d"
  by (simp add: flushed_def)

lemma flushed_Cons [simp]:
  "flushed s b (i # is) d = flushed s b is (if holds s b i then put_inode (inode_table s ! i) d else d)"
  by (simp add: flushed_def)

lemma flushed_length [simp]: "length (flushed s b is d) = length d"
  by (induction "is" arbitrary: d) simp_all

lemma nth_flushed: "\<forall>i\<in>set is. holds s b i \<longrightarrow> \<not> covers s i j \<Longrightarrow> flushed s b is d ! j = d ! j"
  by (induction "is" arbitrary: d) simp_all

lemma get_d_inode_cong:
  assumes "\<forall>j. k \<le> j \<longrightarrow> j < k + 32 \<longrightarrow> d ! j = d' ! j"
  shows "get_d_inode d k n = get_d_inode d' k n"
proof -
  have 16: "get16 d (k + j) = get16 d' (k + j)" if "j < 31" for j
    using assms that by (intro get16_cong) simp_all
  then have "get16 d k = get16 d' k" "get32 d (k + 4) = get32 d' (k + 4)" "get32 d (k + 8) = get32 d' (k + 8)"
    using 16 [of 0] 16 [of 4] 16 [of 6] 16 [of 8] 16 [of 10] by (simp_all add: get32_def ac_simps)
  moreover have "map (\<lambda>j. get16 d (k + 14 + 2 * j)) [0..<9] = map (\<lambda>j. get16 d' (k + 14 + 2 * j)) [0..<9]"
  proof (rule map_cong [OF refl])
    fix j :: nat assume "j \<in> set [0..<9]"
    then show "get16 d (k + 14 + 2 * j) = get16 d' (k + 14 + 2 * j)"
      using 16 [of "14 + 2 * j"] by (simp add: add.assoc)
  qed
  moreover have "d ! (k + 12) = d' ! (k + 12)" "d ! (k + 13) = d' ! (k + 13)" using assms by simp_all
  ultimately show ?thesis
    using 16 [of 2] unfolding get_d_inode_def by simp
qed

lemma flushed_inode:
  assumes "distinct is" "i \<in> set is" "holds s b i" "storable (inode_table s ! i)" "length d = 1024"
    and "\<forall>j\<in>set is. j \<noteq> i \<longrightarrow> holds s b j \<longrightarrow>
      inode_offset (i_num (inode_table s ! j)) \<noteq> inode_offset (i_num (inode_table s ! i))"
  shows "get_d_inode (flushed s b is d) (inode_offset (i_num (inode_table s ! i))) m = disk_fields (inode_table s ! i) m"
  using assms(1,2,5,6)
proof (induction "is" arbitrary: d)
  case (Cons x xs)
  show ?case
  proof (cases "x = i")
    case False
    then show ?thesis using Cons by simp
  next
    case True
    let ?o = "inode_offset (i_num (inode_table s ! i))"
    have "\<not> covers s y j" if "y \<in> set xs" "holds s b y" "?o \<le> j" "j < ?o + 32" for y j
    proof -
      have "y \<noteq> i" using that(1) Cons.prems(1) True by auto
      then have "inode_offset (i_num (inode_table s ! y)) \<noteq> ?o" using Cons.prems(4) that(1,2) by simp
      then show ?thesis
        using that(3,4) unfolding covers_def inode_offset_def by (auto simp: less_iff_Suc_add)
    qed
    then have "get_d_inode (flushed s b xs (put_inode (inode_table s ! i) d)) ?o m
        = get_d_inode (put_inode (inode_table s ! i) d) ?o m"
      by (intro get_d_inode_cong allI impI nth_flushed) blast
    moreover have "?o + 32 \<le> length d"
      using Cons.prems(3) by (simp add: inode_offset_def INODES_PER_BLOCK_def)
    ultimately show ?thesis
      using True assms(3,4) get_put_d_inode [of ?o d "inode_table s ! i" m] by (simp add: put_inode_def)
  qed
qed simp

text \<open>Two inodes of a device have different places.\<close>

lemma places_differ:
  assumes "home s i = Some b" "home s j = Some b"
    and "i_num (inode_table s ! i) < 2 ^ 16" "i_num (inode_table s ! j) < 2 ^ 16"
    and "inode_offset (i_num (inode_table s ! i)) = inode_offset (i_num (inode_table s ! j))"
  shows "i_dev (inode_table s ! i) = i_dev (inode_table s ! j) \<and> i_num (inode_table s ! i) = i_num (inode_table s ! j)"
proof -
  let ?n = "inode_table s ! i" and ?m = "inode_table s ! j"
  obtain k l where k: "get_super (i_dev ?n) s = Ret (Some k)" "get_super (i_dev ?m) s = Ret (Some l)"
    and f: "find_buffer (i_dev ?n) (inode_block (super_blocks s ! k) (i_num ?n)) s = Some b"
      "find_buffer (i_dev ?m) (inode_block (super_blocks s ! l) (i_num ?m)) s = Some b"
    using assms(1,2) by (auto simp: home_def split: kres.splits option.splits)
  have dev: "i_dev ?n = i_dev ?m" "inode_block (super_blocks s ! k) (i_num ?n) = inode_block (super_blocks s ! l) (i_num ?m)"
    using find_buffer_Some [OF f(1)] find_buffer_Some [OF f(2)] by simp_all
  then have "inode_index (i_num ?n) div INODES_PER_BLOCK = inode_index (i_num ?m) div INODES_PER_BLOCK"
    using k by (simp add: inode_block_def)
  moreover have "inode_index (i_num ?n) mod INODES_PER_BLOCK = inode_index (i_num ?m) mod INODES_PER_BLOCK"
    using assms(5) by (simp add: inode_offset_def)
  ultimately have "inode_index (i_num ?n) = inode_index (i_num ?m)"
    by (metis mult_div_mod_eq)
  then have "i_num ?n = i_num ?m"
    using assms(3,4) unfolding inode_index_def by (auto simp: mod_if split: if_splits)
  with dev(1) show ?thesis by simp
qed

end
