(* ===== verification/Writeback.thy ===== *)
theory Writeback imports Ramdisk Inode_Flush begin

text \<open>
  Writing a device back: \<open>sync_dev\<close> of \<open>fs/buffer.c\<close> on the RAM disk writes the dirty blocks, has the
  dirty inodes put into their blocks, and writes those. It leaves no dirty buffer and no dirty inode. The
  buffer layer and the request layer meet here in the contract \<open>block_device\<close>.
\<close>

text \<open>Every buffer of the RAM disk is in range and unlocked, and no block has two buffers.\<close>

definition rd_cached :: "kernel \<Rightarrow> bool" where
  "rd_cached s \<longleftrightarrow> rd_ready s \<and> rd.consistent s
    \<and> (\<forall>b<length (bufs s). b_dev (bufs s ! b) = RAM_DEV \<longrightarrow> rd_buffer s b)"

definition same_buffers :: "kernel \<Rightarrow> kernel \<Rightarrow> bool" where
  "same_buffers s t \<longleftrightarrow> length (bufs t) = length (bufs s) \<and> inode_table t = inode_table s
    \<and> hash_table t = hash_table s \<and> super_blocks t = super_blocks s
    \<and> (\<forall>b<length (bufs s). b_dev (bufs t ! b) = b_dev (bufs s ! b) \<and> b_blocknr (bufs t ! b) = b_blocknr (bufs s ! b))"

lemma same_buffers_refl [simp]: "same_buffers s s"
  by (simp add: same_buffers_def)

lemma same_buffers_trans: "same_buffers s t \<Longrightarrow> same_buffers t u \<Longrightarrow> same_buffers s u"
  by (simp add: same_buffers_def)

lemma sync_buffer_step:
  assumes "rd_cached s" "b < length (bufs s)"
  shows "sync_buffer RAM_DEV b s = rd.write_back b s"
    and "rd.write_back b s = Ret t \<Longrightarrow> rd_cached t \<and> same_buffers s t"
proof -
  have on: "rd_buffer s b \<longleftrightarrow> b_dev (bufs s ! b) = RAM_DEV"
    using assms by (auto simp: rd_cached_def rd_buffer_def)
  then have unlocked: "b_dev (bufs s ! b) = RAM_DEV \<Longrightarrow> \<not> b_lock (bufs s ! b)"
    by (auto simp: rd_buffer_def)
  show "sync_buffer RAM_DEV b s = rd.write_back b s"
    using on unlocked by (simp add: sync_buffer_def rd.write_back_def wait_on_buffer_def)
  assume t: "rd.write_back b s = Ret t"
  show "rd_cached t \<and> same_buffers s t"
  proof (cases "rd_buffer s b \<and> b_dirt (bufs s ! b)")
    case False
    then have "t = s" using t by (auto simp: rd.write_back_def)
    then show ?thesis using assms(1) by simp
  next
    case True
    then obtain r where r: "r < NR_REQUEST" "r_dev (requests s ! r) < 0" and "ll_rw_block WRITE b s = Ret (rd_served r b WRITE s)"
      using ll_rw_block_rd [of s b WRITE] assms(1) by (auto simp: rd_cached_def)
    then have t: "t = rd_served r b WRITE s" using t True by (simp add: rd.write_back_def)
    have same: "same_buffers s t"
      using assms(2) by (simp add: t same_buffers_def rd_served_def Let_def nth_list_update)
    have rd: "rd_ready t" "rd_buffer t = rd_buffer s"
      using rd_served_simps [OF _ _ r, of b WRITE] True assms(1) by (simp_all add: t rd_cached_def)
    have len: "length (bufs t) = length (bufs s)" using same by (simp add: same_buffers_def)
    have eq: "b_blocknr (bufs t ! c) = b_blocknr (bufs s ! c)" if "rd_buffer s c" for c
      using that same by (simp add: same_buffers_def rd_buffer_def)
    have "rd.consistent t"
      using assms(1) eq unfolding rd_cached_def rd.consistent_def rd(2) by metis
    moreover have "\<forall>c<length (bufs t). b_dev (bufs t ! c) = RAM_DEV \<longrightarrow> rd_buffer t c"
      using assms(1) same unfolding rd_cached_def same_buffers_def rd(2) by metis
    ultimately show ?thesis using rd(1) same by (simp add: rd_cached_def)
  qed
qed

lemma sync_buffers_eq:
  assumes "rd_cached s"
  shows "kfold (sync_buffer RAM_DEV) (all_bufs s) s = kfold rd.write_back (all_bufs s) s"
    and "kfold rd.write_back (all_bufs s) s = Ret t \<Longrightarrow> rd_cached t \<and> same_buffers s t"
proof -
  have step: "rd_cached v \<and> same_buffers s v"
    if "b \<in> set (all_bufs s)" "rd_cached u \<and> same_buffers s u" "rd.write_back b u = Ret v" for b u v
  proof -
    have "b < length (bufs u)" using that by (simp add: all_bufs_def same_buffers_def)
    then show ?thesis using that sync_buffer_step(2) [of u b v] same_buffers_trans by blast
  qed
  have start: "rd_cached s \<and> same_buffers s s" using assms by simp
  show "kfold (sync_buffer RAM_DEV) (all_bufs s) s = kfold rd.write_back (all_bufs s) s"
  proof (rule kfold_cong_inv [where P = "\<lambda>u. rd_cached u \<and> same_buffers s u"])
    fix b u assume "b \<in> set (all_bufs s)" "rd_cached u \<and> same_buffers s u"
    then show "sync_buffer RAM_DEV b u = rd.write_back b u"
      by (intro sync_buffer_step(1)) (simp_all add: all_bufs_def same_buffers_def)
  qed (rule start, rule step)
  show "rd_cached t \<and> same_buffers s t" if "kfold rd.write_back (all_bufs s) s = Ret t"
    by (rule kfold_invariant [where P = "\<lambda>u. rd_cached u \<and> same_buffers s u", OF that start step])
qed

lemma sync_buffers_rd:
  assumes "rd_cached s"
  shows "\<exists>t. kfold (sync_buffer RAM_DEV) (all_bufs s) s = Ret t \<and> rd_cached t \<and> same_buffers s t
    \<and> (\<forall>b. bufs t ! b = (if rd_buffer s b then rd.cleaned (bufs s ! b) else bufs s ! b))
    \<and> (\<forall>b. rd_buffer s b \<longrightarrow> b_dirt (bufs s ! b) \<longrightarrow> rd_disk t (b_blocknr (bufs s ! b)) = b_data (bufs s ! b))
    \<and> (\<forall>n. (\<nexists>b. rd_buffer s b \<and> b_dirt (bufs s ! b) \<and> b_blocknr (bufs s ! b) = n) \<longrightarrow> rd_disk t n = rd_disk s n)"
proof -
  have "rd_ready s" "rd.consistent s" using assms by (simp_all add: rd_cached_def)
  from rd.write_back_all [OF this, of "all_bufs s"] obtain t where
    t: "kfold rd.write_back (all_bufs s) s = Ret t"
      "(\<lambda>b. bufs t ! b) = (\<lambda>b. if b \<in> set (all_bufs s) \<and> rd_buffer s b then rd.cleaned (bufs s ! b) else bufs s ! b)"
      "\<forall>b\<in>set (all_bufs s). rd_buffer s b \<longrightarrow> b_dirt (bufs s ! b) \<longrightarrow> rd_disk t (b_blocknr (bufs s ! b)) = b_data (bufs s ! b)"
      "\<forall>n. (\<nexists>b. b \<in> set (all_bufs s) \<and> rd_buffer s b \<and> b_dirt (bufs s ! b) \<and> b_blocknr (bufs s ! b) = n) \<longrightarrow> rd_disk t n = rd_disk s n"
    by blast
  have mem: "rd_buffer s b \<Longrightarrow> b \<in> set (all_bufs s)" for b
    by (simp add: all_bufs_def rd_buffer_def)
  have "bufs t ! b = (if rd_buffer s b then rd.cleaned (bufs s ! b) else bufs s ! b)" for b
    using fun_cong [OF t(2), of b] mem by auto
  moreover have "rd_cached t \<and> same_buffers s t" using sync_buffers_eq(2) [OF assms t(1)] .
  ultimately show ?thesis
    using t(1,3,4) mem sync_buffers_eq(1) [OF assms] by metis
qed

text \<open>The second pass finds the buffers as the first left them, but for the blocks of inodes.\<close>

lemma flushes_rd:
  assumes "flushes is s t" "rd_cached s"
  shows "rd_cached t" "rd_buffer t = rd_buffer s" "rd_disk t = rd_disk s"
proof -
  have t: "t = s\<lparr>bufs := bufs t, inode_table := inode_table t\<rparr>" using assms(1) by (simp add: flushes_def)
  have same: "rd_length t = rd_length s" "rd_start t = rd_start s" "mem t = mem s" "blk_dev t = blk_dev s"
    "requests t = requests s"
    using arg_cong [OF t, of rd_length] arg_cong [OF t, of rd_start] arg_cong [OF t, of mem]
      arg_cong [OF t, of blk_dev] arg_cong [OF t, of requests] by simp_all
  have bufs: "bufs t ! b = (bufs s ! b)\<lparr>b_data := flushed s b is (b_data (bufs s ! b)),
         b_dirt := b_dirt (bufs s ! b) \<or> (\<exists>i\<in>set is. holds s b i)\<rparr>" "length (bufs t) = length (bufs s)" for b
    using assms(1) by (simp_all add: flushes_def)
  show rb: "rd_buffer t = rd_buffer s"
    by (simp add: fun_eq_iff rd_buffer_def bufs same)
  show "rd_disk t = rd_disk s" by (simp add: fun_eq_iff rd_disk_def same)
  show "rd_cached t"
    using assms(2) unfolding rd_cached_def rd.consistent_def rb by (simp add: rd_ready_def same bufs)
qed

text \<open>The first pass does not change where inodes are, nor that they can be written.\<close>

lemma home_bufs:
  assumes "same_links s t" "super_blocks t = super_blocks s" "inode_table t = inode_table s"
  shows "home t = home s" "holds t = holds s"
proof -
  show "home t = home s"
    using find_buffer_same_links [OF assms(1)] get_super_cong [OF assms(2)]
    by (simp add: home_def fun_eq_iff assms(2,3) cong: kres.case_cong option.case_cong)
  then show "holds t = holds s" by (simp add: holds_def fun_eq_iff assms(3))
qed

definition written :: "kernel \<Rightarrow> nat \<Rightarrow> bool" where
  "written s b \<longleftrightarrow> rd_buffer s b \<and> (b_dirt (bufs s ! b) \<or> (\<exists>i<NR_INODE. holds s b i))"

text \<open>The three steps of \<open>sync_dev\<close> together.\<close>

lemma sync_dev_steps:
  assumes c: "rd_cached s" and len: "length (inode_table s) = NR_INODE"
    and i: "\<forall>i<NR_INODE. \<not> i_lock (inode_table s ! i) \<and> (must_write (inode_table s ! i) \<longrightarrow> flushable s i)"
  shows "\<exists>t. sync_dev RAM_DEV s = Ret (0, t)
    \<and> (\<forall>i<NR_INODE. \<not> must_write (inode_table t ! i))
    \<and> (\<forall>b. b_data (bufs t ! b) = flushed s b [0..<NR_INODE] (b_data (bufs s ! b)))
    \<and> (\<forall>b. rd_buffer s b \<longrightarrow> \<not> b_dirt (bufs t ! b))
    \<and> (\<forall>b. written s b \<longrightarrow> rd_disk t (b_blocknr (bufs s ! b)) = b_data (bufs t ! b))
    \<and> (\<forall>n. (\<nexists>b. written s b \<and> b_blocknr (bufs s ! b) = n) \<longrightarrow> rd_disk t n = rd_disk s n)"
proof -
  obtain t where t: "kfold (sync_buffer RAM_DEV) (all_bufs s) s = Ret t" "rd_cached t" "same_buffers s t"
    "\<And>b. bufs t ! b = (if rd_buffer s b then rd.cleaned (bufs s ! b) else bufs s ! b)"
    "\<And>b. rd_buffer s b \<Longrightarrow> b_dirt (bufs s ! b) \<Longrightarrow> rd_disk t (b_blocknr (bufs s ! b)) = b_data (bufs s ! b)"
    "\<And>n. (\<nexists>b. rd_buffer s b \<and> b_dirt (bufs s ! b) \<and> b_blocknr (bufs s ! b) = n) \<Longrightarrow> rd_disk t n = rd_disk s n"
    using sync_buffers_rd [OF c] by metis
  have same: "inode_table t = inode_table s" "hash_table t = hash_table s" "super_blocks t = super_blocks s"
    "length (bufs t) = length (bufs s)"
    using t(3) by (simp_all add: same_buffers_def)
  have fields: "b_dev (bufs t ! b) = b_dev (bufs s ! b)" "b_blocknr (bufs t ! b) = b_blocknr (bufs s ! b)"
    "b_data (bufs t ! b) = b_data (bufs s ! b)" "b_next (bufs t ! b) = b_next (bufs s ! b)"
    "b_lock (bufs t ! b) = b_lock (bufs s ! b)" "b_count (bufs t ! b) = b_count (bufs s ! b)"
    "b_uptodate (bufs s ! b) \<Longrightarrow> b_uptodate (bufs t ! b)" for b
    by (simp_all add: t(4) rd.cleaned_def)
  have "same_links s t" by (simp add: same_links_def same fields)
  note h = home_bufs [OF this same(3,1)]
  have rb: "rd_buffer t = rd_buffer s"
  proof
    fix b
    have "b_dev (bufs s ! b) = RAM_DEV \<Longrightarrow> b < length (bufs s) \<Longrightarrow> rd_buffer s b \<and> rd_buffer t b"
      using c t(2) by (simp add: rd_cached_def same fields)
    then show "rd_buffer t b = rd_buffer s b" by (auto simp: rd_buffer_def same fields)
  qed
  have fl: "flushable t i" if "flushable s i" for i
    using that by (auto simp: flushable_def h same fields split: option.splits)
  obtain u where u: "sync_inodes t = Ret u" "flushes [0..<NR_INODE] t u"
    using sync_inodes_flush [of t] len i fl by (auto simp: same)
  note f = flushes_rd [OF u(2) t(2)]
  have ub: "bufs u ! b = (bufs t ! b)\<lparr>b_data := flushed s b [0..<NR_INODE] (b_data (bufs s ! b)),
      b_dirt := b_dirt (bufs t ! b) \<or> (\<exists>i<NR_INODE. holds s b i)\<rparr>" for b
  proof -
    have "flushed t = flushed s" unfolding flushed_def h same by (rule refl)
    moreover have "(\<exists>i\<in>set [0..<NR_INODE]. holds s b i) \<longleftrightarrow> (\<exists>i<NR_INODE. holds s b i)" by auto
    ultimately show ?thesis using u(2) by (simp add: flushes_def fields h)
  qed
  obtain v where v: "kfold (sync_buffer RAM_DEV) (all_bufs u) u = Ret v" "same_buffers u v"
    "\<And>b. bufs v ! b = (if rd_buffer u b then rd.cleaned (bufs u ! b) else bufs u ! b)"
    "\<And>b. rd_buffer u b \<Longrightarrow> b_dirt (bufs u ! b) \<Longrightarrow> rd_disk v (b_blocknr (bufs u ! b)) = b_data (bufs u ! b)"
    "\<And>n. (\<nexists>b. rd_buffer u b \<and> b_dirt (bufs u ! b) \<and> b_blocknr (bufs u ! b) = n) \<Longrightarrow> rd_disk v n = rd_disk u n"
    using sync_buffers_rd [OF f(1)] by metis
  have data: "b_data (bufs v ! b) = flushed s b [0..<NR_INODE] (b_data (bufs s ! b))" for b
    by (simp add: v(3) ub rd.cleaned_def)
  have dirt: "b_dirt (bufs u ! b) \<longleftrightarrow> (\<exists>i<NR_INODE. holds s b i)" if "rd_buffer s b" for b
    using that by (simp add: ub t(4))
  have "rd_disk v (b_blocknr (bufs s ! b)) = b_data (bufs v ! b)" if w: "written s b" for b
  proof (cases "\<exists>i<NR_INODE. holds s b i")
    case True
    then have "rd_buffer u b" "b_dirt (bufs u ! b)" using w dirt by (simp_all add: written_def f(2) rb)
    from v(4) [OF this] show ?thesis by (simp add: data ub fields)
  next
    case False
    then have b: "rd_buffer s b" "b_dirt (bufs s ! b)" using w by (auto simp: written_def)
    have "\<not> (rd_buffer u e \<and> b_dirt (bufs u ! e) \<and> b_blocknr (bufs u ! e) = b_blocknr (bufs s ! b))" for e
    proof
      assume e: "rd_buffer u e \<and> b_dirt (bufs u ! e) \<and> b_blocknr (bufs u ! e) = b_blocknr (bufs s ! b)"
      then have "rd_buffer s e" "b_blocknr (bufs s ! e) = b_blocknr (bufs s ! b)" by (simp_all add: f(2) rb ub fields)
      then have "e = b" using b(1) c unfolding rd_cached_def rd.consistent_def by blast
      then show False using e False dirt [OF b(1)] by blast
    qed
    then have "rd_disk v (b_blocknr (bufs s ! b)) = b_data (bufs s ! b)"
      using v(5) t(5) [OF b] f(3) by auto
    moreover have "flushed s b [0..<NR_INODE] (b_data (bufs s ! b)) = b_data (bufs s ! b)"
      using False by (intro nth_equalityI nth_flushed) auto
    ultimately show ?thesis by (simp add: data)
  qed
  moreover have "rd_disk v n = rd_disk s n" if n: "\<nexists>b. written s b \<and> b_blocknr (bufs s ! b) = n" for n
  proof -
    have "\<not> (rd_buffer u b \<and> b_dirt (bufs u ! b) \<and> b_blocknr (bufs u ! b) = n)" for b
    proof
      assume e: "rd_buffer u b \<and> b_dirt (bufs u ! b) \<and> b_blocknr (bufs u ! b) = n"
      then have "rd_buffer s b" "b_blocknr (bufs s ! b) = n" by (simp_all add: f(2) rb ub fields)
      then show False using n e dirt unfolding written_def by blast
    qed
    then have "rd_disk v n = rd_disk u n" by (intro v(5)) blast
    moreover have "rd_disk t n = rd_disk s n" using n by (intro t(6)) (auto simp: written_def)
    ultimately show ?thesis by (simp add: f(3))
  qed
  moreover have "\<not> must_write (inode_table v ! i)" if "i < NR_INODE" for i
    using that flushes_home(2) [OF u(2), of i] v(2) by (simp add: same_buffers_def)
  moreover have "\<not> b_dirt (bufs v ! b)" if "rd_buffer s b" for b
    using that by (simp add: v(3) f(2) rb)
  moreover have "sync_dev RAM_DEV s = Ret (0, v)"
    by (simp add: sync_dev_si_def t(1) u(1) v(1))
  ultimately show ?thesis using data by blast
qed

text \<open>C29: \<open>sync_dev\<close> on the RAM disk, when the block of every dirty inode is in the cache, returns 0 and
  leaves no dirty inode and no dirty buffer of the device. Each block that was dirty or holds a dirty
  inode is on the disk as the cache has it; in it stand the fields of the inodes; all other bytes of the
  blocks and all other blocks of the disk are as before.\<close>

theorem sync_dev_writes_back:
  assumes c: "rd_cached s" and len: "length (inode_table s) = NR_INODE"
    and i: "\<forall>i<NR_INODE. \<not> i_lock (inode_table s ! i) \<and> (must_write (inode_table s ! i) \<longrightarrow>
      flushable s i \<and> storable (inode_table s ! i) \<and> i_num (inode_table s ! i) < 2 ^ 16)"
    and once: "\<forall>i<NR_INODE. \<forall>j<NR_INODE. i \<noteq> j \<longrightarrow> must_write (inode_table s ! i) \<longrightarrow> must_write (inode_table s ! j) \<longrightarrow>
      i_dev (inode_table s ! i) \<noteq> i_dev (inode_table s ! j) \<or> i_num (inode_table s ! i) \<noteq> i_num (inode_table s ! j)"
  shows "\<exists>t. sync_dev RAM_DEV s = Ret (0, t)
    \<and> (\<forall>i<NR_INODE. \<not> must_write (inode_table t ! i))
    \<and> (\<forall>b. rd_buffer s b \<longrightarrow> \<not> b_dirt (bufs t ! b))
    \<and> (\<forall>b. written s b \<longrightarrow> rd_disk t (b_blocknr (bufs s ! b)) = b_data (bufs t ! b))
    \<and> (\<forall>n. (\<nexists>b. written s b \<and> b_blocknr (bufs s ! b) = n) \<longrightarrow> rd_disk t n = rd_disk s n)
    \<and> (\<forall>i<NR_INODE. \<forall>b m. holds s b i \<longrightarrow>
        get_d_inode (b_data (bufs t ! b)) (inode_offset (i_num (inode_table s ! i))) m = disk_fields (inode_table s ! i) m)
    \<and> (\<forall>b j. (\<nexists>i. i < NR_INODE \<and> holds s b i \<and> covers s i j) \<longrightarrow> b_data (bufs t ! b) ! j = b_data (bufs s ! b) ! j)"
proof -
  obtain t where t: "sync_dev RAM_DEV s = Ret (0, t)" "\<forall>i<NR_INODE. \<not> must_write (inode_table t ! i)"
    "\<And>b. b_data (bufs t ! b) = flushed s b [0..<NR_INODE] (b_data (bufs s ! b))"
    "\<forall>b. rd_buffer s b \<longrightarrow> \<not> b_dirt (bufs t ! b)"
    "\<forall>b. written s b \<longrightarrow> rd_disk t (b_blocknr (bufs s ! b)) = b_data (bufs t ! b)"
    "\<forall>n. (\<nexists>b. written s b \<and> b_blocknr (bufs s ! b) = n) \<longrightarrow> rd_disk t n = rd_disk s n"
    using sync_dev_steps [OF c len] i by blast
  have "get_d_inode (b_data (bufs t ! b)) (inode_offset (i_num (inode_table s ! k))) m = disk_fields (inode_table s ! k) m"
    if k: "k < NR_INODE" "holds s b k" for k b m
  proof -
    have mk: "must_write (inode_table s ! k)" "home s k = Some b" using k(2) by (simp_all add: holds_def)
    then have ok: "storable (inode_table s ! k)" "i_num (inode_table s ! k) < 2 ^ 16" "length (b_data (bufs s ! b)) = 1024"
      using i k(1) by (auto simp: flushable_def)
    have "inode_offset (i_num (inode_table s ! j)) \<noteq> inode_offset (i_num (inode_table s ! k))"
      if "j \<in> set [0..<NR_INODE]" "j \<noteq> k" "holds s b j" for j
      using places_differ [of s j b k] that k(1) mk ok(2) i once by (auto simp: holds_def)
    then show ?thesis
      unfolding t(3) using k ok by (intro flushed_inode) auto
  qed
  moreover have "b_data (bufs t ! b) ! j = b_data (bufs s ! b) ! j"
    if "\<nexists>i. i < NR_INODE \<and> holds s b i \<and> covers s i j" for b j
    unfolding t(3) using that by (intro nth_flushed) auto
  ultimately show ?thesis using t(1,2,4-6) by blast
qed

text \<open>A dirty block 3, and a dirty inode 7, whose block is 4.\<close>

definition sync_example :: kernel where
  "sync_example = rd_example\<lparr>
     bufs := [bufs rd_example ! 0, blank_buffer\<lparr>b_dev := RAM_DEV, b_blocknr := 4, b_uptodate := True\<rparr>],
     hash_table := (replicate NR_HASH None)[261 := Some 1],
     super_blocks := (super_blocks blank_kernel)[0 := blank_super\<lparr>s_dev := RAM_DEV, s_imap_blocks := 1, s_zmap_blocks := 1\<rparr>],
     inode_table := (replicate NR_INODE blank_inode)[2 := blank_inode\<lparr>i_dev := RAM_DEV, i_num := 7, i_dirt := True,
       i_mode := 0x81a4, i_size := 5000, i_nlinks := 2, i_zone := [11, 12, 13, 14, 15, 0, 0, 0, 0]\<rparr>]\<rparr>"

lemma sync_dev_writes_back_witness:
  "\<exists>t. sync_dev RAM_DEV sync_example = Ret (0, t) \<and> (\<forall>j<1024. rd_disk t 3 ! j = 7)
    \<and> i_size (get_d_inode (rd_disk t 4) 192 blank_inode) = 5000 \<and> \<not> must_write (inode_table t ! 2)"
proof -
  let ?s = sync_example and ?n = "inode_table sync_example ! 2"
  have n: "?n = blank_inode\<lparr>i_dev := RAM_DEV, i_num := 7, i_dirt := True,
       i_mode := 0x81a4, i_size := 5000, i_nlinks := 2, i_zone := [11, 12, 13, 14, 15, 0, 0, 0, 0]\<rparr>"
    "\<And>i. i < NR_INODE \<Longrightarrow> i \<noteq> 2 \<Longrightarrow> inode_table ?s ! i = blank_inode" "length (inode_table ?s) = NR_INODE"
    "bufs ?s = [blank_buffer\<lparr>b_dev := RAM_DEV, b_blocknr := 3, b_data := replicate 1024 7, b_uptodate := True,
      b_dirt := True\<rparr>, blank_buffer\<lparr>b_dev := RAM_DEV, b_blocknr := 4, b_uptodate := True\<rparr>]"
    "super_blocks ?s ! 0 = blank_super\<lparr>s_dev := RAM_DEV, s_imap_blocks := 1, s_zmap_blocks := 1\<rparr>"
    by (simp_all add: sync_example_def rd_example_def Let_def rd_init_def blank_kernel_def NR_INODE_def NR_SUPER_def)
  have rd: "rd_ready ?s" "rd_length ?s = 0x2000"
    using rd_example_ok(1) by (simp_all add: rd_ready_def sync_example_def, simp add: rd_example_def Let_def rd_init_def)
  have b: "rd_buffer ?s 0" "rd_buffer ?s 1" "length (bufs ?s) = 2"
    by (simp_all add: rd_buffer_def n rd blank_buffer_def)
  then have all: "b = 0 \<or> b = 1" if "b < length (bufs ?s)" for b using that by auto
  have two: "rd_buffer ?s b \<Longrightarrow> b = 0 \<or> b = 1" for b using all by (simp add: rd_buffer_def)
  have "rd.consistent ?s" unfolding rd.consistent_def by (auto simp: n(4) blank_buffer_def dest!: two)
  then have c: "rd_cached ?s"
    using rd(1) b all unfolding rd_cached_def by blast
  have h: "hash_table ?s ! 261 = Some 1" by (simp add: sync_example_def NR_HASH_def)
  have "hashfn RAM_DEV 4 = 261" by code_simp
  then have f: "find_buffer RAM_DEV 4 ?s = Some 1"
    by (simp add: find_buffer_def h n(4) blank_buffer_def)
  have g: "get_super RAM_DEV ?s = Ret (Some 0)"
    by (simp add: get_super_def NR_SUPER_def n(5) wait_on_super_def numeral_eq_Suc blank_super_def RAM_DEV_def)
  have w: "must_write (inode_table ?s ! i) \<longleftrightarrow> i = 2" if "i < NR_INODE" for i
    using that n(1) n(2) [of i] by (cases "i = 2") (simp_all add: must_write_def blank_inode_def RAM_DEV_def)
  have o: "inode_offset 7 = 192" "inode_block (super_blocks ?s ! 0) 7 = 4"
    by (simp_all add: inode_offset_def inode_index_def INODES_PER_BLOCK_def inode_block_def n(5))
  have home: "home ?s 2 = Some 1" unfolding home_def n(1) by (simp add: g o f)
  have i: "\<forall>i<NR_INODE. \<not> i_lock (inode_table ?s ! i) \<and> (must_write (inode_table ?s ! i) \<longrightarrow>
      flushable ?s i \<and> storable (inode_table ?s ! i) \<and> i_num (inode_table ?s ! i) < 2 ^ 16)"
  proof (intro allI impI)
    fix i :: nat assume i: "i < NR_INODE"
    show "\<not> i_lock (inode_table ?s ! i) \<and> (must_write (inode_table ?s ! i) \<longrightarrow>
      flushable ?s i \<and> storable (inode_table ?s ! i) \<and> i_num (inode_table ?s ! i) < 2 ^ 16)"
    proof (cases "i = 2")
      case True
      then show ?thesis using home by (simp add: flushable_def n(1,4) blank_inode_def blank_buffer_def storable_def)
    qed (use i n(2) [of i] w [of i] in \<open>simp add: blank_inode_def must_write_def\<close>)
  qed
  have once: "\<forall>i<NR_INODE. \<forall>j<NR_INODE. i \<noteq> j \<longrightarrow> must_write (inode_table ?s ! i) \<longrightarrow> must_write (inode_table ?s ! j) \<longrightarrow>
      i_dev (inode_table ?s ! i) \<noteq> i_dev (inode_table ?s ! j) \<or> i_num (inode_table ?s ! i) \<noteq> i_num (inode_table ?s ! j)"
    by (simp add: w)
  have two: "2 < NR_INODE" by (simp add: NR_INODE_def)
  have holds: "holds ?s b i \<longleftrightarrow> b = 1 \<and> i = 2" if "i < NR_INODE" for b i
    using that w home by (auto simp: holds_def)
  obtain t where t: "sync_dev RAM_DEV ?s = Ret (0, t)" "\<forall>i<NR_INODE. \<not> must_write (inode_table t ! i)"
    "\<forall>b. written ?s b \<longrightarrow> rd_disk t (b_blocknr (bufs ?s ! b)) = b_data (bufs t ! b)"
    "\<forall>i<NR_INODE. \<forall>b m. holds ?s b i \<longrightarrow>
        get_d_inode (b_data (bufs t ! b)) (inode_offset (i_num (inode_table ?s ! i))) m = disk_fields (inode_table ?s ! i) m"
    "\<forall>b j. (\<nexists>i. i < NR_INODE \<and> holds ?s b i \<and> covers ?s i j) \<longrightarrow> b_data (bufs t ! b) ! j = b_data (bufs ?s ! b) ! j"
    using sync_dev_writes_back [OF c n(3) i once] by blast
  have wr: "written ?s 0" "written ?s 1"
    using b two holds [OF two] by (auto simp: written_def n(4))
  have "rd_disk t 4 = b_data (bufs t ! 1)" "rd_disk t 3 = b_data (bufs t ! 0)"
    using t(3) wr by (auto simp: n(4))
  moreover have "get_d_inode (b_data (bufs t ! 1)) 192 blank_inode = disk_fields ?n blank_inode"
    using t(4) [rule_format, OF two, of 1 blank_inode] holds [OF two] o(1) by (simp add: n(1))
  moreover have "b_data (bufs t ! 0) ! j = 7" if "j < 1024" for j
  proof -
    have "\<nexists>i. i < NR_INODE \<and> holds ?s 0 i \<and> covers ?s i j" using holds [of _ 0] by auto
    then have "b_data (bufs t ! 0) ! j = b_data (bufs ?s ! 0) ! j" using t(5) by blast
    then show ?thesis using that by (simp add: n(4))
  qed
  ultimately show ?thesis using t(1,2) two by (auto simp: disk_fields_def n(1))
qed

end
