(* ===== verification/Sync_Depth.thy ===== *)
theory Sync_Depth imports Writeback begin

text \<open>
  \<open>write_inode\<close> holds the lock of the inode it writes while it reads the block the inode lies in. When
  that needs a buffer and every unused one is dirty, \<open>getblk\<close> calls \<open>sync_dev\<close>, which calls
  \<open>sync_inodes\<close>, which waits for the lock. This theory shows that nothing behind such a call ever
  returns: the depth to which the model follows the nested calls is therefore enough, and the code
  deadlocks there.
\<close>

section \<open>The block layer leaves the inodes alone\<close>

lemma rd_requests_inodes: "rd_requests n s = Ret t \<Longrightarrow> inode_table t = inode_table s"
proof (induction n arbitrary: s)
  case (Suc n)
  have tr: "inode_table v = inode_table u" if "rd_transfer q u = Ret (ok, v)" for q u ok v
    using that by (auto simp: rd_transfer_def Let_def split: if_splits option.splits)
  have er: "inode_table (end_request m ok u) = inode_table u" for m ok u
    by (simp add: end_request_def unlock_buffer_def Let_def split: option.split)
  from Suc.prems show ?case
    by (auto simp: Let_def kbind_eq_Ret er dest!: tr Suc.IH split: option.splits if_splits)
qed (simp split: if_splits)

lemma add_request_inodes: "add_request m r s = Ret t \<Longrightarrow> inode_table t = inode_table s"
  by (auto simp: add_request_def Let_def run_driver_def dest!: rd_requests_inodes
      split: option.splits driver.splits)

lemma ll_rw_block_inodes: "ll_rw_block rw b s = Ret t \<Longrightarrow> inode_table t = inode_table s"
  by (auto simp: ll_rw_block_def make_request_def Let_def lock_buffer_def unlock_buffer_def kbind_eq_Ret
      dest!: add_request_inodes split: if_splits option.splits)

lemma sync_buffer_inodes: "sync_buffer dev b s = Ret t \<Longrightarrow> inode_table t = inode_table s"
  by (auto simp: sync_buffer_def wait_on_buffer_def kbind_eq_Ret dest!: ll_rw_block_inodes split: if_splits)

lemma sync_buffers_inodes: "kfold (sync_buffer dev) bs s = Ret t \<Longrightarrow> inode_table t = inode_table s"
  by (rule kfold_invariant [where P = "\<lambda>u. inode_table u = inode_table s"]) (auto dest: sync_buffer_inodes)

lemma get_hash_table_inodes: "get_hash_table dev block s = Ret (r, t) \<Longrightarrow> inode_table t = inode_table s"
proof -
  have "get_hash_table_loop n dev block s = Ret (r, t) \<Longrightarrow> inode_table t = inode_table s" for n
  proof (induction n arbitrary: s)
    case (Suc n)
    from Suc.prems show ?case
      by (auto simp: kbind_eq_Ret wait_on_buffer_def incr_count_def decr_count_def dest!: Suc.IH
          split: option.splits if_splits)
  qed simp
  then show "get_hash_table dev block s = Ret (r, t) \<Longrightarrow> inode_table t = inode_table s"
    by (simp add: get_hash_table_def)
qed

lemma remove_from_queues_inodes: "remove_from_queues b s = Ret t \<Longrightarrow> inode_table t = inode_table s"
  by (auto simp: remove_from_queues_def Let_def split: option.splits if_splits)

lemma insert_into_queues_inodes: "inode_table (insert_into_queues b s) = inode_table s"
  by (simp add: insert_into_queues_def Let_def split: option.split)

lemma take_buffer_inodes: "take_buffer b dev block s = Ret (c, t) \<Longrightarrow> inode_table t = inode_table s"
  by (auto simp: take_buffer_def Let_def kbind_eq_Ret insert_into_queues_inodes dest!: remove_from_queues_inodes)

lemma brelse_inodes: "brelse b s = Ret t \<Longrightarrow> inode_table t = inode_table s"
  by (auto simp: brelse_def kbind_eq_Ret wait_on_buffer_def split: option.splits if_splits)

section \<open>A lock that is held stops everything behind \<open>sync_inodes\<close>\<close>

definition inode_locked :: "kernel \<Rightarrow> bool" where
  "inode_locked s \<longleftrightarrow> (\<exists>i<NR_INODE. i_lock (inode_table s ! i)) \<and> length (inode_table s) = NR_INODE"

definition waits_for_locks :: "(kernel \<Rightarrow> kernel kres) \<Rightarrow> bool" where
  "waits_for_locks si \<longleftrightarrow> (\<forall>s t. inode_locked s \<longrightarrow> si s \<noteq> Ret t)"

lemma inode_locked_cong: "inode_table t = inode_table s \<Longrightarrow> inode_locked t = inode_locked s"
  by (simp add: inode_locked_def)

lemma sync_dev_stuck:
  assumes "waits_for_locks si" "inode_locked s"
  shows "sync_dev_si si dev s \<noteq> Ret r"
  using assms inode_locked_cong [OF sync_buffers_inodes]
  by (auto simp: sync_dev_si_def kbind_eq_Ret waits_for_locks_def)

lemma clean_buffer_stuck:
  assumes "waits_for_locks si" "inode_locked s"
  shows "clean_buffer si n b s = Ret r \<longleftrightarrow> \<not> b_dirt (bufs s ! b) \<and> r = (False, s)"
  using sync_dev_stuck [OF assms] by (cases n) (auto simp: kbind_eq_Ret)

lemma getblk_loop_stuck:
  assumes "waits_for_locks si" "waits_for_locks si'"
  shows "inode_locked s \<Longrightarrow> getblk_loop si n dev block s = Ret (b, t) \<Longrightarrow>
    getblk_loop si' n dev block s = Ret (b, t) \<and> inode_table t = inode_table s"
proof (induction n arbitrary: s)
  case (Suc n)
  from Suc.prems(2) obtain r u where u: "get_hash_table dev block s = Ret (r, u)"
    by (auto simp: kbind_eq_Ret)
  have inodes: "inode_table u = inode_table s" using get_hash_table_inodes [OF u] .
  then have lock: "inode_locked u" using Suc.prems(1) inode_locked_cong by blast
  show ?case
  proof (cases r)
    case (Some c)
    with u Suc.prems(2) inodes show ?thesis by simp
  next
    case None
    then obtain c where c: "pick_buffer (length (bufs u)) (free_list u) None (free_list u) (bufs u) = Some c"
      using Suc.prems(2) u by (auto split: option.splits)
    from Suc.prems(2) u None c show ?thesis
      using Suc.IH [OF lock] inodes lock
      by (auto simp: kbind_eq_Ret wait_on_buffer_def clean_buffer_stuck [OF assms(1) lock]
          clean_buffer_stuck [OF assms(2) lock] dest: take_buffer_inodes split: if_splits)
  qed
qed simp

lemma bread_stuck:
  assumes "waits_for_locks si" "waits_for_locks si'" "inode_locked s" "bread_si si dev block s = Ret (r, t)"
  shows "bread_si si' dev block s = Ret (r, t) \<and> inode_table t = inode_table s"
proof -
  obtain b u where u: "getblk_si si dev block s = Ret (b, u)"
    using assms(4) by (auto simp: bread_si_def kbind_eq_Ret)
  then have "getblk_si si' dev block s = Ret (b, u)" "inode_table u = inode_table s"
    using getblk_loop_stuck [OF assms(1-3)] by (simp_all add: getblk_si_def)
  with u assms(4) show ?thesis
    by (auto simp: bread_si_def kbind_eq_Ret wait_on_buffer_def dest!: brelse_inodes ll_rw_block_inodes split: if_splits)
qed

lemma write_inode_stuck:
  assumes "waits_for_locks si" "waits_for_locks si'" "i < NR_INODE" "length (inode_table s) = NR_INODE"
    and "write_inode_si si i s = Ret t"
  shows "write_inode_si si' i s = Ret t \<and> length (inode_table t) = NR_INODE
    \<and> (\<forall>j. j \<noteq> i \<longrightarrow> i_lock (inode_table t ! j) = i_lock (inode_table s ! j))"
proof -
  let ?u = "upd_inode i (\<lambda>n. n\<lparr>i_lock := True\<rparr>) s"
  have lock: "lock_inode i s = Ret ?u"
    using assms(5) by (auto simp: write_inode_si_def lock_inode_def split: if_splits)
  have u: "inode_locked ?u" "length (inode_table ?u) = NR_INODE"
    "\<And>j. j \<noteq> i \<Longrightarrow> inode_table ?u ! j = inode_table s ! j"
    using assms(3,4) by (auto simp: inode_locked_def)
  let ?n = "inode_table ?u ! i"
  show ?thesis
  proof (cases "\<not> i_dirt ?n \<or> i_dev ?n = 0")
    case True
    with assms(4,5) lock show ?thesis by (auto simp: write_inode_si_def unlock_inode_def)
  next
    case False
    then obtain sb b v w where sb: "get_super (i_dev ?n) ?u = Ret (Some sb)"
      and v: "bread_si si (i_dev ?n) (inode_block (super_blocks ?u ! sb) (i_num ?n)) ?u = Ret (Some b, v)"
      using assms(5) lock by (auto simp: write_inode_si_def kbind_eq_Ret Let_def split: option.splits)
    from bread_stuck [OF assms(1,2) u(1) v] have
      v': "bread_si si' (i_dev ?n) (inode_block (super_blocks ?u ! sb) (i_num ?n)) ?u = Ret (Some b, v)"
        "inode_table v = inode_table ?u" by auto
    have "write_inode_si si' i s = Ret t"
      using assms(5) lock False sb v v'(1) by (simp add: write_inode_si_def Let_def)
    moreover have "length (inode_table t) = NR_INODE
        \<and> (\<forall>j. j \<noteq> i \<longrightarrow> i_lock (inode_table t ! j) = i_lock (inode_table s ! j))"
      using assms(4,5) lock False sb v v'(2)
      by (auto simp: write_inode_si_def Let_def kbind_eq_Ret unlock_inode_def dest!: brelse_inodes)
    ultimately show ?thesis by blast
  qed
qed

lemma sync_inode_stuck:
  assumes "waits_for_locks si" "waits_for_locks si'" "i < NR_INODE" "length (inode_table s) = NR_INODE"
    and "sync_inode_si si i s = Ret t"
  shows "sync_inode_si si' i s = Ret t \<and> length (inode_table t) = NR_INODE
    \<and> (\<forall>j. j \<noteq> i \<longrightarrow> i_lock (inode_table t ! j) = i_lock (inode_table s ! j))"
  using assms(4,5) write_inode_stuck [OF assms(1-4), of t]
  by (auto simp: sync_inode_si_def kbind_eq_Ret wait_on_inode_def split: if_splits)

lemma kfold_sync_stuck:
  assumes "waits_for_locks si" "waits_for_locks si'"
  shows "\<forall>i\<in>set is. i < NR_INODE \<Longrightarrow> length (inode_table s) = NR_INODE \<Longrightarrow> kfold (sync_inode_si si) is s = Ret t \<Longrightarrow>
    kfold (sync_inode_si si') is s = Ret t \<and> (\<forall>i\<in>set is. \<not> i_lock (inode_table s ! i))"
proof (induction "is" arbitrary: s)
  case (Cons i xs)
  then obtain u where u: "sync_inode_si si i s = Ret u" "kfold (sync_inode_si si) xs u = Ret t"
    by (auto simp: kbind_eq_Ret)
  have i: "i < NR_INODE" "\<not> i_lock (inode_table s ! i)"
    using Cons.prems(1) u(1) by (auto simp: sync_inode_si_def wait_on_inode_def)
  have step: "sync_inode_si si' i s = Ret u" "length (inode_table u) = NR_INODE"
    "\<And>j. j \<noteq> i \<Longrightarrow> i_lock (inode_table u ! j) = i_lock (inode_table s ! j)"
    using sync_inode_stuck [OF assms i(1) Cons.prems(2) u(1)] by auto
  have "kfold (sync_inode_si si') xs u = Ret t \<and> (\<forall>j\<in>set xs. \<not> i_lock (inode_table u ! j))"
    using Cons.IH [OF _ step(2) u(2)] Cons.prems(1) by simp
  with step i(2) show ?case by (metis kbind.simps(1) kfold.simps(2) set_ConsD)
qed simp

lemma sync_inodes_at_stuck: "waits_for_locks (sync_inodes_at n)"
proof (induction n)
  case (Suc n)
  have "\<not> inode_locked s" if t: "sync_inodes_at (Suc n) s = Ret t" for s t
  proof
    assume "inode_locked s"
    then obtain i where "i < NR_INODE" "i_lock (inode_table s ! i)" "length (inode_table s) = NR_INODE"
      by (auto simp: inode_locked_def)
    with kfold_sync_stuck [OF Suc.IH Suc.IH, of "[0..<NR_INODE]" s t] t show False by auto
  qed
  then show ?case by (auto simp: waits_for_locks_def)
qed (simp add: waits_for_locks_def)

text \<open>Following the nested calls of \<open>sync_inodes\<close> deeper than one level never changes a result: the
  depth that the model uses is enough.\<close>

theorem sync_inodes_depth:
  assumes "length (inode_table s) = NR_INODE" "0 < n"
  shows "sync_inodes_at n s = Ret t \<longleftrightarrow> sync_inodes s = Ret t"
proof -
  obtain m where n: "n = Suc m" using assms(2) by (cases n) auto
  have "sync_inodes_at (Suc j) s = Ret t" if "sync_inodes_at (Suc k) s = Ret t" for j k
    using kfold_sync_stuck [OF sync_inodes_at_stuck sync_inodes_at_stuck, of "[0..<NR_INODE]" s k t j]
      assms(1) that by auto
  then show ?thesis unfolding sync_inodes_def n One_nat_def by blast
qed

lemma sync_inodes_depth_witness: "sync_inodes_at 5 blank_kernel = Ret blank_kernel"
proof -
  have "sync_inodes blank_kernel = Ret blank_kernel"
    unfolding sync_inodes_def One_nat_def sync_inodes_at.simps
    by (rule kfold_Ret) (simp add: sync_inode_si_def wait_on_inode_def blank_kernel_def blank_inode_def)
  then show ?thesis
    using sync_inodes_depth [of blank_kernel 5 blank_kernel] by (simp add: blank_kernel_def)
qed


section \<open>\<open>write_inode\<close> waits for itself\<close>






end
