(* ===== verification/Bit_Search.thy ===== *)
theory Bit_Search imports Bitmap begin

unbundle bit_operations_syntax

text \<open>
  The bitmap operations of \<open>fs/bitmap.c\<close> against a set of numbers: \<open>set_bit\<close> and \<open>clear_bit\<close> insert and
  remove, and the word-wise search \<open>find_first_zero\<close> is the search for the first number that is
  missing. The contract of such a map is the locale \<open>bitmap\<close>; what the block and inode allocators do
  with it is proved there.
\<close>

section \<open>The contract of a bitmap\<close>

locale bitmap =
  fixes test :: "nat \<Rightarrow> 'b \<Rightarrow> bool"
    and setb :: "nat \<Rightarrow> 'b \<Rightarrow> bool \<times> 'b"
    and clearb :: "nat \<Rightarrow> 'b \<Rightarrow> bool \<times> 'b"
    and first_zero :: "'b \<Rightarrow> nat"
    and bits :: nat
    and valid :: "'b \<Rightarrow> bool"
  assumes setb: "valid d \<Longrightarrow> i < bits \<Longrightarrow> fst (setb i d) = test i d \<and> valid (snd (setb i d))
      \<and> (\<forall>j<bits. test j (snd (setb i d)) \<longleftrightarrow> j = i \<or> test j d)"
    and clearb: "valid d \<Longrightarrow> i < bits \<Longrightarrow> fst (clearb i d) = (\<not> test i d) \<and> valid (snd (clearb i d))
      \<and> (\<forall>j<bits. test j (snd (clearb i d)) \<longleftrightarrow> j \<noteq> i \<and> test j d)"
    and first_zero: "valid d \<Longrightarrow> first_zero d = length (takeWhile (\<lambda>i. test i d) [0..<bits])"
    and extensional: "valid d \<Longrightarrow> valid e \<Longrightarrow> \<forall>j<bits. test j d = test j e \<Longrightarrow> d = e"
begin

definition used :: "'b \<Rightarrow> nat set" where
  "used d = {i. i < bits \<and> test i d}"

lemma first_zero_props:
  assumes "valid d"
  shows "first_zero d \<le> bits" "i < first_zero d \<Longrightarrow> i \<in> used d" "first_zero d < bits \<Longrightarrow> first_zero d \<notin> used d"
proof -
  let ?n = "length (takeWhile (\<lambda>i. test i d) [0..<bits])"
  have le: "?n \<le> bits"
    using length_takeWhile_le [of "\<lambda>i. test i d" "[0..<bits]"] by simp
  then show "first_zero d \<le> bits" by (simp add: first_zero [OF assms])
  show "i < first_zero d \<Longrightarrow> i \<in> used d"
    using le nth_mem [of i "takeWhile (\<lambda>i. test i d) [0..<bits]"] takeWhile_nth [of i "\<lambda>i. test i d" "[0..<bits]"]
    by (auto simp: first_zero [OF assms] used_def dest: set_takeWhileD)
  show "first_zero d < bits \<Longrightarrow> first_zero d \<notin> used d"
    using nth_length_takeWhile [of "\<lambda>i. test i d" "[0..<bits]"]
    by (simp add: first_zero [OF assms] used_def)
qed

text \<open>A full map is reported as such, and a number found was not in use: the panics of the callers on
  an already set bit cannot happen.\<close>

lemma full_iff: "valid d \<Longrightarrow> first_zero d = bits \<longleftrightarrow> used d = {..<bits}"
proof -
  assume d: "valid d"
  note p = first_zero_props [OF d]
  have "used d = {..<bits}" if "first_zero d = bits"
    using p(2) that by (auto simp: used_def)
  moreover have "first_zero d = bits" if "used d = {..<bits}"
    using p(1,3) that by (cases "first_zero d < bits") auto
  ultimately show ?thesis by blast
qed

lemma allocate:
  assumes "valid d" "first_zero d < bits"
  shows "fst (setb (first_zero d) d) = False" "used (snd (setb (first_zero d) d)) = insert (first_zero d) (used d)"
  using setb [OF assms] first_zero_props(3) [OF assms] assms(2) by (auto simp: used_def)

lemma release:
  assumes "valid d" "i \<in> used d"
  shows "fst (clearb i d) = False" "used (snd (clearb i d)) = used d - {i}"
  using clearb [of d i] assms by (auto simp: used_def)

lemma allocate_release:
  assumes "valid d" "first_zero d < bits"
  shows "snd (clearb (first_zero d) (snd (setb (first_zero d) d))) = d"
proof (rule extensional)
  let ?i = "first_zero d"
  have i: "valid (snd (setb ?i d))" "\<And>j. j < bits \<Longrightarrow> test j (snd (setb ?i d)) \<longleftrightarrow> j = ?i \<or> test j d"
    using setb [OF assms] by auto
  have "\<not> test ?i d" using first_zero_props(3) [OF assms] assms(2) by (simp add: used_def)
  then show "\<forall>j<bits. test j (snd (clearb ?i (snd (setb ?i d)))) = test j d"
    using clearb [OF i(1) assms(2)] i(2) by auto
  show "valid (snd (clearb ?i (snd (setb ?i d))))" using clearb [OF i(1) assms(2)] by simp
qed (fact assms(1))

end

section \<open>Bytes and words\<close>

lemma bit_add_shifted:
  fixes a b :: nat assumes "a < 2 ^ k"
  shows "bit (a + 2 ^ k * b) i \<longleftrightarrow> (if i < k then bit a i else bit b (i - k))"
proof (cases "i < k")
  case True
  then obtain m where k: "k = i + Suc m" by (metis add_Suc_right less_iff_Suc_add)
  have "(a + 2 ^ k * b) div 2 ^ i = (a + 2 ^ i * (2 ^ Suc m * b)) div 2 ^ i"
    unfolding k power_add mult.assoc ..
  also have "\<dots> = a div 2 ^ i + 2 ^ Suc m * b" by simp
  finally show ?thesis using True by (simp add: bit_iff_odd)
next
  case False
  then have "(a + 2 ^ k * b) div 2 ^ i = b div 2 ^ (i - k)"
  proof -
    obtain m where i: "i = k + m" using False by (metis le_iff_add linorder_not_less)
    have "(a + 2 ^ k * b) div 2 ^ i = (a + 2 ^ k * b) div 2 ^ k div 2 ^ m"
      by (simp only: i power_add div_mult2_eq)
    also have "(a + 2 ^ k * b) div 2 ^ k = b" using assms by simp
    finally show ?thesis by (simp add: i)
  qed
  then show ?thesis using False by (simp add: bit_iff_odd)
qed

lemma bit_get32:
  assumes "i < 32"
  shows "bit (of_nat (get32 d k) :: u32) i \<longleftrightarrow> bit (d ! (k + i div 8)) (i mod 8)"
proof -
  have small: "unat (x :: u8) < 2 ^ 8" for x using unsigned_less [of x, where ?'a = nat] by simp
  have eq: "get32 d k = unat (d ! k) + 2 ^ 8 * (unat (d ! (k + 1)) + 2 ^ 8 * (unat (d ! (k + 2)) + 2 ^ 8 * unat (d ! (k + 3))))"
    by (simp add: get32_def get16_def algebra_simps numeral_3_eq_3)
  have "bit (get32 d k) i \<longleftrightarrow> bit (d ! (k + i div 8)) (i mod 8)"
    unfolding eq bit_add_shifted [OF small]
  proof -
    consider "i < 8" | "8 \<le> i" "i < 16" | "16 \<le> i" "i < 24" | "24 \<le> i" using assms by linarith
    then show "(if i < 8 then bit (unat (d ! k)) i
      else if i - 8 < 8 then bit (unat (d ! (k + 1))) (i - 8)
      else if i - 8 - 8 < 8 then bit (unat (d ! (k + 2))) (i - 8 - 8)
      else bit (unat (d ! (k + 3))) (i - 8 - 8 - 8)) \<longleftrightarrow> bit (d ! (k + i div 8)) (i mod 8)"
    proof cases
      case 1
      then show ?thesis by (simp add: bit_unsigned_iff)
    next
      case 2
      then have "i div 8 = 1" "i mod 8 = i - 8" "i - 8 < 8" by (auto simp: div_nat_eqI mod_nat_eqI)
      with 2 show ?thesis by (simp add: bit_unsigned_iff)
    next
      case 3
      then have "i div 8 = 2" "i mod 8 = i - 8 - 8" "i - 8 - 8 < 8" "\<not> i - 8 < 8" by (simp_all add: div_nat_eqI mod_nat_eqI)
      with 3 show ?thesis by (simp add: bit_unsigned_iff)
    next
      case 4
      then have "i div 8 = 3" "i mod 8 = i - 8 - 8 - 8" "\<not> i - 8 - 8 < 8" "\<not> i - 8 < 8"
        using assms by (simp_all add: div_nat_eqI mod_nat_eqI)
      with 4 show ?thesis by (simp add: bit_unsigned_iff)
    qed
  qed
  then show ?thesis using assms by (simp add: bit_of_nat_iff)
qed

lemma word_bits: "i < 32 \<Longrightarrow> 32 dvd p \<Longrightarrow> bit (of_nat (get32 d (p div 8)) :: u32) i \<longleftrightarrow> test_bit (p + i) d"
proof (elim dvdE)
  fix m assume "i < 32" "p = 32 * m"
  moreover from this have "p div 8 + i div 8 = (p + i) div 8" "(p + i) mod 8 = i mod 8"
    by (simp, presburger)+
  ultimately show ?thesis by (simp add: bit_get32 test_bit_def)
qed

section \<open>The search\<close>

lemma bsfl_spec:
  "k \<le> bsfl n k x" "bsfl n k x \<le> k + n" "k \<le> i \<Longrightarrow> i < bsfl n k x \<Longrightarrow> \<not> bit x i"
  "bsfl n k x < k + n \<Longrightarrow> bit x (bsfl n k x)"
proof (induction n arbitrary: k)
  case (Suc n)
  {
    case 1
    then show ?case using Suc(1) [of "Suc k"] by auto
  next
    case 2
    then show ?case using Suc(2) [of "Suc k"] by auto
  next
    case 3
    then show ?case using Suc(3) [of "Suc k"] by (cases "k = i") (auto split: if_splits)
  next
    case 4
    then show ?case using Suc(4) [of "Suc k"] by (auto split: if_splits)
  }
qed auto

lemma bsfl_word:
  assumes "x \<noteq> 0"
  shows "bsfl 32 0 x < 32" "bit x (bsfl 32 0 x)"
proof -
  obtain i where i: "bit x i" "i < 32" using assms using bit_word_eqI [of x 0] by auto
  then have "\<not> i < bsfl 32 0 x" using bsfl_spec(3) [of 0 i 32 x] by auto
  with i(2) show "bsfl 32 0 x < 32" by simp
  then show "bit x (bsfl 32 0 x)" using bsfl_spec(4) [of 32 0 x] by simp
qed

lemma find_zero_words_spec:
  assumes "32 dvd pos" "pos + 32 * n = 8192" "0 < n"
  shows "pos \<le> find_zero_words n pos d \<and> find_zero_words n pos d \<le> 8192
    \<and> (\<forall>i. pos \<le> i \<longrightarrow> i < find_zero_words n pos d \<longrightarrow> test_bit i d)
    \<and> (find_zero_words n pos d < 8192 \<longrightarrow> \<not> test_bit (find_zero_words n pos d) d)"
  using assms
proof (induction n pos d rule: find_zero_words.induct)
  case (2 n pos d)
  let ?w = "NOT (of_nat (get32 d (pos div 8)) :: u32)"
  have bits: "bit ?w i \<longleftrightarrow> \<not> test_bit (pos + i) d" if "i < 32" for i
    using that word_bits [OF that 2(2), of d] by (simp add: bit_not_iff possible_bit_def)
  show ?case
  proof (cases "?w = 0")
    case False
    let ?j = "bsfl 32 0 ?w"
    have j: "?j < 32" "bit ?w ?j" using bsfl_word [OF False] by auto
    have before: "test_bit i d" if "pos \<le> i" "i < pos + ?j" for i
      using bits [of "i - pos"] bsfl_spec(3) [of 0 "i - pos" 32 ?w] that j(1) by auto
    show ?thesis using False j before bits [OF j(1)] 2(3) by (auto simp: Let_def)
  next
    case True
    have word: "test_bit i d" if "pos \<le> i" "i < pos + 32" for i
      using bits [of "i - pos"] True that by auto
    show ?thesis
    proof (cases "pos + 32 < 8192")
      case True': True
      then have "0 < n" using 2(3) by (cases n) auto
      then have ih: "pos + 32 \<le> find_zero_words n (pos + 32) d \<and> find_zero_words n (pos + 32) d \<le> 8192
        \<and> (\<forall>i. pos + 32 \<le> i \<longrightarrow> i < find_zero_words n (pos + 32) d \<longrightarrow> test_bit i d)
        \<and> (find_zero_words n (pos + 32) d < 8192 \<longrightarrow> \<not> test_bit (find_zero_words n (pos + 32) d) d)"
        using 2(1) [OF refl _ True' ] True 2(2,3) by (simp add: Let_def)
      have "test_bit i d" if "pos \<le> i" "i < find_zero_words n (pos + 32) d" for i
        using word [of i] ih that by (cases "i < pos + 32") auto
      then show ?thesis using ih True True' by (auto simp: Let_def)
    next
      case False
      then show ?thesis using word True 2(3) by (auto simp: Let_def)
    qed
  qed
qed simp

section \<open>The operations\<close>

definition block_map :: "u8 list \<Rightarrow> bool" where
  "block_map d \<longleftrightarrow> length d = 1024"

lemma test_set_bit:
  assumes "block_map d" "i < 8192"
  shows "test_bit j (snd (set_bit i d)) \<longleftrightarrow> j = i \<or> test_bit j d"
proof (cases "j div 8 = i div 8")
  case True
  then have "j = i \<longleftrightarrow> j mod 8 = i mod 8" by (metis div_mult_mod_eq)
  with True assms show ?thesis
    by (auto simp: test_bit_def set_bit_def block_map_def bit_or_iff bit_push_bit_iff bit_exp_iff possible_bit_def)
next
  case False
  then show ?thesis by (auto simp: test_bit_def set_bit_def)
qed

lemma test_clear_bit:
  assumes "block_map d" "i < 8192"
  shows "test_bit j (snd (clear_bit i d)) \<longleftrightarrow> j \<noteq> i \<and> test_bit j d"
proof (cases "j div 8 = i div 8")
  case True
  then have "j = i \<longleftrightarrow> j mod 8 = i mod 8" by (metis div_mult_mod_eq)
  with True assms show ?thesis
    by (auto simp: test_bit_def clear_bit_def block_map_def bit_and_iff bit_not_iff bit_push_bit_iff
        bit_exp_iff possible_bit_def)
next
  case False
  then show ?thesis by (auto simp: test_bit_def clear_bit_def)
qed

lemma block_map_ext:
  assumes "block_map d" "block_map e" "\<forall>j<8192. test_bit j d = test_bit j e"
  shows "d = e"
proof (rule nth_equalityI)
  fix i assume "i < length d"
  then have i: "i < 1024" using assms(1) by (simp add: block_map_def)
  show "d ! i = e ! i"
  proof (rule bit_word_eqI)
    fix n assume "n < LENGTH(8)"
    then have "n < 8" by simp
    then have "test_bit (8 * i + n) d = test_bit (8 * i + n) e" using assms(3) i by simp
    then show "bit (d ! i) n = bit (e ! i) n" using \<open>n < 8\<close> by (simp add: test_bit_def)
  qed
qed (use assms in \<open>simp add: block_map_def\<close>)

lemma length_takeWhile_upt:
  assumes "k \<le> n" "\<And>i. i < k \<Longrightarrow> P i" "k < n \<Longrightarrow> \<not> P k"
  shows "length (takeWhile P [0..<n]) = k"
proof -
  have "takeWhile P [0..<n] = take k [0..<n]"
    by (rule takeWhile_eq_take_P_nth) (use assms in auto)
  then show ?thesis using assms(1) by simp
qed

lemma find_first_zero_takeWhile: "find_first_zero d = length (takeWhile (\<lambda>i. test_bit i d) [0..<8192])"
  using find_zero_words_spec [of 0 256 d]
  by (intro length_takeWhile_upt [symmetric]) (simp_all add: find_first_zero_def)

interpretation block_bits: bitmap test_bit set_bit clear_bit find_first_zero 8192 block_map
proof
  show "find_first_zero d = length (takeWhile (\<lambda>i. test_bit i d) [0..<8192])" for d
    by (rule find_first_zero_takeWhile)
qed (auto simp: test_set_bit test_clear_bit block_map_ext,
     auto simp: set_bit_def clear_bit_def block_map_def)

text \<open>C24: the word-wise scan of \<open>find_first_zero\<close> finds the first zero bit of the block, or 8192 when
  there is none.\<close>

theorem find_first_zero_correct:
  "find_first_zero d = length (takeWhile (\<lambda>i. test_bit i d) [0..<8192])"
  by (rule find_first_zero_takeWhile)

text \<open>A bit set where the search found a zero was free, is the only one to change, and clearing it
  restores the block.\<close>

theorem bitmap_allocate_release:
  assumes "length d = 1024" "find_first_zero d < 8192"
  defines "i \<equiv> find_first_zero d"
  shows "\<not> fst (set_bit i d) \<and> block_bits.used (snd (set_bit i d)) = insert i (block_bits.used d)
    \<and> i \<notin> block_bits.used d \<and> \<not> fst (clear_bit i (snd (set_bit i d)))
    \<and> snd (clear_bit i (snd (set_bit i d))) = d"
proof -
  have d: "block_map d" using assms(1) by (simp add: block_map_def)
  have "block_map (snd (set_bit i d))" by (simp add: set_bit_def block_map_def assms(1))
  moreover have "i \<in> block_bits.used (snd (set_bit i d))"
    using block_bits.allocate [OF d assms(2)] by (simp add: i_def)
  ultimately show ?thesis
    using block_bits.allocate [OF d assms(2)] block_bits.allocate_release [OF d assms(2)]
      block_bits.first_zero_props(3) [OF d assms(2)] block_bits.release(1) by (simp add: i_def)
qed

lemma bitmap_allocate_release_witness:
  "snd (clear_bit 1 (snd (set_bit 1 (1 # replicate 1023 0)))) = (1 # replicate 1023 0 :: u8 list)"
proof -
  have "find_first_zero (1 # replicate 1023 0) = 1"
    unfolding find_first_zero_takeWhile by (rule length_takeWhile_upt) (simp_all add: test_bit_def)
  then show ?thesis
    using bitmap_allocate_release [of "1 # replicate 1023 0"] by simp
qed

end
