(* ===== verification/Dlinks.thy ===== *)
theory Dlinks imports Main begin

text \<open>
  Doubly linked lists and rings in a table of entries: what the pointer manipulations that take an
  entry out or put one in do to the list the pointers stand for. The link fields are functions from
  an entry to an optional entry, as in the heap models of pointer programs.
\<close>

type_synonym link = "nat \<Rightarrow> nat option"

section \<open>Lists that end in \<open>NULL\<close>\<close>

text \<open>The list from \<open>p\<close> on, whose first entry points back to \<open>q\<close>.\<close>

fun dlist :: "link \<Rightarrow> link \<Rightarrow> nat option \<Rightarrow> nat option \<Rightarrow> nat list \<Rightarrow> bool" where
  "dlist nx pv p q [] \<longleftrightarrow> p = None"
| "dlist nx pv p q (a # xs) \<longleftrightarrow> p = Some a \<and> pv a = q \<and> dlist nx pv (nx a) (Some a) xs"

lemma dlist_frame:
  "(\<And>a. a \<in> set xs \<Longrightarrow> nx' a = nx a \<and> pv' a = pv a) \<Longrightarrow> dlist nx' pv' p q xs = dlist nx pv p q xs"
  by (induction xs arbitrary: p q) auto

lemma dlist_next: "dlist nx pv p q xs \<Longrightarrow> a \<in> set xs \<Longrightarrow> nx a = Some b \<Longrightarrow> b \<in> set (tl xs)"
proof (induction xs arbitrary: p q)
  case (Cons c xs)
  show ?case
  proof (cases "a = c")
    case True
    then show ?thesis using Cons.prems by (cases xs) auto
  next
    case False
    then have "b \<in> set (tl xs)" using Cons by auto
    then show ?thesis by (cases xs) auto
  qed
qed simp

lemma dlist_prev: "dlist nx pv p q xs \<Longrightarrow> a \<in> set (tl xs) \<Longrightarrow> distinct xs \<Longrightarrow> \<exists>b\<in>set xs. pv a = Some b \<and> nx b = Some a"
proof (induction xs arbitrary: p q)
  case (Cons c xs)
  then show ?case by (cases xs) auto
qed simp

lemma dlist_self: "dlist nx pv p q xs \<Longrightarrow> distinct xs \<Longrightarrow> nx a = Some a \<Longrightarrow> a \<notin> set xs"
proof (induction xs arbitrary: p q)
  case (Cons c xs)
  then show ?case by (cases xs) auto
qed simp

text \<open>Taking entry \<open>b\<close> out of the list.\<close>

definition unlink_next :: "link \<Rightarrow> link \<Rightarrow> nat \<Rightarrow> link" where
  "unlink_next nx pv b = (\<lambda>c. if pv b = Some c then nx b else nx c)"

definition unlink_prev :: "link \<Rightarrow> link \<Rightarrow> nat \<Rightarrow> link" where
  "unlink_prev nx pv b = (\<lambda>c. if nx b = Some c then pv b else pv c)"

lemma dlist_remove:
  assumes "dlist nx pv p q xs" "distinct xs" "b \<in> set xs" "\<And>a. q = Some a \<Longrightarrow> a \<notin> set xs"
  shows "dlist (unlink_next nx pv b) (unlink_prev nx pv b) (if p = Some b then nx b else p) q (remove1 b xs)"
  using assms
proof (induction xs arbitrary: p q)
  case (Cons a xs)
  show ?case
  proof (cases "a = b")
    case True
    have frame: "unlink_next nx pv b c = nx c" if "c \<in> set xs" for c
      using Cons.prems True that by (auto simp: unlink_next_def)
    show ?thesis
    proof (cases xs)
      case (Cons c ys)
      have nb: "nx b = Some c" "pv b = q" "p = Some b" using Cons.prems True \<open>xs = c # ys\<close> by auto
      have "dlist (unlink_next nx pv b) (unlink_prev nx pv b) (nx c) (Some c) ys = dlist nx pv (nx c) (Some c) ys"
        using Cons.prems(2) nb frame by (intro dlist_frame) (auto simp: unlink_prev_def \<open>xs = c # ys\<close>)
      then show ?thesis
        using Cons.prems True nb frame by (auto simp: \<open>xs = c # ys\<close> unlink_prev_def)
    qed (use Cons.prems True in auto)
  next
    case False
    then have b: "b \<in> set xs" and xs: "dlist nx pv (nx a) (Some a) xs" "distinct xs" "a \<notin> set xs"
      using Cons.prems by auto
    have "dlist (unlink_next nx pv b) (unlink_prev nx pv b) (if nx a = Some b then nx b else nx a) (Some a) (remove1 b xs)"
      using Cons.IH [OF xs(1,2) b] xs(3) by auto
    moreover have "unlink_next nx pv b a = (if nx a = Some b then nx b else nx a)"
    proof -
      have "pv b = Some a \<longleftrightarrow> nx a = Some b"
      proof (cases xs)
        case (Cons c ys)
        show ?thesis
        proof (cases "b = c")
          case True
          then show ?thesis using xs Cons by auto
        next
          case False
          then obtain d where "d \<in> set xs" "pv b = Some d"
            using dlist_prev [OF xs(1) _ xs(2), of b] b Cons by auto
          moreover have "nx a = Some c" using xs Cons by auto
          ultimately show ?thesis using xs(3) False by auto
        qed
      qed (use b in simp)
      then show ?thesis by (simp add: unlink_next_def)
    qed
    moreover have "unlink_prev nx pv b a = pv a"
    proof -
      have "nx b \<noteq> Some a" using dlist_next [OF xs(1) b] xs(3) by (cases xs) auto
      then show ?thesis by (simp add: unlink_prev_def)
    qed
    ultimately show ?thesis using Cons.prems False by auto
  qed
qed simp

text \<open>Putting entry \<open>b\<close> in front.\<close>

definition push_next :: "link \<Rightarrow> nat option \<Rightarrow> nat \<Rightarrow> link" where
  "push_next nx p b = nx(b := p)"

definition push_prev :: "link \<Rightarrow> nat option \<Rightarrow> nat \<Rightarrow> link" where
  "push_prev pv p b = (\<lambda>c. if p = Some c then Some b else if c = b then None else pv c)"

lemma dlist_push:
  assumes "dlist nx pv p None xs" "b \<notin> set xs" "distinct xs"
  shows "dlist (push_next nx p b) (push_prev pv p b) (Some b) None (b # xs)"
proof (cases xs)
  case Nil
  then show ?thesis using assms by (auto simp: push_next_def push_prev_def)
next
  case (Cons a ys)
  then have "dlist (push_next nx p b) (push_prev pv p b) (nx a) (Some a) ys = dlist nx pv (nx a) (Some a) ys"
    using assms by (intro dlist_frame) (auto simp: push_next_def push_prev_def)
  then show ?thesis using assms Cons by (auto simp: push_next_def push_prev_def)
qed

section \<open>Rings\<close>

fun linked :: "link \<Rightarrow> link \<Rightarrow> nat list \<Rightarrow> bool" where
  "linked nf pf (a # b # xs) \<longleftrightarrow> nf a = Some b \<and> pf b = Some a \<and> linked nf pf (b # xs)"
| "linked nf pf xs \<longleftrightarrow> True"

lemma linked_append: "linked nf pf (xs @ a # ys) \<longleftrightarrow> linked nf pf (xs @ [a]) \<and> linked nf pf (a # ys)"
  by (induction nf pf xs rule: linked.induct) auto

lemma linked_snoc: "linked nf pf (xs @ [a, b]) \<longleftrightarrow> linked nf pf (xs @ [a]) \<and> nf a = Some b \<and> pf b = Some a"
  using linked_append [of nf pf xs a "[b]"] by simp

text \<open>Only the links between neighbours matter.\<close>

lemma linked_frame:
  "(\<And>a. a \<in> set (butlast xs) \<Longrightarrow> nf' a = nf a) \<Longrightarrow> (\<And>a. a \<in> set (tl xs) \<Longrightarrow> pf' a = pf a) \<Longrightarrow>
    linked nf' pf' xs = linked nf pf xs"
proof (induction nf pf xs rule: linked.induct)
  case (1 nf pf a b xs)
  have "linked nf' pf' (b # xs) = linked nf pf (b # xs)"
    by (rule 1(1)) (use 1(2,3) in \<open>auto split: if_splits\<close>)
  with 1(2,3) show ?case by auto
qed auto

definition ring :: "link \<Rightarrow> link \<Rightarrow> nat list \<Rightarrow> bool" where
  "ring nf pf xs \<longleftrightarrow> xs \<noteq> [] \<and> distinct xs \<and> linked nf pf (xs @ [hd xs])"

lemma ring_rotate: "ring nf pf (xs @ ys) \<longleftrightarrow> ring nf pf (ys @ xs)"
proof (cases "xs = [] \<or> ys = []")
  case False
  then obtain x xs' y ys' where e: "xs = x # xs'" "ys = y # ys'" by (meson neq_Nil_conv)
  have "linked nf pf ((xs @ ys) @ [hd (xs @ ys)]) \<longleftrightarrow> linked nf pf (xs @ [y]) \<and> linked nf pf (ys @ [x])"
    using linked_append [of nf pf xs y "ys' @ [x]"] by (simp add: e)
  moreover have "linked nf pf ((ys @ xs) @ [hd (ys @ xs)]) \<longleftrightarrow> linked nf pf (ys @ [x]) \<and> linked nf pf (xs @ [y])"
    using linked_append [of nf pf ys x "xs' @ [y]"] by (simp add: e)
  ultimately show ?thesis by (auto simp: ring_def e)
qed auto

lemma not_last: "distinct xs \<Longrightarrow> a \<in> set (butlast xs) \<Longrightarrow> a \<noteq> last xs"
  by (cases xs rule: rev_cases) auto

lemma not_hd: "distinct xs \<Longrightarrow> a \<in> set (tl xs) \<Longrightarrow> a \<noteq> hd xs"
  by (cases xs) auto

lemma ring_head:
  assumes "ring nf pf (b # xs)" "xs \<noteq> []"
  shows "nf b = Some (hd xs)" "pf b = Some (last xs)" "pf (hd xs) = Some b" "nf (last xs) = Some b"
    "ring (nf(last xs := Some (hd xs))) (pf(hd xs := Some (last xs))) xs"
proof -
  have l: "linked nf pf (b # xs @ [b])" "distinct (b # xs)" using assms by (auto simp: ring_def)
  obtain c ys where c: "xs = c # ys" using assms(2) by (meson neq_Nil_conv)
  obtain zs d where d: "xs = zs @ [d]" using assms(2) by (meson rev_exhaust)
  show "nf b = Some (hd xs)" "pf (hd xs) = Some b" using l by (simp_all add: c)
  have "linked nf pf ((b # zs) @ [d, b])" using l by (simp add: d)
  then have l': "linked nf pf ((b # zs) @ [d])" "nf d = Some b" "pf b = Some d"
    unfolding linked_snoc by auto
  then show "pf b = Some (last xs)" "nf (last xs) = Some b" by (simp_all add: d)
  have "linked nf pf (b # c # ys)" using l'(1) by (simp add: d [symmetric] c)
  then have "linked nf pf xs" by (simp add: c)
  then have "linked (nf(last xs := Some (hd xs))) (pf(hd xs := Some (last xs))) xs"
    using l(2) not_last [of xs] not_hd [of xs]
    by (subst linked_frame [where nf = nf and pf = pf]) auto
  then show "ring (nf(last xs := Some (hd xs))) (pf(hd xs := Some (last xs))) xs"
    using l(2) linked_snoc [of _ _ zs d "hd xs"] by (simp add: ring_def assms(2), simp add: d)
qed

lemma ring_ends: "ring nf pf xs \<Longrightarrow> pf (hd xs) = Some (last xs) \<and> nf (last xs) = Some (hd xs)"
proof -
  assume "ring nf pf xs"
  then obtain zs d where d: "xs = zs @ [d]" and "linked nf pf (xs @ [hd xs])"
    by (metis ring_def rev_exhaust)
  then show ?thesis using linked_snoc [of nf pf zs d "hd xs"] by simp
qed

lemma ring_insert:
  assumes "ring nf pf xs" "b \<notin> set xs"
  shows "ring (nf(b := Some (hd xs), last xs := Some b)) (pf(b := Some (last xs), hd xs := Some b)) (xs @ [b])"
proof -
  have l: "linked nf pf (xs @ [hd xs])" "distinct xs" "xs \<noteq> []" using assms by (auto simp: ring_def)
  obtain zs d where d: "xs = zs @ [d]" using l(3) by (meson rev_exhaust)
  have hb: "hd xs \<noteq> b" "last xs \<noteq> b" using assms(2) l(3) by auto
  have "linked nf pf xs" using l(1) linked_snoc [of nf pf zs d] by (simp add: d)
  moreover have "linked (nf(b := Some (hd xs), last xs := Some b)) (pf(b := Some (last xs), hd xs := Some b)) xs
      = linked nf pf xs"
    using assms(2) l(2) not_last [of xs] not_hd [of xs]
    by (intro linked_frame) (auto dest: in_set_butlastD, metis list.set_sel(2) tl_Nil)
  ultimately have "linked (nf(b := Some (hd xs), last xs := Some b)) (pf(b := Some (last xs), hd xs := Some b)) ((zs @ [d, b]) @ [hd xs])"
    using hb linked_snoc [of _ _ "zs @ [d]" b "hd xs"] linked_snoc [of _ _ zs d b] by (auto simp: d)
  moreover have "hd (zs @ [d, b]) = hd xs" by (cases zs) (simp_all add: d)
  ultimately show ?thesis using assms(2) l by (simp add: ring_def d)
qed

end
