(* ===== verification/Cache_Inv.thy ===== *)
theory Cache_Inv imports Cache Dlinks begin

unbundle bit_operations_syntax

text \<open>
  The invariant of the buffer cache and what \<open>getblk\<close> does to it. The hash chains are doubly linked
  lists, the buffers form one ring, and no block has two buffers; so the cache is a finite map from
  blocks to buffers, and \<open>take_buffer\<close>, the end of \<open>getblk\<close>, is an update of that map.
\<close>

section \<open>Links and the rest of a buffer\<close>

definition nx :: "kernel \<Rightarrow> link" where "nx s c = b_next (bufs s ! c)"
definition pv :: "kernel \<Rightarrow> link" where "pv s c = b_prev (bufs s ! c)"
definition nf :: "kernel \<Rightarrow> link" where "nf s c = b_next_free (bufs s ! c)"
definition pf :: "kernel \<Rightarrow> link" where "pf s c = b_prev_free (bufs s ! c)"

definition body :: "buffer_head \<Rightarrow> buffer_head" where
  "body h = h\<lparr>b_prev := None, b_next := None, b_prev_free := None, b_next_free := None\<rparr>"

lemma body_update [simp]:
  "body (h\<lparr>b_prev := x\<rparr>) = body h" "body (h\<lparr>b_next := x\<rparr>) = body h"
  "body (h\<lparr>b_prev_free := x\<rparr>) = body h" "body (h\<lparr>b_next_free := x\<rparr>) = body h"
  by (simp_all add: body_def)

lemma body_eqD:
  assumes "body h = body g"
  shows "b_dev h = b_dev g" "b_blocknr h = b_blocknr g" "b_data h = b_data g" "b_uptodate h = b_uptodate g"
    "b_dirt h = b_dirt g" "b_count h = b_count g" "b_lock h = b_lock g"
proof -
  have "b_dev (body h) = b_dev (body g)" "b_blocknr (body h) = b_blocknr (body g)"
    "b_data (body h) = b_data (body g)" "b_uptodate (body h) = b_uptodate (body g)"
    "b_dirt (body h) = b_dirt (body g)" "b_count (body h) = b_count (body g)" "b_lock (body h) = b_lock (body g)"
    unfolding assms by simp_all
  then show "b_dev h = b_dev g" "b_blocknr h = b_blocknr g" "b_data h = b_data g" "b_uptodate h = b_uptodate g"
    "b_dirt h = b_dirt g" "b_count h = b_count g" "b_lock h = b_lock g"
    by (simp_all add: body_def)
qed

text \<open>Only the cache's own fields differ.\<close>

definition rest :: "kernel \<Rightarrow> kernel" where
  "rest s = s\<lparr>bufs := [], hash_table := [], free_list := 0, null_prev := None\<rparr>"

lemma rest_simps [simp]:
  "rest (s\<lparr>bufs := x\<rparr>) = rest s" "rest (s\<lparr>hash_table := y\<rparr>) = rest s"
  "rest (s\<lparr>free_list := z\<rparr>) = rest s" "rest (s\<lparr>null_prev := w\<rparr>) = rest s"
  by (cases s; simp add: rest_def)+

lemma rest_upd_buf [simp]: "rest (upd_buf b f s) = rest s"
  by (simp add: upd_buf_def)

lemma rest_eqD:
  assumes "rest s = rest t"
  shows "mem s = mem t" "requests s = requests t" "blk_dev s = blk_dev t" "rd_start s = rd_start t"
    "rd_length s = rd_length t" "inode_table s = inode_table t" "super_blocks s = super_blocks t"
    "proc s = proc t" "file_table s = file_table t" "user s = user t" "now s = now t" "ROOT_DEV s = ROOT_DEV t"
    "last_inode s = last_inode t"
  using arg_cong [OF assms, of mem] arg_cong [OF assms, of requests] arg_cong [OF assms, of blk_dev]
    arg_cong [OF assms, of rd_start] arg_cong [OF assms, of rd_length] arg_cong [OF assms, of inode_table]
    arg_cong [OF assms, of super_blocks] arg_cong [OF assms, of proc] arg_cong [OF assms, of file_table]
    arg_cong [OF assms, of user] arg_cong [OF assms, of now] arg_cong [OF assms, of ROOT_DEV]
    arg_cong [OF assms, of last_inode]
  by (simp_all add: rest_def)

section \<open>Taking a buffer out\<close>

definition key_hash :: "buffer_head \<Rightarrow> nat" where
  "key_hash h = hashfn (b_dev h) (b_blocknr h)"

definition unlink_hash :: "nat \<Rightarrow> kernel \<Rightarrow> kernel" where
  "unlink_hash b s =
    (let s = (case b_next (bufs s ! b) of
                None \<Rightarrow> s | Some n \<Rightarrow> upd_buf n (\<lambda>h. h\<lparr>b_prev := b_prev (bufs s ! b)\<rparr>) s);
         s = (case b_prev (bufs s ! b) of
                None \<Rightarrow> s | Some p \<Rightarrow> upd_buf p (\<lambda>h. h\<lparr>b_next := b_next (bufs s ! b)\<rparr>) s);
         k = hashfn (b_dev (bufs s ! b)) (b_blocknr (bufs s ! b))
     in (if hash_table s ! k = Some b then s\<lparr>hash_table := (hash_table s)[k := b_next (bufs s ! b)]\<rparr> else s))"

lemma unlink_hash_fields:
  assumes "\<And>n. nx s b = Some n \<Longrightarrow> n \<noteq> b \<and> n < length (bufs s)"
    and "\<And>p. pv s b = Some p \<Longrightarrow> p \<noteq> b \<and> p < length (bufs s)"
  shows "nx (unlink_hash b s) = unlink_next (nx s) (pv s) b" "pv (unlink_hash b s) = unlink_prev (nx s) (pv s) b"
    "nf (unlink_hash b s) = nf s" "pf (unlink_hash b s) = pf s"
    "body (bufs (unlink_hash b s) ! c) = body (bufs s ! c)"
    "length (bufs (unlink_hash b s)) = length (bufs s)" "free_list (unlink_hash b s) = free_list s"
    "rest (unlink_hash b s) = rest s" "null_prev (unlink_hash b s) = null_prev s"
    "hash_table (unlink_hash b s) = (let k = key_hash (bufs s ! b) in
      if hash_table s ! k = Some b then (hash_table s)[k := nx s b] else hash_table s)"
proof -
  have np: "b_next (bufs s ! b) = Some n \<Longrightarrow> n \<noteq> b \<and> n < length (bufs s)"
    "b_prev (bufs s ! b) = Some n \<Longrightarrow> n \<noteq> b \<and> n < length (bufs s)" for n
    using assms by (simp_all add: nx_def pv_def)
  note simps = unlink_hash_def nx_def pv_def nf_def pf_def Let_def fun_eq_iff nth_upd unlink_next_def unlink_prev_def key_hash_def
  show "nx (unlink_hash b s) = unlink_next (nx s) (pv s) b" "pv (unlink_hash b s) = unlink_prev (nx s) (pv s) b"
    "nf (unlink_hash b s) = nf s" "pf (unlink_hash b s) = pf s"
    "body (bufs (unlink_hash b s) ! c) = body (bufs s ! c)"
    "length (bufs (unlink_hash b s)) = length (bufs s)" "free_list (unlink_hash b s) = free_list s"
    "null_prev (unlink_hash b s) = null_prev s"
    "hash_table (unlink_hash b s) = (let k = key_hash (bufs s ! b) in
      if hash_table s ! k = Some b then (hash_table s)[k := nx s b] else hash_table s)"
    using np by (auto simp: simps split: option.split)
  show "rest (unlink_hash b s) = rest s"
    by (simp add: unlink_hash_def Let_def split: option.split)
qed

lemma remove_from_queues_fields:
  assumes "pf s b = Some p" "nf s b = Some n" "p \<noteq> b" "n \<noteq> b" "p < length (bufs s)" "n < length (bufs s)"
    and "\<forall>n. nx s b = Some n \<longrightarrow> n \<noteq> b \<and> n < length (bufs s)"
    and "\<forall>p. pv s b = Some p \<longrightarrow> p \<noteq> b \<and> p < length (bufs s)"
  shows "\<exists>t. remove_from_queues b s = Ret t
    \<and> nx t = unlink_next (nx s) (pv s) b \<and> pv t = unlink_prev (nx s) (pv s) b
    \<and> nf t = (nf s)(p := Some n) \<and> pf t = (pf s)(n := Some p)
    \<and> (\<forall>c. body (bufs t ! c) = body (bufs s ! c)) \<and> length (bufs t) = length (bufs s)
    \<and> free_list t = (if free_list s = b then n else free_list s) \<and> rest t = rest s
    \<and> hash_table t = (let k = key_hash (bufs s ! b) in
        if hash_table s ! k = Some b then (hash_table s)[k := nx s b] else hash_table s)"
proof -
  let ?u = "unlink_hash b s"
  note u = unlink_hash_fields [OF assms(7,8) [rule_format]]
  have links: "b_prev_free (bufs ?u ! b) = Some p" "b_next_free (bufs ?u ! b) = Some n"
    using u(3,4) assms(1,2) by (simp_all add: nf_def pf_def fun_eq_iff)
  let ?v = "upd_buf n (\<lambda>h. h\<lparr>b_prev_free := Some p\<rparr>) (upd_buf p (\<lambda>h. h\<lparr>b_next_free := Some n\<rparr>) ?u)"
  let ?t = "if free_list s = b then ?v\<lparr>free_list := n\<rparr> else ?v"
  have r: "remove_from_queues b s = Ret ?t"
    using links u(7) unfolding remove_from_queues_def unlink_hash_def [symmetric] Let_def
    by (simp add: unlink_hash_def Let_def)
  have bufs: "bufs ?t = bufs ?v" "hash_table ?t = hash_table ?u" by simp_all
  have "nx ?t = nx ?u" "pv ?t = pv ?u" "nf ?t = (nf ?u)(p := Some n)" "pf ?t = (pf ?u)(n := Some p)"
    using assms(5,6) u(6) by (auto simp: nx_def pv_def nf_def pf_def fun_eq_iff nth_upd)
  moreover have "\<forall>c. body (bufs ?t ! c) = body (bufs s ! c)"
    using u(5) by (simp add: nth_upd)
  moreover have "rest ?t = rest s"
    using u(8) by simp
  ultimately show ?thesis
    using r u bufs by (intro exI [of _ ?t]) simp
qed

section \<open>Putting a buffer in\<close>

definition relink :: "nat \<Rightarrow> kernel \<Rightarrow> kernel" where
  "relink b s =
    (let f = free_list s;
         s = upd_buf b (\<lambda>h. h\<lparr>b_next_free := Some f\<rparr>) s;
         p = b_prev_free (bufs s ! f);
         s = upd_buf b (\<lambda>h. h\<lparr>b_prev_free := p\<rparr>) s;
         s = upd_buf (the p) (\<lambda>h. h\<lparr>b_next_free := Some b\<rparr>) s;
         s = upd_buf f (\<lambda>h. h\<lparr>b_prev_free := Some b\<rparr>) s
     in upd_buf b (\<lambda>h. h\<lparr>b_prev := None, b_next := None\<rparr>) s)"

lemma insert_relink:
  "insert_into_queues b s =
    (let s = relink b s
     in if b_dev (bufs s ! b) = 0 then s
        else
        let k = hashfn (b_dev (bufs s ! b)) (b_blocknr (bufs s ! b));
            nx = hash_table s ! k;
            s = upd_buf b (\<lambda>h. h\<lparr>b_next := nx\<rparr>) s;
            s = s\<lparr>hash_table := (hash_table s)[k := Some b]\<rparr>
        in case nx of
             None \<Rightarrow> s\<lparr>null_prev := Some b\<rparr>
           | Some n \<Rightarrow> upd_buf n (\<lambda>h. h\<lparr>b_prev := Some b\<rparr>) s)"
  unfolding insert_into_queues_def relink_def Let_def ..

lemma relink_fields:
  assumes "pf s (free_list s) = Some p" "p \<noteq> b" "free_list s \<noteq> b"
    and "p < length (bufs s)" "free_list s < length (bufs s)" "b < length (bufs s)"
  shows "nf (relink b s) = (nf s)(b := Some (free_list s), p := Some b)"
    "pf (relink b s) = (pf s)(b := Some p, free_list s := Some b)"
    "nx (relink b s) = (nx s)(b := None)" "pv (relink b s) = (pv s)(b := None)"
    "body (bufs (relink b s) ! c) = body (bufs s ! c)" "length (bufs (relink b s)) = length (bufs s)"
    "hash_table (relink b s) = hash_table s" "free_list (relink b s) = free_list s" "rest (relink b s) = rest s"
  using assms
  by (auto simp: relink_def Let_def nx_def pv_def nf_def pf_def fun_eq_iff nth_upd)

lemma insert_into_queues_fields:
  assumes "pf s (free_list s) = Some p" "p \<noteq> b" "free_list s \<noteq> b"
    and "p < length (bufs s)" "free_list s < length (bufs s)" "b < length (bufs s)"
    and dev: "b_dev (bufs s ! b) \<noteq> 0"
  defines "k \<equiv> key_hash (bufs s ! b)"
  assumes k: "k < length (hash_table s)"
    and head: "\<forall>n. hash_table s ! k = Some n \<longrightarrow> n \<noteq> b \<and> n < length (bufs s)"
  shows "nf (insert_into_queues b s) = (nf s)(b := Some (free_list s), p := Some b)"
    "pf (insert_into_queues b s) = (pf s)(b := Some p, free_list s := Some b)"
    "nx (insert_into_queues b s) = push_next (nx s) (hash_table s ! k) b"
    "pv (insert_into_queues b s) = push_prev (pv s) (hash_table s ! k) b"
    "body (bufs (insert_into_queues b s) ! c) = body (bufs s ! c)"
    "length (bufs (insert_into_queues b s)) = length (bufs s)"
    "hash_table (insert_into_queues b s) = (hash_table s)[k := Some b]"
    "free_list (insert_into_queues b s) = free_list s" "rest (insert_into_queues b s) = rest s"
proof -
  let ?u = "relink b s"
  note u = relink_fields [OF assms(1-6)]
  have ub: "b_dev (bufs ?u ! b) = b_dev (bufs s ! b)" "b_blocknr (bufs ?u ! b) = b_blocknr (bufs s ! b)"
    using body_eqD [OF u(5) [of b]] by simp_all
  have i: "insert_into_queues b s =
      (let v = (upd_buf b (\<lambda>h. h\<lparr>b_next := hash_table s ! k\<rparr>) ?u)\<lparr>hash_table := (hash_table s)[k := Some b]\<rparr>
       in case hash_table s ! k of None \<Rightarrow> v\<lparr>null_prev := Some b\<rparr> | Some n \<Rightarrow> upd_buf n (\<lambda>h. h\<lparr>b_prev := Some b\<rparr>) v)"
    using dev unfolding insert_relink by (simp add: Let_def ub u(7) k_def key_hash_def split: option.split)
  show "nf (insert_into_queues b s) = (nf s)(b := Some (free_list s), p := Some b)"
    "pf (insert_into_queues b s) = (pf s)(b := Some p, free_list s := Some b)"
    unfolding i u(1,2) [symmetric] by (auto simp: Let_def nf_def pf_def fun_eq_iff nth_upd split: option.split)
  show "nx (insert_into_queues b s) = push_next (nx s) (hash_table s ! k) b"
  proof -
    have "nx (insert_into_queues b s) = (nx ?u)(b := hash_table s ! k)"
      using assms(6) u(6) unfolding i by (auto simp: Let_def nx_def fun_eq_iff nth_upd split: option.split)
    then show ?thesis by (simp add: u(3) push_next_def)
  qed
  show "pv (insert_into_queues b s) = push_prev (pv s) (hash_table s ! k) b"
  proof -
    have "pv (insert_into_queues b s) = (\<lambda>c. if hash_table s ! k = Some c then Some b else pv ?u c)"
      using assms(6) u(6) head unfolding i by (auto simp: Let_def pv_def fun_eq_iff nth_upd split: option.split)
    then show ?thesis using u(4) by (auto simp: push_prev_def fun_eq_iff)
  qed
  show "body (bufs (insert_into_queues b s) ! c) = body (bufs s ! c)"
    unfolding i u(5) [symmetric] by (simp add: Let_def nth_upd split: option.split)
  show "length (bufs (insert_into_queues b s)) = length (bufs s)"
    "hash_table (insert_into_queues b s) = (hash_table s)[k := Some b]"
    "free_list (insert_into_queues b s) = free_list s" "rest (insert_into_queues b s) = rest s"
    unfolding i using u(6-9) by (simp_all add: Let_def split: option.split)
qed

section \<open>The invariant\<close>

text \<open>The buffers of \<open>X\<close> are in the queues: \<open>rg\<close> is the ring from \<open>free_list\<close> on, \<open>ch\<close> the hash chains, and
  no block has two buffers.\<close>

definition hash_chain :: "kernel \<Rightarrow> nat set \<Rightarrow> nat \<Rightarrow> nat list \<Rightarrow> bool" where
  "hash_chain s X k xs \<longleftrightarrow> dlist (nx s) (pv s) (hash_table s ! k) None xs \<and> distinct xs
    \<and> set xs = {b \<in> X. b_dev (bufs s ! b) \<noteq> 0 \<and> key_hash (bufs s ! b) = k}"

definition unique_keys :: "kernel \<Rightarrow> nat set \<Rightarrow> bool" where
  "unique_keys s X \<longleftrightarrow> (\<forall>b\<in>X. \<forall>c\<in>X. b_dev (bufs s ! b) \<noteq> 0 \<longrightarrow>
    b_dev (bufs s ! c) = b_dev (bufs s ! b) \<longrightarrow> b_blocknr (bufs s ! c) = b_blocknr (bufs s ! b) \<longrightarrow> c = b)"

definition in_queues :: "kernel \<Rightarrow> nat set \<Rightarrow> nat list \<Rightarrow> (nat \<Rightarrow> nat list) \<Rightarrow> bool" where
  "in_queues s X rg ch \<longleftrightarrow> X \<subseteq> {..<length (bufs s)} \<and> length (hash_table s) = NR_HASH
    \<and> ring (nf s) (pf s) rg \<and> set rg = X \<and> hd rg = free_list s
    \<and> (\<forall>k<NR_HASH. hash_chain s X k (ch k)) \<and> unique_keys s X
    \<and> (\<forall>b\<in>X. b_dev (bufs s ! b) = 0 \<longrightarrow> nx s b = None \<and> pv s b = None)"

definition cache_ok :: "kernel \<Rightarrow> bool" where
  "cache_ok s \<longleftrightarrow> 2 \<le> length (bufs s) \<and> (\<exists>rg ch. in_queues s {..<length (bufs s)} rg ch)"

lemma key_hash_less: "key_hash h < NR_HASH"
  by (simp add: key_hash_def hashfn_def NR_HASH_def)

text \<open>The neighbours of a buffer.\<close>

lemma chain_neighbours:
  assumes "in_queues s X rg ch" "b \<in> X"
  shows "nx s b = Some n \<Longrightarrow> n \<in> X \<and> n \<noteq> b \<and> b_dev (bufs s ! n) \<noteq> 0 \<and> key_hash (bufs s ! n) = key_hash (bufs s ! b)"
    and "pv s b = Some p \<Longrightarrow> p \<in> X \<and> p \<noteq> b \<and> b_dev (bufs s ! p) \<noteq> 0 \<and> key_hash (bufs s ! p) = key_hash (bufs s ! b)"
proof -
  let ?k = "key_hash (bufs s ! b)"
  have zero: "b_dev (bufs s ! b) = 0 \<Longrightarrow> nx s b = None \<and> pv s b = None"
    using assms by (auto simp: in_queues_def)
  have c: "dlist (nx s) (pv s) (hash_table s ! ?k) None (ch ?k)" "distinct (ch ?k)"
    "set (ch ?k) = {b \<in> X. b_dev (bufs s ! b) \<noteq> 0 \<and> key_hash (bufs s ! b) = ?k}"
    using assms(1) key_hash_less [of "bufs s ! b"] by (auto simp: in_queues_def hash_chain_def)
  show "n \<in> X \<and> n \<noteq> b \<and> b_dev (bufs s ! n) \<noteq> 0 \<and> key_hash (bufs s ! n) = ?k" if n: "nx s b = Some n"
  proof -
    have b: "b \<in> set (ch ?k)" using zero n assms(2) c(3) by auto
    have "n \<in> set (tl (ch ?k))" using dlist_next [OF c(1) b n] .
    moreover have "n \<noteq> b" using dlist_self [OF c(1,2), of b] n b by auto
    ultimately show ?thesis using c(3) list.set_sel(2) [of "ch ?k" n] by (cases "ch ?k") auto
  qed
  show "p \<in> X \<and> p \<noteq> b \<and> b_dev (bufs s ! p) \<noteq> 0 \<and> key_hash (bufs s ! p) = ?k" if p: "pv s b = Some p"
  proof -
    have b: "b \<in> set (ch ?k)" using zero p assms(2) c(3) by auto
    then have "b \<in> set (tl (ch ?k))" using c(1) p by (cases "ch ?k") auto
    from dlist_prev [OF c(1) this c(2)] p have "p \<in> set (ch ?k)" "nx s p = Some b" by auto
    moreover have "p \<noteq> b" using dlist_self [OF c(1,2), of b] \<open>nx s p = Some b\<close> b by auto
    ultimately show ?thesis using c(3) by auto
  qed
qed

lemma in_queues_cong:
  assumes "nx t = nx s" "pv t = pv s" "nf t = nf s" "pf t = pf s" "length (bufs t) = length (bufs s)"
    "hash_table t = hash_table s" "free_list t = free_list s"
    and "\<And>b. b \<in> X \<Longrightarrow> b_dev (bufs t ! b) = b_dev (bufs s ! b) \<and> b_blocknr (bufs t ! b) = b_blocknr (bufs s ! b)"
  shows "in_queues t X rg ch = in_queues s X rg ch"
proof -
  have "key_hash (bufs t ! b) = key_hash (bufs s ! b)" "b_dev (bufs t ! b) = b_dev (bufs s ! b)"
    "b_blocknr (bufs t ! b) = b_blocknr (bufs s ! b)" if "b \<in> X" for b
    using assms(8) [OF that] by (simp_all add: key_hash_def)
  note X = this
  have "hash_chain t X k xs = hash_chain s X k xs" for k xs
  proof -
    have "{b \<in> X. b_dev (bufs t ! b) \<noteq> 0 \<and> key_hash (bufs t ! b) = k}
        = {b \<in> X. b_dev (bufs s ! b) \<noteq> 0 \<and> key_hash (bufs s ! b) = k}"
      using X by (intro Collect_cong) auto
    then show ?thesis by (simp add: hash_chain_def assms(1,2,6))
  qed
  moreover have "unique_keys t X = unique_keys s X"
    using X unfolding unique_keys_def by simp
  ultimately show ?thesis
    using X(2) by (simp add: in_queues_def assms(1-7))
qed

lemma body_keys:
  assumes "\<forall>c. body (bufs t ! c) = body (bufs s ! c)"
  shows "key_hash (bufs t ! c) = key_hash (bufs s ! c)" "b_dev (bufs t ! c) = b_dev (bufs s ! c)"
    "b_blocknr (bufs t ! c) = b_blocknr (bufs s ! c)"
  using body_eqD [OF spec [OF assms, of c]] by (simp_all add: key_hash_def)

lemma in_queuesD:
  assumes "in_queues s X rg ch"
  shows "X \<subseteq> {..<length (bufs s)}" "length (hash_table s) = NR_HASH" "ring (nf s) (pf s) rg" "set rg = X"
    "hd rg = free_list s" "unique_keys s X"
    "\<And>b. b \<in> X \<Longrightarrow> b_dev (bufs s ! b) = 0 \<Longrightarrow> nx s b = None \<and> pv s b = None"
    "\<And>k. k < NR_HASH \<Longrightarrow> dlist (nx s) (pv s) (hash_table s ! k) None (ch k)"
    "\<And>k. k < NR_HASH \<Longrightarrow> distinct (ch k)"
    "\<And>k. k < NR_HASH \<Longrightarrow> set (ch k) = {b \<in> X. b_dev (bufs s ! b) \<noteq> 0 \<and> key_hash (bufs s ! b) = k}"
  using assms by (auto simp: in_queues_def hash_chain_def)

lemma hash_chain_head:
  assumes "in_queues s X rg ch" "k < NR_HASH" "hash_table s ! k = Some b"
  shows "b \<in> set (ch k)"
  using in_queuesD(8) [OF assms(1,2)] assms(3) by (cases "ch k") auto

text \<open>A chain after \<open>b\<close> was unlinked.\<close>

lemma remove_chain:
  assumes q: "in_queues s X rg ch" and b: "b \<in> X" and k: "k < NR_HASH"
    and t: "nx t = unlink_next (nx s) (pv s) b" "pv t = unlink_prev (nx s) (pv s) b"
      "\<forall>c. body (bufs t ! c) = body (bufs s ! c)"
      "hash_table t = (if hash_table s ! key_hash (bufs s ! b) = Some b
        then (hash_table s)[key_hash (bufs s ! b) := nx s b] else hash_table s)"
  shows "hash_chain t (X - {b}) k (remove1 b (ch k))"
proof -
  let ?k = "key_hash (bufs s ! b)"
  note c = in_queuesD(8-10) [OF q k]
  have "dlist (nx t) (pv t) (hash_table t ! k) None (remove1 b (ch k))"
  proof (cases "b \<in> set (ch k)")
    case True
    then have "?k = k" using c(3) by simp
    then have "hash_table t ! k = (if hash_table s ! k = Some b then nx s b else hash_table s ! k)"
      using k in_queuesD(2) [OF q] by (simp add: t(4))
    then show ?thesis using dlist_remove [OF c(1,2) True] by (simp add: t(1,2))
  next
    case False
    then have "hash_table t ! k = hash_table s ! k"
      using hash_chain_head [OF q key_hash_less, of "bufs s ! b" b] by (cases "?k = k") (auto simp: t(4))
    moreover have "nx t c = nx s c \<and> pv t c = pv s c" if "c \<in> set (ch k)" for c
    proof -
      have "c \<in> X" "key_hash (bufs s ! c) = k" using that c(3) by auto
      moreover have "b_dev (bufs s ! b) = 0 \<or> ?k \<noteq> k" using False b c(3) by auto
      ultimately have "pv s b \<noteq> Some c" "nx s b \<noteq> Some c"
        using chain_neighbours [OF q b, of c] in_queuesD(7) [OF q b] by auto
      then show ?thesis by (simp add: t(1,2) unlink_next_def unlink_prev_def)
    qed
    ultimately show ?thesis
      using dlist_frame [of "ch k" "nx t" "nx s" "pv t" "pv s"] c(1) False by (simp add: remove1_idem)
  qed
  moreover have "set (remove1 b (ch k)) = {c \<in> X - {b}. b_dev (bufs t ! c) \<noteq> 0 \<and> key_hash (bufs t ! c) = k}"
    using c(2,3) by (auto simp: set_remove1_eq body_keys [OF t(3)])
  ultimately show ?thesis using c(2) by (simp add: hash_chain_def)
qed

lemma remove_in_queues:
  assumes q: "in_queues s X rg ch" and b: "b \<in> X" "X \<noteq> {b}"
  shows "\<exists>t rg' ch'. remove_from_queues b s = Ret t \<and> in_queues t (X - {b}) rg' ch'
    \<and> (\<forall>c. body (bufs t ! c) = body (bufs s ! c)) \<and> length (bufs t) = length (bufs s) \<and> rest t = rest s"
proof -
  note nbr = chain_neighbours [OF q b(1)] and X = in_queuesD(1,3-5) [OF q]
  obtain xs ys where rg: "rg = xs @ b # ys" using b(1) X(3) by (metis split_list)
  let ?zs = "ys @ xs"
  have ring: "ring (nf s) (pf s) (b # ?zs)" "?zs \<noteq> []" "distinct (b # ?zs)" "set ?zs = X - {b}"
    using X(2,3) b ring_rotate [of "nf s" "pf s" xs "b # ys"] by (auto simp: rg ring_def)
  note rh = ring_head [OF ring(1,2)]
  have zs: "hd ?zs \<in> X - {b}" "last ?zs \<in> X - {b}" using ring(2,4) by (metis hd_in_set last_in_set)+
  have bounds: "last ?zs \<noteq> b" "hd ?zs \<noteq> b" "last ?zs < length (bufs s)" "hd ?zs < length (bufs s)"
    "\<forall>n. nx s b = Some n \<longrightarrow> n \<noteq> b \<and> n < length (bufs s)"
    "\<forall>p. pv s b = Some p \<longrightarrow> p \<noteq> b \<and> p < length (bufs s)"
    using zs X(1) nbr by blast+
  obtain t where t: "remove_from_queues b s = Ret t"
    "nx t = unlink_next (nx s) (pv s) b" "pv t = unlink_prev (nx s) (pv s) b"
    "nf t = (nf s)(last ?zs := Some (hd ?zs))" "pf t = (pf s)(hd ?zs := Some (last ?zs))"
    "\<forall>c. body (bufs t ! c) = body (bufs s ! c)" "length (bufs t) = length (bufs s)"
    "free_list t = (if free_list s = b then hd ?zs else free_list s)" "rest t = rest s"
    "hash_table t = (if hash_table s ! key_hash (bufs s ! b) = Some b
       then (hash_table s)[key_hash (bufs s ! b) := nx s b] else hash_table s)"
    using remove_from_queues_fields [OF rh(2,1) bounds] unfolding Let_def
    by (elim exE conjE) (rule that)
  note key = body_keys [OF t(6)]
  have r: "ring (nf t) (pf t) (xs @ ys)" "set (xs @ ys) = X - {b}" "hd (xs @ ys) = free_list t"
  proof -
    show "ring (nf t) (pf t) (xs @ ys)"
      using rh(5) ring_rotate [of "nf t" "pf t" ys xs] unfolding t(4,5) by simp
    show "set (xs @ ys) = X - {b}" using ring(4) by auto
    show "hd (xs @ ys) = free_list t"
      using X(4) ring(3) by (cases xs) (auto simp: t(8) rg)
  qed
  have chains: "hash_chain t (X - {b}) k (remove1 b (ch k))" if "k < NR_HASH" for k
    by (rule remove_chain [OF q b(1) that t(2,3,6,10)])
  have "unique_keys t (X - {b})"
    using in_queuesD(6) [OF q] by (simp add: unique_keys_def key)
  moreover have "nx t c = None \<and> pv t c = None" if "c \<in> X - {b}" "b_dev (bufs t ! c) = 0" for c
  proof -
    have "nx s c = None \<and> pv s c = None" using that in_queuesD(7) [OF q, of c] by (simp add: key)
    moreover have "pv s b \<noteq> Some c" "nx s b \<noteq> Some c" using nbr [of c] that(2) unfolding key by blast+
    ultimately show ?thesis by (simp add: t(2,3) unlink_next_def unlink_prev_def)
  qed
  moreover have "length (hash_table t) = NR_HASH" using in_queuesD(2) [OF q] by (simp add: t(10))
  ultimately have "in_queues t (X - {b}) (xs @ ys) (\<lambda>k. remove1 b (ch k))"
    using r chains X(1) unfolding in_queues_def t(7) by blast
  then show ?thesis using t by blast
qed

lemma insert_in_queues:
  assumes q: "in_queues s X rg ch" and b: "b \<notin> X" "b < length (bufs s)" "b_dev (bufs s ! b) \<noteq> 0"
    and new: "\<And>c. c \<in> X \<Longrightarrow> b_dev (bufs s ! c) \<noteq> b_dev (bufs s ! b) \<or> b_blocknr (bufs s ! c) \<noteq> b_blocknr (bufs s ! b)"
  defines "t \<equiv> insert_into_queues b s" and "kb \<equiv> key_hash (bufs s ! b)"
  shows "in_queues t (insert b X) (rg @ [b]) (ch(kb := b # ch kb))"
    "\<forall>c. body (bufs t ! c) = body (bufs s ! c)" "length (bufs t) = length (bufs s)" "rest t = rest s"
proof -
  note X = in_queuesD [OF q]
  have rg: "rg \<noteq> []" using X(3) by (simp add: ring_def)
  have f: "free_list s \<in> X" "last rg \<in> X" using rg X(4,5) by (metis hd_in_set, metis last_in_set)
  have bounds: "pf s (free_list s) = Some (last rg)" "last rg \<noteq> b" "free_list s \<noteq> b"
    "last rg < length (bufs s)" "free_list s < length (bufs s)"
    using ring_ends [OF X(3)] X(1,5) f b(1) by auto
  have kb: "kb < NR_HASH" by (simp add: kb_def key_hash_less)
  then have k: "key_hash (bufs s ! b) < length (hash_table s)" by (simp add: X(2) kb_def)
  have head: "\<forall>n. hash_table s ! key_hash (bufs s ! b) = Some n \<longrightarrow> n \<noteq> b \<and> n < length (bufs s)"
    using hash_chain_head [OF q kb] X(1) X(10) [OF kb] b(1) unfolding kb_def by blast
  note t = insert_into_queues_fields [OF bounds b(2,3) k head, folded t_def kb_def]
  show body: "\<forall>c. body (bufs t ! c) = body (bufs s ! c)" and len: "length (bufs t) = length (bufs s)"
    and "rest t = rest s" using t(5,6,9) by auto
  note key = body_keys [OF body]
  have "ring (nf t) (pf t) (rg @ [b])"
    using ring_insert [OF X(3), of b] X(4,5) b(1) by (simp add: t(1,2))
  moreover have "hash_chain t (insert b X) k' ((ch(kb := b # ch kb)) k')" if k': "k' < NR_HASH" for k'
  proof (cases "k' = kb")
    case True
    have "b \<notin> set (ch kb)" using X(10) [OF kb] b(1) by auto
    then have "dlist (nx t) (pv t) (Some b) None (b # ch kb)"
      unfolding t(3,4) using X(8,9) [OF kb] by (intro dlist_push)
    moreover have "hash_table t ! kb = Some b" using kb X(2) by (simp add: t(7))
    moreover have "set (b # ch kb) = {c \<in> insert b X. b_dev (bufs t ! c) \<noteq> 0 \<and> key_hash (bufs t ! c) = kb}"
      using X(10) [OF kb] b(3) by (auto simp: key kb_def)
    ultimately show ?thesis using True X(9) [OF kb] \<open>b \<notin> set (ch kb)\<close> by (simp add: hash_chain_def)
  next
    case False
    have "nx t c = nx s c \<and> pv t c = pv s c" if "c \<in> set (ch k')" for c
    proof -
      have "c \<in> X" "key_hash (bufs s ! c) = k'" using that X(10) [OF k'] by auto
      moreover from this have "hash_table s ! kb \<noteq> Some c"
        using hash_chain_head [OF q kb, of c] X(10) [OF kb] False by auto
      ultimately show ?thesis using b(1) by (auto simp: t(3,4) push_next_def push_prev_def)
    qed
    moreover have "hash_table t ! k' = hash_table s ! k'" using False by (simp add: t(7))
    ultimately have "dlist (nx t) (pv t) (hash_table t ! k') None (ch k')"
      using X(8) [OF k'] dlist_frame [of "ch k'" "nx t" "nx s" "pv t" "pv s"] by simp
    moreover have "set (ch k') = {c \<in> insert b X. b_dev (bufs t ! c) \<noteq> 0 \<and> key_hash (bufs t ! c) = k'}"
      using X(10) [OF k'] False by (auto simp: key kb_def)
    ultimately show ?thesis using False X(9) [OF k'] by (simp add: hash_chain_def)
  qed
  moreover have "unique_keys t (insert b X)"
    using X(6) new unfolding unique_keys_def key by (metis insert_iff)
  moreover have "nx t c = None \<and> pv t c = None" if c: "c \<in> insert b X" "b_dev (bufs t ! c) = 0" for c
  proof -
    have cX: "c \<in> X" "c \<noteq> b" "b_dev (bufs s ! c) = 0" using c b by (auto simp: key)
    moreover have "hash_table s ! kb \<noteq> Some c" using hash_chain_head [OF q kb, of c] X(10) [OF kb] cX(3) by auto
    ultimately show ?thesis using X(7) [of c] by (auto simp: t(3,4) push_next_def push_prev_def)
  qed
  ultimately show "in_queues t (insert b X) (rg @ [b]) (ch(kb := b # ch kb))"
    using X(1,2,4,5) b(2) rg unfolding in_queues_def len t(7,8) by auto
qed

section \<open>Searching\<close>

lemma find_from_chain:
  assumes "dlist (nx s) (pv s) p q xs" "length xs \<le> n"
  shows "find_from n p dev block (bufs s) = find (\<lambda>b. b_dev (bufs s ! b) = dev \<and> b_blocknr (bufs s ! b) = block) xs"
  using assms
proof (induction xs arbitrary: p q n)
  case Nil
  then show ?case by (cases n) auto
next
  case (Cons a xs)
  then show ?case by (cases n) (auto simp: nx_def)
qed

lemma in_queues_find:
  assumes q: "in_queues s {..<length (bufs s)} rg ch" and dev: "dev \<noteq> 0"
  shows "find_buffer dev block s = Some b \<longleftrightarrow>
    b < length (bufs s) \<and> b_dev (bufs s ! b) = dev \<and> b_blocknr (bufs s ! b) = block"
proof -
  let ?k = "hashfn dev block" and ?P = "\<lambda>b. b_dev (bufs s ! b) = dev \<and> b_blocknr (bufs s ! b) = block"
  have k: "?k < NR_HASH" by (simp add: hashfn_def NR_HASH_def)
  note c = in_queuesD(8-10) [OF q k]
  have "set (ch ?k) \<subseteq> {..<length (bufs s)}" unfolding c(3) by auto
  then have "length (ch ?k) \<le> length (bufs s)"
    using card_mono [of "{..<length (bufs s)}" "set (ch ?k)"] distinct_card [OF c(2)] by simp
  then have f: "find_buffer dev block s = find ?P (ch ?k)"
    using find_from_chain [OF c(1)] by (simp add: find_buffer_def)
  have unique: "b' = b" if "?P b" "?P b'" "b < length (bufs s)" "b' < length (bufs s)" for b b'
    using in_queuesD(6) [OF q] that dev unfolding unique_keys_def by auto
  show ?thesis
  proof
    assume "find_buffer dev block s = Some b"
    then have "b \<in> set (ch ?k)" "?P b" unfolding f by (auto simp: find_Some_iff)
    then show "b < length (bufs s) \<and> ?P b" using c(3) by auto
  next
    assume b: "b < length (bufs s) \<and> ?P b"
    then have "b \<in> set (ch ?k)" using c(3) dev by (auto simp: key_hash_def)
    then obtain b' where "find ?P (ch ?k) = Some b'" using b by (cases "find ?P (ch ?k)") (auto simp: find_None_iff)
    moreover from this have "b' \<in> set (ch ?k)" "?P b'" by (auto simp: find_Some_iff)
    then have "b' = b" using unique [of b b'] b c(3) by auto
    ultimately show "find_buffer dev block s = Some b" by (simp add: f)
  qed
qed

lemma find_buffer_iff:
  "cache_ok s \<Longrightarrow> dev \<noteq> 0 \<Longrightarrow> find_buffer dev block s = Some b \<longleftrightarrow>
    b < length (bufs s) \<and> b_dev (bufs s ! b) = dev \<and> b_blocknr (bufs s ! b) = block"
  unfolding cache_ok_def using in_queues_find by blast

lemma cache_ok_upd_buf:
  assumes "cache_ok s" and "b_dev (f (bufs s ! b)) = b_dev (bufs s ! b)" "b_blocknr (f (bufs s ! b)) = b_blocknr (bufs s ! b)"
    "b_next (f (bufs s ! b)) = b_next (bufs s ! b)" "b_prev (f (bufs s ! b)) = b_prev (bufs s ! b)"
    "b_next_free (f (bufs s ! b)) = b_next_free (bufs s ! b)" "b_prev_free (f (bufs s ! b)) = b_prev_free (bufs s ! b)"
  shows "cache_ok (upd_buf b f s)"
proof -
  have "in_queues (upd_buf b f s) X rg ch = in_queues s X rg ch" for X rg ch
    by (rule in_queues_cong) (use assms in \<open>auto simp: nx_def pv_def nf_def pf_def fun_eq_iff nth_upd\<close>)
  then show ?thesis using assms(1) by (simp add: cache_ok_def)
qed

section \<open>The end of \<open>getblk\<close>\<close>

lemma take_buffer_ok:
  assumes ok: "cache_ok s" and b: "b < length (bufs s)" and dev: "dev \<noteq> 0" and miss: "find_buffer dev block s = None"
  shows "\<exists>t. take_buffer b dev block s = Ret (b, t) \<and> cache_ok t \<and> rest t = rest s
    \<and> length (bufs t) = length (bufs s) \<and> (\<forall>c. c \<noteq> b \<longrightarrow> body (bufs t ! c) = body (bufs s ! c))
    \<and> body (bufs t ! b) = body ((bufs s ! b)\<lparr>b_count := 1, b_dirt := False, b_uptodate := False,
         b_dev := dev, b_blocknr := block\<rparr>)"
proof -
  let ?X = "{..<length (bufs s)}"
  obtain rg ch where q: "in_queues s ?X rg ch" and two: "2 \<le> length (bufs s)"
    using ok by (auto simp: cache_ok_def)
  let ?f = "\<lambda>h. h\<lparr>b_count := 1, b_dirt := False, b_uptodate := False\<rparr>"
  let ?s0 = "upd_buf b ?f s"
  have q0: "in_queues ?s0 ?X rg ch"
    using q by (subst in_queues_cong [of _ s]) (auto simp: nx_def pv_def nf_def pf_def fun_eq_iff nth_upd)
  have "?X \<noteq> {b}" using two by (metis card.empty card.insert card_lessThan empty_iff finite.intros(1) not_numeral_le_zero numeral_2_eq_2 not_less_eq_eq Suc_le_mono le0 order_refl)
  then obtain u rg' ch' where u: "remove_from_queues b ?s0 = Ret u" "in_queues u (?X - {b}) rg' ch'"
    "\<forall>c. body (bufs u ! c) = body (bufs ?s0 ! c)" "length (bufs u) = length (bufs ?s0)" "rest u = rest ?s0"
    using remove_in_queues [OF q0, of b] b by auto
  let ?g = "\<lambda>h. h\<lparr>b_dev := dev, b_blocknr := block\<rparr>"
  let ?v = "upd_buf b ?g u"
  have len: "length (bufs ?v) = length (bufs s)" using u(4) by simp
  have v: "in_queues ?v (?X - {b}) rg' ch'"
    using u(2) by (subst in_queues_cong [of _ u]) (auto simp: nx_def pv_def nf_def pf_def fun_eq_iff nth_upd)
  have vb: "b_dev (bufs ?v ! b) = dev" "b_blocknr (bufs ?v ! b) = block"
    using b u(4) by simp_all
  have other: "b_dev (bufs ?v ! c) = b_dev (bufs s ! c)" "b_blocknr (bufs ?v ! c) = b_blocknr (bufs s ! c)" if "c \<noteq> b" for c
    using body_keys [OF u(3), of c] that by simp_all
  have new: "b_dev (bufs ?v ! c) \<noteq> b_dev (bufs ?v ! b) \<or> b_blocknr (bufs ?v ! c) \<noteq> b_blocknr (bufs ?v ! b)"
    if "c \<in> ?X - {b}" for c
  proof -
    have "\<not> (b_dev (bufs s ! c) = dev \<and> b_blocknr (bufs s ! c) = block)"
      using in_queues_find [OF q dev, of block c] miss that by auto
    then show ?thesis using other [of c] vb that by auto
  qed
  define t where "t = insert_into_queues b ?v"
  have t: "in_queues t (insert b (?X - {b})) (rg' @ [b]) (ch'(key_hash (bufs ?v ! b) := b # ch' (key_hash (bufs ?v ! b))))"
    "\<forall>c. body (bufs t ! c) = body (bufs ?v ! c)" "length (bufs t) = length (bufs ?v)" "rest t = rest ?v"
    unfolding t_def using insert_in_queues [OF v, of b] b len dev vb new by auto
  have "insert b (?X - {b}) = {..<length (bufs t)}" using b t(3) len by auto
  then have "cache_ok t" using t(1,3) two len by (auto simp: cache_ok_def)
  moreover have "take_buffer b dev block s = Ret (b, t)"
    unfolding take_buffer_def Let_def u(1) t_def by simp
  moreover have "body (bufs t ! c) = body (bufs s ! c)" if "c \<noteq> b" for c
    using t(2) u(3) that by simp
  moreover have "body (bufs t ! b) = body ((bufs s ! b)\<lparr>b_count := 1, b_dirt := False, b_uptodate := False,
         b_dev := dev, b_blocknr := block\<rparr>)"
  proof -
    have ub: "body (bufs u ! b) = body (?f (bufs s ! b))" using u(3) b by simp
    have "body (?g h) = (body h)\<lparr>b_dev := dev, b_blocknr := block\<rparr>" for h by (cases h) (simp add: body_def)
    then have "body (bufs t ! b) = (body (?f (bufs s ! b)))\<lparr>b_dev := dev, b_blocknr := block\<rparr>"
      using t(2) b u(4) ub by simp
    then show ?thesis by (cases "bufs s ! b") (simp add: body_def)
  qed
  ultimately show ?thesis
    using t(3,4) len u(5) by (intro exI [of _ t]) simp
qed

section \<open>Choosing a buffer\<close>

text \<open>The search of \<open>getblk\<close> over the ring, as a function of the list.\<close>

fun pick_list :: "buffer_head list \<Rightarrow> nat option \<Rightarrow> nat list \<Rightarrow> nat option" where
  "pick_list bs bh [] = bh"
| "pick_list bs bh (a # xs) =
    (if b_count (bs ! a) \<noteq> 0 then pick_list bs bh xs
     else if bh = None \<or> BADNESS (bs ! a) < BADNESS (bs ! the bh)
     then if BADNESS (bs ! a) = 0 then Some a else pick_list bs (Some a) xs
     else pick_list bs bh xs)"

lemma pick_buffer_list:
  assumes "linked (nf s) (pf s) (a # xs @ [fl])" "fl \<notin> set xs" "length xs < n"
  shows "pick_buffer n a bh fl (bufs s) = pick_list (bufs s) bh (a # xs)"
  using assms
proof (induction xs arbitrary: a bh n)
  case Nil
  then show ?case by (cases n) (auto simp: Let_def nf_def)
next
  case (Cons c xs)
  then obtain m where n: "n = Suc m" by (cases n) auto
  have "nf s a = Some c" "c \<noteq> fl" using Cons.prems by auto
  then show ?case using Cons n by (auto simp: Let_def nf_def)
qed

text \<open>The choice is the first of the unused buffers that are least bad.\<close>

lemma pick_list_best:
  assumes "\<And>a. bh = Some a \<Longrightarrow> b_count (bs ! a) = 0"
  shows "pick_list bs bh xs = Some b \<Longrightarrow> (b \<in> set xs \<or> bh = Some b) \<and> b_count (bs ! b) = 0
    \<and> (\<forall>c\<in>set xs. b_count (bs ! c) = 0 \<longrightarrow> BADNESS (bs ! b) \<le> BADNESS (bs ! c))
    \<and> (\<forall>c. bh = Some c \<longrightarrow> BADNESS (bs ! b) \<le> BADNESS (bs ! c))"
  using assms
proof (induction bs bh xs rule: pick_list.induct)
  case (2 bs bh a xs)
  consider "b_count (bs ! a) \<noteq> 0"
    | "b_count (bs ! a) = 0" "bh = None \<or> BADNESS (bs ! a) < BADNESS (bs ! the bh)" "BADNESS (bs ! a) = 0"
    | "b_count (bs ! a) = 0" "bh = None \<or> BADNESS (bs ! a) < BADNESS (bs ! the bh)" "BADNESS (bs ! a) \<noteq> 0"
    | "b_count (bs ! a) = 0" "\<not> (bh = None \<or> BADNESS (bs ! a) < BADNESS (bs ! the bh))"
    by blast
  then show ?case
  proof cases
    case 1
    then show ?thesis using 2(1,4,5) by auto
  next
    case two: 2
    then have "b = a" using 2(4) by auto
    then show ?thesis using two by auto
  next
    case 3
    then have "pick_list bs (Some a) xs = Some b" using 2(4) by auto
    from 2(2) [OF _ 3(2,3) this] 3(1) have ih: "(b \<in> set xs \<or> a = b) \<and> b_count (bs ! b) = 0"
      "\<forall>c\<in>set xs. b_count (bs ! c) = 0 \<longrightarrow> BADNESS (bs ! b) \<le> BADNESS (bs ! c)" "BADNESS (bs ! b) \<le> BADNESS (bs ! a)"
      by simp_all
    moreover have "BADNESS (bs ! b) \<le> BADNESS (bs ! c)" if "bh = Some c" for c
      using 3(2) ih(3) that by simp
    ultimately show ?thesis by auto
  next
    case 4
    then obtain c where c: "bh = Some c" "BADNESS (bs ! c) \<le> BADNESS (bs ! a)" by auto
    have "pick_list bs bh xs = Some b" using 2(4) 4 by auto
    from 2(3) [OF _ 4(2) this 2(5)] 4(1) have "(b \<in> set xs \<or> bh = Some b) \<and> b_count (bs ! b) = 0"
      "\<forall>c\<in>set xs. b_count (bs ! c) = 0 \<longrightarrow> BADNESS (bs ! b) \<le> BADNESS (bs ! c)" "BADNESS (bs ! b) \<le> BADNESS (bs ! c)"
      using c(1) by simp_all
    moreover from this(3) c(2) have "BADNESS (bs ! b) \<le> BADNESS (bs ! a)" by (rule order_trans)
    ultimately show ?thesis using c(1) by simp
  qed
qed simp

lemma pick_list_Some: "pick_list bs (Some a) xs \<noteq> None"
  by (induction xs arbitrary: a) simp_all

lemma pick_list_None: "pick_list bs None xs = None \<Longrightarrow> c \<in> set xs \<Longrightarrow> b_count (bs ! c) \<noteq> 0"
  by (induction xs) (auto simp: pick_list_Some split: if_splits)

lemma pick_buffer_best:
  assumes "cache_ok s"
  defines "r \<equiv> pick_buffer (length (bufs s)) (free_list s) None (free_list s) (bufs s)"
  shows "r = Some b \<Longrightarrow> b < length (bufs s) \<and> b_count (bufs s ! b) = 0
      \<and> (\<forall>c<length (bufs s). b_count (bufs s ! c) = 0 \<longrightarrow> BADNESS (bufs s ! b) \<le> BADNESS (bufs s ! c))"
    and "r = None \<Longrightarrow> c < length (bufs s) \<Longrightarrow> b_count (bufs s ! c) \<noteq> 0"
proof -
  obtain rg ch where q: "in_queues s {..<length (bufs s)} rg ch" using assms(1) by (auto simp: cache_ok_def)
  note X = in_queuesD(3-5) [OF q]
  obtain a xs where rg: "rg = a # xs" using X(1) by (cases rg) (auto simp: ring_def)
  have "linked (nf s) (pf s) (a # xs @ [a])" "a \<notin> set xs" "distinct rg"
    using X(1) by (auto simp: ring_def rg)
  moreover have "length rg = length (bufs s)" using distinct_card [of rg] X(1,2) by (simp add: ring_def)
  ultimately have r: "r = pick_list (bufs s) None rg"
    using pick_buffer_list [of s a xs a "length (bufs s)" None] X(3) by (simp add: r_def rg)
  show "r = Some b \<Longrightarrow> b < length (bufs s) \<and> b_count (bufs s ! b) = 0
      \<and> (\<forall>c<length (bufs s). b_count (bufs s ! c) = 0 \<longrightarrow> BADNESS (bufs s ! b) \<le> BADNESS (bufs s ! c))"
    using pick_list_best [of None "bufs s" rg b] X(2) unfolding r by auto
  show "r = None \<Longrightarrow> c < length (bufs s) \<Longrightarrow> b_count (bufs s ! c) \<noteq> 0"
    using pick_list_None [of "bufs s" rg c] X(2) unfolding r by auto
qed

end
