(* ===== verification/Buffer_Init.thy ===== *)
theory Buffer_Init imports Cache_Inv begin

text \<open>
  \<open>buffer_init\<close>: the memory between the end of the kernel and the end of the buffer area is divided
  into buffers. The blocks do not overlap each other, the buffer heads or the memory from 640 KB to
  1 MB, and the ring and the empty hash table that are set up satisfy the invariant of the cache.
\<close>

section \<open>The blocks\<close>

text \<open>The start address of a block and the heads below it.\<close>

definition clear_of_screen :: "nat \<Rightarrow> bool" where
  "clear_of_screen x \<longleftrightarrow> x + 1024 \<le> 0xA0000 \<or> 0x100000 \<le> x"

definition usable_end :: "nat \<Rightarrow> bool" where
  "usable_end b \<longleftrightarrow> 1024 dvd b \<and> (b \<le> 0xA0000 \<or> 0x100000 < b)"

lemma buffer_blocks_Suc:
  "buffer_blocks (Suc n) h b = (if b < 1024 \<or> b - 1024 < h + 36 then []
    else (b - 1024) # buffer_blocks n (h + 36) (if b - 1024 = 0x100000 then 0xA0000 else b - 1024))"
  by (simp add: BLOCK_SIZE_def sizeof_buffer_head_def Let_def)

declare buffer_blocks.simps(2) [simp del]

lemma buffer_blocks_numeral:
  "buffer_blocks (numeral k) h b = (if b < 1024 \<or> b - 1024 < h + 36 then []
    else (b - 1024) # buffer_blocks (pred_numeral k) (h + 36)
      (if b - 1024 = 0x100000 then 0xA0000 else b - 1024))"
  by (simp add: numeral_eq_Suc buffer_blocks_Suc)

lemma usable_end_step:
  assumes "usable_end b" "1024 \<le> b"
  defines "c \<equiv> b - 1024"
  defines "c' \<equiv> if c = 0x100000 then 0xA0000 else c"
  shows "usable_end c'" "c' \<le> c" "clear_of_screen c" "1024 dvd c" "c + 1024 = b"
proof -
  show c: "c + 1024 = b" using assms(2) by (simp add: c_def)
  show d: "1024 dvd c" using assms(1,2) by (simp add: usable_end_def c_def)
  show "c' \<le> c" by (simp add: c'_def)
  show "clear_of_screen c" "usable_end c'"
    using assms(1) d c by (auto simp: usable_end_def clear_of_screen_def c'_def elim!: dvdE)
qed

definition block_ok :: "nat \<Rightarrow> nat \<Rightarrow> nat \<Rightarrow> nat \<Rightarrow> bool" where
  "block_ok h k b x \<longleftrightarrow> x + 1024 \<le> b \<and> h + 36 * k \<le> x \<and> clear_of_screen x \<and> 1024 dvd x"

lemma buffer_blocks_ok:
  "usable_end b \<Longrightarrow> (\<forall>x\<in>set (buffer_blocks n h b). block_ok h (length (buffer_blocks n h b)) b x)
    \<and> sorted_wrt (\<lambda>x y. y + 1024 \<le> x) (buffer_blocks n h b)"
proof (induction n arbitrary: h b)
  case (Suc n)
  let ?c = "b - 1024"
  let ?c' = "if ?c = 0x100000 then 0xA0000 else ?c"
  show ?case
  proof (cases "b < 1024 \<or> ?c < h + 36")
    case True
    then show ?thesis by (simp add: buffer_blocks_Suc)
  next
    case False
    let ?r = "buffer_blocks n (h + 36) ?c'"
    have e: "buffer_blocks (Suc n) h b = ?c # ?r" using False by (simp add: buffer_blocks_Suc)
    have b: "1024 \<le> b" using False by simp
    note u = usable_end_step [OF Suc.prems b]
    note ih = Suc.IH [OF u(1), of "h + 36"]
    have rest: "block_ok h (Suc (length ?r)) b x" "x + 1024 \<le> ?c" if "x \<in> set ?r" for x
      using ih that u(2,5) by (auto simp: block_ok_def)
    have "h + 36 * Suc (length ?r) \<le> ?c"
    proof (cases ?r)
      case (Cons y ys)
      then have "y \<in> set ?r" by simp
      from rest [OF this] show ?thesis by (auto simp: block_ok_def)
    qed (use False in simp)
    then have "block_ok h (Suc (length ?r)) b ?c" using u by (simp add: block_ok_def)
    then show ?thesis using rest ih unfolding e by simp
  qed
qed simp

text \<open>The number of rounds allowed is enough: more rounds find no more blocks.\<close>

lemma buffer_blocks_enough: "b div 1024 \<le> n \<Longrightarrow> buffer_blocks (n + k) h b = buffer_blocks n h b"
proof (induction n arbitrary: h b)
  case 0
  then have "b < 1024" by simp
  then show ?case by (cases k) (simp_all add: buffer_blocks_Suc)
next
  case (Suc n)
  have "(if b - 1024 = 0x100000 then 0xA0000 else b - 1024) div 1024 \<le> n"
    using Suc.prems by (auto simp: le_div_geq split: if_splits)
  then show ?case using Suc.IH by (simp add: buffer_blocks_Suc)
qed

definition init_blocks :: "nat \<Rightarrow> nat \<Rightarrow> nat list" where
  "init_blocks start_buffer buffer_end =
    (let b = (if buffer_end = 1048576 then 640 * 1024 else buffer_end)
     in buffer_blocks (b div 1024) start_buffer b)"

lemma buffer_init_blocks:
  "buffer_init start_buffer buffer_end old s =
    (let blocks = init_blocks start_buffer buffer_end
     in s\<lparr>bufs := map (init_buffer (mem s) old blocks) [0..<length blocks],
          free_list := 0, hash_table := replicate NR_HASH None\<rparr>)"
  by (simp add: buffer_init_def init_blocks_def Let_def BLOCK_SIZE_def)

text \<open>C31: the blocks \<open>buffer_init\<close> makes, for a buffer area that ends on a block boundary at or below
  640 KB, at 1 MB or above it: they lie inside the area and above all buffer heads, none touches
  the memory from 640 KB to 1 MB, no two overlap, and the loop that finds them ends because no
  further block fits.\<close>

theorem buffer_init_bounds:
  fixes e st :: nat
  assumes "1024 dvd e" "e \<le> 0xA0000 \<or> 0x100000 \<le> e"
  defines "bs \<equiv> init_blocks st e" and "b \<equiv> if e = 0x100000 then 0xA0000 else e"
  shows "length (bufs (buffer_init st e old s)) = length bs
    \<and> (\<forall>x\<in>set bs. x + 1024 \<le> e \<and> st + 36 * length bs \<le> x \<and> (x + 1024 \<le> 0xA0000 \<or> 0x100000 \<le> x))
    \<and> sorted_wrt (\<lambda>x y. y + 1024 \<le> x) bs
    \<and> (\<forall>k. buffer_blocks (b div 1024 + k) st b = bs)"
proof -
  have u: "usable_end b" using assms(1,2) by (auto simp: usable_end_def b_def)
  have bs: "bs = buffer_blocks (b div 1024) st b"
    by (simp add: bs_def init_blocks_def b_def)
  have "b \<le> e" by (simp add: b_def)
  then have "\<forall>x\<in>set bs. x + 1024 \<le> e \<and> st + 36 * length bs \<le> x \<and> (x + 1024 \<le> 0xA0000 \<or> 0x100000 \<le> x)"
    using buffer_blocks_ok [OF u, of "b div 1024" st] unfolding bs block_ok_def clear_of_screen_def
    by (meson order_trans)
  moreover have "length (bufs (buffer_init st e old s)) = length bs"
    by (simp add: buffer_init_blocks bs_def Let_def)
  ultimately show ?thesis
    using buffer_blocks_ok [OF u, of "b div 1024" st] buffer_blocks_enough [of b "b div 1024"] by (simp add: bs)
qed

lemma buffer_init_bounds_witness:
  "sorted_wrt (\<lambda>x y. y + 1024 \<le> x) (init_blocks 0x20000 0x400000)"
proof -
  have "1024 dvd (0x400000 :: nat)" by simp
  then show ?thesis using buffer_init_bounds [where e = "0x400000" and st = "0x20000"] by simp
qed

section \<open>The queues\<close>

lemma linked_upt:
  assumes "\<And>i. Suc i < n \<Longrightarrow> f i = Some (Suc i) \<and> g (Suc i) = Some i"
  shows "k \<le> n \<Longrightarrow> linked f g [0..<k]"
proof (induction k)
  case (Suc k)
  then show ?case using assms linked_snoc [of f g "[0..<k - 1]" "k - 1" k] by (cases k) simp_all
qed simp

lemma ring_upt:
  assumes "\<And>i. Suc i < n \<Longrightarrow> f i = Some (Suc i) \<and> g (Suc i) = Some i"
    and "0 < n" "f (n - 1) = Some 0" "g 0 = Some (n - 1)"
  shows "ring f g [0..<n]"
proof -
  obtain m where n: "n = Suc m" using assms(2) by (cases n) auto
  have "linked f g [0..<n]" using linked_upt [of n f g n] assms(1) by simp
  then have "linked f g ([0..<n] @ [0])"
    using linked_snoc [of f g "[0..<m]" m 0] assms(3,4) by (simp add: n)
  moreover have "hd [0..<n] = 0" using assms(2) by (simp add: upt_conv_Cons)
  ultimately show ?thesis using assms(2) by (simp add: ring_def)
qed

lemma fresh_queues:
  assumes "2 \<le> length bs" "\<And>i. i < length bs \<Longrightarrow> b_dev (bs ! i) = 0 \<and> b_next (bs ! i) = None \<and> b_prev (bs ! i) = None
      \<and> b_prev_free (bs ! i) = Some (if i = 0 then length bs - 1 else i - 1)
      \<and> b_next_free (bs ! i) = Some (if i = length bs - 1 then 0 else i + 1)"
  shows "cache_ok (s\<lparr>bufs := bs, free_list := 0, hash_table := replicate NR_HASH None\<rparr>)"
proof -
  let ?t = "s\<lparr>bufs := bs, free_list := 0, hash_table := replicate NR_HASH None\<rparr>"
  have "ring (nf ?t) (pf ?t) [0..<length bs]"
  proof (rule ring_upt)
    show "0 < length bs" using assms(1) by linarith
    then have "length bs - 1 < length bs" by simp
    with assms(2) [OF this] assms(2) [of 0] show "nf ?t (length bs - 1) = Some 0" "pf ?t 0 = Some (length bs - 1)"
      using \<open>0 < length bs\<close> by (auto simp: nf_def pf_def)
    fix i assume "Suc i < length bs"
    then show "nf ?t i = Some (Suc i) \<and> pf ?t (Suc i) = Some i"
      using assms(2) [of i] assms(2) [of "Suc i"] by (auto simp: nf_def pf_def)
  qed
  moreover have "hash_chain ?t {..<length bs} k []" if "k < NR_HASH" for k
    using that assms(2) by (auto simp: hash_chain_def)
  moreover have "unique_keys ?t {..<length bs}" using assms(2) by (auto simp: unique_keys_def)
  moreover have "hd [0..<length bs] = 0" using assms(1) by (cases bs) (simp_all add: upt_conv_Cons del: upt_Suc)
  ultimately have "in_queues ?t {..<length bs} [0..<length bs] (\<lambda>_. [])"
    using assms by (auto simp: in_queues_def nx_def pv_def)
  then show ?thesis using assms(1) by (auto simp: cache_ok_def)
qed

lemma buffer_init_fresh:
  assumes "2 \<le> length (init_blocks st e)"
  shows "cache_ok (buffer_init st e old s)
    \<and> (\<forall>b<length (init_blocks st e). b_count (bufs (buffer_init st e old s) ! b) = 0
        \<and> \<not> b_dirt (bufs (buffer_init st e old s) ! b) \<and> \<not> b_lock (bufs (buffer_init st e old s) ! b))"
proof -
  let ?bs = "map (init_buffer (mem s) old (init_blocks st e)) [0..<length (init_blocks st e)]"
  have "cache_ok (s\<lparr>bufs := ?bs, free_list := 0, hash_table := replicate NR_HASH None\<rparr>)"
    using assms by (intro fresh_queues) (auto simp: init_buffer_def Let_def)
  then show ?thesis
    by (simp add: buffer_init_blocks Let_def init_buffer_def)
qed

text \<open>C32: after \<open>buffer_init\<close> the cache satisfies its invariant, with every buffer clean and unused.\<close>

theorem buffer_init_cache_ok:
  assumes "2 \<le> length (init_blocks st e)"
  shows "cache_ok (buffer_init st e old s)
    \<and> (\<forall>b<length (init_blocks st e). b_count (bufs (buffer_init st e old s) ! b) = 0
        \<and> \<not> b_dirt (bufs (buffer_init st e old s) ! b) \<and> \<not> b_lock (bufs (buffer_init st e old s) ! b))"
  by (rule buffer_init_fresh [OF assms])

lemma buffer_init_cache_ok_witness: "cache_ok (buffer_init 0x1000 0x2000 (\<lambda>_. 0) blank_kernel)"
proof -
  have "2 \<le> length (init_blocks 0x1000 0x2000)" 
    by (simp add: init_blocks_def Let_def buffer_blocks_numeral)
  then show ?thesis by (rule buffer_init_cache_ok [THEN conjunct1])
qed

end
