(* ===== verification/Getblk.thy ===== *)
theory Getblk imports Buffer_Init Ramdisk Inode_Sync begin

text \<open>
  What \<open>getblk\<close> and \<open>bread\<close> give their callers while there is a clean unused buffer: the cache keeps its
  invariant and behaves as a finite map from blocks to buffers, and on the RAM disk the cache is
  transparent: a block read is the block as last written, whether it is in the cache or not.
\<close>

section \<open>\<open>getblk\<close>\<close>

definition clean_free :: "kernel \<Rightarrow> bool" where
  "clean_free s \<longleftrightarrow> (\<exists>c<length (bufs s). b_count (bufs s ! c) = 0 \<and> BADNESS (bufs s ! c) = 0)"

lemma BADNESS_0: "BADNESS h = 0 \<longleftrightarrow> \<not> b_dirt h \<and> \<not> b_lock h"
  by (simp add: BADNESS_def)

lemma getblk_miss:
  assumes "cache_ok s" "dev \<noteq> 0" "find_buffer dev block s = None" "clean_free s"
  shows "\<exists>b t. getblk_si si dev block s = Ret (b, t) \<and> b < length (bufs s)
    \<and> b_count (bufs s ! b) = 0 \<and> \<not> b_dirt (bufs s ! b) \<and> \<not> b_lock (bufs s ! b)
    \<and> cache_ok t \<and> rest t = rest s \<and> length (bufs t) = length (bufs s)
    \<and> (\<forall>c. c \<noteq> b \<longrightarrow> body (bufs t ! c) = body (bufs s ! c))
    \<and> body (bufs t ! b) = body ((bufs s ! b)\<lparr>b_count := 1, b_dirt := False, b_uptodate := False,
         b_dev := dev, b_blocknr := block\<rparr>)"
proof -
  obtain c where c: "c < length (bufs s)" "b_count (bufs s ! c) = 0" "BADNESS (bufs s ! c) = 0"
    using assms(4) by (auto simp: clean_free_def)
  obtain b where p: "pick_buffer (length (bufs s)) (free_list s) None (free_list s) (bufs s) = Some b"
    using pick_buffer_best(2) [OF assms(1) _ c(1)] c(2) by blast
  have b: "b < length (bufs s)" "b_count (bufs s ! b) = 0" "BADNESS (bufs s ! b) = 0"
    using pick_buffer_best(1) [OF assms(1) p] c by auto
  from take_buffer_ok [OF assms(1) b(1) assms(2,3)] obtain t where
    t: "take_buffer b dev block s = Ret (b, t)" "cache_ok t" "rest t = rest s" "length (bufs t) = length (bufs s)"
      "\<forall>c. c \<noteq> b \<longrightarrow> body (bufs t ! c) = body (bufs s ! c)"
      "body (bufs t ! b) = body ((bufs s ! b)\<lparr>b_count := 1, b_dirt := False, b_uptodate := False,
         b_dev := dev, b_blocknr := block\<rparr>)"
    by (elim exE conjE) (rule that)
  obtain n where n: "GETBLK_ROUNDS = Suc n" by (simp add: GETBLK_ROUNDS_def)
  have clean: "clean_buffer si m b s = Ret (False, s)" for m
    using b(3) by (cases m) (simp_all add: BADNESS_0)
  have "getblk_loop si (Suc n) dev block s = take_buffer b dev block s"
    using assms(3) b(2,3)
    by (simp add: get_hash_table_def numeral_2_eq_2 p wait_on_buffer_def clean BADNESS_0)
  then have "getblk_si si dev block s = Ret (b, t)"
    unfolding getblk_si_def n t(1) .
  with b t show ?thesis by (auto simp: BADNESS_0)
qed

lemma body_get:
  assumes "body h = body (g\<lparr>b_count := c, b_dirt := d, b_uptodate := u, b_dev := dv, b_blocknr := n\<rparr>)"
  shows "b_count h = c" "b_dirt h = d" "b_uptodate h = u" "b_dev h = dv" "b_blocknr h = n"
    "b_lock h = b_lock g" "b_data h = b_data g"
  using body_eqD [OF assms] by simp_all

text \<open>C8: \<open>getblk\<close> with a clean unused buffer at hand. A block in the cache is returned with its count
  raised and nothing else changed; otherwise an unused clean buffer is, now holding the block,
  used once and not valid. In both cases the buffer is not locked; the cache keeps its invariant, and no other
  buffer changes.\<close>

theorem getblk_correct:
  assumes "cache_ok s" "dev \<noteq> 0" "clean_free s"
    and "\<forall>b. find_buffer dev block s = Some b \<longrightarrow> \<not> b_lock (bufs s ! b)"
  shows "\<exists>b t. getblk dev block s = Ret (b, t) \<and> cache_ok t \<and> rest t = rest s
    \<and> find_buffer dev block t = Some b \<and> \<not> b_lock (bufs t ! b)
    \<and> (\<forall>c. c \<noteq> b \<longrightarrow> body (bufs t ! c) = body (bufs s ! c))
    \<and> (if find_buffer dev block s \<noteq> None then find_buffer dev block s = Some b \<and> t = incr_count b s
       else b_count (bufs s ! b) = 0 \<and> \<not> b_dirt (bufs s ! b) \<and> \<not> b_lock (bufs s ! b)
         \<and> b_count (bufs t ! b) = 1 \<and> \<not> b_uptodate (bufs t ! b) \<and> \<not> b_dirt (bufs t ! b))"
proof (cases "find_buffer dev block s")
  case (Some b)
  then have b: "b < length (bufs s)" "\<not> b_lock (bufs s ! b)"
    using find_buffer_iff [OF assms(1,2)] assms(4) by auto
  have "find_buffer dev block (incr_count b s) = Some b"
    using find_buffer_same_links [OF same_links_upd_buf, of _ s b dev block] Some by (simp add: incr_count_def)
  moreover have "cache_ok (incr_count b s)"
    unfolding incr_count_def by (rule cache_ok_upd_buf [OF assms(1)]) simp_all
  ultimately show ?thesis
    using getblk_hit [OF Some b(2,1)] Some b
    by (intro exI [of _ b] exI [of _ "incr_count b s"]) (simp add: incr_count_def)
next
  case None
  from getblk_miss [OF assms(1,2) None assms(3), of sync_inodes] obtain b t where
    t: "getblk dev block s = Ret (b, t)" "b < length (bufs s)" "b_count (bufs s ! b) = 0"
      "\<not> b_dirt (bufs s ! b)" "\<not> b_lock (bufs s ! b)" "cache_ok t" "rest t = rest s"
      "length (bufs t) = length (bufs s)" "\<forall>c. c \<noteq> b \<longrightarrow> body (bufs t ! c) = body (bufs s ! c)"
      "body (bufs t ! b) = body ((bufs s ! b)\<lparr>b_count := 1, b_dirt := False, b_uptodate := False,
         b_dev := dev, b_blocknr := block\<rparr>)"
    by (elim exE conjE) (rule that)
  note g = body_get [OF t(10)]
  have "find_buffer dev block t = Some b"
    using find_buffer_iff [OF t(6) assms(2)] t(2,8) g(4,5) by simp
  then show ?thesis using t g None by (intro exI [of _ b] exI [of _ t]) simp
qed

text \<open>The map from blocks to buffers after buffer \<open>b\<close> was given to a block.\<close>

lemma taken_map:
  assumes "cache_ok s" "cache_ok t" "length (bufs t) = length (bufs s)" "b < length (bufs s)"
    and body: "\<And>c. c \<noteq> b \<Longrightarrow> body (bufs t ! c) = body (bufs s ! c)"
    and g: "b_dev (bufs t ! b) = dev" "b_blocknr (bufs t ! b) = block" and "d \<noteq> 0"
  shows "find_buffer d n t = (if d = dev \<and> n = block then Some b
    else if find_buffer d n s = Some b then None else find_buffer d n s)"
proof -
  have key: "b_dev (bufs t ! c) = b_dev (bufs s ! c)" "b_blocknr (bufs t ! c) = b_blocknr (bufs s ! c)" if "c \<noteq> b" for c
    using body_eqD [OF body [OF that]] by simp_all
  have iff: "find_buffer d n t = Some c \<longleftrightarrow> c < length (bufs s) \<and> b_dev (bufs t ! c) = d \<and> b_blocknr (bufs t ! c) = n"
    "find_buffer d n s = Some c \<longleftrightarrow> c < length (bufs s) \<and> b_dev (bufs s ! c) = d \<and> b_blocknr (bufs s ! c) = n" for c
    using find_buffer_iff [OF assms(2,8)] find_buffer_iff [OF assms(1,8)] assms(3) by auto
  show ?thesis
  proof (cases "d = dev \<and> n = block")
    case True
    then show ?thesis using iff(1) [of b] assms(4) g by simp
  next
    case False
    have same: "find_buffer d n t = Some c \<longleftrightarrow> c \<noteq> b \<and> find_buffer d n s = Some c" for c
      using iff [of c] key [of c] g False by (cases "c = b") auto
    show ?thesis
    proof (cases "find_buffer d n t")
      case None
      then have "find_buffer d n s = None \<or> find_buffer d n s = Some b"
        using same by (metis option.exhaust_sel option.simps(3))
      then show ?thesis using None False by auto
    next
      case (Some c)
      then show ?thesis using same [of c] False by simp
    qed
  qed
qed

text \<open>C13: as a map from blocks to buffers, the cache after \<open>getblk\<close> holds the block, has lost at most
  the block of the buffer that was taken, and is otherwise the map it was.\<close>

theorem getblk_cache_map:
  assumes "cache_ok s" "dev \<noteq> 0" "clean_free s" "getblk dev block s = Ret (b, t)"
    and "\<forall>b. find_buffer dev block s = Some b \<longrightarrow> \<not> b_lock (bufs s ! b)" and "d \<noteq> 0"
  shows "find_buffer d n t = (if d = dev \<and> n = block then Some b
    else if find_buffer d n s = Some b then None else find_buffer d n s)"
proof (cases "find_buffer dev block s")
  case (Some c)
  then have c: "c < length (bufs s)" "\<not> b_lock (bufs s ! c)" "b_dev (bufs s ! c) = dev" "b_blocknr (bufs s ! c) = block"
    using find_buffer_iff [OF assms(1,2)] assms(5) by auto
  then have e: "b = c" "t = incr_count c s" using getblk_hit [OF Some c(2,1), of sync_inodes] assms(4) by auto
  have "find_buffer d n t = find_buffer d n s"
    unfolding e incr_count_def by (intro find_buffer_same_links same_links_upd_buf) simp_all
  moreover have "find_buffer d n s \<noteq> Some c" if "\<not> (d = dev \<and> n = block)"
    using that c find_buffer_Some by blast
  ultimately show ?thesis using Some e by auto
next
  case None
  from getblk_miss [OF assms(1,2) None assms(3), of sync_inodes] assms(4) have
    t: "b < length (bufs s)" "cache_ok t" "length (bufs t) = length (bufs s)"
      "\<And>c. c \<noteq> b \<Longrightarrow> body (bufs t ! c) = body (bufs s ! c)"
    and g: "b_dev (bufs t ! b) = dev" "b_blocknr (bufs t ! b) = block"
    by (auto dest: body_get)
  show ?thesis
    by (rule taken_map [OF assms(1) t(2,3,1,4) g assms(6)])
qed

section \<open>The RAM disk behind the cache\<close>

text \<open>What a block of the RAM disk holds for the rest of the kernel: the valid buffer, if there is one,
  else the disk.\<close>

definition contents :: "kernel \<Rightarrow> nat \<Rightarrow> u8 list" where
  "contents s n =
    (case find_buffer RAM_DEV n s of
       Some b \<Rightarrow> if b_uptodate (bufs s ! b) then b_data (bufs s ! b) else rd_disk s n
     | None \<Rightarrow> rd_disk s n)"

text \<open>A clean valid buffer agrees with the disk.\<close>

definition agrees :: "kernel \<Rightarrow> nat \<Rightarrow> bool" where
  "agrees s b \<longleftrightarrow> (b_dev (bufs s ! b) = RAM_DEV \<longrightarrow> rd_buffer s b
    \<and> (b_uptodate (bufs s ! b) \<and> \<not> b_dirt (bufs s ! b) \<longrightarrow> b_data (bufs s ! b) = rd_disk s (b_blocknr (bufs s ! b))))"

definition ram_ok :: "kernel \<Rightarrow> bool" where
  "ram_ok s \<longleftrightarrow> cache_ok s \<and> rd_ready s
    \<and> (\<forall>b<length (bufs s). length (b_data (bufs s ! b)) = 1024 \<and> agrees s b)"

lemma RAM_DEV_nz: "RAM_DEV \<noteq> 0"
  by (simp add: RAM_DEV_def)

lemma rd_ready_rest: "rest t = rest s \<Longrightarrow> rd_ready t = rd_ready s"
  using rest_eqD [of t s] by (simp add: rd_ready_def)

lemma rd_disk_rest: "rest t = rest s \<Longrightarrow> rd_disk t = rd_disk s"
  using rest_eqD [of t s] by (simp add: rd_disk_def fun_eq_iff)

lemma rd_buffer_body:
  assumes "rest t = rest s" "length (bufs t) = length (bufs s)" "body (bufs t ! c) = body (bufs s ! c)"
  shows "rd_buffer t c = rd_buffer s c" "agrees t c = agrees s c"
  using assms(2) body_eqD [OF assms(3)] rest_eqD [OF assms(1)] rd_disk_rest [OF assms(1)]
  by (simp_all add: rd_buffer_def agrees_def)

lemma contents_cached:
  assumes "cache_ok s" "b < length (bufs s)" "b_dev (bufs s ! b) = RAM_DEV"
  shows "contents s (b_blocknr (bufs s ! b)) =
    (if b_uptodate (bufs s ! b) then b_data (bufs s ! b) else rd_disk s (b_blocknr (bufs s ! b)))"
proof -
  have "find_buffer RAM_DEV (b_blocknr (bufs s ! b)) s = Some b"
    using find_buffer_iff [OF assms(1) RAM_DEV_nz] assms(2,3) by simp
  then show ?thesis by (simp add: contents_def)
qed

lemma contents_taken:
  assumes "cache_ok s" "cache_ok t" "length (bufs t) = length (bufs s)" "b < length (bufs s)"
    and body: "\<And>c. c \<noteq> b \<Longrightarrow> body (bufs t ! c) = body (bufs s ! c)"
    and g: "b_dev (bufs t ! b) = RAM_DEV" "b_blocknr (bufs t ! b) = n" "\<not> b_uptodate (bufs t ! b)"
    and miss: "find_buffer RAM_DEV n s = None" and clean: "agrees s b" "\<not> b_dirt (bufs s ! b)"
    and disk: "rd_disk t = rd_disk s"
  shows "contents t = contents s"
proof
  fix m
  have map: "find_buffer RAM_DEV m t = (if m = n then Some b
      else if find_buffer RAM_DEV m s = Some b then None else find_buffer RAM_DEV m s)"
    using taken_map [OF assms(1-4) body g(1,2) RAM_DEV_nz, of m] by simp
  show "contents t m = contents s m"
  proof (cases "find_buffer RAM_DEV m s")
    case None
    then show ?thesis using map g(3) by (simp add: contents_def disk)
  next
    case (Some c)
    then have c: "b_dev (bufs s ! c) = RAM_DEV" "b_blocknr (bufs s ! c) = m" "m \<noteq> n"
      using find_buffer_Some miss by auto
    show ?thesis
    proof (cases "c = b")
      case True
      then show ?thesis using map Some c clean by (auto simp: contents_def disk agrees_def)
    next
      case False
      then show ?thesis using map Some c(3) body_eqD(3,4) [OF body [OF False]] by (simp add: contents_def disk)
    qed
  qed
qed

text \<open>\<open>getblk\<close> keeps the contents of every block.\<close>

lemma getblk_contents:
  assumes ok: "ram_ok s" and n: "1024 * (n + 1) \<le> rd_length s" and free: "clean_free s"
    and room: "\<forall>b. find_buffer RAM_DEV n s = Some b \<longrightarrow> b_count (bufs s ! b) < 255"
  shows "\<exists>b t. getblk_si si RAM_DEV n s = Ret (b, t) \<and> ram_ok t \<and> contents t = contents s
    \<and> rd_buffer t b \<and> b_blocknr (bufs t ! b) = n \<and> 0 < b_count (bufs t ! b)"
proof (cases "find_buffer RAM_DEV n s")
  case (Some b)
  have c: "cache_ok s" and b: "b < length (bufs s)" "b_dev (bufs s ! b) = RAM_DEV" "b_blocknr (bufs s ! b) = n"
    using ok Some find_buffer_iff [OF _ RAM_DEV_nz] by (auto simp: ram_ok_def)
  then have rb: "rd_buffer s b" using ok by (auto simp: ram_ok_def agrees_def)
  then have unlocked: "\<not> b_lock (bufs s ! b)" by (simp add: rd_buffer_def)
  let ?t = "incr_count b s"
  have find: "find_buffer d m ?t = find_buffer d m s" for d m
    unfolding incr_count_def by (intro find_buffer_same_links same_links_upd_buf) simp_all
  have t: "b_data (bufs ?t ! c) = b_data (bufs s ! c)" "b_uptodate (bufs ?t ! c) = b_uptodate (bufs s ! c)"
    "b_dirt (bufs ?t ! c) = b_dirt (bufs s ! c)" "rd_buffer ?t c = rd_buffer s c" "rd_disk ?t = rd_disk s"
    "b_dev (bufs ?t ! c) = b_dev (bufs s ! c)" "b_blocknr (bufs ?t ! c) = b_blocknr (bufs s ! c)" for c
    by (auto simp: incr_count_def nth_upd rd_buffer_def rd_disk_def fun_eq_iff)
  have "cache_ok ?t" unfolding incr_count_def by (rule cache_ok_upd_buf [OF c]) simp_all
  moreover have "rd_ready ?t = rd_ready s" by (rule rd_ready_rest) (simp add: incr_count_def)
  ultimately have "ram_ok ?t"
    using ok by (simp add: ram_ok_def agrees_def t, simp add: incr_count_def)
  moreover have "contents ?t = contents s"
    by (simp add: contents_def fun_eq_iff find t split: option.split)
  moreover have "0 < b_count (bufs ?t ! b)" using b(1) room Some by (simp add: incr_count_def)
  ultimately show ?thesis
    using getblk_hit [OF Some _ b(1), of si] rb unlocked b(3) by (intro exI [of _ b] exI [of _ ?t]) (simp add: t)
next
  case None
  have c: "cache_ok s" using ok by (simp add: ram_ok_def)
  from getblk_miss [OF c RAM_DEV_nz None free, of si] obtain b t where
    t: "getblk_si si RAM_DEV n s = Ret (b, t)" "b < length (bufs s)" "b_count (bufs s ! b) = 0"
      "\<not> b_dirt (bufs s ! b)" "\<not> b_lock (bufs s ! b)" "cache_ok t" "rest t = rest s"
      "length (bufs t) = length (bufs s)" "\<forall>c. c \<noteq> b \<longrightarrow> body (bufs t ! c) = body (bufs s ! c)"
      "body (bufs t ! b) = body ((bufs s ! b)\<lparr>b_count := 1, b_dirt := False, b_uptodate := False,
         b_dev := RAM_DEV, b_blocknr := n\<rparr>)"
    by (elim exE conjE) (rule that)
  note g = body_get [OF t(10)]
  have data: "length (b_data (bufs s ! c)) = 1024" "agrees s c" if "c < length (bufs s)" for c
    using ok that by (auto simp: ram_ok_def)
  have len: "rd_length t = rd_length s" using rest_eqD [OF t(7)] by simp
  have rb: "rd_buffer t b" using g t(2,5,8) n data(1) [OF t(2)] by (simp add: rd_buffer_def len)
  have "length (b_data (bufs t ! c)) = 1024 \<and> agrees t c" if "c < length (bufs s)" for c
  proof (cases "c = b")
    case True
    then show ?thesis using rb g data(1) [OF t(2)] by (simp add: agrees_def)
  next
    case False
    then show ?thesis
      using t(9) data [OF that] body_eqD(3) [of "bufs t ! c" "bufs s ! c"] rd_buffer_body(2) [OF t(7,8)] by simp
  qed
  then have "ram_ok t"
    using t(6,8) ok rd_ready_rest [OF t(7)] by (simp add: ram_ok_def)
  moreover have "contents t = contents s"
  proof (rule contents_taken [OF c t(6,8,2)])
    show "\<And>c. c \<noteq> b \<Longrightarrow> body (bufs t ! c) = body (bufs s ! c)" using t(9) by simp
  qed (use t g None data(2) [OF t(2)] rd_disk_rest [OF t(7)] in simp_all)
  ultimately show ?thesis
    using t(1) rb g by (intro exI [of _ b] exI [of _ t]) simp
qed

lemma cache_ok_bufs:
  assumes "cache_ok s" "hash_table t = hash_table s" "free_list t = free_list s"
    "bufs t = (bufs s)[b := f (bufs s ! b)]"
    and "b_dev (f (bufs s ! b)) = b_dev (bufs s ! b)" "b_blocknr (f (bufs s ! b)) = b_blocknr (bufs s ! b)"
      "b_next (f (bufs s ! b)) = b_next (bufs s ! b)" "b_prev (f (bufs s ! b)) = b_prev (bufs s ! b)"
      "b_next_free (f (bufs s ! b)) = b_next_free (bufs s ! b)" "b_prev_free (f (bufs s ! b)) = b_prev_free (bufs s ! b)"
  shows "cache_ok t"
proof -
  have "in_queues t X rg ch = in_queues s X rg ch" for X rg ch
    by (rule in_queues_cong) (use assms in \<open>auto simp: nx_def pv_def nf_def pf_def fun_eq_iff nth_upd\<close>)
  then show ?thesis using assms(1,4) by (simp add: cache_ok_def)
qed

text \<open>Filling a buffer from the disk.\<close>

lemma ram_fill:
  assumes ok: "ram_ok s" and b: "rd_buffer s b" "\<not> b_uptodate (bufs s ! b)"
  shows "\<exists>t. ll_rw_block READ b s = Ret t \<and> ram_ok t \<and> contents t = contents s
    \<and> rd_buffer t b \<and> b_uptodate (bufs t ! b) \<and> b_blocknr (bufs t ! b) = b_blocknr (bufs s ! b)
    \<and> b_count (bufs t ! b) = b_count (bufs s ! b)"
proof -
  have c: "cache_ok s" "rd_ready s" and bl: "b < length (bufs s)" "b_dev (bufs s ! b) = RAM_DEV"
    using ok b by (auto simp: ram_ok_def rd_buffer_def)
  obtain r where r: "r < NR_REQUEST" "r_dev (requests s ! r) < 0" "ll_rw_block READ b s = Ret (rd_served r b READ s)"
    using ll_rw_block_rd [OF c(2) b(1), of READ] b(2) by (auto simp: READ_def WRITE_def)
  define t where "t = rd_served r b READ s"
  let ?f = "\<lambda>h. h\<lparr>b_data := rd_disk s (b_blocknr h), b_uptodate := True, b_dirt := False\<rparr>"
  have ready: "rd_ready t" and rd: "rd_buffer t = rd_buffer s" and disk: "rd_disk t = rd_disk s"
    using rd_served_simps [OF c(2) b(1) r(1,2), of READ] by (simp_all add: t_def READ_def WRITE_def)
  have bufs: "bufs t = (bufs s)[b := ?f (bufs s ! b)]" and links: "hash_table t = hash_table s" "free_list t = free_list s"
    using b(1) by (simp_all add: t_def rd_served_def Let_def READ_def WRITE_def rd_disk_def rd_buffer_def)
  have ct: "cache_ok t" by (rule cache_ok_bufs [where f = ?f and b = b, OF c(1) links bufs]) simp_all
  have len: "length (rd_disk s (b_blocknr (bufs s ! b))) = 1024"
    using b(1) by (simp add: rd_disk_def rd_buffer_def)
  have "length (b_data (bufs t ! c)) = 1024 \<and> agrees t c" if "c < length (bufs s)" for c
  proof (cases "c = b")
    case True
    then show ?thesis using bl len b(1) rd by (simp add: bufs agrees_def disk)
  next
    case False
    then show ?thesis using ok that rd by (simp add: bufs agrees_def ram_ok_def disk)
  qed
  then have "ram_ok t" using ct ready by (simp add: ram_ok_def bufs)
  moreover have "contents t = contents s"
  proof
    fix m
    have "same_links s t" by (auto simp: same_links_def bufs links nth_upd)
    then have f: "find_buffer RAM_DEV m t = find_buffer RAM_DEV m s" by (rule find_buffer_same_links)
    show "contents t m = contents s m"
    proof (cases "find_buffer RAM_DEV m s")
      case (Some c)
      then have "b_blocknr (bufs s ! c) = m" using find_buffer_Some by blast
      then show ?thesis using Some f bl b(2) by (cases "c = b") (simp_all add: contents_def bufs disk)
    qed (simp add: contents_def f disk)
  qed
  ultimately show ?thesis
    using r(3) rd b(1) bl by (intro exI [of _ t]) (simp add: t_def [symmetric] bufs)
qed

text \<open>C2: the cache is transparent on the RAM disk. While a clean buffer is unused, \<open>bread\<close> returns a
  valid buffer with the contents of the block, be it from the cache or from the disk, and the
  contents of all blocks are as before.\<close>

theorem bread_contents:
  assumes ok: "ram_ok s" and n: "1024 * (n + 1) \<le> rd_length s" and free: "clean_free s"
    and room: "\<forall>b. find_buffer RAM_DEV n s = Some b \<longrightarrow> b_count (bufs s ! b) < 255"
  shows "\<exists>b t. bread RAM_DEV n s = Ret (Some b, t) \<and> b_data (bufs t ! b) = contents s n
    \<and> b_uptodate (bufs t ! b) \<and> 0 < b_count (bufs t ! b) \<and> ram_ok t \<and> contents t = contents s"
proof -
  obtain b t where t: "getblk RAM_DEV n s = Ret (b, t)" "ram_ok t" "contents t = contents s"
    "rd_buffer t b" "b_blocknr (bufs t ! b) = n" "0 < b_count (bufs t ! b)"
    using getblk_contents [OF assms, of sync_inodes] by (elim exE conjE) (rule that)
  have data: "b_data (bufs u ! b) = contents u n"
    if "ram_ok u" "rd_buffer u b" "b_uptodate (bufs u ! b)" "b_blocknr (bufs u ! b) = n" for u
    using contents_cached [of u b] that by (simp add: ram_ok_def rd_buffer_def)
  show ?thesis
  proof (cases "b_uptodate (bufs t ! b)")
    case True
    then have "bread RAM_DEV n s = Ret (Some b, t)" by (simp add: bread_si_def t(1))
    then show ?thesis using t data [of t] True by auto
  next
    case False
    obtain u where u: "ll_rw_block READ b t = Ret u" "ram_ok u" "contents u = contents t" "rd_buffer u b"
      "b_uptodate (bufs u ! b)" "b_blocknr (bufs u ! b) = b_blocknr (bufs t ! b)" "b_count (bufs u ! b) = b_count (bufs t ! b)"
      using ram_fill [OF t(2,4) False] by (elim exE conjE) (rule that)
    then have "bread RAM_DEV n s = Ret (Some b, u)"
      using False by (simp add: bread_si_def t(1) wait_on_buffer_def rd_buffer_def)
    then show ?thesis using u t data [of u] by auto
  qed
qed

section \<open>A small cache\<close>

definition ram_example :: kernel where
  "ram_example = (snd (rd_init 0x200000 0x2000 blank_kernel))
    \<lparr>bufs := [blank_buffer\<lparr>b_prev_free := Some 1, b_next_free := Some 1\<rparr>,
              blank_buffer\<lparr>b_prev_free := Some 0, b_next_free := Some 0\<rparr>],
     free_list := 0, hash_table := replicate NR_HASH None\<rparr>"

lemma ram_example_bufs:
  "i < 2 \<Longrightarrow> bufs ram_example ! i = blank_buffer\<lparr>b_prev_free := Some (1 - i), b_next_free := Some (1 - i)\<rparr>"
  "length (bufs ram_example) = 2" "rd_length ram_example = 0x2000"
  by (auto simp: ram_example_def less_2_cases_iff rd_init_def Let_def)

lemma ram_example_ok: "ram_ok ram_example" "clean_free ram_example" "find_buffer d n ram_example = None"
proof -
  let ?bs = "bufs ram_example"
  have c: "cache_ok ram_example"
    unfolding ram_example_def by (rule fresh_queues) (auto simp: less_Suc_eq blank_buffer_def)
  have "rd_ready ram_example"
    by (auto simp: rd_ready_def ram_example_def rd_init_def Let_def blank_kernel_def NR_BLK_DEV_def NR_REQUEST_def
        intro!: exI [of _ 0])
  moreover have "length (b_data (?bs ! b)) = 1024 \<and> agrees ram_example b" if "b < 2" for b
    using that ram_example_bufs(1) [OF that] by (simp add: agrees_def RAM_DEV_def blank_buffer_def)
  ultimately show "ram_ok ram_example" using c by (simp add: ram_ok_def ram_example_bufs(2))
  show "clean_free ram_example"
    unfolding clean_free_def by (intro exI [of _ 0]) (simp add: ram_example_bufs blank_buffer_def BADNESS_def)
  have "hash_table ram_example ! hashfn d n = None"
    by (simp add: ram_example_def hashfn_def NR_HASH_def)
  then show "find_buffer d n ram_example = None" by (simp add: find_buffer_def ram_example_bufs(2) numeral_2_eq_2)
qed

lemma getblk_correct_witness: "\<exists>b t. getblk 257 3 ram_example = Ret (b, t) \<and> find_buffer 257 3 t = Some b \<and> cache_ok t"
  using getblk_correct [of ram_example 257 3] ram_example_ok by (auto simp: ram_ok_def)

lemma getblk_cache_map_witness:
  "\<exists>b t. getblk 257 3 ram_example = Ret (b, t) \<and> find_buffer 257 4 t = None"
proof -
  have c: "cache_ok ram_example" using ram_example_ok(1) by (simp add: ram_ok_def)
  obtain b t where t: "getblk 257 3 ram_example = Ret (b, t)"
    using getblk_miss [where dev = 257 and block = 3 and si = sync_inodes, OF c _ ram_example_ok(3,2)] by auto
  then show ?thesis
    using getblk_cache_map [OF c _ ram_example_ok(2) t, of 257 4] ram_example_ok(3) by auto
qed

lemma bread_contents_witness:
  "\<exists>b t. bread RAM_DEV 3 ram_example = Ret (Some b, t) \<and> b_data (bufs t ! b) = rd_disk ram_example 3"
  using bread_contents [of ram_example 3] ram_example_ok
  by (auto simp: ram_example_bufs(3) contents_def)

end
