(* ===== verification/Namei.thy ===== *)
theory Namei imports File_dev begin

unbundle bit_operations_syntax

text \<open>
  \<open>fs/namei.c\<close>: permissions, directories and path names. A path name is the address of its bytes in
  the memory of the process. A directory entry is given by its buffer and its number in the block.

  A block of a directory that cannot be read leaves the loops of \<open>find_entry\<close> and \<open>add_entry\<close> with
  \<open>bh == NULL\<close>, and they compare \<open>de\<close> with \<open>bh->b_data + BLOCK_SIZE\<close> once more. That load reads the first
  word of physical memory, the entry of the page directory for the kernel's first 4 MB, which is
  below every buffer; the comparison succeeds and the loops go on to the next block. A super
  block that is \<open>NULL\<close> where the code dereferences it without a test ends the model run
  (\<open>Hang\<close>), as does a path name without an end.
\<close>

section \<open>Permissions\<close>

definition MAY_EXEC :: u32 where "MAY_EXEC = 1"
definition MAY_WRITE :: u32 where "MAY_WRITE = 2"
definition MAY_READ :: u32 where "MAY_READ = 4"

definition I_DIRECTORY :: u32 where "I_DIRECTORY = 0x4000"
definition I_REGULAR :: u32 where "I_REGULAR = 0x8000"
definition S_ISVTX :: u16 where "S_ISVTX = 0x200"

definition suser :: "kernel \<Rightarrow> bool" where
  "suser s \<longleftrightarrow> euid (proc s) = 0"

text \<open>The four characters of the string are signed, so the last is \<open>- 1\<close>.\<close>

definition ACC_MODE :: "u32 \<Rightarrow> u32" where
  "ACC_MODE x = [4, 2, 6, - 1] ! unat (x AND ucast O_ACCMODE)"

definition permission :: "nat \<Rightarrow> u32 \<Rightarrow> kernel \<Rightarrow> bool" where
  "permission i want s =
    (let n = inode_table s ! i;
         mode = ucast (i_mode n) :: u32;
         mode = (if euid (proc s) = i_uid n then drop_bit 6 mode
                 else if egid (proc s) = ucast (i_gid n) then drop_bit 3 mode else mode)
     in if i_dev n \<noteq> 0 \<and> i_nlinks n = 0 then False
        else mode AND want AND 7 = want \<or> suser s)"

section \<open>Directory entries\<close>

text \<open>Entry \<open>k\<close> of a block: the number of its inode, and its name of 14 bytes.\<close>

definition de_inode :: "u8 list \<Rightarrow> nat \<Rightarrow> nat" where
  "de_inode d k = get16 d (16 * k)"

definition de_name :: "u8 list \<Rightarrow> nat \<Rightarrow> u8 list" where
  "de_name d k = block_slice (16 * k + 2) NAME_LEN d"

text \<open>The comparison instruction is run with a length that is not 0: \<open>find_entry\<close> leaves before that.\<close>

definition match :: "nat \<Rightarrow> u32 \<Rightarrow> u8 list \<Rightarrow> nat \<Rightarrow> kernel \<Rightarrow> bool" where
  "match len name d k s =
    (if de_inode d k = 0 \<or> len > NAME_LEN then False
     else if len < NAME_LEN \<and> de_name d k ! len \<noteq> 0 then False
     else get_fs_bytes name len s = take len (de_name d k))"

text \<open>The block with entry \<open>i\<close> of a directory, when the one at hand is used up.\<close>

definition find_block :: "nat \<Rightarrow> nat \<Rightarrow> nat \<Rightarrow> nat option \<Rightarrow> kernel \<Rightarrow> (nat \<times> nat option \<times> kernel) kres" where
  "find_block dir i k bh s =
    (if bh = None \<or> k \<ge> DIR_ENTRIES_PER_BLOCK
     then kbind (brelse bh s) (\<lambda>s.
          kbind (bmap dir (int (i div DIR_ENTRIES_PER_BLOCK)) s) (\<lambda>(block, s).
          if block = 0 then Ret (0, None, s)
          else kbind (bread (i_dev (inode_table s ! dir)) block s) (\<lambda>(bh, s). Ret (0, bh, s))))
     else Ret (k, bh, s))"

text \<open>The loop of \<open>find_entry\<close>: \<open>i\<close> counts the entries of the directory, \<open>k\<close> those of the block.\<close>

primrec find_loop ::
  "nat \<Rightarrow> nat \<Rightarrow> nat \<Rightarrow> nat \<Rightarrow> u32 \<Rightarrow> nat \<Rightarrow> nat \<Rightarrow> nat option \<Rightarrow> kernel
    \<Rightarrow> ((nat \<times> nat) option \<times> kernel) kres" where
  "find_loop 0 dir entries len name i k bh s = Hang"
| "find_loop (Suc f) dir entries len name i k bh s =
    (if i \<ge> entries then kbind (brelse bh s) (\<lambda>s. Ret (None, s))
     else kbind (find_block dir i k bh s) (\<lambda>(k, bh, s).
       case bh of
         None \<Rightarrow> find_loop f dir entries len name (i + DIR_ENTRIES_PER_BLOCK) k None s
       | Some b \<Rightarrow>
          if match len name (b_data (bufs s ! b)) k s then Ret (Some (b, k), s)
          else find_loop f dir entries len name (i + 1) (k + 1) (Some b) s))"

text \<open>\<open>..\<close> in the root of the process is \<open>.\<close>, and in the root of a mounted file system it is that of the
  directory it is mounted on.\<close>

definition dot_dot :: "nat \<Rightarrow> u32 \<Rightarrow> nat \<Rightarrow> kernel \<Rightarrow> (nat \<times> nat \<times> kernel) kres" where
  "dot_dot dir name namelen s =
    (if namelen = 2 \<and> user s name = 0x2E \<and> user s (name + 1) = 0x2E
     then if Some dir = root (proc s) then Ret (dir, 1, s)
          else if i_num (inode_table s ! dir) = ROOT_INO
          then kbind (get_super (i_dev (inode_table s ! dir)) s) (\<lambda>r.
                 case r of
                   None \<Rightarrow> Hang
                 | Some sb \<Rightarrow>
                    (case s_imount (super_blocks s ! sb) of
                       None \<Rightarrow> Ret (dir, namelen, s)
                     | Some m \<Rightarrow> kbind (iput (Some dir) s) (\<lambda>s. Ret (m, namelen, incr_i_count m s))))
          else Ret (dir, namelen, s)
     else Ret (dir, namelen, s))"

text \<open>The result is the directory that was searched, and the entry. The number of entries is that of
  the directory before the exchange.\<close>

definition find_entry ::
  "nat \<Rightarrow> u32 \<Rightarrow> nat \<Rightarrow> kernel \<Rightarrow> (nat \<times> (nat \<times> nat) option \<times> kernel) kres" where
  "find_entry dir name namelen s =
    (let namelen = min namelen NAME_LEN;
         entries = i_size (inode_table s ! dir) div 16
     in if namelen = 0 then Ret (dir, None, s)
        else kbind (dot_dot dir name namelen s) (\<lambda>(dir, namelen, s).
          let block = i_zone (inode_table s ! dir) ! 0
          in if block = 0 then Ret (dir, None, s)
             else kbind (bread (i_dev (inode_table s ! dir)) block s) (\<lambda>(bh, s).
               if bh = None then Ret (dir, None, s)
               else kbind (find_loop (Suc entries) dir entries namelen name 0 0 bh s) (\<lambda>(r, s).
                      Ret (dir, r, s)))))"

text \<open>The name of a new entry: the bytes of the name, padded with 0.\<close>

definition new_name :: "u32 \<Rightarrow> nat \<Rightarrow> kernel \<Rightarrow> u8 list" where
  "new_name name namelen s =
    map (\<lambda>i. if i < namelen then user s (name + of_nat i) else 0) [0..<NAME_LEN]"

definition add_block ::
  "nat \<Rightarrow> nat \<Rightarrow> nat \<Rightarrow> nat option \<Rightarrow> kernel \<Rightarrow> (bool \<times> nat \<times> nat option \<times> kernel) kres" where
  "add_block dir i k bh s =
    (if bh = None \<or> k \<ge> DIR_ENTRIES_PER_BLOCK
     then kbind (brelse bh s) (\<lambda>s.
          kbind (create_block dir (int (i div DIR_ENTRIES_PER_BLOCK)) s) (\<lambda>(block, s).
          if block = 0 then Ret (True, 0, None, s)
          else kbind (bread (i_dev (inode_table s ! dir)) block s) (\<lambda>(bh, s). Ret (False, 0, bh, s))))
     else Ret (False, k, bh, s))"

primrec add_loop ::
  "nat \<Rightarrow> nat \<Rightarrow> u32 \<Rightarrow> nat \<Rightarrow> nat \<Rightarrow> nat \<Rightarrow> nat option \<Rightarrow> kernel
    \<Rightarrow> ((nat \<times> nat) option \<times> kernel) kres" where
  "add_loop 0 dir name len i k bh s = Hang"
| "add_loop (Suc f) dir name len i k bh s =
    kbind (add_block dir i k bh s) (\<lambda>(failed, k, bh, s).
      if failed then Ret (None, s)
      else case bh of
        None \<Rightarrow> add_loop f dir name len (i + DIR_ENTRIES_PER_BLOCK) k None s
      | Some b \<Rightarrow>
         let s = (if i * 16 \<ge> i_size (inode_table s ! dir)
                  then upd_inode dir (\<lambda>n. n\<lparr>i_size := (i + 1) * 16, i_dirt := True, i_ctime := now s\<rparr>)
                         (upd_buf b (\<lambda>h. h\<lparr>b_data := put16 (16 * k) 0 (b_data h)\<rparr>) s)
                  else s)
         in if de_inode (b_data (bufs s ! b)) k = 0
            then let s = upd_inode dir (\<lambda>n. n\<lparr>i_mtime := now s\<rparr>) s;
                     s = upd_buf b (\<lambda>h. h\<lparr>b_data := block_patch (16 * k + 2) (new_name name len s) (b_data h),
                                         b_dirt := True\<rparr>) s
                 in Ret (Some (b, k), s)
            else add_loop f dir name len (i + 1) (k + 1) (Some b) s)"

text \<open>A file has at most \<open>7 + 512 + 512 * 512\<close> blocks, and \<open>create_block\<close> refuses more, so these rounds are
  enough.\<close>

definition MAX_ENTRIES :: nat where
  "MAX_ENTRIES = (7 + 512 + 512 * 512) * 64"

definition add_entry :: "nat \<Rightarrow> u32 \<Rightarrow> nat \<Rightarrow> kernel \<Rightarrow> ((nat \<times> nat) option \<times> kernel) kres" where
  "add_entry dir name namelen s =
    (let namelen = min namelen NAME_LEN;
         block = i_zone (inode_table s ! dir) ! 0
     in if namelen = 0 \<or> block = 0 then Ret (None, s)
        else kbind (bread (i_dev (inode_table s ! dir)) block s) (\<lambda>(bh, s).
          if bh = None then Ret (None, s)
          else add_loop (Suc MAX_ENTRIES) dir name namelen 0 0 bh s))"

text \<open>\<open>de->inode = v; bh->b_dirt = 1\<close>\<close>

definition set_entry :: "nat \<Rightarrow> nat \<Rightarrow> nat \<Rightarrow> kernel \<Rightarrow> kernel" where
  "set_entry b k v s = upd_buf b (\<lambda>h. h\<lparr>b_data := put16 (16 * k) v (b_data h), b_dirt := True\<rparr>) s"

section \<open>Path names\<close>

text \<open>The addresses of the process: a name that has an end has it after at most this many bytes.\<close>

definition USER_BYTES :: nat where
  "USER_BYTES = 2 ^ 32"

text \<open>The length of the component that starts at \<open>p\<close>, and the character that ends it.\<close>

primrec name_scan :: "nat \<Rightarrow> u32 \<Rightarrow> (u32 \<Rightarrow> u8) \<Rightarrow> (nat \<times> u8) option" where
  "name_scan 0 p u = None"
| "name_scan (Suc f) p u =
    (if u p = 0 \<or> u p = 0x2F then Some (0, u p)
     else map_option (\<lambda>(n, c). (Suc n, c)) (name_scan f (p + 1) u))"

primrec get_dir_loop :: "nat \<Rightarrow> nat \<Rightarrow> u32 \<Rightarrow> kernel \<Rightarrow> (nat option \<times> kernel) kres" where
  "get_dir_loop 0 inode path s = Hang"
| "get_dir_loop (Suc f) inode path s =
    (if \<not> S_ISDIR (i_mode (inode_table s ! inode)) \<or> \<not> permission inode MAY_EXEC s
     then kbind (iput (Some inode) s) (\<lambda>s. Ret (None, s))
     else case name_scan USER_BYTES path (user s) of
            None \<Rightarrow> Hang
          | Some (namelen, c) \<Rightarrow>
             if c = 0 then Ret (Some inode, s)
             else kbind (find_entry inode path namelen s) (\<lambda>(inode, r, s).
               case r of
                 None \<Rightarrow> kbind (iput (Some inode) s) (\<lambda>s. Ret (None, s))
               | Some (b, k) \<Rightarrow>
                  let inr = de_inode (b_data (bufs s ! b)) k;
                      idev = i_dev (inode_table s ! inode)
                  in kbind (brelse (Some b) s) (\<lambda>s. kbind (iput (Some inode) s) (\<lambda>s.
                     kbind (iget idev inr s) (\<lambda>(r, s).
                       case r of
                         None \<Rightarrow> Ret (None, s)
                       | Some i \<Rightarrow> get_dir_loop f i (path + of_nat namelen + 1) s)))))"

definition get_dir :: "u32 \<Rightarrow> kernel \<Rightarrow> (nat option \<times> kernel) kres" where
  "get_dir pathname s =
    (case (root (proc s), pwd (proc s)) of
       (Some r, Some w) \<Rightarrow>
         if i_count (inode_table s ! r) = 0 then Panic ''No root inode''
         else if i_count (inode_table s ! w) = 0 then Panic ''No cwd inode''
         else if user s pathname = 0x2F
         then get_dir_loop USER_BYTES r (pathname + 1) (incr_i_count r s)
         else if user s pathname \<noteq> 0 then get_dir_loop USER_BYTES w pathname (incr_i_count w s)
         else Ret (None, s)
     | (Some r, None) \<Rightarrow>
         if i_count (inode_table s ! r) = 0 then Panic ''No root inode'' else Panic ''No cwd inode''
     | (None, _) \<Rightarrow> Panic ''No root inode'')"

text \<open>The last component: its address and its length.\<close>

primrec base_scan :: "nat \<Rightarrow> u32 \<Rightarrow> u32 \<Rightarrow> (u32 \<Rightarrow> u8) \<Rightarrow> (u32 \<times> nat) option" where
  "base_scan 0 p base u = None"
| "base_scan (Suc f) p base u =
    (if u p = 0 then Some (base, unat (p - base))
     else base_scan f (p + 1) (if u p = 0x2F then p + 1 else base) u)"

definition dir_namei :: "u32 \<Rightarrow> kernel \<Rightarrow> ((nat \<times> u32 \<times> nat) option \<times> kernel) kres" where
  "dir_namei pathname s =
    kbind (get_dir pathname s) (\<lambda>(r, s).
      case r of
        None \<Rightarrow> Ret (None, s)
      | Some dir \<Rightarrow>
         (case base_scan USER_BYTES pathname pathname (user s) of
            None \<Rightarrow> Hang
          | Some (base, len) \<Rightarrow> Ret (Some (dir, base, len), s)))"

definition namei :: "u32 \<Rightarrow> kernel \<Rightarrow> (nat option \<times> kernel) kres" where
  "namei pathname s =
    kbind (dir_namei pathname s) (\<lambda>(r, s).
      case r of
        None \<Rightarrow> Ret (None, s)
      | Some (dir, base, len) \<Rightarrow>
         if len = 0 then Ret (Some dir, s)
         else kbind (find_entry dir base len s) (\<lambda>(dir, r, s).
           case r of
             None \<Rightarrow> kbind (iput (Some dir) s) (\<lambda>s. Ret (None, s))
           | Some (b, k) \<Rightarrow>
              let inr = de_inode (b_data (bufs s ! b)) k; dev = i_dev (inode_table s ! dir)
              in kbind (brelse (Some b) s) (\<lambda>s. kbind (iput (Some dir) s) (\<lambda>s.
                 kbind (iget dev inr s) (\<lambda>(r, s).
                   Ret (r, case r of
                             None \<Rightarrow> s
                           | Some i \<Rightarrow> upd_inode i (\<lambda>n. n\<lparr>i_atime := now s, i_dirt := True\<rparr>) s))))))"

section \<open>Opening\<close>

text \<open>Putting inodes back in the order given and releasing a buffer, on the way out.\<close>

definition put_return :: "int \<Rightarrow> nat list \<Rightarrow> nat option \<Rightarrow> kernel \<Rightarrow> (int \<times> kernel) kres" where
  "put_return v inodes bh s =
    kbind (kfold (\<lambda>i. iput (Some i)) inodes s) (\<lambda>s. kbind (brelse bh s) (\<lambda>s. Ret (v, s)))"

text \<open>\<open>inode->i_nlinks--\<close>, an unsigned character.\<close>

definition decr_nlinks :: "nat \<Rightarrow> kernel \<Rightarrow> kernel" where
  "decr_nlinks i s = upd_inode i (\<lambda>n. n\<lparr>i_nlinks := (i_nlinks n + 255) mod 256\<rparr>) s"

text \<open>The branch of \<open>open_namei\<close> for a file that is not there.\<close>

definition open_new ::
  "nat \<Rightarrow> u32 \<Rightarrow> nat \<Rightarrow> u32 \<Rightarrow> u32 \<Rightarrow> kernel \<Rightarrow> (int \<times> nat option \<times> kernel) kres" where
  "open_new dir base len flag mode s =
    (let leave = (\<lambda>v is s. kbind (put_return v is None s) (\<lambda>(v, s). Ret (v, None, s)))
     in if flag AND ucast O_CREAT = 0 then leave (- ENOENT) [dir] s
        else if \<not> permission dir MAY_WRITE s then leave (- EACCES) [dir] s
        else kbind (new_inode (i_dev (inode_table s ! dir)) s) (\<lambda>(r, s).
          case r of
            None \<Rightarrow> leave (- ENOSPC) [dir] s
          | Some i \<Rightarrow>
             let s = upd_inode i (\<lambda>n. n\<lparr>i_uid := euid (proc s), i_mode := ucast mode, i_dirt := True\<rparr>) s
             in kbind (add_entry dir base len s) (\<lambda>(r, s).
                  case r of
                    None \<Rightarrow> leave (- ENOSPC) [i, dir] (decr_nlinks i s)
                  | Some (b, k) \<Rightarrow>
                     let s = set_entry b k (i_num (inode_table s ! i)) s
                     in kbind (brelse (Some b) s) (\<lambda>s. kbind (iput (Some dir) s) (\<lambda>s. Ret (0, Some i, s))))))"

definition open_namei :: "u32 \<Rightarrow> u32 \<Rightarrow> u32 \<Rightarrow> kernel \<Rightarrow> (int \<times> nat option \<times> kernel) kres" where
  "open_namei pathname flag mode s =
    (let flag = (if flag AND ucast O_TRUNC \<noteq> 0 \<and> flag AND ucast O_ACCMODE = 0 then flag OR 1 else flag);
         mode = (mode AND 0x1FF AND NOT (ucast (umask (proc s)))) OR I_REGULAR;
         leave = (\<lambda>v is s. kbind (put_return v is None s) (\<lambda>(v, s). Ret (v, None, s)))
     in kbind (dir_namei pathname s) (\<lambda>(r, s).
       case r of
         None \<Rightarrow> Ret (- ENOENT, None, s)
       | Some (dir, base, len) \<Rightarrow>
          if len = 0
          then if flag AND ucast (O_ACCMODE OR O_CREAT OR O_TRUNC) = 0 then Ret (0, Some dir, s)
               else leave (- EISDIR) [dir] s
          else kbind (find_entry dir base len s) (\<lambda>(dir, r, s).
            case r of
              None \<Rightarrow> open_new dir base len flag mode s
            | Some (b, k) \<Rightarrow>
               let inr = de_inode (b_data (bufs s ! b)) k; dev = i_dev (inode_table s ! dir)
               in kbind (brelse (Some b) s) (\<lambda>s. kbind (iput (Some dir) s) (\<lambda>s.
                  if flag AND ucast O_EXCL \<noteq> 0 then Ret (- EEXIST, None, s)
                  else kbind (iget dev inr s) (\<lambda>(r, s).
                    case r of
                      None \<Rightarrow> Ret (- EACCES, None, s)
                    | Some i \<Rightarrow>
                       if S_ISDIR (i_mode (inode_table s ! i)) \<and> flag AND ucast O_ACCMODE \<noteq> 0
                          \<or> \<not> permission i (ACC_MODE flag) s
                       then leave (- EPERM) [i] s
                       else
                       let s = upd_inode i (\<lambda>n. n\<lparr>i_atime := now s\<rparr>) s
                       in kbind (if flag AND ucast O_TRUNC \<noteq> 0 then truncate i s else Ret s)
                            (\<lambda>s. Ret (0, Some i, s))))))))"

section \<open>Creating and removing names\<close>

text \<open>The common beginning of \<open>mknod\<close> and \<open>mkdir\<close>: only the superuser, in a directory that may be
  written, and under a new name.\<close>

definition new_entry_dir ::
  "u32 \<Rightarrow> kernel \<Rightarrow> (nat \<Rightarrow> u32 \<Rightarrow> nat \<Rightarrow> kernel \<Rightarrow> (int \<times> kernel) kres) \<Rightarrow> (int \<times> kernel) kres" where
  "new_entry_dir pathname s go =
    (if \<not> suser s then Ret (- EPERM, s)
     else kbind (dir_namei pathname s) (\<lambda>(r, s).
       case r of
         None \<Rightarrow> Ret (- ENOENT, s)
       | Some (dir, base, len) \<Rightarrow>
          if len = 0 then put_return (- ENOENT) [dir] None s
          else if \<not> permission dir MAY_WRITE s then put_return (- EPERM) [dir] None s
          else kbind (find_entry dir base len s) (\<lambda>(dir, r, s).
            case r of
              Some (b, k) \<Rightarrow> kbind (brelse (Some b) s) (put_return (- EEXIST) [dir] None)
            | None \<Rightarrow> go dir base len s)))"

definition sys_mknod :: "u32 \<Rightarrow> u32 \<Rightarrow> u32 \<Rightarrow> kernel \<Rightarrow> (int \<times> kernel) kres" where
  "sys_mknod filename mode dev s =
    new_entry_dir filename s (\<lambda>dir base len s.
      kbind (new_inode (i_dev (inode_table s ! dir)) s) (\<lambda>(r, s).
        case r of
          None \<Rightarrow> put_return (- ENOSPC) [dir] None s
        | Some i \<Rightarrow>
           let s = upd_inode i (\<lambda>n. n\<lparr>i_mode := ucast mode\<rparr>) s;
               s = (if S_ISBLK (ucast mode) \<or> S_ISCHR (ucast mode)
                    then upd_inode i (\<lambda>n. n\<lparr>i_zone := (i_zone n)[0 := unat dev mod 65536]\<rparr>) s else s);
               s = upd_inode i (\<lambda>n. n\<lparr>i_mtime := now s, i_atime := now s, i_dirt := True\<rparr>) s
           in kbind (add_entry dir base len s) (\<lambda>(r, s).
                case r of
                  None \<Rightarrow> kbind (iput (Some dir) s) (\<lambda>s.
                    put_return (- ENOSPC) [i] None (upd_inode i (\<lambda>n. n\<lparr>i_nlinks := 0\<rparr>) s))
                | Some (b, k) \<Rightarrow> put_return 0 [dir, i] (Some b) (set_entry b k (i_num (inode_table s ! i)) s))))"

text \<open>\<open>.\<close> and \<open>..\<close>; the copy of a string writes its characters and the final 0.\<close>

definition dot_entries :: "nat \<Rightarrow> nat \<Rightarrow> u8 list \<Rightarrow> u8 list" where
  "dot_entries self parent d =
    block_patch 18 [0x2E, 0x2E, 0] (put16 16 parent (block_patch 2 [0x2E, 0] (put16 0 self d)))"

definition sys_mkdir :: "u32 \<Rightarrow> u32 \<Rightarrow> kernel \<Rightarrow> (int \<times> kernel) kres" where
  "sys_mkdir pathname mode s =
    new_entry_dir pathname s (\<lambda>dir base len s.
      kbind (new_inode (i_dev (inode_table s ! dir)) s) (\<lambda>(r, s).
        case r of
          None \<Rightarrow> put_return (- ENOSPC) [dir] None s
        | Some i \<Rightarrow>
           let s = upd_inode i (\<lambda>n. n\<lparr>i_size := 32, i_dirt := True, i_mtime := now s, i_atime := now s\<rparr>) s
           in kbind (new_block (i_dev (inode_table s ! i)) s) (\<lambda>(z, s).
              let z = z mod 65536;
                  s = upd_inode i (\<lambda>n. n\<lparr>i_zone := (i_zone n)[0 := z]\<rparr>) s
              in if z = 0
                 then kbind (iput (Some dir) s) (\<lambda>s. put_return (- ENOSPC) [i] None (decr_nlinks i s))
                 else
                 let s = upd_inode i (\<lambda>n. n\<lparr>i_dirt := True\<rparr>) s
                 in kbind (bread (i_dev (inode_table s ! i)) z s) (\<lambda>(r, s).
                 case r of
                   None \<Rightarrow>
                     kbind (iput (Some dir) s) (\<lambda>s.
                     kbind (free_block (i_dev (inode_table s ! i)) (i_zone (inode_table s ! i) ! 0) s) (\<lambda>s.
                     put_return (- ERROR) [i] None (decr_nlinks i s)))
                 | Some db \<Rightarrow>
                     let s = upd_buf db (\<lambda>h. h\<lparr>b_data := dot_entries (i_num (inode_table s ! i))
                               (i_num (inode_table s ! dir)) (b_data h)\<rparr>) s;
                         s = upd_inode i (\<lambda>n. n\<lparr>i_nlinks := 2\<rparr>) s;
                         s = upd_buf db (\<lambda>h. h\<lparr>b_dirt := True\<rparr>) s
                     in kbind (brelse (Some db) s) (\<lambda>s.
                     let s = upd_inode i (\<lambda>n. n\<lparr>i_mode := ucast (I_DIRECTORY OR (mode AND 0x1FF AND
                               NOT (ucast (umask (proc s))))), i_dirt := True\<rparr>) s
                     in kbind (add_entry dir base len s) (\<lambda>(r, s).
                     case r of
                       None \<Rightarrow>
                         kbind (iput (Some dir) s) (\<lambda>s.
                         kbind (free_block (i_dev (inode_table s ! i)) (i_zone (inode_table s ! i) ! 0) s) (\<lambda>s.
                         put_return (- ENOSPC) [i] None (upd_inode i (\<lambda>n. n\<lparr>i_nlinks := 0\<rparr>) s)))
                     | Some (b, k) \<Rightarrow>
                         let s = set_entry b k (i_num (inode_table s ! i)) s;
                             s = upd_inode dir (\<lambda>n. n\<lparr>i_nlinks := (i_nlinks n + 1) mod 256, i_dirt := True\<rparr>) s
                         in put_return 0 [dir, i] (Some b) s))))))"

text \<open>The loop of \<open>empty_dir\<close>. A block that is not there leaves \<open>bh\<close> released but in place, so that the
  next round releases it again. A block that cannot be read ends the search.\<close>

primrec empty_loop :: "nat \<Rightarrow> nat \<Rightarrow> nat \<Rightarrow> nat \<Rightarrow> nat \<Rightarrow> nat \<Rightarrow> kernel \<Rightarrow> (bool \<times> kernel) kres" where
  "empty_loop 0 i len nr k b s = Hang"
| "empty_loop (Suc f) i len nr k b s =
    (if nr \<ge> len then kbind (brelse (Some b) s) (\<lambda>s. Ret (True, s))
     else
     let check = (\<lambda>k b s.
           if de_inode (b_data (bufs s ! b)) k \<noteq> 0 then kbind (brelse (Some b) s) (\<lambda>s. Ret (False, s))
           else empty_loop f i len (nr + 1) (k + 1) b s)
     in if k < DIR_ENTRIES_PER_BLOCK then check k b s
        else kbind (brelse (Some b) s) (\<lambda>s.
             kbind (bmap i (int (nr div DIR_ENTRIES_PER_BLOCK)) s) (\<lambda>(block, s).
             if block = 0 then empty_loop f i len (nr + DIR_ENTRIES_PER_BLOCK) k b s
             else kbind (bread (i_dev (inode_table s ! i)) block s) (\<lambda>(r, s).
               case r of None \<Rightarrow> Ret (False, s) | Some b \<Rightarrow> check 0 b s))))"

text \<open>The first two entries of a directory.\<close>

definition has_dots :: "nat \<Rightarrow> u8 list \<Rightarrow> bool" where
  "has_dots num d \<longleftrightarrow> de_inode d 0 = num \<and> de_inode d 1 \<noteq> 0
    \<and> take 2 (de_name d 0) = [0x2E, 0] \<and> take 3 (de_name d 1) = [0x2E, 0x2E, 0]"

definition empty_dir :: "nat \<Rightarrow> kernel \<Rightarrow> (bool \<times> kernel) kres" where
  "empty_dir i s =
    (let n = inode_table s ! i;
         len = i_size n div 16
     in if len < 2 \<or> i_zone n ! 0 = 0 then Ret (False, s)
        else kbind (bread (i_dev n) (i_zone n ! 0) s) (\<lambda>(r, s).
          case r of
            None \<Rightarrow> Ret (False, s)
          | Some b \<Rightarrow>
             if \<not> has_dots (i_num (inode_table s ! i)) (b_data (bufs s ! b)) then Ret (False, s)
             else empty_loop (Suc len) i len 2 2 b s))"

text \<open>The common beginning of \<open>rmdir\<close> and \<open>unlink\<close>: the name is there; \<open>e\<close> is the error when the inode
  cannot be read.\<close>

definition old_entry ::
  "u32 \<Rightarrow> int \<Rightarrow> kernel \<Rightarrow> (nat \<Rightarrow> nat \<Rightarrow> nat \<Rightarrow> nat \<Rightarrow> kernel \<Rightarrow> (int \<times> kernel) kres) \<Rightarrow> (int \<times> kernel) kres"
where
  "old_entry name e s go =
    kbind (dir_namei name s) (\<lambda>(r, s).
      case r of
        None \<Rightarrow> Ret (- ENOENT, s)
      | Some (dir, base, len) \<Rightarrow>
         if len = 0 then put_return (- ENOENT) [dir] None s
         else if \<not> permission dir MAY_WRITE s then put_return (- EPERM) [dir] None s
         else kbind (find_entry dir base len s) (\<lambda>(dir, r, s).
           case r of
             None \<Rightarrow> put_return (- ENOENT) [dir] None s
           | Some (b, k) \<Rightarrow>
              kbind (iget (i_dev (inode_table s ! dir)) (de_inode (b_data (bufs s ! b)) k) s) (\<lambda>(r, s).
                case r of
                  None \<Rightarrow> put_return (- e) [dir] (Some b) s
                | Some i \<Rightarrow> go dir b k i s)))"

definition sys_rmdir :: "u32 \<Rightarrow> kernel \<Rightarrow> (int \<times> kernel) kres" where
  "sys_rmdir name s =
    (if \<not> suser s then Ret (- EPERM, s)
     else old_entry name EPERM s (\<lambda>dir b k i s.
       let d = inode_table s ! dir; n = inode_table s ! i
       in if i_mode d AND S_ISVTX \<noteq> 0 \<and> euid (proc s) \<noteq> 0 \<and> i_uid n \<noteq> euid (proc s)
          then put_return (- EPERM) [dir, i] (Some b) s
          else if i_dev n \<noteq> i_dev d \<or> i_count n > 1 then put_return (- EPERM) [dir, i] (Some b) s
          else if i = dir then put_return (- EPERM) [i, dir] (Some b) s
          else if \<not> S_ISDIR (i_mode n) then put_return (- ENOTDIR) [i, dir] (Some b) s
          else kbind (empty_dir i s) (\<lambda>(e, s).
            if \<not> e then put_return (- ENOTEMPTY) [i, dir] (Some b) s
            else kbind (brelse (Some b) (set_entry b k 0 s)) (\<lambda>s.
              let s = upd_inode i (\<lambda>n. n\<lparr>i_nlinks := 0, i_dirt := True\<rparr>) s;
                  s = decr_nlinks dir s;
                  s = upd_inode dir (\<lambda>n. n\<lparr>i_mtime := now s, i_ctime := now s, i_dirt := True\<rparr>) s
              in put_return 0 [dir, i] None s))))"

definition sys_unlink :: "u32 \<Rightarrow> kernel \<Rightarrow> (int \<times> kernel) kres" where
  "sys_unlink name s =
    old_entry name ENOENT s (\<lambda>dir b k i s.
      let d = inode_table s ! dir; n = inode_table s ! i
      in if i_mode d AND S_ISVTX \<noteq> 0 \<and> \<not> suser s \<and> euid (proc s) \<noteq> i_uid n \<and> euid (proc s) \<noteq> i_uid d
         then put_return (- EPERM) [dir, i] (Some b) s
         else if S_ISDIR (i_mode n) then put_return (- EPERM) [i, dir] (Some b) s
         else
         let s = (if i_nlinks n = 0 then upd_inode i (\<lambda>n. n\<lparr>i_nlinks := 1\<rparr>) s else s)
         in kbind (brelse (Some b) (set_entry b k 0 s)) (\<lambda>s.
              let s = decr_nlinks i s;
                  s = upd_inode i (\<lambda>n. n\<lparr>i_ctime := now s, i_dirt := True\<rparr>) s
              in put_return 0 [i, dir] None s))"

definition sys_link :: "u32 \<Rightarrow> u32 \<Rightarrow> kernel \<Rightarrow> (int \<times> kernel) kres" where
  "sys_link oldname newname s =
    kbind (namei oldname s) (\<lambda>(r, s).
      case r of
        None \<Rightarrow> Ret (- ENOENT, s)
      | Some old \<Rightarrow>
         if S_ISDIR (i_mode (inode_table s ! old)) then put_return (- EPERM) [old] None s
         else kbind (dir_namei newname s) (\<lambda>(r, s).
           case r of
             None \<Rightarrow> put_return (- EACCES) [old] None s
           | Some (dir, base, len) \<Rightarrow>
              if len = 0 then put_return (- EPERM) [old, dir] None s
              else if i_dev (inode_table s ! dir) \<noteq> i_dev (inode_table s ! old)
              then put_return (- EXDEV) [dir, old] None s
              else if \<not> permission dir MAY_WRITE s then put_return (- EACCES) [dir, old] None s
              else kbind (find_entry dir base len s) (\<lambda>(dir, r, s).
                case r of
                  Some (b, k) \<Rightarrow> kbind (brelse (Some b) s) (put_return (- EEXIST) [dir, old] None)
                | None \<Rightarrow>
                   kbind (add_entry dir base len s) (\<lambda>(r, s).
                     case r of
                       None \<Rightarrow> put_return (- ENOSPC) [dir, old] None s
                     | Some (b, k) \<Rightarrow>
                        let s = set_entry b k (i_num (inode_table s ! old)) s
                        in kbind (brelse (Some b) s) (\<lambda>s. kbind (iput (Some dir) s) (\<lambda>s.
                           let s = upd_inode old (\<lambda>n. n\<lparr>i_ctime := now s, i_nlinks := (i_nlinks n + 1) mod 256,
                                                     i_dirt := True\<rparr>) s
                           in put_return 0 [old] None s))))))"

end
