(* ===== verification/Open.thy ===== *)
theory Open imports Namei Super Pipe begin

unbundle bit_operations_syntax

text \<open>
  \<open>fs/open.c\<close>, \<open>fs/fcntl.c\<close> and \<open>fs/stat.c\<close>: the system calls on file descriptors and on the inodes
  of path names; and \<open>mount\<close> and \<open>umount\<close> of \<open>fs/super.c\<close>. \<open>verify_area\<close> prepares the pages of the
  process for writing and has no effect on the bytes modelled by \<open>user\<close>.
\<close>

definition ENOSYS :: int where "ENOSYS = 38"

definition sys_ustat :: "u32 \<Rightarrow> u32 \<Rightarrow> kernel \<Rightarrow> int \<times> kernel" where
  "sys_ustat dev ubuf s = (- ENOSYS, s)"

section \<open>Attributes\<close>

text \<open>A call on the inode of a path name; \<open>e\<close> is the error when there is none.\<close>

definition with_namei ::
  "u32 \<Rightarrow> int \<Rightarrow> kernel \<Rightarrow> (nat \<Rightarrow> kernel \<Rightarrow> (int \<times> kernel) kres) \<Rightarrow> (int \<times> kernel) kres" where
  "with_namei filename e s go =
    kbind (namei filename s) (\<lambda>(r, s). case r of None \<Rightarrow> Ret (- e, s) | Some i \<Rightarrow> go i s)"

definition get_fs_long :: "u32 \<Rightarrow> kernel \<Rightarrow> u32" where
  "get_fs_long a s =
    ucast (user s a) OR push_bit 8 (ucast (user s (a + 1))) OR push_bit 16 (ucast (user s (a + 2)))
      OR push_bit 24 (ucast (user s (a + 3)))"

definition sys_utime :: "u32 \<Rightarrow> u32 \<Rightarrow> kernel \<Rightarrow> (int \<times> kernel) kres" where
  "sys_utime filename tbuf s =
    with_namei filename ENOENT s (\<lambda>i s.
      let (actime, modtime) = (if tbuf \<noteq> 0 then (get_fs_long tbuf s, get_fs_long (tbuf + 4) s)
                               else (now s, now s))
      in put_return 0 [i] None
           (upd_inode i (\<lambda>n. n\<lparr>i_mtime := modtime, i_atime := actime, i_dirt := True\<rparr>) s))"

text \<open>The three bits of the mode that apply to the real user. The code shifts by 6 for the group
  too.\<close>

definition access_bits :: "m_inode \<Rightarrow> u32 \<Rightarrow> kernel \<Rightarrow> u32" where
  "access_bits n mode s =
    (if uid (proc s) = i_uid n then drop_bit 6 mode
     else if gid (proc s) = ucast (i_gid n) then drop_bit 6 mode else mode)"

definition sys_access :: "u32 \<Rightarrow> u32 \<Rightarrow> kernel \<Rightarrow> (int \<times> kernel) kres" where
  "sys_access filename mode s =
    (let mode = mode AND 7
     in with_namei filename EACCES s (\<lambda>i s.
          let i_mode = ucast (i_mode (inode_table s ! i)) AND 0x1FF :: u32
          in kbind (iput (Some i) s) (\<lambda>s.
               let res = access_bits (inode_table s ! i) i_mode s
               in if res AND 7 AND mode = mode then Ret (0, s)
                  else if uid (proc s) = 0 \<and> (mode AND 1 = 0 \<or> i_mode AND 0x49 \<noteq> 0) then Ret (0, s)
                  else Ret (- EACCES, s))))"

definition sys_chdir :: "u32 \<Rightarrow> kernel \<Rightarrow> (int \<times> kernel) kres" where
  "sys_chdir filename s =
    with_namei filename ENOENT s (\<lambda>i s.
      if \<not> S_ISDIR (i_mode (inode_table s ! i)) then put_return (- ENOTDIR) [i] None s
      else kbind (iput (pwd (proc s)) s) (\<lambda>s. Ret (0, s\<lparr>proc := (proc s)\<lparr>pwd := Some i\<rparr>\<rparr>)))"

definition sys_chroot :: "u32 \<Rightarrow> kernel \<Rightarrow> (int \<times> kernel) kres" where
  "sys_chroot filename s =
    with_namei filename ENOENT s (\<lambda>i s.
      if \<not> S_ISDIR (i_mode (inode_table s ! i)) then put_return (- ENOTDIR) [i] None s
      else kbind (iput (root (proc s)) s) (\<lambda>s. Ret (0, s\<lparr>proc := (proc s)\<lparr>root := Some i\<rparr>\<rparr>)))"

definition sys_chmod :: "u32 \<Rightarrow> u32 \<Rightarrow> kernel \<Rightarrow> (int \<times> kernel) kres" where
  "sys_chmod filename mode s =
    with_namei filename ENOENT s (\<lambda>i s.
      if euid (proc s) \<noteq> i_uid (inode_table s ! i) \<and> \<not> suser s then put_return (- EACCES) [i] None s
      else put_return 0 [i] None (upd_inode i (\<lambda>n. n\<lparr>i_mode := (ucast mode AND 0xFFF) OR (i_mode n AND 0xF000),
                                                   i_dirt := True\<rparr>) s))"

definition sys_chown :: "u32 \<Rightarrow> u32 \<Rightarrow> u32 \<Rightarrow> kernel \<Rightarrow> (int \<times> kernel) kres" where
  "sys_chown filename owner grp s =
    with_namei filename ENOENT s (\<lambda>i s.
      if \<not> suser s then put_return (- EACCES) [i] None s
      else put_return 0 [i] None (upd_inode i (\<lambda>n. n\<lparr>i_uid := ucast owner, i_gid := ucast grp,
                                                   i_dirt := True\<rparr>) s))"

section \<open>Descriptors\<close>

definition clear_cloexec :: "nat \<Rightarrow> kernel \<Rightarrow> kernel" where
  "clear_cloexec fd s =
    s\<lparr>proc := (proc s)\<lparr>close_on_exec := close_on_exec (proc s) AND NOT (push_bit fd 1)\<rparr>\<rparr>"

text \<open>The slots that are free, from \<open>k\<close> on: of the descriptors of the process, and of the file table.\<close>

definition free_fd :: "nat \<Rightarrow> kernel \<Rightarrow> nat option" where
  "free_fd k s = (case free_slots 1 k (map (\<lambda>f. f = None) (drop k (filp (proc s)))) of
     [] \<Rightarrow> None | fd # _ \<Rightarrow> Some fd)"

definition free_file :: "kernel \<Rightarrow> nat option" where
  "free_file s = (case free_slots 1 0 (map (\<lambda>f. f_count f = 0) (file_table s)) of
     [] \<Rightarrow> None | f # _ \<Rightarrow> Some f)"

text \<open>The terminals: opening \<open>ttyxx\<close> gives a session leader without a terminal that terminal, \<open>tty\<close> needs
  one. The result says whether the call goes on. A minor number beyond the table, where the code
  stores past its end, changes nothing here.\<close>

definition open_tty :: "nat \<Rightarrow> kernel \<Rightarrow> bool \<times> kernel" where
  "open_tty i s =
    (let n = inode_table s ! i; dev = i_zone n ! 0; p = proc s
     in if \<not> S_ISCHR (i_mode n) then (True, s)
        else if MAJOR dev = 4
        then if leader p \<noteq> 0 \<and> tty p < 0
             then (True, s\<lparr>proc := p\<lparr>tty := int (MINOR dev)\<rparr>,
                           tty_pgrp := (tty_pgrp s)[MINOR dev := pgrp p]\<rparr>)
             else (True, s)
        else if MAJOR dev = 5 then (\<not> tty p < 0, s)
        else (True, s))"

definition sys_open :: "u32 \<Rightarrow> u32 \<Rightarrow> u32 \<Rightarrow> kernel \<Rightarrow> (int \<times> kernel) kres" where
  "sys_open filename flag mode s =
    (let mode = mode AND 0x1FF AND NOT (ucast (umask (proc s)))
     in case free_fd 0 s of
          None \<Rightarrow> Ret (- EINVAL, s)
        | Some fd \<Rightarrow>
           let s = clear_cloexec fd s
           in (case free_file s of
             None \<Rightarrow> Ret (- EINVAL, s)
           | Some f \<Rightarrow>
              let s = upd_file f (\<lambda>x. x\<lparr>f_count := (f_count x + 1) mod 65536\<rparr>) (upd_filp fd (Some f) s);
                  undo = (\<lambda>s. upd_file f (\<lambda>x. x\<lparr>f_count := 0\<rparr>) (upd_filp fd None s))
              in kbind (open_namei filename flag mode s) (\<lambda>(v, r, s).
                   case r of
                     None \<Rightarrow> Ret (v, undo s)
                   | Some i \<Rightarrow>
                      let (ok, s) = open_tty i s
                      in if \<not> ok then kbind (iput (Some i) s) (\<lambda>s. Ret (- EPERM, undo s))
                         else kbind (if S_ISBLK (i_mode (inode_table s ! i))
                                     then check_disk_change (i_zone (inode_table s ! i) ! 0) s else Ret s)
                           (\<lambda>s. Ret (int fd, upd_file f (\<lambda>x. x\<lparr>f_mode := i_mode (inode_table s ! i),
                                  f_flags := ucast flag, f_count := 1, f_inode := Some i, f_pos := 0\<rparr>) s)))))"

definition sys_creat :: "u32 \<Rightarrow> u32 \<Rightarrow> kernel \<Rightarrow> (int \<times> kernel) kres" where
  "sys_creat pathname mode s = sys_open pathname (ucast (O_CREAT OR O_TRUNC)) mode s"

definition sys_close :: "nat \<Rightarrow> kernel \<Rightarrow> (int \<times> kernel) kres" where
  "sys_close fd s =
    (if fd \<ge> NR_OPEN then Ret (- EINVAL, s)
     else
     let s = clear_cloexec fd s
     in case filp (proc s) ! fd of
          None \<Rightarrow> Ret (- EINVAL, s)
        | Some f \<Rightarrow>
           let s = upd_filp fd None s
           in if f_count (file_table s ! f) = 0 then Panic ''Close: file count is 0''
              else
              let s = upd_file f (\<lambda>x. x\<lparr>f_count := f_count x - 1\<rparr>) s
              in if f_count (file_table s ! f) \<noteq> 0 then Ret (0, s)
                 else kbind (iput (f_inode (file_table s ! f)) s) (\<lambda>s. Ret (0, s)))"

definition dupfd :: "nat \<Rightarrow> nat \<Rightarrow> kernel \<Rightarrow> int \<times> kernel" where
  "dupfd fd arg s =
    (if fd \<ge> NR_OPEN \<or> filp (proc s) ! fd = None then (- EBADF, s)
     else if arg \<ge> NR_OPEN then (- EINVAL, s)
     else case free_fd arg s of
            None \<Rightarrow> (- EMFILE, s)
          | Some k \<Rightarrow>
             let s = clear_cloexec k s;
                 f = the (filp (proc s) ! fd)
             in (int k, upd_file f (\<lambda>x. x\<lparr>f_count := (f_count x + 1) mod 65536\<rparr>) (upd_filp k (Some f) s)))"

definition sys_dup2 :: "nat \<Rightarrow> nat \<Rightarrow> kernel \<Rightarrow> (int \<times> kernel) kres" where
  "sys_dup2 oldfd newfd s = kbind (sys_close newfd s) (\<lambda>(_, s). Ret (dupfd oldfd newfd s))"

definition sys_dup :: "nat \<Rightarrow> kernel \<Rightarrow> int \<times> kernel" where
  "sys_dup fildes s = dupfd fildes 0 s"

definition F_DUPFD :: nat where "F_DUPFD = 0"
definition F_GETFD :: nat where "F_GETFD = 1"
definition F_SETFD :: nat where "F_SETFD = 2"
definition F_GETFL :: nat where "F_GETFL = 3"
definition F_SETFL :: nat where "F_SETFL = 4"

text \<open>The locks (commands 5, 6 and 7) and unknown commands give \<open>- 1\<close>.\<close>

definition sys_fcntl :: "nat \<Rightarrow> nat \<Rightarrow> u32 \<Rightarrow> kernel \<Rightarrow> int \<times> kernel" where
  "sys_fcntl fd cmd arg s =
    (if fd \<ge> NR_OPEN then (- EBADF, s)
     else case filp (proc s) ! fd of
       None \<Rightarrow> (- EBADF, s)
     | Some f \<Rightarrow>
        if cmd = F_DUPFD then dupfd fd (unat arg) s
        else if cmd = F_GETFD then (of_bool (bit (close_on_exec (proc s)) fd), s)
        else if cmd = F_SETFD
        then (0, if arg AND 1 \<noteq> 0
                 then s\<lparr>proc := (proc s)\<lparr>close_on_exec := close_on_exec (proc s) OR push_bit fd 1\<rparr>\<rparr>
                 else clear_cloexec fd s)
        else if cmd = F_GETFL then (int (unat (f_flags (file_table s ! f))), s)
        else if cmd = F_SETFL
        then (0, upd_file f (\<lambda>x. x\<lparr>f_flags := (f_flags x AND NOT (O_APPEND OR O_NONBLOCK))
                                    OR (ucast arg AND (O_APPEND OR O_NONBLOCK))\<rparr>) s)
        else (- 1, s))"

section \<open>Status\<close>

text \<open>\<open>struct stat\<close>: 32 bytes; those between the fields are what the stack held (\<open>junk\<close>).\<close>

definition stat_bytes :: "m_inode \<Rightarrow> u8 list \<Rightarrow> u8 list" where
  "stat_bytes n junk =
    (let d = put16 0 (i_dev n) junk;
         d = put16 2 (i_num n) d;
         d = put16 4 (unat (i_mode n)) d;
         d = d[6 := of_nat (i_nlinks n)];
         d = put16 8 (unat (i_uid n)) d;
         d = d[10 := i_gid n];
         d = put16 12 (i_zone n ! 0) d;
         d = put32 16 (i_size n) d;
         d = put32 20 (unat (i_atime n)) d;
         d = put32 24 (unat (i_mtime n)) d
     in put32 28 (unat (i_ctime n)) d)"

definition cp_stat :: "u8 list \<Rightarrow> nat \<Rightarrow> u32 \<Rightarrow> kernel \<Rightarrow> kernel" where
  "cp_stat junk i statbuf s = put_fs_bytes (stat_bytes (inode_table s ! i) junk) statbuf s"

definition sys_stat :: "u8 list \<Rightarrow> u32 \<Rightarrow> u32 \<Rightarrow> kernel \<Rightarrow> (int \<times> kernel) kres" where
  "sys_stat junk filename statbuf s =
    with_namei filename ENOENT s (\<lambda>i s. put_return 0 [i] None (cp_stat junk i statbuf s))"

definition sys_fstat :: "u8 list \<Rightarrow> nat \<Rightarrow> u32 \<Rightarrow> kernel \<Rightarrow> int \<times> kernel" where
  "sys_fstat junk fd statbuf s =
    (if fd \<ge> NR_OPEN then (- EBADF, s)
     else case filp (proc s) ! fd of
       None \<Rightarrow> (- EBADF, s)
     | Some f \<Rightarrow>
        (case f_inode (file_table s ! f) of
           None \<Rightarrow> (- EBADF, s)
         | Some i \<Rightarrow> (0, cp_stat junk i statbuf s)))"

section \<open>Mounting\<close>

definition sys_umount :: "u32 \<Rightarrow> kernel \<Rightarrow> (int \<times> kernel) kres" where
  "sys_umount dev_name s =
    with_namei dev_name ENOENT s (\<lambda>i s.
      let dev = i_zone (inode_table s ! i) ! 0
      in if \<not> S_ISBLK (i_mode (inode_table s ! i)) then put_return (- ENOTBLK) [i] None s
         else kbind (iput (Some i) s) (\<lambda>s.
           if dev = ROOT_DEV s then Ret (- EBUSY, s)
           else kbind (get_super dev s) (\<lambda>r.
             case r of
               None \<Rightarrow> Ret (- ENOENT, s)
             | Some k \<Rightarrow>
                (case s_imount (super_blocks s ! k) of
                   None \<Rightarrow> Ret (- ENOENT, s)
                 | Some m \<Rightarrow>
                    if list_ex (\<lambda>n. i_dev n = dev \<and> i_count n \<noteq> 0) (inode_table s) then Ret (- EBUSY, s)
                    else kbind (iput (Some m) (upd_inode m (\<lambda>n. n\<lparr>i_mount := False\<rparr>) s)) (\<lambda>s.
                      let s = upd_super k (\<lambda>b. b\<lparr>s_imount := None\<rparr>) s
                      in kbind (iput (s_isup (super_blocks s ! k)) s) (\<lambda>s.
                         kbind (put_super dev (upd_super k (\<lambda>b. b\<lparr>s_isup := None\<rparr>) s)) (\<lambda>s.
                         kbind (sync_dev dev s) (\<lambda>(_, s). Ret (0, s)))))))))"

definition sys_mount :: "u32 \<Rightarrow> u32 \<Rightarrow> u32 \<Rightarrow> kernel \<Rightarrow> (int \<times> kernel) kres" where
  "sys_mount dev_name dir_name rw_flag s =
    with_namei dev_name ENOENT s (\<lambda>i s.
      let dev = i_zone (inode_table s ! i) ! 0
      in if \<not> S_ISBLK (i_mode (inode_table s ! i)) then put_return (- EPERM) [i] None s
         else kbind (iput (Some i) s) (\<lambda>s.
           with_namei dir_name ENOENT s (\<lambda>d s.
             if i_count (inode_table s ! d) \<noteq> 1 \<or> i_num (inode_table s ! d) = ROOT_INO
             then put_return (- EBUSY) [d] None s
             else if \<not> S_ISDIR (i_mode (inode_table s ! d)) then put_return (- EPERM) [d] None s
             else kbind (read_super dev s) (\<lambda>(r, s).
               case r of
                 None \<Rightarrow> put_return (- EBUSY) [d] None s
               | Some k \<Rightarrow>
                  if s_imount (super_blocks s ! k) \<noteq> None then put_return (- EBUSY) [d] None s
                  else if i_mount (inode_table s ! d) then put_return (- EPERM) [d] None s
                  else Ret (0, upd_inode d (\<lambda>n. n\<lparr>i_mount := True, i_dirt := True\<rparr>)
                                 (upd_super k (\<lambda>b. b\<lparr>s_imount := Some d\<rparr>) s))))))"

end
