(* ===== verification/Descriptors.thy ===== *)
theory Descriptors imports Open begin

text \<open>
  File descriptors: which descriptor the calls hand out, how the reference counts of the file table
  follow them, and the errors.
\<close>

section \<open>The search for a free slot\<close>

lemma free_slots_0 [simp]: "free_slots 0 k xs = []"
  by (cases xs) simp_all

lemma free_slots_None: "free_slots 1 k xs = [] \<longleftrightarrow> (\<forall>i<length xs. \<not> xs ! i)"
  by (induction xs arbitrary: k) (simp_all add: All_less_Suc2)

lemma free_slots_Some:
  "free_slots 1 k xs = d # js \<Longrightarrow>
    k \<le> d \<and> d < k + length xs \<and> xs ! (d - k) \<and> (\<forall>i. k \<le> i \<and> i < d \<longrightarrow> \<not> xs ! (i - k))"
proof (induction xs arbitrary: k)
  case (Cons x xs)
  show ?case
  proof (cases x)
    case False
    then have IH: "Suc k \<le> d \<and> d < Suc k + length xs \<and> xs ! (d - Suc k)
        \<and> (\<forall>i. Suc k \<le> i \<and> i < d \<longrightarrow> \<not> xs ! (i - Suc k))"
      using Cons.IH [of "Suc k"] Cons.prems by simp
    have "\<not> (x # xs) ! (i - k)" if "k \<le> i" "i < d" for i
      using IH that False by (cases "i = k") (auto simp: nth_Cons')
    with IH False show ?thesis by (simp add: nth_Cons')
  qed (use Cons.prems in auto)
qed simp

definition fd_free :: "kernel \<Rightarrow> nat \<Rightarrow> bool" where
  "fd_free s d \<longleftrightarrow> d < length (filp (proc s)) \<and> filp (proc s) ! d = None"

lemma free_fd_None: "free_fd k s = None \<longleftrightarrow> (\<forall>d\<ge>k. \<not> fd_free s d)"
proof -
  let ?xs = "map (\<lambda>f. f = None) (drop k (filp (proc s)))"
  have "free_fd k s = None \<longleftrightarrow> (\<forall>i<length ?xs. \<not> ?xs ! i)"
    unfolding free_slots_None [of k, symmetric] by (simp add: free_fd_def split: list.split)
  also have "\<dots> \<longleftrightarrow> (\<forall>i. \<not> fd_free s (k + i))"
    by (auto simp: fd_free_def)
  also have "\<dots> \<longleftrightarrow> (\<forall>d\<ge>k. \<not> fd_free s d)"
    by (metis le_add1 le_add_diff_inverse)
  finally show ?thesis .
qed

lemma free_fd_Some:
  assumes "free_fd k s = Some d"
  shows "k \<le> d" "fd_free s d" "k \<le> j \<Longrightarrow> j < d \<Longrightarrow> \<not> fd_free s j"
proof -
  let ?xs = "map (\<lambda>f. f = None) (drop k (filp (proc s)))"
  obtain js where js: "free_slots 1 k ?xs = d # js"
    using assms by (auto simp: free_fd_def split: list.splits)
  show "k \<le> d" "fd_free s d" "k \<le> j \<Longrightarrow> j < d \<Longrightarrow> \<not> fd_free s j"
    using free_slots_Some [OF js] by (auto simp: fd_free_def)
qed

section \<open>Duplicating\<close>

definition fd_file :: "kernel \<Rightarrow> nat \<Rightarrow> nat option" where
  "fd_file s fd = (if fd < NR_OPEN then filp (proc s) ! fd else None)"

definition fds_ok :: "kernel \<Rightarrow> bool" where
  "fds_ok s \<longleftrightarrow> length (filp (proc s)) = NR_OPEN
    \<and> (\<forall>fd f. fd_file s fd = Some f \<longrightarrow> f < length (file_table s) \<and> 0 < f_count (file_table s ! f))"

text \<open>The effect of giving descriptor \<open>k\<close> the file \<open>f\<close>.\<close>

definition share_file :: "nat \<Rightarrow> nat \<Rightarrow> kernel \<Rightarrow> kernel" where
  "share_file k f s =
    upd_file f (\<lambda>x. x\<lparr>f_count := (f_count x + 1) mod 65536\<rparr>) (upd_filp k (Some f) (clear_cloexec k s))"

lemma upd_file_simps [simp]:
  "file_table (upd_file f g s) = (file_table s)[f := g (file_table s ! f)]" "proc (upd_file f g s) = proc s"
  "inode_table (upd_file f g s) = inode_table s"
  by (simp_all add: upd_file_def)

lemma upd_filp_simps [simp]:
  "filp (proc (upd_filp k f s)) = (filp (proc s))[k := f]" "file_table (upd_filp k f s) = file_table s"
  "close_on_exec (proc (upd_filp k f s)) = close_on_exec (proc s)"
  "filp (proc (clear_cloexec k s)) = filp (proc s)" "file_table (clear_cloexec k s) = file_table s"
  by (simp_all add: upd_filp_def clear_cloexec_def)

lemma dupfd_cases:
  assumes "length (filp (proc s)) = NR_OPEN"
  shows "dupfd fd arg s =
    (case fd_file s fd of
       None \<Rightarrow> (- EBADF, s)
     | Some f \<Rightarrow> if arg \<ge> NR_OPEN then (- EINVAL, s)
                else case free_fd arg s of
                       None \<Rightarrow> (- EMFILE, s)
                     | Some k \<Rightarrow> (int k, share_file k f s))"
  by (auto simp: dupfd_def fd_file_def share_file_def Let_def split: option.split)

text \<open>C19: every outcome of \<open>dup\<close> and \<open>F_DUPFD\<close>. A descriptor that is not open is refused with \<open>EBADF\<close>, a
  lower bound out of range with \<open>EINVAL\<close>, and \<open>EMFILE\<close> says that no descriptor from the bound on is free;
  a refused call changes nothing. Otherwise the result is the least free descriptor from the bound
  on, it stands for the same file, whose count grows by one, and every other descriptor stays.\<close>

theorem dupfd_correct:
  fixes fd arg :: nat
  assumes "fds_ok s"
  defines "t \<equiv> snd (dupfd fd arg s)" and "k \<equiv> nat (fst (dupfd fd arg s))"
  shows "(fst (dupfd fd arg s) = - EBADF \<longleftrightarrow> fd_file s fd = None)
    \<and> (fst (dupfd fd arg s) = - EINVAL \<longleftrightarrow> fd_file s fd \<noteq> None \<and> arg \<ge> NR_OPEN)
    \<and> (fst (dupfd fd arg s) = - EMFILE \<longleftrightarrow> fd_file s fd \<noteq> None \<and> arg < NR_OPEN \<and> (\<forall>j\<ge>arg. \<not> fd_free s j))
    \<and> (fst (dupfd fd arg s) < 0 \<longrightarrow> t = s)
    \<and> (0 \<le> fst (dupfd fd arg s) \<longrightarrow> (\<exists>f. fd_file s fd = Some f
         \<and> arg \<le> k \<and> fd_free s k \<and> (\<forall>j. arg \<le> j \<and> j < k \<longrightarrow> \<not> fd_free s j)
         \<and> (\<forall>j. fd_file t j = (if j = k then Some f else fd_file s j))
         \<and> f_count (file_table t ! f) = (f_count (file_table s ! f) + 1) mod 65536
         \<and> (\<forall>g. g \<noteq> f \<longrightarrow> file_table t ! g = file_table s ! g)))"
proof -
  have len: "length (filp (proc s)) = NR_OPEN" using assms(1) by (simp add: fds_ok_def)
  have err: "EBADF = 9" "EINVAL = 22" "EMFILE = 24" by (simp_all add: EBADF_def EINVAL_def EMFILE_def)
  note cases = dupfd_cases [OF len, of fd arg]
  show ?thesis
  proof (cases "fd_file s fd")
    case None
    then show ?thesis by (simp add: cases t_def err)
  next
    case (Some f)
    show ?thesis
    proof (cases "arg < NR_OPEN")
      case False
      then show ?thesis using Some by (simp add: cases t_def err)
    next
      case arg: True
      show ?thesis
      proof (cases "free_fd arg s")
        case None
        then show ?thesis using Some arg free_fd_None [of arg s] by (simp add: cases t_def err)
      next
        case k: (Some d)
        have d: "dupfd fd arg s = (int d, share_file d f s)" using Some arg k by (simp add: cases)
        note free = free_fd_Some [OF k]
        have "f < length (file_table s)" using assms(1) Some by (simp add: fds_ok_def)
        moreover have "fd_file (share_file d f s) j = (if j = d then Some f else fd_file s j)" for j
          using free(2) len by (auto simp: share_file_def fd_file_def fd_free_def nth_upd)
        moreover have "\<not> (\<forall>j\<ge>arg. \<not> fd_free s j)" using free(1,2) by blast
        ultimately show ?thesis
          using Some free arg by (auto simp: d t_def k_def err share_file_def)
      qed
    qed
  qed
qed

lemma clear_cloexec_idem [simp]: "clear_cloexec k (clear_cloexec k s) = clear_cloexec k s"
  by (simp add: clear_cloexec_def ac_simps)

text \<open>Closing the descriptor that \<open>dup\<close> returned undoes the call, but for the descriptor's
  close-on-exec flag, which is off.\<close>

theorem dup_close_round_trip:
  assumes ok: "fds_ok s" and dup: "sys_dup fd s = (int k, t)"
    and room: "\<forall>f. fd_file s fd = Some f \<longrightarrow> f_count (file_table s ! f) < 65535"
  shows "sys_close k t = Ret (0, clear_cloexec k s)"
proof -
  have len: "length (filp (proc s)) = NR_OPEN" using ok by (simp add: fds_ok_def)
  obtain f where f: "fd_file s fd = Some f" "free_fd 0 s = Some k" "t = share_file k f s"
    using dup by (auto simp: sys_dup_def dupfd_cases [OF len] EBADF_def EINVAL_def EMFILE_def
        split: option.splits if_splits)
  have k: "k < NR_OPEN" "filp (proc s) ! k = None"
    using free_fd_Some(2) [OF f(2)] len by (simp_all add: fd_free_def)
  have c: "f < length (file_table s)" "0 < f_count (file_table s ! f)" "f_count (file_table s ! f) < 65535"
    using ok f(1) room by (auto simp: fds_ok_def)
  have "(filp (proc s))[k := Some f, k := None] = filp (proc s)"
    using k(2) by (metis list_update_id list_update_overwrite)
  moreover have "(file_table s)[f := (file_table s ! f)\<lparr>f_count := f_count (file_table s ! f)\<rparr>] = file_table s"
    by (metis file_t.surjective file_t.update_convs(3) list_update_id)
  ultimately have "upd_file f (\<lambda>x. x\<lparr>f_count := f_count x - 1\<rparr>) (upd_filp k None (clear_cloexec k t)) = clear_cloexec k s"
    using c by (simp add: f(3) share_file_def upd_file_def upd_filp_def clear_cloexec_def ac_simps)
  moreover have "filp (proc t) ! k = Some f" "f_count (file_table t ! f) = f_count (file_table s ! f) + 1"
    using k(1) len c by (simp_all add: f(3) share_file_def)
  ultimately show ?thesis
    using k(1) c by (simp add: sys_close_def Let_def)
qed


section \<open>A process with two descriptors\<close>

definition fd_example :: kernel where
  "fd_example = blank_kernel
    \<lparr>file_table := (file_table blank_kernel)[0 := \<lparr>f_mode = 0, f_flags = 0, f_count = 2, f_inode = Some 1, f_pos = 0\<rparr>],
     proc := (INIT_TASK 0)\<lparr>filp := (replicate NR_OPEN None)[0 := Some 0, 1 := Some 0]\<rparr>\<rparr>"

lemma fd_example_ok: "fds_ok fd_example" "fd_file fd_example 0 = Some 0" "fd_file fd_example 1 = Some 0"
  "f_count (file_table fd_example ! 0) = 2" "filp (proc fd_example) = Some 0 # Some 0 # replicate 18 None"
proof -
  show *: "filp (proc fd_example) = Some 0 # Some 0 # replicate 18 None" "f_count (file_table fd_example ! 0) = 2"
    by (simp_all add: fd_example_def NR_OPEN_def numeral_eq_Suc blank_kernel_def NR_FILE_def)
  have "fd_file fd_example d = Some f \<Longrightarrow> f = 0" for d f
    using *(1) by (auto simp: fd_file_def NR_OPEN_def nth_Cons' split: if_splits)
  moreover have "length (file_table fd_example) = 64"
    by (simp add: fd_example_def blank_kernel_def NR_FILE_def)
  ultimately show "fds_ok fd_example"
    using * by (fastforce simp: fds_ok_def NR_OPEN_def)
qed (simp_all add: fd_example_def fd_file_def NR_OPEN_def)

lemma dupfd_example: "dupfd 0 0 fd_example = (2, share_file 2 0 fd_example)"
proof -
  have "free_fd 0 fd_example = Some 2"
    by (simp add: free_fd_def fd_example_ok(5) numeral_eq_Suc)
  then show ?thesis
    using fd_example_ok(1,2) by (subst dupfd_cases) (simp_all add: fds_ok_def NR_OPEN_def)
qed

lemma dupfd_correct_witness:
  "fd_file (snd (dupfd 0 0 fd_example)) 2 = Some 0 \<and> f_count (file_table (snd (dupfd 0 0 fd_example)) ! 0) = 3"
  using dupfd_correct [OF fd_example_ok(1), of 0 0] dupfd_example fd_example_ok(2,4) by simp

lemma dup_close_round_trip_witness:
  "sys_close 2 (snd (sys_dup 0 fd_example)) = Ret (0, clear_cloexec 2 fd_example)"
  using dup_close_round_trip [of fd_example 0 2 "share_file 2 0 fd_example"] fd_example_ok dupfd_example
  by (simp add: sys_dup_def)


end
