(* ===== verification/Malloc.thy ===== *)
theory Malloc imports Memory begin

unbundle bit_operations_syntax

text \<open>
  \<open>lib/malloc.c\<close>: the kernel's allocator of small objects. Bucket descriptors and objects live in pages
  from \<open>get_free_page\<close>, and the lists of free objects run through the objects themselves, so the
  model works on physical memory, word by word, as the code does. The addresses of words are
  multiples of 4; the allocator only hands out and gets back such addresses.

  A descriptor has the words \<open>page\<close>, \<open>next\<close>, \<open>freeptr\<close>, and one with \<open>refcnt\<close> in its low half and
  \<open>bucket_size\<close> in its high half. Interrupts are off where lists change, so the operations are atomic.
\<close>

record bucket_mem =
  pages :: mm
  chains :: "u32 list"
  free_bucket_desc :: u32

definition ld :: "u32 \<Rightarrow> bucket_mem \<Rightarrow> u32" where
  "ld a s = phys (pages s) a"

definition st :: "u32 \<Rightarrow> u32 \<Rightarrow> bucket_mem \<Rightarrow> bucket_mem" where
  "st a v s = s\<lparr>pages := store a v (pages s)\<rparr>"

definition desc_page :: "u32 \<Rightarrow> u32" where "desc_page b = b"
definition desc_next :: "u32 \<Rightarrow> u32" where "desc_next b = b + 4"
definition desc_freeptr :: "u32 \<Rightarrow> u32" where "desc_freeptr b = b + 8"
definition desc_counts :: "u32 \<Rightarrow> u32" where "desc_counts b = b + 12"

definition refcnt :: "u32 \<Rightarrow> bucket_mem \<Rightarrow> u16" where
  "refcnt b s = ucast (ld (desc_counts b) s)"

definition set_refcnt :: "u32 \<Rightarrow> u16 \<Rightarrow> bucket_mem \<Rightarrow> bucket_mem" where
  "set_refcnt b v s = st (desc_counts b) ((ld (desc_counts b) s AND 0xFFFF0000) OR ucast v) s"

text \<open>The sizes of \<open>bucket_dir\<close>.\<close>

definition bucket_sizes :: "nat list" where
  "bucket_sizes = [16, 32, 64, 128, 256, 512, 1024, 2048, 4096]"

text \<open>A list in memory without repetition has at most this many elements of 16 bytes.\<close>

definition CHAIN_STEPS :: nat where
  "CHAIN_STEPS = 2 ^ 28"

section \<open>Lists in fresh pages\<close>

text \<open>\<open>n\<close> elements from \<open>a\<close> on, each with a pointer at offset \<open>k\<close> to the next one, \<open>sz\<close> bytes further; the
  result is the last element.\<close>

primrec link_up :: "nat \<Rightarrow> u32 \<Rightarrow> u32 \<Rightarrow> u32 \<Rightarrow> bucket_mem \<Rightarrow> u32 \<times> bucket_mem" where
  "link_up 0 k sz a s = (a, s)"
| "link_up (Suc n) k sz a s = link_up n k sz (a + sz) (st (a + k) (a + sz) s)"

definition init_bucket_desc :: "bucket_mem \<Rightarrow> bucket_mem kres" where
  "init_bucket_desc s =
    (let (first, m) = get_free_page (pages s);
         s = s\<lparr>pages := m\<rparr>
     in if first = 0 then Panic ''Out of memory in init_bucket_desc()''
        else
        let (b, s) = link_up (4096 div 16 - 1) 4 16 first s;
            s = st (desc_next b) (free_bucket_desc s) s
        in Ret (s\<lparr>free_bucket_desc := first\<rparr>))"

section \<open>\<open>malloc\<close>\<close>

fun find_bucket :: "nat \<Rightarrow> nat list \<Rightarrow> u32 \<Rightarrow> nat option" where
  "find_bucket i [] len = None"
| "find_bucket i (z # zs) len = (if z \<ge> unat len then Some i else find_bucket (Suc i) zs len)"

primrec find_space :: "nat \<Rightarrow> u32 \<Rightarrow> bucket_mem \<Rightarrow> u32 kres" where
  "find_space 0 b s = Hang"
| "find_space (Suc n) b s =
    (if b = 0 then Ret 0 else if ld (desc_freeptr b) s \<noteq> 0 then Ret b
     else find_space n (ld (desc_next b) s) s)"

text \<open>A new bucket for size \<open>i\<close>.\<close>

definition new_bucket :: "nat \<Rightarrow> bucket_mem \<Rightarrow> (u32 \<times> bucket_mem) kres" where
  "new_bucket i s =
    kbind (if free_bucket_desc s = 0 then init_bucket_desc s else Ret s) (\<lambda>s.
    let b = free_bucket_desc s;
        sz = bucket_sizes ! i;
        s = s\<lparr>free_bucket_desc := ld (desc_next b) s\<rparr>;
        s = st (desc_counts b) (push_bit 16 (of_nat sz)) s;
        (cp, m) = get_free_page (pages s);
        s = s\<lparr>pages := m\<rparr>;
        s = st (desc_freeptr b) cp s;
        s = st (desc_page b) cp s
    in if cp = 0 then Panic ''Out of memory in kernel malloc()''
       else
       let (a, s) = link_up (4096 div sz - 1) 0 (of_nat sz) cp s;
           s = st a 0 s;
           s = st (desc_next b) (chains s ! i) s
       in Ret (b, s\<lparr>chains := (chains s)[i := b]\<rparr>))"

definition malloc :: "u32 \<Rightarrow> bucket_mem \<Rightarrow> (u32 \<times> bucket_mem) kres" where
  "malloc len s =
    (case find_bucket 0 bucket_sizes len of
       None \<Rightarrow> Panic ''malloc: bad arg''
     | Some i \<Rightarrow>
        kbind (find_space CHAIN_STEPS (chains s ! i) s) (\<lambda>b.
        kbind (if b = 0 then new_bucket i s else Ret (b, s)) (\<lambda>(b, s).
          let r = ld (desc_freeptr b) s;
              s = st (desc_freeptr b) (ld r s) s
          in Ret (r, set_refcnt b (refcnt b s + 1) s))))"

section \<open>\<open>free_s\<close>\<close>

text \<open>The descriptor of a page in a chain, and the one before it.\<close>

primrec find_page :: "nat \<Rightarrow> u32 \<Rightarrow> u32 \<Rightarrow> u32 \<Rightarrow> bucket_mem \<Rightarrow> (u32 \<times> u32) kres" where
  "find_page 0 page prev b s = Hang"
| "find_page (Suc n) page prev b s =
    (if b = 0 then Ret (0, prev) else if ld (desc_page b) s = page then Ret (b, prev)
     else find_page n page b (ld (desc_next b) s) s)"

fun find_desc :: "nat \<Rightarrow> nat list \<Rightarrow> u32 \<Rightarrow> int \<Rightarrow> bucket_mem \<Rightarrow> (nat \<times> u32 \<times> u32) kres" where
  "find_desc i [] page sz s = Panic ''Bad address passed to kernel free_s()''"
| "find_desc i (z # zs) page sz s =
    (if int z < sz then find_desc (Suc i) zs page sz s
     else kbind (find_page CHAIN_STEPS page 0 (chains s ! i) s) (\<lambda>(b, prev).
       if b \<noteq> 0 then Ret (i, b, prev) else find_desc (Suc i) zs page sz s))"

primrec find_prev :: "nat \<Rightarrow> u32 \<Rightarrow> u32 \<Rightarrow> bucket_mem \<Rightarrow> u32 kres" where
  "find_prev 0 b prev s = Hang"
| "find_prev (Suc n) b prev s =
    (if prev = 0 \<or> ld (desc_next prev) s = b then Ret prev else find_prev n b (ld (desc_next prev) s) s)"

text \<open>An empty bucket is taken out of its chain and its page is freed.\<close>

definition drop_bucket :: "nat \<Rightarrow> u32 \<Rightarrow> u32 \<Rightarrow> bucket_mem \<Rightarrow> bucket_mem kres" where
  "drop_bucket i b prev s =
    kbind (if prev \<noteq> 0 \<and> ld (desc_next prev) s \<noteq> b \<or> prev = 0 \<and> chains s ! i \<noteq> b
           then find_prev CHAIN_STEPS b (chains s ! i) s else Ret prev) (\<lambda>prev.
    kbind (if prev \<noteq> 0 then Ret (st (desc_next prev) (ld (desc_next b) s) s)
           else if chains s ! i \<noteq> b then Panic ''malloc bucket chains corrupted''
           else Ret (s\<lparr>chains := (chains s)[i := ld (desc_next b) s]\<rparr>)) (\<lambda>s.
    kbind (free_page (ld (desc_page b) s) (pages s)) (\<lambda>m.
      let s = s\<lparr>pages := m\<rparr>;
          s = st (desc_next b) (free_bucket_desc s) s
      in Ret (s\<lparr>free_bucket_desc := b\<rparr>))))"

definition free_s :: "u32 \<Rightarrow> int \<Rightarrow> bucket_mem \<Rightarrow> bucket_mem kres" where
  "free_s obj sz s =
    kbind (find_desc 0 bucket_sizes (obj AND 0xfffff000) sz s) (\<lambda>(i, b, prev).
      let s = st obj (ld (desc_freeptr b) s) s;
          s = st (desc_freeptr b) obj s;
          s = set_refcnt b (refcnt b s - 1) s
      in if refcnt b s = 0 then drop_bucket i b prev s else Ret s)"

end
