(* ===== verification/Signals.thy ===== *)
theory Signals imports Open begin

unbundle bit_operations_syntax

text \<open>
  \<open>kernel/signal.c\<close>, and the system calls of \<open>kernel/sys.c\<close> that only look at the current process.
\<close>

section \<open>Signal masks and actions\<close>

definition SA_NOMASK :: u32 where "SA_NOMASK = 0x40000000"
definition SA_ONESHOT :: u32 where "SA_ONESHOT = 0x80000000"

definition upd_proc :: "(task_struct \<Rightarrow> task_struct) \<Rightarrow> kernel \<Rightarrow> kernel" where
  "upd_proc f s = s\<lparr>proc := f (proc s)\<rparr>"

definition sys_sgetmask :: "kernel \<Rightarrow> int" where
  "sys_sgetmask s = sint (blocked (proc s))"

definition sys_ssetmask :: "u32 \<Rightarrow> kernel \<Rightarrow> int \<times> kernel" where
  "sys_ssetmask newmask s =
    (sint (blocked (proc s)), upd_proc (\<lambda>p. p\<lparr>blocked := newmask AND NOT (sigbit SIGKILL)\<rparr>) s)"

text \<open>The 16 bytes of \<open>struct sigaction\<close> in the memory of the process.\<close>

definition save_old :: "sigaction \<Rightarrow> u32 \<Rightarrow> kernel \<Rightarrow> kernel" where
  "save_old a to s =
    put_fs_long (sa_restorer a) (to + 12) (put_fs_long (sa_flags a) (to + 8)
      (put_fs_long (sa_mask a) (to + 4) (put_fs_long (sa_handler a) to s)))"

definition get_new :: "u32 \<Rightarrow> kernel \<Rightarrow> sigaction" where
  "get_new from s =
    \<lparr>sa_handler = get_fs_long from s, sa_mask = get_fs_long (from + 4) s,
     sa_flags = get_fs_long (from + 8) s, sa_restorer = get_fs_long (from + 12) s\<rparr>"

definition upd_sigaction :: "nat \<Rightarrow> (sigaction \<Rightarrow> sigaction) \<Rightarrow> kernel \<Rightarrow> kernel" where
  "upd_sigaction k f s =
    upd_proc (\<lambda>p. p\<lparr>sigactions := (sigactions p)[k := f (sigactions p ! k)]\<rparr>) s"

definition valid_signal :: "int \<Rightarrow> bool" where
  "valid_signal signum \<longleftrightarrow> \<not> (signum < 1 \<or> signum > 32 \<or> signum = int SIGKILL)"

definition sys_signal :: "int \<Rightarrow> u32 \<Rightarrow> u32 \<Rightarrow> kernel \<Rightarrow> int \<times> kernel" where
  "sys_signal signum handler restorer s =
    (if \<not> valid_signal signum then (- 1, s)
     else
     let k = nat signum - 1
     in (sint (sa_handler (sigactions (proc s) ! k)),
         upd_sigaction k (\<lambda>_. \<lparr>sa_handler = handler, sa_mask = 0, sa_flags = SA_ONESHOT OR SA_NOMASK,
                               sa_restorer = restorer\<rparr>) s))"

definition sys_sigaction :: "int \<Rightarrow> u32 \<Rightarrow> u32 \<Rightarrow> kernel \<Rightarrow> int \<times> kernel" where
  "sys_sigaction signum action oldaction s =
    (if \<not> valid_signal signum then (- 1, s)
     else
     let k = nat signum - 1;
         tmp = sigactions (proc s) ! k;
         s = upd_sigaction k (\<lambda>_. get_new action s) s;
         s = (if oldaction \<noteq> 0 then save_old tmp oldaction s else s)
     in (0, if sa_flags (sigactions (proc s) ! k) AND SA_NOMASK \<noteq> 0
            then upd_sigaction k (\<lambda>a. a\<lparr>sa_mask := 0\<rparr>) s
            else upd_sigaction k (\<lambda>a. a\<lparr>sa_mask := sa_mask a OR push_bit k 1\<rparr>) s))"

section \<open>Calling a handler\<close>

text \<open>The registers saved on the kernel stack, which the process gets back when the system call ends.\<close>

record saved_regs =
  r_eax :: u32
  r_ecx :: u32
  r_edx :: u32
  r_eip :: u32
  r_eflags :: u32
  r_esp :: u32

text \<open>\<open>put_fs_long\<close> to consecutive words.\<close>

primrec put_fs_longs :: "u32 list \<Rightarrow> u32 \<Rightarrow> kernel \<Rightarrow> kernel" where
  "put_fs_longs [] a s = s"
| "put_fs_longs (v # vs) a s = put_fs_longs vs (a + 4) (put_fs_long v a s)"

text \<open>The default action of every signal but \<open>SIGCHLD\<close> ends the process.\<close>

definition do_signal :: "nat \<Rightarrow> saved_regs \<Rightarrow> kernel \<Rightarrow> (saved_regs \<times> kernel) kres" where
  "do_signal signr r s =
    (let k = signr - 1;
         sa = sigactions (proc s) ! k
     in if sa_handler sa = 1 then Ret (r, s)
        else if sa_handler sa = 0
        then if signr = SIGCHLD then Ret (r, s) else Exit (sint (push_bit k 1 :: u32))
        else
        let s = (if sa_flags sa AND SA_ONESHOT \<noteq> 0 then upd_sigaction k (\<lambda>a. a\<lparr>sa_handler := 0\<rparr>) s else s);
            longs = (if sa_flags sa AND SA_NOMASK \<noteq> 0 then 7 else 8);
            sp = r_esp r - 4 * longs;
            s = put_fs_longs ([sa_restorer sa, of_nat signr]
                   @ (if sa_flags sa AND SA_NOMASK = 0 then [blocked (proc s)] else [])
                   @ [r_eax r, r_ecx r, r_edx r, r_eflags r, r_eip r]) sp s
        in Ret (r\<lparr>r_eip := sa_handler sa, r_esp := sp\<rparr>, upd_proc (\<lambda>p. p\<lparr>blocked := blocked p OR sa_mask sa\<rparr>) s))"

section \<open>Identity of the process\<close>

definition sys_setregid :: "int \<Rightarrow> int \<Rightarrow> kernel \<Rightarrow> int \<times> kernel" where
  "sys_setregid rg eg s =
    (let refused = rg > 0 \<and> \<not> (uint (gid (proc s)) = rg \<or> suser s);
         s = (if rg > 0 \<and> \<not> refused then upd_proc (\<lambda>p. p\<lparr>gid := of_int rg\<rparr>) s else s)
     in if refused then (- EPERM, s)
        else if eg > 0
        then if uint (gid (proc s)) = eg \<or> uint (egid (proc s)) = eg \<or> uint (sgid (proc s)) = eg \<or> suser s
             then (0, upd_proc (\<lambda>p. p\<lparr>egid := of_int eg\<rparr>) s)
             else (- EPERM, s)
        else (0, s))"

definition sys_setgid :: "int \<Rightarrow> kernel \<Rightarrow> int \<times> kernel" where
  "sys_setgid g s = sys_setregid g g s"

definition sys_setreuid :: "int \<Rightarrow> int \<Rightarrow> kernel \<Rightarrow> int \<times> kernel" where
  "sys_setreuid ru eu s =
    (let old_ruid = uint (uid (proc s));
         refused = ru > 0 \<and> \<not> (uint (euid (proc s)) = ru \<or> old_ruid = ru \<or> suser s);
         s = (if ru > 0 \<and> \<not> refused then upd_proc (\<lambda>p. p\<lparr>uid := of_int ru\<rparr>) s else s)
     in if refused then (- EPERM, s)
        else if eu > 0
        then if old_ruid = eu \<or> uint (euid (proc s)) = eu \<or> suser s
             then (0, upd_proc (\<lambda>p. p\<lparr>euid := of_int eu\<rparr>) s)
             else (- EPERM, upd_proc (\<lambda>p. p\<lparr>uid := of_int old_ruid\<rparr>) s)
        else (0, s))"

definition sys_setuid :: "int \<Rightarrow> kernel \<Rightarrow> int \<times> kernel" where
  "sys_setuid u s = sys_setreuid u u s"

definition sys_getpgrp :: "kernel \<Rightarrow> int" where
  "sys_getpgrp s = pgrp (proc s)"

definition sys_setsid :: "kernel \<Rightarrow> int \<times> kernel" where
  "sys_setsid s =
    (if leader (proc s) \<noteq> 0 \<and> \<not> suser s then (- EPERM, s)
     else (pid (proc s), upd_proc (\<lambda>p. p\<lparr>leader := 1, session := pid p, pgrp := pid p, tty := - 1\<rparr>) s))"

section \<open>The rest\<close>

text \<open>The calls that are not implemented: \<open>ftime\<close>, \<open>break\<close>, \<open>ptrace\<close>, \<open>stty\<close>, \<open>gtty\<close>, \<open>rename\<close>, \<open>prof\<close>, \<open>acct\<close>,
  \<open>phys\<close>, \<open>lock\<close>, \<open>mpx\<close> and \<open>ulimit\<close>.\<close>

definition sys_nosys :: "kernel \<Rightarrow> int \<times> kernel" where
  "sys_nosys s = (- ENOSYS, s)"

definition sys_brk :: "u32 \<Rightarrow> kernel \<Rightarrow> int \<times> kernel" where
  "sys_brk end_data_seg s =
    (let p = proc s;
         s = (if end_data_seg \<ge> end_code p \<and> end_data_seg < start_stack p - 16384
              then upd_proc (\<lambda>p. p\<lparr>brk := end_data_seg\<rparr>) s else s)
     in (sint (brk (proc s)), s))"

definition sys_umask :: "u32 \<Rightarrow> kernel \<Rightarrow> int \<times> kernel" where
  "sys_umask msk s = (uint (umask (proc s)), upd_proc (\<lambda>p. p\<lparr>umask := ucast msk AND 0x1FF\<rparr>) s)"

text \<open>\<open>struct utsname\<close>: five fields of 9 bytes, padded with 0.\<close>

definition uts_field :: "string \<Rightarrow> u8 list" where
  "uts_field x = map (\<lambda>c. of_nat (of_char c)) x @ replicate (9 - length x) 0"

definition thisname :: "u8 list" where
  "thisname = concat (map uts_field [''linux .0'', ''nodename'', ''release '', ''version '', ''machine ''])"

definition sys_uname :: "u32 \<Rightarrow> kernel \<Rightarrow> int \<times> kernel" where
  "sys_uname name s = (if name = 0 then (- ERROR, s) else (0, put_fs_bytes thisname name s))"

definition put_times :: "u32 \<Rightarrow> kernel \<Rightarrow> kernel" where
  "put_times tbuf s =
    (let p = proc s
     in put_fs_longs [of_int (utime p), of_int (stime p), of_int (cutime p), of_int (cstime p)] tbuf s)"

text \<open>\<open>jiffies\<close> is the clock tick counter.\<close>

definition sys_times :: "int \<Rightarrow> u32 \<Rightarrow> kernel \<Rightarrow> int \<times> kernel" where
  "sys_times jiffies tbuf s = (jiffies, if tbuf \<noteq> 0 then put_times tbuf s else s)"

definition sys_time :: "u32 \<Rightarrow> kernel \<Rightarrow> int \<times> kernel" where
  "sys_time tloc s = (sint (now s), if tloc \<noteq> 0 then put_fs_long (now s) tloc s else s)"

end
