(* ===== verification/Process.thy ===== *)
theory Process imports Sched Signals begin

unbundle bit_operations_syntax

text \<open>
  \<open>kernel/fork.c\<close>, \<open>kernel/exit.c\<close> and the system calls of \<open>kernel/sys.c\<close> that look at the task table or
  the clock. The state is that of the scheduler together with that of memory and the file system. The
  current process is in the task table; an operation of the file system is run on it by \<open>on_fs\<close>,
  which hands it over and puts it back.

  A task's own page is named by its kernel stack: \<open>copy_process\<close> sets \<open>esp0\<close> to the end of the page
  that holds the task structure. The bytes of that page are not modelled, the structure is the
  entry of the task table.

  A process that calls \<open>schedule\<close> and is scheduled again later finds what the other processes did in
  between: the argument \<open>others\<close> of \<open>release\<close> and \<open>sys_waitpid\<close>, which is not code of the kernel.
\<close>

record system =
  sc :: sched
  kr :: kernel
  last_pid :: int

text \<open>\<open>CURRENT_TIME\<close>\<close>

definition current_time :: "system \<Rightarrow> u32" where
  "current_time s = of_int (startup_time (sc s) + c_div (jiffies (sc s)) HZ)"

definition on_fs :: "(kernel \<Rightarrow> ('r \<times> kernel) kres) \<Rightarrow> system \<Rightarrow> ('r \<times> system) kres" where
  "on_fs f s =
    kbind (f ((kr s)\<lparr>proc := cur (sc s), now := current_time s\<rparr>)) (\<lambda>(r, k).
      Ret (r, s\<lparr>kr := k, sc := upd_task (current (sc s)) (\<lambda>_. proc k) (sc s)\<rparr>))"

definition fs_proc :: "(kernel \<Rightarrow> kernel kres) \<Rightarrow> system \<Rightarrow> system kres" where
  "fs_proc f s = kbind (on_fs (\<lambda>k. kbind (f k) (\<lambda>k. Ret ((), k))) s) (\<lambda>(_, s). Ret s)"

text \<open>An operation on memory, and a store to the task in a slot.\<close>

definition on_mm :: "(mm \<Rightarrow> mm kres) \<Rightarrow> system \<Rightarrow> system kres" where
  "on_mm f s = kbind (f (mem (kr s))) (\<lambda>m. Ret (s\<lparr>kr := (kr s)\<lparr>mem := m\<rparr>\<rparr>))"

definition set_task :: "nat \<Rightarrow> task_struct option \<Rightarrow> system \<Rightarrow> system" where
  "set_task i t s = s\<lparr>sc := (sc s)\<lparr>task := (task (sc s))[i := t]\<rparr>\<rparr>"

definition upd :: "nat \<Rightarrow> (task_struct \<Rightarrow> task_struct) \<Rightarrow> system \<Rightarrow> system" where
  "upd i f s = s\<lparr>sc := upd_task i f (sc s)\<rparr>"

definition me :: "system \<Rightarrow> task_struct" where
  "me s = cur (sc s)"

definition task_at :: "system \<Rightarrow> nat \<Rightarrow> task_struct option" where
  "task_at s i = task (sc s) ! i"

definition is_task :: "(task_struct \<Rightarrow> bool) \<Rightarrow> task_struct option \<Rightarrow> bool" where
  "is_task f p = (case p of None \<Rightarrow> False | Some t \<Rightarrow> f t)"

definition task_page :: "task_struct \<Rightarrow> u32" where
  "task_page p = esp0 (tss p) - 4096"

section \<open>Segments\<close>

text \<open>\<open>get_base\<close>, \<open>set_base\<close> and \<open>get_limit\<close> on a descriptor. The limit is in bytes; a granular one
  counts pages.\<close>

definition get_base :: "desc_struct \<Rightarrow> u32" where
  "get_base d = drop_bit 16 (fst d) OR push_bit 16 (snd d AND 0xff) OR (snd d AND 0xff000000)"

definition set_base :: "desc_struct \<Rightarrow> u32 \<Rightarrow> desc_struct" where
  "set_base d base =
    ((fst d AND 0xffff) OR push_bit 16 (base AND 0xffff),
     (snd d AND 0x00ffff00) OR (drop_bit 16 base AND 0xff) OR (base AND 0xff000000))"

definition get_limit :: "desc_struct \<Rightarrow> u32" where
  "get_limit d =
    (let n = (fst d AND 0xffff) OR (snd d AND 0xf0000)
     in (if bit (snd d) 23 then push_bit 12 n OR 0xfff else n) + 1)"

section \<open>\<open>fork\<close>\<close>

text \<open>\<open>verify_area\<close>: every page of the area is made writable for this process alone.\<close>

primrec verify_pages :: "nat \<Rightarrow> u32 \<Rightarrow> int \<Rightarrow> mm \<Rightarrow> mm kres" where
  "verify_pages 0 start n m = (if n > 0 then Hang else Ret m)"
| "verify_pages (Suc f) start n m =
    (if n > 0 then kbind (write_verify start m) (verify_pages f (start + 4096) (n - 4096)) else Ret m)"

definition verify_area :: "u32 \<Rightarrow> int \<Rightarrow> system \<Rightarrow> system kres" where
  "verify_area addr n s =
    (let n = n + uint (addr AND 0xfff);
         start = (addr AND 0xfffff000) + get_base (ldt (me s) ! 2)
     in on_mm (verify_pages (nat n div 4096 + 1) start n) s)"

text \<open>The smallest number not in use; with 64 tasks one of 65 numbers is free.\<close>

definition pid_in_use :: "int \<Rightarrow> system \<Rightarrow> bool" where
  "pid_in_use n s = list_ex (is_task (\<lambda>t. pid t = n)) (take NR_TASKS (task (sc s)))"

definition next_pid :: "int \<Rightarrow> int" where
  "next_pid n = (if wrap32 (n + 1) < 0 then 1 else wrap32 (n + 1))"

primrec new_pid :: "nat \<Rightarrow> int \<Rightarrow> system \<Rightarrow> int option" where
  "new_pid 0 n s = None"
| "new_pid (Suc f) n s = (if pid_in_use (next_pid n) s then new_pid f (next_pid n) s else Some (next_pid n))"

text \<open>The first free slot from slot 1 on.\<close>

definition free_task :: "system \<Rightarrow> nat option" where
  "free_task s = (case free_slots 1 1 (map (\<lambda>p. p = None) (drop 1 (take NR_TASKS (task (sc s))))) of
     [] \<Rightarrow> None | i # _ \<Rightarrow> Some i)"

definition find_empty_process :: "system \<Rightarrow> (int \<times> system) kres" where
  "find_empty_process s =
    (case new_pid (NR_TASKS + 1) (last_pid s) s of
       None \<Rightarrow> Hang
     | Some n \<Rightarrow>
        let s = s\<lparr>last_pid := n\<rparr>
        in Ret (case free_task s of None \<Rightarrow> - EAGAIN | Some i \<Rightarrow> int i, s))"

text \<open>\<open>copy_mem\<close> for the child in slot \<open>nr\<close>.\<close>

definition copy_mem :: "nat \<Rightarrow> system \<Rightarrow> (int \<times> system) kres" where
  "copy_mem nr s =
    (let code_limit = get_limit (ldt (me s) ! 1);
         data_limit = get_limit (ldt (me s) ! 2);
         old_code_base = get_base (ldt (me s) ! 1);
         old_data_base = get_base (ldt (me s) ! 2);
         new_base = of_nat nr * 0x4000000
     in if old_data_base \<noteq> old_code_base then Panic ''We don't support separate I&D''
        else if data_limit < code_limit then Panic ''Bad data_limit''
        else
        let s = upd nr (\<lambda>p. p\<lparr>start_code := new_base,
                     ldt := (ldt p)[1 := set_base (ldt p ! 1) new_base, 2 := set_base (ldt p ! 2) new_base]\<rparr>) s
        in kbind (copy_page_tables old_data_base new_base data_limit (mem (kr s))) (\<lambda>(r, m).
             let s = s\<lparr>kr := (kr s)\<lparr>mem := m\<rparr>\<rparr>
             in if r \<noteq> 0
                then kbind (on_mm (\<lambda>m. kbind (free_page_tables new_base data_limit m) (\<lambda>(_, m). Ret m)) s)
                       (\<lambda>s. Ret (- ENOMEM, s))
                else Ret (0, s)))"

text \<open>The child's task structure; \<open>r\<close> are the registers of the parent, \<open>a\<close> is the page. The coprocessor
  state is saved from the processor by an instruction and is not part of the structure here.\<close>

definition child_task :: "nat \<Rightarrow> u32 \<Rightarrow> tss_struct \<Rightarrow> system \<Rightarrow> task_struct" where
  "child_task nr a r s =
    (me s)\<lparr>state := TASK_UNINTERRUPTIBLE, counter := priority (me s), signal := 0,
      pid := last_pid s, father := pid (me s), leader := 0, alarm := 0, utime := 0, stime := 0,
      cutime := 0, cstime := 0, start_time := jiffies (sc s),
      tss := r\<lparr>back_link := 0, esp0 := 4096 + a, ss0 := 0x10, cr3 := cr3 (tss (me s)), eax := 0,
        es := es r AND 0xffff, cs := cs r AND 0xffff, ss := ss r AND 0xffff, ds := ds r AND 0xffff,
        fs := fs r AND 0xffff, gs := gs r AND 0xffff,
        tss_ldt := push_bit 4 (of_nat nr) + push_bit 3 (of_nat FIRST_LDT_ENTRY),
        trace_bitmap := 0x80000000\<rparr>\<rparr>"

text \<open>The offsets of the fields \<open>tss\<close> and \<open>ldt\<close> in the task structure.\<close>

definition TSS_OFFSET :: u32 where "TSS_OFFSET = 744"
definition LDT_OFFSET :: u32 where "LDT_OFFSET = 720"

definition count_inode :: "nat option \<Rightarrow> system \<Rightarrow> system" where
  "count_inode r s = (case r of None \<Rightarrow> s | Some i \<Rightarrow> s\<lparr>kr := incr_i_count i (kr s)\<rparr>)"

definition count_file :: "nat option \<Rightarrow> system \<Rightarrow> system" where
  "count_file r s =
    (case r of None \<Rightarrow> s
     | Some f \<Rightarrow> s\<lparr>kr := upd_file f (\<lambda>x. x\<lparr>f_count := (f_count x + 1) mod 65536\<rparr>) (kr s)\<rparr>)"

definition copy_process :: "nat \<Rightarrow> tss_struct \<Rightarrow> system \<Rightarrow> (int \<times> system) kres" where
  "copy_process nr r s =
    (let (a, m) = get_free_page (mem (kr s));
         s = s\<lparr>kr := (kr s)\<lparr>mem := m\<rparr>\<rparr>
     in if a = 0 then Ret (- EAGAIN, s)
        else
        let s = set_task nr (Some (child_task nr a r s)) s
        in kbind (copy_mem nr s) (\<lambda>(v, s).
           if v \<noteq> 0
           then kbind (on_mm (free_page a) (set_task nr None s)) (\<lambda>s. Ret (- EAGAIN, s))
           else
           let s = fold count_file (filp (the (task_at s nr))) s;
               s = count_inode (executable (me s)) (count_inode (root (me s)) (count_inode (pwd (me s)) s));
               s = s\<lparr>sc := (sc s)\<lparr>gdt := (gdt (sc s))[2 * nr + FIRST_TSS_ENTRY := tssldt_desc (a + TSS_OFFSET) 0x89,
                                                    2 * nr + FIRST_LDT_ENTRY := tssldt_desc (a + LDT_OFFSET) 0x82]\<rparr>\<rparr>
           in Ret (last_pid s, upd nr (\<lambda>p. p\<lparr>state := TASK_RUNNING\<rparr>) s)))"

section \<open>Signals\<close>

definition send_sig :: "int \<Rightarrow> nat \<Rightarrow> bool \<Rightarrow> system \<Rightarrow> int \<times> system" where
  "send_sig sig i priv s =
    (case task_at s i of
       None \<Rightarrow> (- EINVAL, s)
     | Some p \<Rightarrow>
        if sig < 1 \<or> sig > 32 then (- EINVAL, s)
        else if priv \<or> euid (me s) = euid p \<or> euid (me s) = 0
        then (0, upd i (\<lambda>p. p\<lparr>signal := signal p OR push_bit (nat sig - 1) 1\<rparr>) s)
        else (- EPERM, s))"

text \<open>The slots from the last one down to 1, as the loops on the task table go.\<close>

definition slots :: "nat list" where
  "slots = rev [1..<NR_TASKS]"

definition kill_session :: "system \<Rightarrow> system" where
  "kill_session s =
    fold (\<lambda>i s. case task_at s i of
            None \<Rightarrow> s
          | Some p \<Rightarrow> if session p = session (me s) then upd i (\<lambda>p. p\<lparr>signal := signal p OR sigbit SIGHUP\<rparr>) s else s)
      slots s"

text \<open>A signal for each task that \<open>who\<close> selects; the result is the last error.\<close>

definition kill_tasks ::
  "int \<Rightarrow> (system \<Rightarrow> task_struct option \<Rightarrow> bool) \<Rightarrow> bool \<Rightarrow> system \<Rightarrow> int \<times> system" where
  "kill_tasks sig who priv s =
    fold (\<lambda>i (v, s). if who s (task_at s i)
                     then let (err, s) = send_sig sig i priv s in (if err \<noteq> 0 then err else v, s)
                     else (v, s))
      slots (0, s)"

definition sys_kill :: "int \<Rightarrow> int \<Rightarrow> system \<Rightarrow> int \<times> system" where
  "sys_kill n sig s =
    (if n = 0 then kill_tasks sig (\<lambda>s. is_task (\<lambda>t. pgrp t = pid (me s))) True s
     else if n > 0 then kill_tasks sig (\<lambda>s. is_task (\<lambda>t. pid t = n)) False s
     else if n = - 1 then kill_tasks sig (\<lambda>s p. True) False s
     else kill_tasks sig (\<lambda>s. is_task (\<lambda>t. pgrp t = - n)) False s)"

section \<open>\<open>exit\<close>\<close>

text \<open>\<open>release\<close> without the call of \<open>schedule\<close> at its end.\<close>

definition release_slot :: "nat \<Rightarrow> system \<Rightarrow> system kres" where
  "release_slot i s =
    (case task_at s i of
       None \<Rightarrow> Ret s
     | Some p \<Rightarrow>
        if 1 \<le> i \<and> i < NR_TASKS then on_mm (free_page (task_page p)) (set_task i None s)
        else Panic ''trying to release non-existent task'')"

definition release :: "(system \<Rightarrow> system kres) \<Rightarrow> nat \<Rightarrow> system \<Rightarrow> system kres" where
  "release others i s =
    (if task_at s i = None then Ret s else kbind (release_slot i s) others)"

text \<open>The first task with number \<open>n\<close>. A process without a father releases itself, and does not come
  back.\<close>

definition find_pid :: "int \<Rightarrow> system \<Rightarrow> nat option" where
  "find_pid n s = List.find (\<lambda>i. is_task (\<lambda>t. pid t = n) (task_at s i)) [0..<NR_TASKS]"

definition tell_father :: "int \<Rightarrow> system \<Rightarrow> system kres" where
  "tell_father n s =
    (case (if n \<noteq> 0 then find_pid n s else None) of
       Some i \<Rightarrow> Ret (upd i (\<lambda>p. p\<lparr>signal := signal p OR sigbit SIGCHLD\<rparr>) s)
     | None \<Rightarrow> release_slot (current (sc s)) s)"

text \<open>One child of the process that ends: \<open>init\<close> becomes its father.\<close>

definition orphan :: "nat \<Rightarrow> system \<Rightarrow> system" where
  "orphan i s =
    (case task_at s i of
       None \<Rightarrow> s
     | Some p \<Rightarrow>
        if father p = pid (me s)
        then let s = upd i (\<lambda>p. p\<lparr>father := 1\<rparr>) s
             in if state p = TASK_ZOMBIE then snd (send_sig (int SIGCHLD) 1 True s) else s
        else s)"

definition close_fd :: "nat \<Rightarrow> system \<Rightarrow> system kres" where
  "close_fd fd s =
    (if filp (me s) ! fd \<noteq> None then kbind (on_fs (sys_close fd) s) (\<lambda>(_, s). Ret s) else Ret s)"

definition free_segment :: "nat \<Rightarrow> system \<Rightarrow> system kres" where
  "free_segment k s =
    on_mm (\<lambda>m. kbind (free_page_tables (get_base (ldt (me s) ! k)) (get_limit (ldt (me s) ! k)) m) (\<lambda>(_, m). Ret m)) s"

text \<open>\<open>do_exit\<close> up to its last call of \<open>schedule\<close>, from which the process does not come back.\<close>

definition do_exit :: "int \<Rightarrow> system \<Rightarrow> system kres" where
  "do_exit code s =
    (let c = current (sc s)
     in
     kbind (free_segment 1 s) (\<lambda>s.
     kbind (free_segment 2 s) (\<lambda>s.
     kbind (kfold close_fd [0..<NR_OPEN] (fold orphan [0..<NR_TASKS] s)) (\<lambda>s.
     kbind (fs_proc (\<lambda>k. iput (pwd (proc k)) k) s) (\<lambda>s.
     let s = upd c (\<lambda>p. p\<lparr>pwd := None\<rparr>) s in
     kbind (fs_proc (\<lambda>k. iput (root (proc k)) k) s) (\<lambda>s.
     let s = upd c (\<lambda>p. p\<lparr>root := None\<rparr>) s in
     kbind (fs_proc (\<lambda>k. iput (executable (proc k)) k) s) (\<lambda>s.
     let s = upd c (\<lambda>p. p\<lparr>executable := None\<rparr>) s;
         s = (if leader (me s) \<noteq> 0 \<and> tty (me s) \<ge> 0
              then s\<lparr>kr := (kr s)\<lparr>tty_pgrp := (tty_pgrp (kr s))[nat (tty (me s)) := 0]\<rparr>\<rparr> else s);
         s = (if last_task_used_math (sc s) = Some c
              then s\<lparr>sc := (sc s)\<lparr>last_task_used_math := None\<rparr>\<rparr> else s);
         s = (if leader (me s) \<noteq> 0 then kill_session s else s);
         s = upd c (\<lambda>p. p\<lparr>state := TASK_ZOMBIE, exit_code := code\<rparr>) s
     in tell_father (father (me s)) s)))))))"

definition sys_exit :: "u32 \<Rightarrow> system \<Rightarrow> system kres" where
  "sys_exit error_code s = do_exit (uint (push_bit 8 (error_code AND 0xff))) s"

section \<open>\<open>waitpid\<close>\<close>

definition WNOHANG :: u32 where "WNOHANG = 1"
definition WUNTRACED :: u32 where "WUNTRACED = 2"
definition EINTR :: int where "EINTR = 4"

definition wanted_child :: "int \<Rightarrow> system \<Rightarrow> nat \<Rightarrow> bool" where
  "wanted_child n s i \<longleftrightarrow>
    (case task_at s i of
       None \<Rightarrow> False
     | Some p \<Rightarrow> i \<noteq> current (sc s) \<and> father p = pid (me s)
        \<and> (if n > 0 then pid p = n else if n = 0 then pgrp p = pgrp (me s)
            else n = - 1 \<or> pgrp p = - n))"

datatype wait_result = Found nat | Alive | Nobody

text \<open>The loop over the tasks: it stops at a child that stopped (if these are asked for) or ended.\<close>

primrec wait_scan :: "nat list \<Rightarrow> bool \<Rightarrow> int \<Rightarrow> u32 \<Rightarrow> system \<Rightarrow> wait_result" where
  "wait_scan [] alive n options s = (if alive then Alive else Nobody)"
| "wait_scan (i # is) alive n options s =
    (if \<not> wanted_child n s i then wait_scan is alive n options s
     else if state (the (task_at s i)) = TASK_STOPPED
     then if options AND WUNTRACED = 0 then wait_scan is alive n options s else Found i
     else if state (the (task_at s i)) = TASK_ZOMBIE then Found i
     else wait_scan is True n options s)"

definition put_status :: "int \<Rightarrow> u32 \<Rightarrow> system \<Rightarrow> system" where
  "put_status v a s = s\<lparr>kr := put_fs_long (of_int v) a (kr s)\<rparr>"

text \<open>The fuel is the number of times the process goes to sleep.\<close>

primrec waitpid_loop ::
  "nat \<Rightarrow> (system \<Rightarrow> system kres) \<Rightarrow> int \<Rightarrow> u32 \<Rightarrow> u32 \<Rightarrow> system \<Rightarrow> (int \<times> system) kres" where
  "waitpid_loop 0 others n stat_addr options s = Hang"
| "waitpid_loop (Suc f) others n stat_addr options s =
    (case wait_scan slots False n options s of
       Found i \<Rightarrow>
         let p = the (task_at s i)
         in if state p = TASK_STOPPED then Ret (pid p, put_status 0x7f stat_addr s)
            else
            let s = upd (current (sc s)) (\<lambda>q. q\<lparr>cutime := wrap32 (cutime q + utime p),
                                               cstime := wrap32 (cstime q + stime p)\<rparr>) s
            in kbind (release others i s) (\<lambda>s. Ret (pid p, put_status (exit_code p) stat_addr s))
     | Nobody \<Rightarrow> Ret (- ECHILD, s)
     | Alive \<Rightarrow>
         if options AND WNOHANG \<noteq> 0 then Ret (0, s)
         else kbind (others (upd (current (sc s)) (\<lambda>p. p\<lparr>state := TASK_INTERRUPTIBLE\<rparr>) s)) (\<lambda>s.
           let s = upd (current (sc s)) (\<lambda>p. p\<lparr>signal := signal p AND NOT (sigbit SIGCHLD)\<rparr>) s
           in if signal (me s) = 0 then waitpid_loop f others n stat_addr options s
              else Ret (- EINTR, s)))"

definition sys_waitpid ::
  "nat \<Rightarrow> (system \<Rightarrow> system kres) \<Rightarrow> int \<Rightarrow> u32 \<Rightarrow> u32 \<Rightarrow> system \<Rightarrow> (int \<times> system) kres" where
  "sys_waitpid f others n stat_addr options s =
    kbind (verify_area stat_addr 4 s) (waitpid_loop f others n stat_addr options)"

section \<open>Process groups and the clock\<close>

definition sys_setpgid :: "int \<Rightarrow> int \<Rightarrow> system \<Rightarrow> int \<times> system" where
  "sys_setpgid n g s =
    (let n = (if n = 0 then pid (me s) else n);
         g = (if g = 0 then pid (me s) else g)
     in case find_pid n s of
          None \<Rightarrow> (- ESRCH, s)
        | Some i \<Rightarrow>
           if leader (the (task_at s i)) \<noteq> 0 then (- EPERM, s)
           else if session (the (task_at s i)) \<noteq> session (me s) then (- EPERM, s)
           else (0, upd i (\<lambda>p. p\<lparr>pgrp := g\<rparr>) s))"

definition sys_stime :: "u32 \<Rightarrow> system \<Rightarrow> int \<times> system" where
  "sys_stime tptr s =
    (if euid (me s) \<noteq> 0 then (- EPERM, s)
     else (0, s\<lparr>sc := (sc s)\<lparr>startup_time :=
                 wrap32 (uint (get_fs_long tptr (kr s)) - c_div (jiffies (sc s)) HZ)\<rparr>\<rparr>))"

end
