(* ===== verification/Process_Ids.thy ===== *)
theory Process_Ids imports Process Descriptors begin

text \<open>
  Numbers and identities of processes: the number \<open>fork\<close> gives a child is in use nowhere, and a process
  without privileges cannot become another user.
\<close>

section \<open>Process numbers\<close>

text \<open>The numbers from 1 to \<open>2 ^ 31 - 1\<close> are taken in turn.\<close>

definition PIDS :: int where "PIDS = 2 ^ 31 - 1"

lemma next_pid_mod:
  assumes "0 \<le> n" "n \<le> PIDS"
  shows "next_pid n = n mod PIDS + 1"
proof (cases "n = PIDS")
  case True
  then show ?thesis by (simp add: next_pid_def PIDS_def wrap32_def)
next
  case False
  with assms have "0 \<le> n" "n < 2 ^ 31 - 1" by (simp_all add: PIDS_def)
  then have "wrap32 (n + 1) = n + 1" by (intro wrap32_id) linarith+
  moreover have "n mod PIDS = n" using assms False by (simp add: PIDS_def)
  ultimately show ?thesis using assms by (simp add: next_pid_def)
qed

lemma next_pid_range: "0 \<le> n \<Longrightarrow> n \<le> PIDS \<Longrightarrow> 1 \<le> next_pid n \<and> next_pid n \<le> PIDS"
  using pos_mod_bound [of PIDS n] pos_mod_sign [of PIDS n] by (simp add: next_pid_mod PIDS_def)

lemma iterated_next_pid:
  assumes "0 \<le> n" "n \<le> PIDS"
  shows "(next_pid ^^ Suc k) n = (n + int k) mod PIDS + 1"
proof (induction k)
  case 0
  then show ?case using assms by (simp add: next_pid_mod)
next
  case (Suc k)
  have r: "0 \<le> (n + int k) mod PIDS + 1" "(n + int k) mod PIDS + 1 \<le> PIDS"
    using pos_mod_bound [of PIDS "n + int k"] pos_mod_sign [of PIDS "n + int k"] by (simp_all add: PIDS_def)
  have "(next_pid ^^ Suc (Suc k)) n = next_pid ((next_pid ^^ Suc k) n)" by simp
  also have "\<dots> = ((n + int k) mod PIDS + 1) mod PIDS + 1"
    unfolding Suc.IH by (rule next_pid_mod [OF r])
  also have "\<dots> = (n + int (Suc k)) mod PIDS + 1"
    using mod_add_left_eq [of "n + int k" PIDS 1] by (simp add: ac_simps)
  finally show ?case .
qed

lemma next_pids_distinct:
  assumes "0 \<le> n" "n \<le> PIDS" "int m \<le> PIDS"
  shows "inj_on (\<lambda>k. (next_pid ^^ Suc k) n) {..<m}"
proof (rule inj_onI)
  fix i j assume ij: "i \<in> {..<m}" "j \<in> {..<m}" "(next_pid ^^ Suc i) n = (next_pid ^^ Suc j) n"
  then have "(n + int i) mod PIDS = (n + int j) mod PIDS"
    unfolding iterated_next_pid [OF assms(1,2)] by simp
  then have "PIDS dvd int i - int j"
    by (metis add_diff_cancel_left mod_eq_dvd_iff)
  moreover have "\<bar>int i - int j\<bar> < PIDS" using ij assms(3) by auto
  ultimately show "i = j"
    using zdvd_not_zless [of "\<bar>int i - int j\<bar>" PIDS] by auto
qed

lemma new_pid_None:
  "new_pid f n s = None \<Longrightarrow> k < f \<Longrightarrow> pid_in_use ((next_pid ^^ Suc k) n) s"
proof (induction f arbitrary: n k)
  case (Suc f)
  then have used: "pid_in_use (next_pid n) s" "new_pid f (next_pid n) s = None" by (auto split: if_splits)
  show ?case
  proof (cases k)
    case (Suc j)
    have "(next_pid ^^ Suc (Suc j)) n = (next_pid ^^ Suc j) (next_pid n)"
      by (simp only: funpow_Suc_right o_apply)
    then show ?thesis using Suc.IH [OF used(2), of j] Suc.prems(2) \<open>k = Suc j\<close> by simp
  qed (use used in simp)
qed simp

lemma new_pid_Some:
  assumes "new_pid f n s = Some m" "0 \<le> n" "n \<le> PIDS"
  shows "\<not> pid_in_use m s \<and> 1 \<le> m \<and> m \<le> PIDS"
  using assms
proof (induction f arbitrary: n)
  case (Suc f)
  then show ?case using next_pid_range [of n] by (auto split: if_splits)
qed simp

lemma pid_in_use_image: "pid_in_use m s \<Longrightarrow> m \<in> (\<lambda>p. pid (the p)) ` set (take NR_TASKS (task (sc s)))"
  by (auto simp: pid_in_use_def list_ex_iff is_task_def image_iff split: option.splits)
    (metis option.sel)

lemma new_pid_found:
  assumes "0 \<le> n" "n \<le> PIDS"
  shows "\<exists>m. new_pid (NR_TASKS + 1) n s = Some m"
proof (rule ccontr)
  let ?ids = "(\<lambda>k. (next_pid ^^ Suc k) n) ` {..<NR_TASKS + 1}"
  let ?ts = "take NR_TASKS (task (sc s))"
  assume "\<not> ?thesis"
  then have "new_pid (NR_TASKS + 1) n s = None" by simp
  from new_pid_None [OF this] have "?ids \<subseteq> (\<lambda>p. pid (the p)) ` set ?ts"
    using pid_in_use_image by blast
  then have "card ?ids \<le> card ((\<lambda>p. pid (the p)) ` set ?ts)" by (intro card_mono) auto
  also have "\<dots> \<le> card (set ?ts)" by (rule card_image_le) simp
  also have "\<dots> \<le> length ?ts" by (rule card_length)
  also have "\<dots> \<le> NR_TASKS" by simp
  finally have "card ?ids \<le> NR_TASKS" .
  moreover have "card ?ids = NR_TASKS + 1"
    using next_pids_distinct [OF assms, of "NR_TASKS + 1"] by (simp add: card_image NR_TASKS_def PIDS_def del: funpow.simps)
  ultimately show False by simp
qed

text \<open>C33: \<open>find_empty_process\<close> always returns, with a number above 0 that no task has; and with the first
  free slot of the task table, or \<open>EAGAIN\<close> when every slot but the first is taken.\<close>

theorem find_empty_process_correct:
  assumes "length (task (sc s)) = NR_TASKS" "0 \<le> last_pid s" "last_pid s \<le> PIDS"
  shows "\<exists>n v. find_empty_process s = Ret (v, s\<lparr>last_pid := n\<rparr>) \<and> 1 \<le> n \<and> n \<le> PIDS \<and> \<not> pid_in_use n s
    \<and> (if \<exists>i. 1 \<le> i \<and> i < NR_TASKS \<and> task_at s i = None
       then \<exists>i. v = int i \<and> 1 \<le> i \<and> i < NR_TASKS \<and> task_at s i = None
              \<and> (\<forall>j. 1 \<le> j \<and> j < i \<longrightarrow> task_at s j \<noteq> None)
       else v = - EAGAIN)"
proof -
  obtain n where n: "new_pid (NR_TASKS + 1) (last_pid s) s = Some n"
    using new_pid_found [OF assms(2,3)] by blast
  define xs where "xs = map (\<lambda>p. p = None) (drop 1 (task (sc s)))"
  have xs: "length xs = NR_TASKS - 1" "i < NR_TASKS - 1 \<Longrightarrow> xs ! i \<longleftrightarrow> task_at s (Suc i) = None" for i
    using assms(1) by (simp_all add: xs_def task_at_def)
  have free: "free_task s = (case free_slots 1 1 xs of [] \<Rightarrow> None | i # _ \<Rightarrow> Some i)"
    using assms(1) by (simp add: free_task_def xs_def)
  have "free_task (s\<lparr>last_pid := n\<rparr>) = free_task s" by (simp add: free_task_def)
  then have found: "find_empty_process s =
      Ret (case free_task s of None \<Rightarrow> - EAGAIN | Some i \<Rightarrow> int i, s\<lparr>last_pid := n\<rparr>)"
    using n by (simp only: find_empty_process_def option.case Let_def)
  have ok: "\<not> pid_in_use n s \<and> 1 \<le> n \<and> n \<le> PIDS"
    by (rule new_pid_Some [OF n assms(2,3)])
  show ?thesis
  proof (cases "free_slots 1 1 xs")
    case Nil
    have "task_at s i \<noteq> None" if "1 \<le> i" "i < NR_TASKS" for i
      using free_slots_None [of 1 xs] Nil xs(1) xs(2) [of "i - 1"] that by auto
    then have "\<not> (\<exists>i. 1 \<le> i \<and> i < NR_TASKS \<and> task_at s i = None)" by blast
    then show ?thesis
      using found ok Nil free by - (rule exI [of _ n], rule exI [of _ "- EAGAIN"], auto)
  next
    case (Cons i js)
    have "task_at s j \<noteq> None" if "1 \<le> j" "j < i" for j
      using free_slots_Some [OF Cons] xs(1) xs(2) [of "j - 1"] that by auto
    moreover have "1 \<le> i \<and> i < NR_TASKS \<and> task_at s i = None"
      using free_slots_Some [OF Cons] xs(1) xs(2) [of "i - 1"] by (auto simp: NR_TASKS_def)
    ultimately show ?thesis
      using found ok Cons free by - (rule exI [of _ n], rule exI [of _ "int i"], auto)
  qed
qed

section \<open>User identity\<close>

text \<open>C20: a process whose effective user is not the superuser can only exchange its real and effective
  user numbers, and the saved one never changes, though the comment on the call says it does; when
  \<open>setreuid\<close> refuses, nothing has changed.\<close>

theorem setreuid_safe:
  fixes ru eu :: int
  assumes "\<not> suser s"
  defines "t \<equiv> snd (sys_setreuid ru eu s)"
  shows "uid (proc t) \<in> {uid (proc s), euid (proc s)} \<and> euid (proc t) \<in> {uid (proc s), euid (proc s)}
    \<and> suid (proc t) = suid (proc s)
    \<and> (fst (sys_setreuid ru eu s) = 0 \<or> fst (sys_setreuid ru eu s) = - EPERM \<and> t = s)"
proof -
  have user: "euid (proc s) \<noteq> 0" using assms(1) by (simp add: suser_def)
  have of_uint: "(of_int (uint (x :: u16)) :: u16) = x" for x by simp
  let ?set = "\<lambda>u e. s\<lparr>proc := (proc s)\<lparr>uid := u, euid := e\<rparr>\<rparr>"
  have same: "?set (uid (proc s)) (euid (proc s)) = s" by simp
  have e1: "upd_proc (\<lambda>p. p\<lparr>uid := u\<rparr>) s = ?set u (euid (proc s))" for u
    by (simp add: upd_proc_def)
  have e2: "upd_proc (\<lambda>p. p\<lparr>euid := e\<rparr>) (?set u v) = ?set u e" "upd_proc (\<lambda>p. p\<lparr>uid := e\<rparr>) (?set u v) = ?set e v" for u v e
    by (simp_all add: upd_proc_def)
  define refused where "refused \<longleftrightarrow> ru > 0 \<and> \<not> (uint (euid (proc s)) = ru \<or> uint (uid (proc s)) = ru)"
  define u where "u = (if ru > 0 \<and> \<not> refused then of_int ru else uid (proc s))"
  have u: "u \<in> {uid (proc s), euid (proc s)}" by (auto simp: u_def refused_def)
  let ?refused = "ru > 0 \<and> \<not> (uint (euid (proc s)) = ru \<or> uint (uid (proc s)) = ru \<or> suser s)"
  have r: "?refused = refused" using assms(1) by (simp add: refused_def)
  have s1: "(if ru > 0 \<and> \<not> refused then upd_proc (\<lambda>p. p\<lparr>uid := of_int ru\<rparr>) s else s) = ?set u (euid (proc s))"
    unfolding e1 u_def by simp
  have "sys_setreuid ru eu s =
    (if refused then (- EPERM, s)
     else if eu > 0 then if uint (uid (proc s)) = eu \<or> uint (euid (proc s)) = eu then (0, ?set u (of_int eu)) else (- EPERM, s)
     else (0, ?set u (euid (proc s))))"
    unfolding sys_setreuid_def Let_def r s1 e2 of_uint same using user by (simp add: suser_def u_def)
  then show ?thesis unfolding t_def using u by (auto simp: EPERM_def)
qed

section \<open>Examples\<close>

definition one_process :: system where
  "one_process = \<lparr>sc = \<lparr>task = (replicate NR_TASKS None)[0 := Some (INIT_TASK 0)], current = 0, jiffies = 0,
     startup_time = 0, last_task_used_math = None, wait_motor = replicate 4 None, mon_timer = replicate 4 0,
     moff_timer = replicate 4 0, current_DOR = 0x0C, selected = 0,
     timer_list = replicate 64 \<lparr>t_jiffies = 0, t_fn = 0, t_next = None\<rparr>,
     next_timer = None, beepcount = 0, gdt = replicate 256 (0, 0), io = []\<rparr>,
     kr = blank_kernel, last_pid = 0\<rparr>"

lemma find_empty_process_correct_witness:
  "\<exists>n i. find_empty_process one_process = Ret (int i, one_process\<lparr>last_pid := n\<rparr>) \<and> 1 \<le> n"
proof -
  have "length (task (sc one_process)) = NR_TASKS" "last_pid one_process = 0" "task_at one_process 1 = None"
    by (simp_all add: one_process_def task_at_def NR_TASKS_def)
  moreover have "\<exists>i. 1 \<le> i \<and> i < NR_TASKS \<and> task_at one_process i = None"
    using calculation(3) by (intro exI [of _ 1]) (simp add: NR_TASKS_def)
  ultimately show ?thesis
    using find_empty_process_correct [of one_process] by (auto simp: PIDS_def)
qed

lemma setreuid_safe_witness:
  "sys_setreuid 5 0 (upd_proc (\<lambda>p. p\<lparr>uid := 5, euid := 7\<rparr>) blank_kernel) =
    (0, upd_proc (\<lambda>p. p\<lparr>uid := 5, euid := 7\<rparr>) blank_kernel)
   \<and> uid (proc (snd (sys_setreuid 7 9 (upd_proc (\<lambda>p. p\<lparr>uid := 5, euid := 7\<rparr>) blank_kernel)))) \<in> {5, 7}"
  using setreuid_safe [of "upd_proc (\<lambda>p. p\<lparr>uid := 5, euid := 7\<rparr>) blank_kernel" 7 9]
  by (simp add: suser_def sys_setreuid_def upd_proc_def Let_def)

end
