(* ===== verification/Ring_Arith.thy ===== *)
theory Ring_Arith imports Kprelude begin

text \<open>
  Arithmetic of rings: a ring of \<open>n\<close> places with a head \<open>h\<close> and a tail \<open>t\<close> holds
  \<open>(h + n - t) mod n\<close> items. These facts are shared by the queues of terminals (\<open>Tty_Queue\<close>) and by
  pipes (\<open>Pipe_Fifo\<close>).
\<close>

lemma ring_dist:
  assumes "h < (n :: nat)" "t < n"
  shows "(h + n - t) mod n = (if t \<le> h then h - t else h + n - t)"
proof (cases "t \<le> h")
  case True
  then have "h + n - t = (h - t) + n" using assms by simp
  then have "(h + n - t) mod n = (h - t) mod n" by (simp only: mod_add_self2)
  with True assms show ?thesis by simp
qed (use assms in simp)

lemma ring_add:
  assumes "t < (n :: nat)" "i < n"
  shows "(t + i) mod n = (if t + i < n then t + i else t + i - n)"
  using assms le_mod_geq [of n "t + i"] by simp

text \<open>One place round the ring.\<close>

lemma ring_succ:
  assumes "h < (n :: nat)" "t < n" "(h + n - t) mod n < n - 1"
  shows "((h + 1) mod n + n - t) mod n = (h + n - t) mod n + 1"
proof (cases "h + 1 = n")
  case True
  with assms have "t \<noteq> 0" by (auto simp: ring_dist)
  with True assms show ?thesis by (auto simp: ring_dist)
next
  case False
  with assms have "h + 1 < n" by simp
  then have "((h + 1) mod n + n - t) mod n = (if t \<le> h + 1 then h + 1 - t else h + 1 + n - t)"
    using ring_dist [of "h + 1" n t] assms(2) by simp
  with assms show ?thesis by (auto simp: ring_dist split: if_splits)
qed

lemma byte_ring_head:
  assumes "h < (n :: nat)" "t < n"
  shows "(t + (h + n - t) mod n) mod n = h"
proof -
  have "(h + n - t) mod n < n" using assms by simp
  with assms show ?thesis by (auto simp: ring_dist ring_add split: if_splits)
qed

lemma ring_inside:
  assumes "h < (n :: nat)" "t < n" "i < (h + n - t) mod n"
  shows "(t + i) mod n \<noteq> h"
proof -
  have "i < n" using assms(3) mod_less_divisor [of n "h + n - t"] assms(1) by linarith
  with assms show ?thesis by (auto simp: ring_dist ring_add split: if_splits)
qed

lemma ring_tail:
  assumes "h < (n :: nat)" "t < n" "0 < (h + n - t) mod n"
  shows "(h + n - t) mod n = Suc ((h + n - (t + 1) mod n) mod n)"
proof (cases "t + 1 = n")
  case True
  with assms show ?thesis by (auto simp: ring_dist split: if_splits)
next
  case False
  with assms(2) have "t + 1 < n" by simp
  with assms show ?thesis by (auto simp: ring_dist split: if_splits)
qed

text \<open>A block of \<open>k\<close> items from the head on that does not run over the end, and one taken from the
  tail.\<close>

lemma ring_put_block:
  assumes "h < (n :: nat)" "t < n" "k \<le> n - h" "(h + n - t) mod n + k < n"
  shows "((h + k) mod n + n - t) mod n = (h + n - t) mod n + k"
    "j < k \<Longrightarrow> (t + ((h + n - t) mod n + j)) mod n = h + j"
    "j < (h + n - t) mod n \<Longrightarrow> \<not> (h \<le> (t + j) mod n \<and> (t + j) mod n < h + k)"
proof -
  have s: "(h + n - t) mod n = (if t \<le> h then h - t else h + n - t)"
    using assms by (intro ring_dist) simp_all
  show "((h + k) mod n + n - t) mod n = (h + n - t) mod n + k"
  proof (cases "h + k = n")
    case True
    with assms s show ?thesis by (auto split: if_splits)
  next
    case False
    with assms have "h + k < n" by simp
    then show ?thesis
      using assms s ring_dist [of "h + k" n t] by (auto split: if_splits)
  qed
  show "(t + ((h + n - t) mod n + j)) mod n = h + j" if "j < k"
    using that assms s ring_add [of t n "(h + n - t) mod n + j"] by (auto split: if_splits)
  show "\<not> (h \<le> (t + j) mod n \<and> (t + j) mod n < h + k)" if "j < (h + n - t) mod n"
    using that assms s ring_add [of t n j] by (auto split: if_splits)
qed

lemma ring_get_block:
  assumes "h < (n :: nat)" "t < n" "k \<le> n - t" "k \<le> (h + n - t) mod n"
  shows "(h + n - (t + k) mod n) mod n = (h + n - t) mod n - k"
proof (cases "t + k = n")
  case True
  with assms show ?thesis using ring_dist [of h n t] by (auto split: if_splits)
next
  case False
  with assms have "t + k < n" by simp
  then show ?thesis
    using assms ring_dist [of h n t] ring_dist [of h n "t + k"] by (auto split: if_splits)
qed

end
