(* ===== verification/Tty_Queue.thy ===== *)
theory Tty_Queue imports Ring_Arith begin

unbundle bit_operations_syntax

text \<open>
  The byte queues of \<open>include/linux/tty.h\<close>: a ring of 1024 bytes with a head and a tail, that holds at
  most 1023 bytes. The queue is shown to be a bounded first-in, first-out queue of bytes: it satisfies
  the laws of the interface \<open>byte_queue\<close>, and what is proved there holds for it.
\<close>

section \<open>The ring\<close>

definition TTY_BUF_SIZE :: nat where "TTY_BUF_SIZE = 1024"

record tty_queue =
  q_data :: u32
  q_head :: u32
  q_tail :: u32
  proc_list :: "nat option"
  q_buf :: "u8 list"

definition INC :: "u32 \<Rightarrow> u32" where
  "INC a = (a + 1) AND (of_nat TTY_BUF_SIZE - 1)"

definition DEC :: "u32 \<Rightarrow> u32" where
  "DEC a = (a - 1) AND (of_nat TTY_BUF_SIZE - 1)"

definition EMPTY :: "tty_queue \<Rightarrow> bool" where
  "EMPTY q \<longleftrightarrow> q_head q = q_tail q"

definition LEFT_chars :: "tty_queue \<Rightarrow> u32" where
  "LEFT_chars q = (q_tail q - q_head q - 1) AND (of_nat TTY_BUF_SIZE - 1)"

definition LAST :: "tty_queue \<Rightarrow> u8" where
  "LAST q = q_buf q ! unat ((of_nat TTY_BUF_SIZE - 1) AND (q_head q - 1))"

definition FULL :: "tty_queue \<Rightarrow> bool" where
  "FULL q \<longleftrightarrow> LEFT_chars q = 0"

definition CHARS :: "tty_queue \<Rightarrow> u32" where
  "CHARS q = (q_head q - q_tail q) AND (of_nat TTY_BUF_SIZE - 1)"

definition GETCH :: "tty_queue \<Rightarrow> u8 \<times> tty_queue" where
  "GETCH q = (q_buf q ! unat (q_tail q), q\<lparr>q_tail := INC (q_tail q)\<rparr>)"

definition PUTCH :: "u8 \<Rightarrow> tty_queue \<Rightarrow> tty_queue" where
  "PUTCH c q = q\<lparr>q_buf := (q_buf q)[unat (q_head q) := c], q_head := INC (q_head q)\<rparr>"

section \<open>A bounded queue of bytes\<close>

locale byte_queue =
  fixes ok :: "'q \<Rightarrow> bool" and chars :: "'q \<Rightarrow> u8 list" and room :: nat
    and put :: "u8 \<Rightarrow> 'q \<Rightarrow> 'q" and get :: "'q \<Rightarrow> u8 \<times> 'q"
  assumes put_ok: "ok q \<Longrightarrow> ok (put c q)"
    and chars_put: "ok q \<Longrightarrow> length (chars q) < room \<Longrightarrow> chars (put c q) = chars q @ [c]"
    and get_ok: "ok q \<Longrightarrow> ok (snd (get q))"
    and get_chars: "ok q \<Longrightarrow> chars q = c # cs \<Longrightarrow> fst (get q) = c \<and> chars (snd (get q)) = cs"
begin

primrec get_n :: "nat \<Rightarrow> 'q \<Rightarrow> u8 list \<times> 'q" where
  "get_n 0 q = ([], q)"
| "get_n (Suc n) q = (let (c, q) = get q; (cs, q) = get_n n q in (c # cs, q))"

lemma put_all:
  "ok q \<Longrightarrow> length (chars q) + length cs \<le> room \<Longrightarrow> ok (fold put cs q) \<and> chars (fold put cs q) = chars q @ cs"
proof (induction cs arbitrary: q)
  case (Cons c cs)
  then have "ok (put c q)" "chars (put c q) = chars q @ [c]"
    using put_ok chars_put by auto
  with Cons.IH [of "put c q"] Cons.prems show ?case by simp
qed simp

lemma get_all:
  "ok q \<Longrightarrow> chars q = cs @ ds \<Longrightarrow>
    fst (get_n (length cs) q) = cs \<and> ok (snd (get_n (length cs) q)) \<and> chars (snd (get_n (length cs) q)) = ds"
proof (induction cs arbitrary: q)
  case (Cons c cs)
  with get_chars [of q c "cs @ ds"] get_ok [of q] Cons.IH [of "snd (get q)"] show ?case
    by (simp add: case_prod_beta Let_def)
qed simp

lemma put_then_get:
  assumes "ok q" "length (chars q) + length cs \<le> room" "chars q = []"
  shows "fst (get_n (length cs) (fold put cs q)) = cs"
  using get_all [of "fold put cs q" cs "[]"] put_all [OF assms(1,2)] assms(3) by simp

end

section \<open>The ring is such a queue\<close>

definition queue_ok :: "tty_queue \<Rightarrow> bool" where
  "queue_ok q \<longleftrightarrow> unat (q_head q) < TTY_BUF_SIZE \<and> unat (q_tail q) < TTY_BUF_SIZE
    \<and> length (q_buf q) = TTY_BUF_SIZE"

text \<open>The bytes from the tail to the head.\<close>

definition queue_chars :: "tty_queue \<Rightarrow> u8 list" where
  "queue_chars q = map (\<lambda>i. q_buf q ! ((unat (q_tail q) + i) mod TTY_BUF_SIZE)) [0..<unat (CHARS q)]"

lemma and_ring: "unat (a AND (of_nat TTY_BUF_SIZE - 1)) = unat (a :: u32) mod TTY_BUF_SIZE"
proof -
  have "a AND 1023 = take_bit 10 a"
    by (simp add: take_bit_eq_mask mask_eq_exp_minus_1)
  then show ?thesis
    by (simp add: TTY_BUF_SIZE_def take_bit_eq_mod unat_mod)
qed

text \<open>Head, tail and number of bytes as natural numbers.\<close>

lemma unat_sub_ring:
  assumes "unat (a :: u32) < 1024" "unat b < 1024"
  shows "unat (a - b) mod 1024 = (unat a + 1024 - unat b) mod 1024"
proof (cases "unat b \<le> unat a")
  case True
  then have "unat (a - b) = unat a - unat b"
    by (simp add: unat_sub word_le_nat_alt)
  with True show ?thesis using assms by (simp add: ring_dist)
next
  case False
  then have "unat (a - b) = unat a + 2 ^ 32 - unat b"
    using unat_sub_if' [of a b] by (simp add: word_le_nat_alt)
  then have "unat (a - b) = (unat a + 1024 - unat b) + 1024 * (2 ^ 22 - 1)"
    using assms by simp
  then show ?thesis by (simp only: mod_mult_self2)
qed

lemma unat_INC: "unat a < TTY_BUF_SIZE \<Longrightarrow> unat (INC a) = (unat a + 1) mod TTY_BUF_SIZE"
  unfolding INC_def and_ring by (simp add: TTY_BUF_SIZE_def unat_word_ariths)

lemma unat_CHARS:
  "queue_ok q \<Longrightarrow> unat (CHARS q) = (unat (q_head q) + TTY_BUF_SIZE - unat (q_tail q)) mod TTY_BUF_SIZE"
  unfolding CHARS_def and_ring using unat_sub_ring [of "q_head q" "q_tail q"]
  by (simp add: TTY_BUF_SIZE_def queue_ok_def)

lemma length_queue_chars [simp]: "length (queue_chars q) = unat (CHARS q)"
  by (simp add: queue_chars_def)

lemma PUTCH_ok: "queue_ok q \<Longrightarrow> queue_ok (PUTCH c q)"
  by (simp add: queue_ok_def PUTCH_def unat_INC TTY_BUF_SIZE_def)

lemma GETCH_ok: "queue_ok q \<Longrightarrow> queue_ok (snd (GETCH q))"
  by (simp add: queue_ok_def GETCH_def unat_INC TTY_BUF_SIZE_def)

lemma queue_chars_PUTCH:
  assumes q: "queue_ok q" and room: "unat (CHARS q) < TTY_BUF_SIZE - 1"
  shows "queue_chars (PUTCH c q) = queue_chars q @ [c]"
proof -
  define h t where "h = unat (q_head q)" and "t = unat (q_tail q)"
  have ht: "h < TTY_BUF_SIZE" "t < TTY_BUF_SIZE" "length (q_buf q) = TTY_BUF_SIZE"
    using q by (simp_all add: queue_ok_def h_def t_def)
  define n where "n = unat (CHARS q)"
  have n: "n = (h + TTY_BUF_SIZE - t) mod TTY_BUF_SIZE"
    using unat_CHARS [OF q] by (simp add: n_def h_def t_def)
  have m: "unat (CHARS (PUTCH c q)) = Suc n"
    using unat_CHARS [OF PUTCH_ok [OF q], of c] ring_succ [OF ht(1,2)] room ht(1)
    by (simp add: PUTCH_def unat_INC flip: h_def t_def n n_def)
  have at: "(q_buf q)[h := c] ! ((t + i) mod TTY_BUF_SIZE)
      = (if i = n then c else q_buf q ! ((t + i) mod TTY_BUF_SIZE))" if "i < Suc n" for i
    using that ht byte_ring_head [OF ht(1,2)] ring_inside [OF ht(1,2), of i]
    by (auto simp: nth_upd simp flip: n)
  have "queue_chars (PUTCH c q) = map (\<lambda>i. if i = n then c else q_buf q ! ((t + i) mod TTY_BUF_SIZE)) [0..<Suc n]"
    unfolding queue_chars_def m by (rule map_cong) (auto simp: PUTCH_def at simp flip: h_def t_def)
  also have "\<dots> = queue_chars q @ [c]"
    by (simp add: queue_chars_def flip: n_def t_def)
  finally show ?thesis .
qed

lemma queue_chars_GETCH:
  assumes q: "queue_ok q" and ne: "CHARS q \<noteq> 0"
  shows "queue_chars q = fst (GETCH q) # queue_chars (snd (GETCH q))"
proof -
  define h t where "h = unat (q_head q)" and "t = unat (q_tail q)"
  have ht: "h < TTY_BUF_SIZE" "t < TTY_BUF_SIZE"
    using q by (simp_all add: queue_ok_def h_def t_def)
  have "0 < unat (CHARS q)" using ne by (simp add: unat_gt_0)
  then have m: "unat (CHARS q) = Suc (unat (CHARS (snd (GETCH q))))"
    using unat_CHARS [OF q] unat_CHARS [OF GETCH_ok [OF q]] ring_tail [OF ht] ht
    by (simp add: GETCH_def unat_INC flip: h_def t_def)
  have "((t + 1) mod TTY_BUF_SIZE + i) mod TTY_BUF_SIZE = (t + Suc i) mod TTY_BUF_SIZE" for i
    by (simp add: mod_simps)
  then show ?thesis
    using ht unfolding queue_chars_def m upt_conv_Cons [OF zero_less_Suc]
    by (simp add: GETCH_def unat_INC map_Suc_upt [symmetric] o_def flip: t_def del: upt_Suc)
qed

interpretation tq: byte_queue queue_ok queue_chars "TTY_BUF_SIZE - 1" PUTCH GETCH
proof
  fix q :: tty_queue and c cs
  assume q: "queue_ok q" "queue_chars q = c # cs"
  then have "0 < length (queue_chars q)" by simp
  then have "CHARS q \<noteq> 0" by (simp add: unat_gt_0)
  from queue_chars_GETCH [OF q(1) this] q(2)
  show "fst (GETCH q) = c \<and> queue_chars (snd (GETCH q)) = cs" by simp
qed (simp_all add: PUTCH_ok GETCH_ok queue_chars_PUTCH)


section \<open>The other operations\<close>

lemma unat_LEFT:
  assumes "queue_ok q"
  shows "unat (LEFT_chars q) = TTY_BUF_SIZE - 1 - unat (CHARS q)"
proof -
  define h t where "h = unat (q_head q)" and "t = unat (q_tail q)"
  have ht: "h < 1024" "t < 1024"
    using assms by (simp_all add: queue_ok_def TTY_BUF_SIZE_def h_def t_def)
  have e: "q_tail q - q_head q - 1 = q_tail q - (q_head q + 1)" by simp
  have "unat (q_head q + 1) = h + 1"
    using ht by (simp add: h_def unat_word_ariths)
  have m: "unat (q_tail q - (q_head q + 1)) mod 1024 = (t + 1024 - (h + 1)) mod 1024"
  proof (cases "h + 1 < 1024")
    case True
    then show ?thesis
      using unat_sub_ring [of "q_tail q" "q_head q + 1"] ht \<open>unat (q_head q + 1) = h + 1\<close> by (simp add: t_def)
  next
    case False
    then have "q_head q + 1 = 1024"
      using ht \<open>unat (q_head q + 1) = h + 1\<close> by (simp add: word_unat_eq_iff)
    moreover have "unat (q_tail q - 1024) = t + 1024 * (2 ^ 22 - 1)"
      using ht by (subst unat_sub_if') (simp add: t_def)
    moreover have "(t + 1024 * (2 ^ 22 - 1)) mod 1024 = t mod 1024"
      by (rule mod_mult_self2)
    moreover have "t + 1024 - (h + 1) = t" using False ht by simp
    ultimately show ?thesis using ht by (simp only: mod_less)
  qed
  have "unat (LEFT_chars q) = (t + 1024 - (h + 1)) mod 1024"
    unfolding LEFT_chars_def e and_ring using m by (simp only: TTY_BUF_SIZE_def)
  moreover have "unat (CHARS q) = (h + 1024 - t) mod 1024"
    using unat_CHARS [OF assms] by (simp add: TTY_BUF_SIZE_def h_def t_def)
  ultimately show ?thesis
    using ht ring_dist [of h 1024 t] ring_dist [of t 1024 "h + 1"]
    by (cases "h + 1 < 1024") (auto simp: TTY_BUF_SIZE_def split: if_splits)
qed

lemma LAST_chars:
  assumes q: "queue_ok q" and ne: "CHARS q \<noteq> 0"
  shows "queue_chars q \<noteq> [] \<and> LAST q = last (queue_chars q)"
    "queue_chars (q\<lparr>q_head := DEC (q_head q)\<rparr>) = butlast (queue_chars q)"
    "queue_ok (q\<lparr>q_head := DEC (q_head q)\<rparr>)"
proof -
  let ?q = "q\<lparr>q_head := DEC (q_head q)\<rparr>"
  define h t where "h = unat (q_head q)" and "t = unat (q_tail q)"
  have ht: "h < 1024" "t < 1024" "length (q_buf q) = 1024"
    using q by (simp_all add: queue_ok_def TTY_BUF_SIZE_def h_def t_def)
  have d: "unat (DEC (q_head q)) = (h + 1023) mod 1024"
    unfolding DEC_def and_ring using unat_sub_ring [of "q_head q" 1] ht
    by (simp add: TTY_BUF_SIZE_def h_def add.commute)
  show ok: "queue_ok ?q"
    using q d by (simp add: queue_ok_def TTY_BUF_SIZE_def)
  define n where "n = unat (CHARS q)"
  have n: "n = (h + 1024 - t) mod 1024"
    using unat_CHARS [OF q] by (simp add: n_def h_def t_def TTY_BUF_SIZE_def)
  have pos: "0 < n"
    using ne by (simp add: n_def unat_gt_0)
  note n = n pos
  have p: "(h + 1023) mod 1024 = (if h = 0 then 1023 else h - 1)"
    using ht ring_dist [of h 1024 1] by (auto simp: add.commute)
  have "((h + 1023) mod 1024 + 1024 - t) mod 1024 = n - 1"
    using n ht ring_dist [of h 1024 t] ring_dist [of "(h + 1023) mod 1024" 1024 t]
    unfolding p by (cases "h = 0") (auto split: if_splits)
  then have m: "unat (CHARS ?q) = n - 1"
    using unat_CHARS [OF ok] d by (simp add: TTY_BUF_SIZE_def t_def)
  have at: "(t + (n - 1)) mod 1024 = (h + 1023) mod 1024"
    using n ht ring_dist [of h 1024 t] ring_add [of t 1024 "n - 1"]
    unfolding p by (cases "h = 0") (auto split: if_splits)
  have l: "queue_chars q = map (\<lambda>i. q_buf q ! ((t + i) mod 1024)) [0..<Suc (n - 1)]"
    using n(2) by (simp add: queue_chars_def TTY_BUF_SIZE_def flip: n_def t_def)
  have "unat ((of_nat TTY_BUF_SIZE - 1) AND (q_head q - 1)) = (h + 1023) mod 1024"
    using d by (simp add: DEC_def and.commute)
  then show "queue_chars q \<noteq> [] \<and> LAST q = last (queue_chars q)"
    using at by (simp add: l LAST_def)
  show "queue_chars ?q = butlast (queue_chars q)"
    unfolding queue_chars_def [of ?q] m l by (simp add: TTY_BUF_SIZE_def flip: t_def)
qed

lemma CHARS_less: "queue_ok q \<Longrightarrow> unat (CHARS q) < TTY_BUF_SIZE"
  using unat_CHARS [of q] by (simp add: TTY_BUF_SIZE_def)

lemma queue_empty:
  assumes "queue_ok q"
  shows "EMPTY q \<longleftrightarrow> queue_chars q = []"
proof -
  have "EMPTY q \<longleftrightarrow> unat (CHARS q) = 0"
    using unat_CHARS [OF assms] assms ring_dist [of "unat (q_head q)" TTY_BUF_SIZE "unat (q_tail q)"]
    by (auto simp: EMPTY_def queue_ok_def word_unat_eq_iff split: if_splits)
  then show ?thesis by (simp flip: length_0_conv)
qed

lemma queue_full:
  assumes "queue_ok q"
  shows "FULL q \<longleftrightarrow> length (queue_chars q) = TTY_BUF_SIZE - 1"
  using unat_LEFT [OF assms] CHARS_less [OF assms] by (auto simp: FULL_def unat_eq_0 simp flip: unat_eq_0)

text \<open>Putting a byte into a full ring makes the head meet the tail.\<close>

lemma queue_overflow:
  assumes q: "queue_ok q" and f: "FULL q"
  shows "queue_chars (PUTCH c q) = []"
proof -
  define h t where "h = unat (q_head q)" and "t = unat (q_tail q)"
  have ht: "h < 1024" "t < 1024"
    using q by (simp_all add: queue_ok_def TTY_BUF_SIZE_def h_def t_def)
  have "(h + 1024 - t) mod 1024 = 1023"
    using queue_full [OF q] f unat_CHARS [OF q] by (simp add: TTY_BUF_SIZE_def h_def t_def)
  then have "t = (h + 1) mod 1024"
    using ht ring_dist [of h 1024 t] by (cases "h = 1023") (auto split: if_splits)
  then have "((h + 1) mod 1024 + 1024 - t) mod 1024 = 0"
    by simp
  then have "unat (CHARS (PUTCH c q)) = 0"
    using unat_CHARS [OF PUTCH_ok [OF q], of c] ht
    by (simp add: PUTCH_def unat_INC TTY_BUF_SIZE_def flip: h_def t_def)
  then show ?thesis by (simp flip: length_0_conv)
qed

text \<open>C34: the ring is a bounded queue. Its tests and counts are those of the list of its bytes; putting a
  byte appends it unless the ring is full, getting one takes it from the front, and the last byte can be
  looked at and dropped. Putting a byte into a full ring loses all of its bytes.\<close>

theorem tty_queue_refines:
  assumes q: "queue_ok q"
  shows "(EMPTY q \<longleftrightarrow> queue_chars q = []) \<and> (FULL q \<longleftrightarrow> length (queue_chars q) = TTY_BUF_SIZE - 1)
    \<and> unat (CHARS q) = length (queue_chars q) \<and> unat (LEFT_chars q) = TTY_BUF_SIZE - 1 - length (queue_chars q)
    \<and> queue_chars (PUTCH c q) = (if FULL q then [] else queue_chars q @ [c]) \<and> queue_ok (PUTCH c q)
    \<and> (\<not> EMPTY q \<longrightarrow> fst (GETCH q) = hd (queue_chars q) \<and> queue_chars (snd (GETCH q)) = tl (queue_chars q)
         \<and> queue_ok (snd (GETCH q)) \<and> LAST q = last (queue_chars q)
         \<and> queue_chars (q\<lparr>q_head := DEC (q_head q)\<rparr>) = butlast (queue_chars q))"
proof -
  have "CHARS q \<noteq> 0" if "\<not> EMPTY q"
    using that queue_empty [OF q] by (auto simp: queue_chars_def)
  note ne = queue_chars_GETCH [OF q this] LAST_chars [OF q this]
  have "\<not> EMPTY q \<longrightarrow> fst (GETCH q) = hd (queue_chars q) \<and> queue_chars (snd (GETCH q)) = tl (queue_chars q)
         \<and> queue_ok (snd (GETCH q)) \<and> LAST q = last (queue_chars q)
         \<and> queue_chars (q\<lparr>q_head := DEC (q_head q)\<rparr>) = butlast (queue_chars q)"
    using ne GETCH_ok [OF q] by (metis list.sel(1,3))
  moreover have "queue_chars (PUTCH c q) = (if FULL q then [] else queue_chars q @ [c])"
    using queue_chars_PUTCH [OF q] queue_full [OF q] CHARS_less [OF q] queue_overflow [OF q] by simp
  ultimately show ?thesis
    using queue_empty [OF q] queue_full [OF q] unat_LEFT [OF q] PUTCH_ok [OF q] by (intro conjI) simp_all
qed

lemma tty_queue_refines_witness:
  "queue_chars (PUTCH 65 \<lparr>q_data = 0, q_head = 1023, q_tail = 1023, proc_list = None, q_buf = replicate 1024 0\<rparr>) = [65]"
  by (subst tty_queue_refines [THEN conjunct2, THEN conjunct2, THEN conjunct2, THEN conjunct2, THEN conjunct1])
    (simp_all add: queue_ok_def TTY_BUF_SIZE_def FULL_def LEFT_chars_def queue_chars_def CHARS_def)


text \<open>Taking a byte from an empty queue, as \<open>con_write\<close> does after an answer to the program has emptied its
  queue in the middle of the loop, makes the queue look full of old bytes.\<close>

lemma GETCH_empty:
  assumes q: "queue_ok q" and e: "EMPTY q"
  shows "unat (CHARS (snd (GETCH q))) = TTY_BUF_SIZE - 1"
proof -
  define h where "h = unat (q_head q)"
  have h: "h < 1024" "unat (q_tail q) = h"
    using q e by (simp_all add: queue_ok_def EMPTY_def TTY_BUF_SIZE_def h_def)
  have "unat (CHARS (snd (GETCH q))) = (h + 1024 - (h + 1) mod 1024) mod 1024"
    using unat_CHARS [OF GETCH_ok [OF q]] h by (simp add: GETCH_def unat_INC TTY_BUF_SIZE_def h_def)
  then show ?thesis
    using h ring_dist [of h 1024 "(h + 1) mod 1024"] by (cases "h = 1023") (simp_all add: TTY_BUF_SIZE_def)
qed

end
