(* ===== verification/Console.thy ===== *)
theory Console imports Tasks begin

unbundle bit_operations_syntax

text \<open>
  \<open>kernel/chr_drv/console.c\<close>: the screen. Video memory is a function from addresses to bytes, and every
  store of the code goes through it, whether or not the address is in the video memory; that it always
  is, is a theorem. The string instructions (\<open>rep movsl\<close>, \<open>rep stosw\<close>) are the functions \<open>movsl\<close> and
  \<open>stosw\<close>, with the step that the direction flag selects. The output routine \<open>con_write\<close> calls the
  line discipline, and is in \<open>Tty\<close>.
\<close>

section \<open>State\<close>

definition VIDEO_TYPE_MDA :: u8 where "VIDEO_TYPE_MDA = 0x10"
definition VIDEO_TYPE_CGA :: u8 where "VIDEO_TYPE_CGA = 0x11"
definition VIDEO_TYPE_EGAM :: u8 where "VIDEO_TYPE_EGAM = 0x20"
definition VIDEO_TYPE_EGAC :: u8 where "VIDEO_TYPE_EGAC = 0x21"

definition NPAR :: nat where "NPAR = 16"

text \<open>The static variables of the file. The fields \<open>inp\<close> and \<open>outp\<close> are the I/O ports: what a read of each
  port gives, and the bytes written so far.\<close>

record console =
  video_type :: u8
  video_num_columns :: u32
  video_size_row :: u32
  video_num_lines :: u32
  video_page :: u8
  video_mem_start :: u32
  video_mem_end :: u32
  video_port_reg :: nat
  video_port_val :: nat
  video_erase_char :: u16
  origin :: u32
  scr_end :: u32
  con_pos :: u32
  con_x :: u32
  con_y :: u32
  con_top :: u32
  con_bottom :: u32
  con_state :: nat
  npar :: nat
  par :: "u32 list"
  ques :: bool
  attr :: u8
  saved_x :: u32
  saved_y :: u32
  beepcount :: int
  vram :: "u32 \<Rightarrow> u8"
  inp :: "nat \<Rightarrow> u8"
  outp :: "(u8 \<times> nat) list"

definition outb :: "u8 \<Rightarrow> nat \<Rightarrow> console \<Rightarrow> console" where
  "outb v port k = k\<lparr>outp := outp k @ [(v, port)]\<rparr>"

section \<open>Stores to memory\<close>

type_synonym bytes = "u32 \<Rightarrow> u8"

definition poke16 :: "u32 \<Rightarrow> u16 \<Rightarrow> bytes \<Rightarrow> bytes" where
  "poke16 a v m = m(a := ucast v, a + 1 := ucast (drop_bit 8 v))"

definition peek16 :: "bytes \<Rightarrow> u32 \<Rightarrow> u16" where
  "peek16 m a = ucast (m a) OR push_bit 8 (ucast (m (a + 1)))"

definition move4 :: "u32 \<Rightarrow> u32 \<Rightarrow> bytes \<Rightarrow> bytes" where
  "move4 src dst m = m(dst := m src, dst + 1 := m (src + 1), dst + 2 := m (src + 2), dst + 3 := m (src + 3))"

text \<open>\<open>rep stosw\<close> with \<open>n\<close> in \<open>%ecx\<close> and \<open>rep movsl\<close>; \<open>d\<close> is the step of \<open>%edi\<close> (and \<open>%esi\<close>).\<close>

primrec stosw :: "nat \<Rightarrow> u32 \<Rightarrow> u32 \<Rightarrow> u16 \<Rightarrow> bytes \<Rightarrow> bytes" where
  "stosw 0 d a v m = m"
| "stosw (Suc n) d a v m = stosw n d (a + d) v (poke16 a v m)"

primrec movsl :: "nat \<Rightarrow> u32 \<Rightarrow> u32 \<Rightarrow> u32 \<Rightarrow> bytes \<Rightarrow> bytes" where
  "movsl 0 d src dst m = m"
| "movsl (Suc n) d src dst m = movsl n d (src + d) (dst + d) (move4 src dst m)"

definition upd_vram :: "(bytes \<Rightarrow> bytes) \<Rightarrow> console \<Rightarrow> console" where
  "upd_vram f k = k\<lparr>vram := f (vram k)\<rparr>"

section \<open>Cursor and scrolling\<close>

definition gotoxy :: "u32 \<Rightarrow> u32 \<Rightarrow> console \<Rightarrow> console" where
  "gotoxy new_x new_y k =
    (if new_x > video_num_columns k \<or> new_y \<ge> video_num_lines k then k
     else k\<lparr>con_x := new_x, con_y := new_y,
            con_pos := origin k + new_y * video_size_row k + push_bit 1 new_x\<rparr>)"

definition set_origin :: "console \<Rightarrow> console" where
  "set_origin k =
    (let d = origin k - video_mem_start k
     in outb (ucast (drop_bit 1 d)) (video_port_val k) (outb 13 (video_port_reg k)
       (outb (ucast (drop_bit 9 d)) (video_port_val k) (outb 12 (video_port_reg k) k))))"

definition is_ega :: "console \<Rightarrow> bool" where
  "is_ega k \<longleftrightarrow> video_type k = VIDEO_TYPE_EGAC \<or> video_type k = VIDEO_TYPE_EGAM"

text \<open>The scroll by copying: the lines of the region below its first one move up (down), and the last
  (first) line is erased.\<close>

definition region_up :: "console \<Rightarrow> console" where
  "region_up k =
    (let n = drop_bit 1 ((con_bottom k - con_top k - 1) * video_num_columns k);
         di = origin k + video_size_row k * con_top k;
         si = origin k + video_size_row k * (con_top k + 1)
     in upd_vram (\<lambda>m. stosw (unat (video_num_columns k)) 2 (di + 4 * n) (video_erase_char k)
                        (movsl (unat n) 4 si di m)) k)"

definition region_down :: "console \<Rightarrow> console" where
  "region_down k =
    (let n = drop_bit 1 ((con_bottom k - con_top k - 1) * video_num_columns k);
         di = origin k + video_size_row k * con_bottom k - 4;
         si = origin k + video_size_row k * (con_bottom k - 1) - 4
     in upd_vram (\<lambda>m. stosw (unat (video_num_columns k)) (- 2) (di - 4 * n + 2) (video_erase_char k)
                        (movsl (unat n) (- 4) si di m)) k)"

text \<open>The scroll of the whole screen on an EGA or VGA card: the origin moves down by a line, and back to
  the start of the video memory when its end is reached.\<close>

definition pan_up :: "console \<Rightarrow> console" where
  "pan_up k =
    (let row = video_size_row k;
         k = k\<lparr>origin := origin k + row, con_pos := con_pos k + row, scr_end := scr_end k + row\<rparr>
     in set_origin
       (if scr_end k > video_mem_end k
        then
        let n = drop_bit 1 ((video_num_lines k - 1) * video_num_columns k);
            k = upd_vram (\<lambda>m. stosw (unat (video_num_columns k)) 2 (video_mem_start k + 4 * n) (video_erase_char k)
                               (movsl (unat n) 4 (origin k) (video_mem_start k) m)) k;
            d = origin k - video_mem_start k
        in k\<lparr>scr_end := scr_end k - d, con_pos := con_pos k - d, origin := video_mem_start k\<rparr>
        else upd_vram (stosw (unat (video_num_columns k)) 2 (scr_end k - row) (video_erase_char k)) k))"

definition scrup :: "console \<Rightarrow> console" where
  "scrup k =
    (if is_ega k \<and> con_top k = 0 \<and> con_bottom k = video_num_lines k then pan_up k else region_up k)"

definition scrdown :: "console \<Rightarrow> console" where
  "scrdown k = region_down k"

definition lf :: "console \<Rightarrow> console" where
  "lf k =
    (if con_y k + 1 < con_bottom k
     then k\<lparr>con_y := con_y k + 1, con_pos := con_pos k + video_size_row k\<rparr> else scrup k)"

definition ri :: "console \<Rightarrow> console" where
  "ri k =
    (if con_y k > con_top k
     then k\<lparr>con_y := con_y k - 1, con_pos := con_pos k - video_size_row k\<rparr> else scrdown k)"

definition cr :: "console \<Rightarrow> console" where
  "cr k = k\<lparr>con_pos := con_pos k - push_bit 1 (con_x k), con_x := 0\<rparr>"

definition del :: "console \<Rightarrow> console" where
  "del k =
    (if con_x k = 0 then k
     else let k = k\<lparr>con_pos := con_pos k - 2, con_x := con_x k - 1\<rparr>
          in upd_vram (poke16 (con_pos k) (video_erase_char k)) k)"

section \<open>Erasing, inserting and deleting\<close>

definition erase :: "u32 \<Rightarrow> u32 \<Rightarrow> console \<Rightarrow> console" where
  "erase count start k = upd_vram (stosw (unat count) 2 start (video_erase_char k)) k"

definition csi_J :: "u32 \<Rightarrow> console \<Rightarrow> console" where
  "csi_J p k =
    (if p = 0 then erase (drop_bit 1 (scr_end k - con_pos k)) (con_pos k) k
     else if p = 1 then erase (drop_bit 1 (con_pos k - origin k)) (origin k) k
     else if p = 2 then erase (video_num_columns k * video_num_lines k) (origin k) k
     else k)"

definition csi_K :: "u32 \<Rightarrow> console \<Rightarrow> console" where
  "csi_K p k =
    (if p = 0
     then if con_x k \<ge> video_num_columns k then k
          else erase (video_num_columns k - con_x k) (con_pos k) k
     else if p = 1
     then erase (if con_x k < video_num_columns k then con_x k else video_num_columns k)
            (con_pos k - push_bit 1 (con_x k)) k
     else if p = 2 then erase (video_num_columns k) (con_pos k - push_bit 1 (con_x k)) k
     else k)"

definition sgr :: "u32 \<Rightarrow> console \<Rightarrow> console" where
  "sgr p k =
    (if p = 0 then k\<lparr>attr := 0x07\<rparr> else if p = 1 then k\<lparr>attr := 0x0f\<rparr>
     else if p = 4 then k\<lparr>attr := 0x0f\<rparr> else if p = 7 then k\<lparr>attr := 0x70\<rparr>
     else if p = 27 then k\<lparr>attr := 0x07\<rparr> else k)"

definition csi_m :: "console \<Rightarrow> console" where
  "csi_m k = fold (\<lambda>i. sgr (par k ! i)) [0..<Suc (npar k)] k"

definition set_cursor :: "console \<Rightarrow> console" where
  "set_cursor k =
    (let d = con_pos k - video_mem_start k
     in outb (ucast (drop_bit 1 d)) (video_port_val k) (outb 15 (video_port_reg k)
       (outb (ucast (drop_bit 9 d)) (video_port_val k) (outb 14 (video_port_reg k) k))))"

text \<open>The loops of \<open>insert_char\<close> and \<open>delete_char\<close>, with the number of their rounds.\<close>

primrec shift_right :: "nat \<Rightarrow> u16 \<Rightarrow> u32 \<Rightarrow> bytes \<Rightarrow> bytes" where
  "shift_right 0 old p m = m"
| "shift_right (Suc n) old p m = shift_right n (peek16 m p) (p + 2) (poke16 p old m)"

definition insert_char :: "console \<Rightarrow> console" where
  "insert_char k =
    upd_vram (shift_right (unat (video_num_columns k) - unat (con_x k)) (video_erase_char k) (con_pos k)) k"

primrec shift_left :: "nat \<Rightarrow> u16 \<Rightarrow> u32 \<Rightarrow> bytes \<Rightarrow> bytes" where
  "shift_left 0 e p m = poke16 p e m"
| "shift_left (Suc n) e p m = shift_left n e (p + 2) (poke16 p (peek16 m (p + 2)) m)"

definition delete_char :: "console \<Rightarrow> console" where
  "delete_char k =
    (if con_x k \<ge> video_num_columns k then k
     else upd_vram (shift_left (unat (video_num_columns k) - unat (con_x k) - 1) (video_erase_char k) (con_pos k)) k)"

definition insert_line :: "console \<Rightarrow> console" where
  "insert_line k =
    (scrdown (k\<lparr>con_top := con_y k, con_bottom := video_num_lines k\<rparr>))\<lparr>con_top := con_top k, con_bottom := con_bottom k\<rparr>"

definition delete_line :: "console \<Rightarrow> console" where
  "delete_line k =
    (scrup (k\<lparr>con_top := con_y k, con_bottom := video_num_lines k\<rparr>))\<lparr>con_top := con_top k, con_bottom := con_bottom k\<rparr>"

text \<open>How often the operation is repeated.\<close>

definition clamp :: "u32 \<Rightarrow> u32 \<Rightarrow> nat" where
  "clamp limit nr = unat (if nr > limit then limit else if nr = 0 then 1 else nr)"

definition csi_at :: "u32 \<Rightarrow> console \<Rightarrow> console" where
  "csi_at nr k = (insert_char ^^ clamp (video_num_columns k) nr) k"

definition csi_L :: "u32 \<Rightarrow> console \<Rightarrow> console" where
  "csi_L nr k = (insert_line ^^ clamp (video_num_lines k) nr) k"

definition csi_P :: "u32 \<Rightarrow> console \<Rightarrow> console" where
  "csi_P nr k = (delete_char ^^ clamp (video_num_columns k) nr) k"

definition csi_M :: "u32 \<Rightarrow> console \<Rightarrow> console" where
  "csi_M nr k = (delete_line ^^ clamp (video_num_lines k) nr) k"

definition save_cur :: "console \<Rightarrow> console" where
  "save_cur k = k\<lparr>saved_x := con_x k, saved_y := con_y k\<rparr>"

definition restore_cur :: "console \<Rightarrow> console" where
  "restore_cur k = gotoxy (saved_x k) (saved_y k) k"

definition sysbeepstop :: "console \<Rightarrow> console" where
  "sysbeepstop k = outb (inp k 0x61 AND 0xfc) 0x61 k"

definition sysbeep :: "console \<Rightarrow> console" where
  "sysbeep k =
    (outb 0x06 0x42 (outb 0x37 0x42 (outb 0xb6 0x43 (outb (inp k 0x61 OR 3) 0x61 k))))\<lparr>beepcount := HZ div 8\<rparr>"

section \<open>Output\<close>

abbreviation ch :: "char \<Rightarrow> u8" where "ch x \<equiv> of_char x"

text \<open>A printing character. At the end of a line the cursor first goes to the next line.\<close>

definition new_line :: "console \<Rightarrow> console" where
  "new_line k = lf (k\<lparr>con_x := con_x k - video_num_columns k, con_pos := con_pos k - video_size_row k\<rparr>)"

definition put_graphic :: "u8 \<Rightarrow> console \<Rightarrow> console" where
  "put_graphic c k =
    (let k = (if con_x k \<ge> video_num_columns k then new_line k else k);
         k = upd_vram (poke16 (con_pos k) (ucast c OR push_bit 8 (ucast (attr k)))) k
     in k\<lparr>con_pos := con_pos k + 2, con_x := con_x k + 1\<rparr>)"

definition tabulate :: "console \<Rightarrow> console" where
  "tabulate k =
    (let c = 8 - (con_x k AND 7);
         k = k\<lparr>con_x := con_x k + c, con_pos := con_pos k + push_bit 1 c\<rparr>
     in if con_x k > video_num_columns k then new_line k else k)"

text \<open>State 0; \<open>er\<close> is the erase character of the terminal.\<close>

definition put_plain :: "u8 \<Rightarrow> u8 \<Rightarrow> console \<Rightarrow> console" where
  "put_plain er c k =
    (if sint c > 31 \<and> sint c < 127 then put_graphic c k
     else if c = 27 then k\<lparr>con_state := 1\<rparr>
     else if c = 10 \<or> c = 11 \<or> c = 12 then lf k
     else if c = 13 then cr k
     else if sint c = uint er then del k
     else if c = 8
     then if con_x k \<noteq> 0 then k\<lparr>con_x := con_x k - 1, con_pos := con_pos k - 2\<rparr> else k
     else if c = 9 then tabulate k
     else if c = 7 then sysbeep k
     else k)"

text \<open>State 1, but for the answer to \<open>ESC Z\<close>. The code compares \<open>x\<close>, the column, with the characters
  7 and 8.\<close>

definition put_escape :: "u8 \<Rightarrow> console \<Rightarrow> console" where
  "put_escape c k =
    (let k = k\<lparr>con_state := 0\<rparr>
     in if c = ch CHR ''['' then k\<lparr>con_state := 2\<rparr>
        else if c = ch CHR ''E'' then gotoxy 0 (con_y k + 1) k
        else if c = ch CHR ''M'' then ri k
        else if c = ch CHR ''D'' then lf k
        else if con_x k = ucast (ch CHR ''7'') then save_cur k
        else if con_x k = ucast (ch CHR ''8'') then restore_cur k
        else k)"

definition set_par :: "nat \<Rightarrow> u32 \<Rightarrow> console \<Rightarrow> console" where
  "set_par i v k = k\<lparr>par := (par k)[i := v]\<rparr>"

definition dec_par :: "nat \<Rightarrow> console \<Rightarrow> console" where
  "dec_par i k = (if par k ! i \<noteq> 0 then set_par i (par k ! i - 1) k else k)"

definition inc_par :: "console \<Rightarrow> console" where
  "inc_par k = (if par k ! 0 = 0 then set_par 0 1 k else k)"

definition set_region :: "console \<Rightarrow> console" where
  "set_region k =
    (let k = dec_par 0 k;
         k = (if par k ! 1 = 0 then set_par 1 (video_num_lines k) k else k)
     in if par k ! 0 < par k ! 1 \<and> par k ! 1 \<le> video_num_lines k
        then k\<lparr>con_top := par k ! 0, con_bottom := par k ! 1\<rparr> else k)"

text \<open>State 4: the character that ends a control sequence.\<close>

definition put_final :: "u8 \<Rightarrow> console \<Rightarrow> console" where
  "put_final c k =
    (let k = k\<lparr>con_state := 0\<rparr>
     in if c = ch CHR ''G'' \<or> c = 96 then let k = dec_par 0 k in gotoxy (par k ! 0) (con_y k) k
        else if c = ch CHR ''A'' then let k = inc_par k in gotoxy (con_x k) (con_y k - par k ! 0) k
        else if c = ch CHR ''B'' \<or> c = ch CHR ''e''
        then let k = inc_par k in gotoxy (con_x k) (con_y k + par k ! 0) k
        else if c = ch CHR ''C'' \<or> c = ch CHR ''a''
        then let k = inc_par k in gotoxy (con_x k + par k ! 0) (con_y k) k
        else if c = ch CHR ''D'' then let k = inc_par k in gotoxy (con_x k - par k ! 0) (con_y k) k
        else if c = ch CHR ''E'' then let k = inc_par k in gotoxy 0 (con_y k + par k ! 0) k
        else if c = ch CHR ''F'' then let k = inc_par k in gotoxy 0 (con_y k - par k ! 0) k
        else if c = ch CHR ''d'' then let k = dec_par 0 k in gotoxy (con_x k) (par k ! 0) k
        else if c = ch CHR ''H'' \<or> c = ch CHR ''f''
        then let k = dec_par 1 (dec_par 0 k) in gotoxy (par k ! 1) (par k ! 0) k
        else if c = ch CHR ''J'' then csi_J (par k ! 0) k
        else if c = ch CHR ''K'' then csi_K (par k ! 0) k
        else if c = ch CHR ''L'' then csi_L (par k ! 0) k
        else if c = ch CHR ''M'' then csi_M (par k ! 0) k
        else if c = ch CHR ''P'' then csi_P (par k ! 0) k
        else if c = ch CHR ''@'' then csi_at (par k ! 0) k
        else if c = ch CHR ''m'' then csi_m k
        else if c = ch CHR ''r'' then set_region k
        else if c = ch CHR ''s'' then save_cur k
        else if c = ch CHR ''u'' then restore_cur k
        else k)"

text \<open>States 3 and 2, which fall through to the next one.\<close>

definition put_param :: "u8 \<Rightarrow> console \<Rightarrow> console" where
  "put_param c k =
    (if c = ch CHR '';'' \<and> npar k < NPAR - 1 then k\<lparr>npar := npar k + 1\<rparr>
     else if sint c \<ge> 48 \<and> sint c \<le> 57
     then set_par (npar k) (10 * (par k ! npar k) + ucast c - 48) k
     else put_final c k)"

definition put_bracket :: "u8 \<Rightarrow> console \<Rightarrow> console" where
  "put_bracket c k =
    (let k = k\<lparr>par := replicate NPAR 0, npar := 0, con_state := 3, ques := (c = ch CHR ''?'')\<rparr>
     in if ques k then k else put_param c k)"

text \<open>The \<open>switch\<close> on the state.\<close>

definition con_put :: "u8 \<Rightarrow> u8 \<Rightarrow> console \<Rightarrow> console" where
  "con_put er c k =
    (if con_state k = 0 then put_plain er c k
     else if con_state k = 1 then put_escape c k
     else if con_state k = 2 then put_bracket c k
     else if con_state k = 3 then put_param c k
     else if con_state k = 4 then put_final c k
     else k)"

section \<open>Start-up\<close>

text \<open>The bytes \<open>setup\<close> leaves at 0x90000.\<close>

record boot_video =
  ORIG_X :: u8
  ORIG_Y :: u8
  ORIG_VIDEO_PAGE :: u16
  ORIG_VIDEO_MODE :: u8
  ORIG_VIDEO_COLS :: u8
  ORIG_VIDEO_EGA_BX :: u16

definition ORIG_VIDEO_LINES :: u32 where "ORIG_VIDEO_LINES = 25"

text \<open>Memory start and end, ports, card type and its name.\<close>

definition video_card :: "boot_video \<Rightarrow> u32 \<times> u32 \<times> nat \<times> nat \<times> u8 \<times> string" where
  "video_card b =
    (if ORIG_VIDEO_MODE b = 7
     then if ORIG_VIDEO_EGA_BX b AND 0xff \<noteq> 0x10
          then (0xb0000, 0xb8000, 0x3b4, 0x3b5, VIDEO_TYPE_EGAM, ''EGAm'')
          else (0xb0000, 0xb2000, 0x3b4, 0x3b5, VIDEO_TYPE_MDA, ''*MDA'')
     else if ORIG_VIDEO_EGA_BX b AND 0xff \<noteq> 0x10
          then (0xb8000, 0xbc000, 0x3d4, 0x3d5, VIDEO_TYPE_EGAC, ''EGAc'')
          else (0xb8000, 0xba000, 0x3d4, 0x3d5, VIDEO_TYPE_CGA, ''*CGA''))"

primrec put_desc :: "string \<Rightarrow> u32 \<Rightarrow> bytes \<Rightarrow> bytes" where
  "put_desc [] p m = m"
| "put_desc (c # xs) p m = put_desc xs (p + 2) (m(p := ch c))"

definition con_init :: "boot_video \<Rightarrow> console \<Rightarrow> console" where
  "con_init b k =
    (let (start, fin, reg, val, type, desc) = video_card b;
         cols = ucast (ORIG_VIDEO_COLS b);
         row = cols * 2;
         k = k\<lparr>video_type := type, video_num_columns := cols, video_size_row := row,
               video_num_lines := ORIG_VIDEO_LINES, video_page := ucast (ORIG_VIDEO_PAGE b),
               video_mem_start := start, video_mem_end := fin,
               video_port_reg := reg, video_port_val := val, video_erase_char := 0x0720\<rparr>;
         k = upd_vram (put_desc desc (start + row - 8)) k;
         k = k\<lparr>origin := start, scr_end := start + ORIG_VIDEO_LINES * row,
               con_top := 0, con_bottom := ORIG_VIDEO_LINES\<rparr>;
         k = gotoxy (ucast (ORIG_X b)) (ucast (ORIG_Y b)) k;
         k = outb (inp k 0x21 AND 0xfd) 0x21 k;
         a = inp k 0x61
     in outb a 0x61 (outb (a OR 0x80) 0x61 k))"

end
