(* ===== verification/Ctype.thy ===== *)
theory Ctype imports Kprelude begin

unbundle bit_operations_syntax

text \<open>
  \<open>include/ctype.h\<close> and \<open>lib/ctype.c\<close>: classes of characters. The table has an entry for -1 and for each
  of 0 to 255. A plain \<open>char\<close> is signed, so a byte from 128 on is a negative index; but for -1 it reads
  memory in front of the table, which is an argument: \<open>below k\<close> is the byte \<open>k\<close> places before it.
\<close>

definition ct_U :: u8 where "ct_U = 0x01"
definition ct_L :: u8 where "ct_L = 0x02"
definition ct_D :: u8 where "ct_D = 0x04"
definition ct_C :: u8 where "ct_C = 0x08"
definition ct_P :: u8 where "ct_P = 0x10"
definition ct_S :: u8 where "ct_S = 0x20"
definition ct_X :: u8 where "ct_X = 0x40"
definition ct_SP :: u8 where "ct_SP = 0x80"

definition ctype_table :: "u8 list" where
  "ctype_table = 0 #
    replicate 9 ct_C @ replicate 5 (ct_C OR ct_S) @ replicate 18 ct_C @
    [ct_S OR ct_SP] @ replicate 15 ct_P @ replicate 10 ct_D @ replicate 7 ct_P @
    replicate 6 (ct_U OR ct_X) @ replicate 20 ct_U @ replicate 6 ct_P @
    replicate 6 (ct_L OR ct_X) @ replicate 20 ct_L @ replicate 4 ct_P @ [ct_C] @ replicate 128 0"

definition ctype_of :: "(nat \<Rightarrow> u8) \<Rightarrow> int \<Rightarrow> u8" where
  "ctype_of below c = (if c < - 1 then below (nat (- 1 - c)) else ctype_table ! nat (c + 1))"

definition isalnum :: "(nat \<Rightarrow> u8) \<Rightarrow> int \<Rightarrow> bool" where
  "isalnum b c \<longleftrightarrow> ctype_of b c AND (ct_U OR ct_L OR ct_D) \<noteq> 0"
definition isalpha :: "(nat \<Rightarrow> u8) \<Rightarrow> int \<Rightarrow> bool" where
  "isalpha b c \<longleftrightarrow> ctype_of b c AND (ct_U OR ct_L) \<noteq> 0"
definition iscntrl :: "(nat \<Rightarrow> u8) \<Rightarrow> int \<Rightarrow> bool" where
  "iscntrl b c \<longleftrightarrow> ctype_of b c AND ct_C \<noteq> 0"
definition isdigit :: "(nat \<Rightarrow> u8) \<Rightarrow> int \<Rightarrow> bool" where
  "isdigit b c \<longleftrightarrow> ctype_of b c AND ct_D \<noteq> 0"
definition isgraph :: "(nat \<Rightarrow> u8) \<Rightarrow> int \<Rightarrow> bool" where
  "isgraph b c \<longleftrightarrow> ctype_of b c AND (ct_P OR ct_U OR ct_L OR ct_D) \<noteq> 0"
definition islower :: "(nat \<Rightarrow> u8) \<Rightarrow> int \<Rightarrow> bool" where
  "islower b c \<longleftrightarrow> ctype_of b c AND ct_L \<noteq> 0"
definition isprint :: "(nat \<Rightarrow> u8) \<Rightarrow> int \<Rightarrow> bool" where
  "isprint b c \<longleftrightarrow> ctype_of b c AND (ct_P OR ct_U OR ct_L OR ct_D OR ct_SP) \<noteq> 0"
definition ispunct :: "(nat \<Rightarrow> u8) \<Rightarrow> int \<Rightarrow> bool" where
  "ispunct b c \<longleftrightarrow> ctype_of b c AND ct_P \<noteq> 0"
definition isspace :: "(nat \<Rightarrow> u8) \<Rightarrow> int \<Rightarrow> bool" where
  "isspace b c \<longleftrightarrow> ctype_of b c AND ct_S \<noteq> 0"
definition isupper :: "(nat \<Rightarrow> u8) \<Rightarrow> int \<Rightarrow> bool" where
  "isupper b c \<longleftrightarrow> ctype_of b c AND ct_U \<noteq> 0"
definition isxdigit :: "(nat \<Rightarrow> u8) \<Rightarrow> int \<Rightarrow> bool" where
  "isxdigit b c \<longleftrightarrow> ctype_of b c AND (ct_D OR ct_X) \<noteq> 0"

definition isascii :: "int \<Rightarrow> bool" where
  "isascii c \<longleftrightarrow> uint (of_int c :: u32) \<le> 0x7f"
definition toascii :: "int \<Rightarrow> u32" where
  "toascii c = of_int c AND 0x7f"

text \<open>On a byte; the result is stored in a \<open>char\<close> by every caller.\<close>

definition to_lower :: "(nat \<Rightarrow> u8) \<Rightarrow> u8 \<Rightarrow> u8" where
  "to_lower b c = (if isupper b (sint c) then c + 32 else c)"
definition to_upper :: "(nat \<Rightarrow> u8) \<Rightarrow> u8 \<Rightarrow> u8" where
  "to_upper b c = (if islower b (sint c) then c - 32 else c)"

lemma ctype_of_ascii:
  assumes "0 \<le> c" "c < 128"
  shows "isupper b c \<longleftrightarrow> 65 \<le> c \<and> c \<le> 90" "islower b c \<longleftrightarrow> 97 \<le> c \<and> c \<le> 122" "isdigit b c \<longleftrightarrow> 48 \<le> c \<and> c \<le> 57"
proof -
  have "\<forall>c\<in>set [0..<128]. (ctype_table ! (c + 1) AND ct_U \<noteq> 0 \<longleftrightarrow> 65 \<le> c \<and> c \<le> 90)
      \<and> (ctype_table ! (c + 1) AND ct_L \<noteq> 0 \<longleftrightarrow> 97 \<le> c \<and> c \<le> 122)
      \<and> (ctype_table ! (c + 1) AND ct_D \<noteq> 0 \<longleftrightarrow> 48 \<le> c \<and> c \<le> 57)"
    by code_simp
  then have "\<forall>c<128. (ctype_table ! (c + 1) AND ct_U \<noteq> 0 \<longleftrightarrow> 65 \<le> c \<and> c \<le> 90)
      \<and> (ctype_table ! (c + 1) AND ct_L \<noteq> 0 \<longleftrightarrow> 97 \<le> c \<and> c \<le> 122)
      \<and> (ctype_table ! (c + 1) AND ct_D \<noteq> 0 \<longleftrightarrow> 48 \<le> c \<and> c \<le> 57)"
    by simp
  from this [rule_format, of "nat c"] assms
  show "isupper b c \<longleftrightarrow> 65 \<le> c \<and> c \<le> 90" "islower b c \<longleftrightarrow> 97 \<le> c \<and> c \<le> 122" "isdigit b c \<longleftrightarrow> 48 \<le> c \<and> c \<le> 57"
    by (simp_all add: isupper_def islower_def isdigit_def ctype_of_def nat_add_distrib le_nat_iff nat_le_iff)
qed

end
