(* ===== verification/Tty.thy ===== *)
theory Tty imports Process Tty_Queue Console Ctype begin

unbundle bit_operations_syntax

text \<open>
  \<open>kernel/chr_drv/tty_io.c\<close>, \<open>tty_ioctl.c\<close>, \<open>serial.c\<close> and the output routine of \<open>console.c\<close>: the line
  discipline between the drivers and the processes. The terminals are the three entries of \<open>tty_table\<close>;
  their process groups are the field \<open>tty_pgrp\<close> of the record \<open>kernel\<close>, where \<open>exit\<close> finds them.

  The console may answer a request while it prints, so \<open>con_write\<close> and \<open>copy_to_cooked\<close> call each other;
  the first argument of these functions bounds the depth of the calls and the rounds of their loops, and a
  run that needs more is \<open>Hang\<close>. What happens from a call of \<open>schedule\<close> until the process runs again
  is the argument \<open>others\<close>.
\<close>

section \<open>State\<close>

record termios =
  c_iflag :: u32
  c_oflag :: u32
  c_cflag :: u32
  c_lflag :: u32
  c_line :: u8
  c_cc :: "u8 list"
  c_pad :: "u8 list"

definition NCC :: nat where "NCC = 8"
definition NCCS :: nat where "NCCS = 17"

definition VINTR :: nat where "VINTR = 0"
definition VQUIT :: nat where "VQUIT = 1"
definition VERASE :: nat where "VERASE = 2"
definition VKILL :: nat where "VKILL = 3"
definition VEOF :: nat where "VEOF = 4"
definition VTIME :: nat where "VTIME = 5"
definition VMIN :: nat where "VMIN = 6"
definition VSTART :: nat where "VSTART = 8"
definition VSTOP :: nat where "VSTOP = 9"

definition INLCR :: u32 where "INLCR = 0x40"
definition IGNCR :: u32 where "IGNCR = 0x80"
definition ICRNL :: u32 where "ICRNL = 0x100"
definition IUCLC :: u32 where "IUCLC = 0x200"
definition OPOST :: u32 where "OPOST = 1"
definition OLCUC :: u32 where "OLCUC = 2"
definition ONLCR :: u32 where "ONLCR = 4"
definition OCRNL :: u32 where "OCRNL = 8"
definition ONLRET :: u32 where "ONLRET = 0x20"
definition ISIG :: u32 where "ISIG = 1"
definition ICANON :: u32 where "ICANON = 2"
definition ECHO :: u32 where "ECHO = 8"
definition ECHOCTL :: u32 where "ECHOCTL = 0x200"
definition ECHOKE :: u32 where "ECHOKE = 0x800"
definition CBAUD :: u32 where "CBAUD = 0xf"
definition B2400 :: u32 where "B2400 = 0xb"
definition CS8 :: u32 where "CS8 = 0x30"

text \<open>The routine that \<open>write\<close> points to.\<close>

datatype tty_driver = con_write | rs_write

record tty_struct =
  termios :: termios
  stopped :: bool
  t_write :: tty_driver
  read_q :: tty_queue
  write_q :: tty_queue
  secondary :: tty_queue

record terminal =
  sy :: system
  con :: console
  ttys :: "tty_struct list"
  cr_flag :: bool
  before_ctype :: "nat \<Rightarrow> u8"

definition INIT_C_CC :: "u8 list" where
  "INIT_C_CC = [3, 28, 127, 21, 4, 0, 1, 0, 17, 19, 26, 0, 18, 15, 23, 22, 0]"

definition empty_queue :: "u32 \<Rightarrow> tty_queue" where
  "empty_queue d = \<lparr>q_data = d, q_head = 0, q_tail = 0, proc_list = None, q_buf = replicate TTY_BUF_SIZE 0\<rparr>"

definition serial_tty :: "u32 \<Rightarrow> tty_struct" where
  "serial_tty port =
    \<lparr>termios = \<lparr>c_iflag = 0, c_oflag = 0, c_cflag = B2400 OR CS8, c_lflag = 0, c_line = 0,
                 c_cc = INIT_C_CC, c_pad = [0, 0]\<rparr>,
     stopped = False, t_write = rs_write,
     read_q = empty_queue port, write_q = empty_queue port, secondary = empty_queue 0\<rparr>"

definition tty_table :: "tty_struct list" where
  "tty_table =
    [\<lparr>termios = \<lparr>c_iflag = ICRNL, c_oflag = OPOST OR ONLCR, c_cflag = 0,
                  c_lflag = ISIG OR ICANON OR ECHO OR ECHOCTL OR ECHOKE, c_line = 0,
                  c_cc = INIT_C_CC, c_pad = [0, 0]\<rparr>,
      stopped = False, t_write = con_write,
      read_q = empty_queue 0, write_q = empty_queue 0, secondary = empty_queue 0\<rparr>,
     serial_tty 0x3f8, serial_tty 0x2f8]"

definition l_flag :: "tty_struct \<Rightarrow> u32 \<Rightarrow> bool" where
  "l_flag t f \<longleftrightarrow> c_lflag (termios t) AND f \<noteq> 0"
definition i_flag :: "tty_struct \<Rightarrow> u32 \<Rightarrow> bool" where
  "i_flag t f \<longleftrightarrow> c_iflag (termios t) AND f \<noteq> 0"
definition o_flag :: "tty_struct \<Rightarrow> u32 \<Rightarrow> bool" where
  "o_flag t f \<longleftrightarrow> c_oflag (termios t) AND f \<noteq> 0"

text \<open>A control character of the terminal, and the comparison of a \<open>char\<close>, which is signed, with it,
  which is not.\<close>

definition cc :: "tty_struct \<Rightarrow> nat \<Rightarrow> u8" where
  "cc t i = c_cc (termios t) ! i"

definition is_cc :: "u8 \<Rightarrow> tty_struct \<Rightarrow> nat \<Rightarrow> bool" where
  "is_cc c t i \<longleftrightarrow> sint c = uint (cc t i)"

abbreviation tt :: "nat \<Rightarrow> terminal \<Rightarrow> tty_struct" where
  "tt i s \<equiv> ttys s ! i"

definition upd_tty :: "nat \<Rightarrow> (tty_struct \<Rightarrow> tty_struct) \<Rightarrow> terminal \<Rightarrow> terminal" where
  "upd_tty i f s = s\<lparr>ttys := (ttys s)[i := f (ttys s ! i)]\<rparr>"

definition put_read :: "nat \<Rightarrow> u8 \<Rightarrow> terminal \<Rightarrow> terminal" where
  "put_read i c = upd_tty i (\<lambda>t. t\<lparr>read_q := PUTCH c (read_q t)\<rparr>)"
definition put_write :: "nat \<Rightarrow> u8 \<Rightarrow> terminal \<Rightarrow> terminal" where
  "put_write i c = upd_tty i (\<lambda>t. t\<lparr>write_q := PUTCH c (write_q t)\<rparr>)"
definition put_secondary :: "nat \<Rightarrow> u8 \<Rightarrow> terminal \<Rightarrow> terminal" where
  "put_secondary i c = upd_tty i (\<lambda>t. t\<lparr>secondary := PUTCH c (secondary t)\<rparr>)"

text \<open>The task that runs.\<close>

definition this :: "terminal \<Rightarrow> task_struct" where
  "this s = me (sy s)"

definition upd_this :: "(task_struct \<Rightarrow> task_struct) \<Rightarrow> terminal \<Rightarrow> terminal" where
  "upd_this f s = s\<lparr>sy := upd (current (sc (sy s))) f (sy s)\<rparr>"

section \<open>Signals and sleeping\<close>

definition INTMASK :: u32 where "INTMASK = sigbit SIGINT"
definition QUITMASK :: u32 where "QUITMASK = sigbit SIGQUIT"
definition ALRMMASK :: u32 where "ALRMMASK = sigbit SIGALRM"

definition tty_intr :: "nat \<Rightarrow> u32 \<Rightarrow> terminal \<Rightarrow> terminal" where
  "tty_intr i mk s =
    (let g = tty_pgrp (kr (sy s)) ! i
     in if g \<le> 0 then s
        else s\<lparr>sy := fold (\<lambda>j y. if is_task (\<lambda>t. pgrp t = g) (task_at y j)
                                  then upd j (\<lambda>t. t\<lparr>signal := signal t OR mk\<rparr>) y else y) [0..<NR_TASKS] (sy s)\<rparr>)"

text \<open>The two queues processes sleep in, and \<open>interruptible_sleep_on\<close> on one of them.\<close>

datatype which_q = Write_q | Secondary_q

definition queue_of :: "which_q \<Rightarrow> tty_struct \<Rightarrow> tty_queue" where
  "queue_of w t = (case w of Write_q \<Rightarrow> write_q t | Secondary_q \<Rightarrow> secondary t)"

definition set_sleepers :: "which_q \<Rightarrow> nat \<Rightarrow> nat option \<Rightarrow> sched \<Rightarrow> terminal \<Rightarrow> terminal" where
  "set_sleepers w i p c s =
    upd_tty i (\<lambda>t. case w of Write_q \<Rightarrow> t\<lparr>write_q := (write_q t)\<lparr>proc_list := p\<rparr>\<rparr>
                           | Secondary_q \<Rightarrow> t\<lparr>secondary := (secondary t)\<lparr>proc_list := p\<rparr>\<rparr>)
      (s\<lparr>sy := (sy s)\<lparr>sc := c\<rparr>\<rparr>)"

type_synonym others = "terminal \<Rightarrow> terminal kres"

primrec sleep_again :: "nat \<Rightarrow> others \<Rightarrow> which_q \<Rightarrow> nat \<Rightarrow> nat option \<Rightarrow> terminal \<Rightarrow> terminal kres" where
  "sleep_again 0 others w i tmp s = Hang"
| "sleep_again (Suc f) others w i tmp s =
    kbind (others s) (\<lambda>s.
      let (again, p, c) = interruptible_sleep_on_resume (proc_list (queue_of w (tt i s))) tmp (sc (sy s));
          s = set_sleepers w i p c s
      in if again then sleep_again f others w i tmp s else Ret s)"

definition sleep_in :: "nat \<Rightarrow> others \<Rightarrow> which_q \<Rightarrow> nat \<Rightarrow> terminal \<Rightarrow> terminal kres" where
  "sleep_in f others w i s =
    kbind (interruptible_sleep_on_enter (proc_list (queue_of w (tt i s))) (sc (sy s))) (\<lambda>(p, tmp, c).
      sleep_again f others w i tmp (set_sleepers w i p c s))"

primrec sleep_if_empty :: "nat \<Rightarrow> others \<Rightarrow> nat \<Rightarrow> terminal \<Rightarrow> terminal kres" where
  "sleep_if_empty 0 others i s = Hang"
| "sleep_if_empty (Suc f) others i s =
    (if signal (this s) = 0 \<and> EMPTY (secondary (tt i s))
     then kbind (sleep_in f others Secondary_q i s) (sleep_if_empty f others i) else Ret s)"

primrec sleep_while_full :: "nat \<Rightarrow> others \<Rightarrow> nat \<Rightarrow> terminal \<Rightarrow> terminal kres" where
  "sleep_while_full 0 others i s = Hang"
| "sleep_while_full (Suc f) others i s =
    (if signal (this s) = 0 \<and> LEFT_chars (write_q (tt i s)) < 128
     then kbind (sleep_in f others Write_q i s) (sleep_while_full f others i) else Ret s)"

definition sleep_if_full :: "nat \<Rightarrow> others \<Rightarrow> nat \<Rightarrow> terminal \<Rightarrow> terminal kres" where
  "sleep_if_full f others i s = (if \<not> FULL (write_q (tt i s)) then Ret s else sleep_while_full f others i s)"

definition wait_for_keypress :: "nat \<Rightarrow> others \<Rightarrow> terminal \<Rightarrow> terminal kres" where
  "wait_for_keypress f others s = sleep_if_empty f others 0 s"


section \<open>Output\<close>

text \<open>Bytes to an I/O port.\<close>

definition out_port :: "u8 \<Rightarrow> nat \<Rightarrow> terminal \<Rightarrow> terminal" where
  "out_port v p s = s\<lparr>con := outb v p (con s)\<rparr>"

definition rs_out :: "nat \<Rightarrow> terminal \<Rightarrow> terminal" where
  "rs_out i s =
    (if EMPTY (write_q (tt i s)) then s
     else let port = unat (q_data (write_q (tt i s))) + 1 in out_port (inp (con s) port OR 2) port s)"

text \<open>\<open>RESPONSE\<close>, put into the input queue and cooked; \<open>cook\<close> is \<open>copy_to_cooked\<close>.\<close>

definition RESPONSE :: "u8 list" where
  "RESPONSE = 27 # map of_char ''[?1;2c''"

definition respond :: "(terminal \<Rightarrow> terminal kres) \<Rightarrow> nat \<Rightarrow> terminal \<Rightarrow> terminal kres" where
  "respond cook i s = cook (fold (put_read i) RESPONSE s)"

text \<open>The loop of \<open>con_write\<close> over the number of characters that it finds in the queue at the start.\<close>

primrec con_loop :: "nat \<Rightarrow> (terminal \<Rightarrow> terminal kres) \<Rightarrow> nat \<Rightarrow> terminal \<Rightarrow> terminal kres" where
  "con_loop 0 cook i s = Ret s"
| "con_loop (Suc nr) cook i s =
    (let (c, q) = GETCH (write_q (tt i s));
         s = upd_tty i (\<lambda>t. t\<lparr>write_q := q\<rparr>) s
     in if con_state (con s) = 1 \<and> c = ch CHR ''Z''
        then kbind (respond cook i (s\<lparr>con := (con s)\<lparr>con_state := 0\<rparr>\<rparr>)) (con_loop nr cook i)
        else con_loop nr cook i (s\<lparr>con := con_put (cc (tt i s) VERASE) c (con s)\<rparr>))"

definition con_out :: "(terminal \<Rightarrow> terminal kres) \<Rightarrow> nat \<Rightarrow> terminal \<Rightarrow> terminal kres" where
  "con_out cook i s =
    kbind (con_loop (unat (CHARS (write_q (tt i s)))) cook i s) (\<lambda>s. Ret (s\<lparr>con := set_cursor (con s)\<rparr>))"

section \<open>Cooked input\<close>

text \<open>The echo of an erased character: one or two erase characters, written at once; \<open>wr\<close> is
  \<open>tty->write\<close>.\<close>

definition echo_erase :: "(terminal \<Rightarrow> terminal kres) \<Rightarrow> nat \<Rightarrow> u8 \<Rightarrow> terminal \<Rightarrow> terminal kres" where
  "echo_erase wr i c s =
    (if l_flag (tt i s) ECHO
     then wr (put_write i 127 (if sint c < 32 then put_write i 127 s else s)) else Ret s)"

definition drop_secondary :: "nat \<Rightarrow> terminal \<Rightarrow> terminal" where
  "drop_secondary i = upd_tty i (\<lambda>t. t\<lparr>secondary := (secondary t)\<lparr>q_head := DEC (q_head (secondary t))\<rparr>\<rparr>)"

text \<open>Whether the line that is being typed is empty.\<close>

definition line_empty :: "tty_struct \<Rightarrow> bool" where
  "line_empty t \<longleftrightarrow> EMPTY (secondary t) \<or> LAST (secondary t) = 10 \<or> is_cc (LAST (secondary t)) t VEOF"

primrec kill_line :: "nat \<Rightarrow> (terminal \<Rightarrow> terminal kres) \<Rightarrow> nat \<Rightarrow> terminal \<Rightarrow> terminal kres" where
  "kill_line 0 wr i s = Hang"
| "kill_line (Suc f) wr i s =
    (if line_empty (tt i s) then Ret s
     else kbind (echo_erase wr i (LAST (secondary (tt i s))) s) (\<lambda>s. kill_line f wr i (drop_secondary i s)))"

definition erase_char :: "(terminal \<Rightarrow> terminal kres) \<Rightarrow> nat \<Rightarrow> terminal \<Rightarrow> terminal kres" where
  "erase_char wr i s =
    (if line_empty (tt i s) then Ret s
     else kbind (echo_erase wr i (LAST (secondary (tt i s))) s) (\<lambda>s. Ret (drop_secondary i s)))"

text \<open>The translation of a character of input; \<open>None\<close> is one that is ignored.\<close>

definition in_char :: "(nat \<Rightarrow> u8) \<Rightarrow> tty_struct \<Rightarrow> u8 \<Rightarrow> u8 option" where
  "in_char below t c =
    map_option (\<lambda>c. if i_flag t IUCLC then to_lower below c else c)
      (if c = 13 then if i_flag t ICRNL then Some 10 else if i_flag t IGNCR then None else Some c
       else if c = 10 \<and> i_flag t INLCR then Some 13 else Some c)"

definition echo_char :: "(terminal \<Rightarrow> terminal kres) \<Rightarrow> nat \<Rightarrow> u8 \<Rightarrow> terminal \<Rightarrow> terminal kres" where
  "echo_char wr i c s =
    (if l_flag (tt i s) ECHO
     then wr (if c = 10 then put_write i 13 (put_write i 10 s)
              else if sint c < 32
              then if l_flag (tt i s) ECHOCTL then put_write i (c + 64) (put_write i (ch CHR ''^'') s) else s
              else put_write i c s)
     else Ret s)"

text \<open>A character that is not a control character of the terminal.\<close>

definition store_char :: "(terminal \<Rightarrow> terminal kres) \<Rightarrow> nat \<Rightarrow> u8 \<Rightarrow> terminal \<Rightarrow> terminal kres" where
  "store_char wr i c s =
    kbind (echo_char wr i c
            (if c = 10 \<or> is_cc c (tt i s) VEOF
             then upd_tty i (\<lambda>t. t\<lparr>secondary := (secondary t)\<lparr>q_data := q_data (secondary t) + 1\<rparr>\<rparr>) s else s))
      (\<lambda>s. Ret (put_secondary i c s))"

definition cook_char :: "nat \<Rightarrow> (terminal \<Rightarrow> terminal kres) \<Rightarrow> nat \<Rightarrow> u8 \<Rightarrow> terminal \<Rightarrow> terminal kres" where
  "cook_char f wr i c s =
    (let t = tt i s
     in case in_char (before_ctype s) t c of
          None \<Rightarrow> Ret s
        | Some c \<Rightarrow>
          if l_flag t ICANON \<and> is_cc c t VKILL then kill_line f wr i s
          else if l_flag t ICANON \<and> is_cc c t VERASE then erase_char wr i s
          else if l_flag t ICANON \<and> is_cc c t VSTOP then Ret (upd_tty i (\<lambda>t. t\<lparr>stopped := True\<rparr>) s)
          else if l_flag t ICANON \<and> is_cc c t VSTART then Ret (upd_tty i (\<lambda>t. t\<lparr>stopped := False\<rparr>) s)
          else if l_flag t ISIG \<and> is_cc c t VINTR then Ret (tty_intr i INTMASK s)
          else if l_flag t ISIG \<and> is_cc c t VQUIT then Ret (tty_intr i QUITMASK s)
          else store_char wr i c s)"

primrec cook_loop :: "nat \<Rightarrow> (terminal \<Rightarrow> terminal kres) \<Rightarrow> nat \<Rightarrow> terminal \<Rightarrow> terminal kres" where
  "cook_loop 0 wr i s = Hang"
| "cook_loop (Suc f) wr i s =
    (if EMPTY (read_q (tt i s)) \<or> FULL (secondary (tt i s)) then Ret s
     else let (c, q) = GETCH (read_q (tt i s))
          in kbind (cook_char f wr i c (upd_tty i (\<lambda>t. t\<lparr>read_q := q\<rparr>) s)) (cook_loop f wr i))"

definition wake_readers :: "nat \<Rightarrow> terminal \<Rightarrow> terminal" where
  "wake_readers i s =
    (let (p, c) = wake_up (proc_list (secondary (tt i s))) (sc (sy s)) in set_sleepers Secondary_q i p c s)"

definition cook_with :: "nat \<Rightarrow> (terminal \<Rightarrow> terminal kres) \<Rightarrow> nat \<Rightarrow> terminal \<Rightarrow> terminal kres" where
  "cook_with f wr i s = kbind (cook_loop f wr i s) (\<lambda>s. Ret (wake_readers i s))"

text \<open>\<open>tty->write\<close>, which for the console may call \<open>copy_to_cooked\<close> one level deeper.\<close>

primrec tty_out :: "nat \<Rightarrow> nat \<Rightarrow> terminal \<Rightarrow> terminal kres" where
  "tty_out 0 i s = Hang"
| "tty_out (Suc n) i s =
    (case t_write (tt i s) of
       con_write \<Rightarrow> con_out (cook_with n (tty_out n i) i) i s
     | rs_write \<Rightarrow> Ret (rs_out i s))"

definition copy_to_cooked :: "nat \<Rightarrow> nat \<Rightarrow> terminal \<Rightarrow> terminal kres" where
  "copy_to_cooked n i s = cook_with n (tty_out n i) i s"

definition do_tty_interrupt :: "nat \<Rightarrow> nat \<Rightarrow> terminal \<Rightarrow> terminal kres" where
  "do_tty_interrupt n i s = copy_to_cooked n i s"

section \<open>Reading and writing\<close>

text \<open>\<open>cr_flag\<close> says that the CR before the newline at hand has been put.\<close>

definition out_char :: "(nat \<Rightarrow> u8) \<Rightarrow> tty_struct \<Rightarrow> u8 \<Rightarrow> u8" where
  "out_char below t c =
    (if \<not> o_flag t OPOST then c
     else if c = 13 \<and> o_flag t OCRNL then 10
     else if c = 10 \<and> o_flag t ONLRET then 13 else c)"

definition out_case :: "(nat \<Rightarrow> u8) \<Rightarrow> tty_struct \<Rightarrow> u8 \<Rightarrow> u8" where
  "out_case below t c = (if o_flag t OPOST \<and> o_flag t OLCUC then to_upper below c else c)"

primrec write_loop :: "nat \<Rightarrow> nat \<Rightarrow> u32 \<Rightarrow> int \<Rightarrow> terminal \<Rightarrow> u32 \<times> int \<times> terminal" where
  "write_loop 0 i b nr s = (b, nr, s)"
| "write_loop (Suc f) i b nr s =
    (if nr \<le> 0 \<or> FULL (write_q (tt i s)) then (b, nr, s)
     else
     let t = tt i s; c = out_char (before_ctype s) t (user (kr (sy s)) b)
     in if o_flag t OPOST \<and> c = 10 \<and> \<not> cr_flag s \<and> o_flag t ONLCR
        then write_loop f i b nr (put_write i 13 (s\<lparr>cr_flag := True\<rparr>))
        else write_loop f i (b + 1) (nr - 1) (put_write i (out_case (before_ctype s) t c) (s\<lparr>cr_flag := False\<rparr>)))"

primrec tty_write_loop :: "nat \<Rightarrow> others \<Rightarrow> nat \<Rightarrow> u32 \<Rightarrow> int \<Rightarrow> terminal \<Rightarrow> (int \<times> terminal) kres" where
  "tty_write_loop 0 others i b nr s = Hang"
| "tty_write_loop (Suc f) others i b nr s =
    (if nr \<le> 0 then Ret (nr, s)
     else kbind (sleep_if_full f others i s) (\<lambda>s.
       if signal (this s) \<noteq> 0 then Ret (nr, s)
       else
       let (b, nr, s) = write_loop (2 * nat nr) i b nr s
       in kbind (tty_out f i s) (\<lambda>s.
          if nr > 0 then kbind (others s) (tty_write_loop f others i b nr) else Ret (nr, s))))"

definition tty_write :: "nat \<Rightarrow> others \<Rightarrow> nat \<Rightarrow> u32 \<Rightarrow> int \<Rightarrow> terminal \<Rightarrow> (int \<times> terminal) kres" where
  "tty_write f others channel buf nr s =
    (if channel > 2 \<or> nr < 0 then Ret (- 1, s)
     else kbind (tty_write_loop f others channel buf nr s) (\<lambda>(r, s). Ret (nr - r, s)))"


text \<open>The inner loop of \<open>tty_read\<close>: the first component says that an end of file ends the call.\<close>

definition no_line :: "tty_struct \<Rightarrow> bool" where
  "no_line t \<longleftrightarrow> EMPTY (secondary t) \<or> l_flag t ICANON \<and> q_data (secondary t) = 0 \<and> LEFT_chars (secondary t) > 20"

definition put_user :: "u8 \<Rightarrow> u32 \<Rightarrow> terminal \<Rightarrow> terminal" where
  "put_user c b s = s\<lparr>sy := (sy s)\<lparr>kr := put_fs_bytes [c] b (kr (sy s))\<rparr>\<rparr>"

primrec take_loop :: "nat \<Rightarrow> nat \<Rightarrow> u32 \<Rightarrow> int \<Rightarrow> terminal \<Rightarrow> bool \<times> u32 \<times> int \<times> terminal" where
  "take_loop 0 i b nr s = (False, b, nr, s)"
| "take_loop (Suc f) i b nr s =
    (let (c, q) = GETCH (secondary (tt i s));
         eof = is_cc c (tt i s) VEOF;
         s = upd_tty i (\<lambda>t. t\<lparr>secondary := if eof \<or> c = 10 then q\<lparr>q_data := q_data q - 1\<rparr> else q\<rparr>) s
     in if eof \<and> l_flag (tt i s) ICANON then (True, b, nr, s)
        else
        let s = put_user c b s; b = b + 1; nr = nr - 1
        in if nr > 0 \<and> \<not> EMPTY (secondary (tt i s)) then take_loop f i b nr s else (False, b, nr, s))"

text \<open>The alarm that a reader with a time limit sets, unless it has an earlier one.\<close>

definition set_alarm :: "int \<Rightarrow> terminal \<Rightarrow> terminal" where
  "set_alarm v = upd_this (\<lambda>p. p\<lparr>alarm := v\<rparr>)"

definition limit_first :: "int \<Rightarrow> int \<Rightarrow> terminal \<Rightarrow> bool" where
  "limit_first oldalarm time s \<longleftrightarrow> oldalarm = 0 \<or> wrap32 (time + jiffies (sc (sy s))) < oldalarm"

definition limit_alarm :: "int \<Rightarrow> terminal \<Rightarrow> terminal" where
  "limit_alarm time s = set_alarm (wrap32 (time + jiffies (sc (sy s)))) s"

text \<open>The outer loop gives the number of bytes got, and whether the call ends at once (at an end of
  file, where the alarm is not put back).\<close>

primrec tty_read_loop ::
  "nat \<Rightarrow> others \<Rightarrow> nat \<Rightarrow> int \<Rightarrow> int \<Rightarrow> int \<Rightarrow> bool \<Rightarrow> u32 \<Rightarrow> int \<Rightarrow> int \<Rightarrow> terminal \<Rightarrow> (bool \<times> int \<times> terminal) kres" where
  "tty_read_loop 0 others i oldalarm time minimum flag b nr got s = Hang"
| "tty_read_loop (Suc f) others i oldalarm time minimum flag b nr got s =
    (if nr \<le> 0 then Ret (False, got, s)
     else if flag \<and> signal (this s) AND ALRMMASK \<noteq> 0
     then Ret (False, got, upd_this (\<lambda>p. p\<lparr>signal := signal p AND NOT ALRMMASK\<rparr>) s)
     else if signal (this s) \<noteq> 0 then Ret (False, got, s)
     else if no_line (tt i s)
     then kbind (sleep_if_empty f others i s) (tty_read_loop f others i oldalarm time minimum flag b nr got)
     else
     let (eof, b, left, s) = take_loop (nat nr) i b nr s;
         got = got + (nr - left)
     in if eof then Ret (True, got, s)
        else
        let canon = l_flag (tt i s) ICANON;
            flag = (if time \<noteq> 0 \<and> \<not> canon then limit_first oldalarm time s else flag);
            s = (if time \<noteq> 0 \<and> \<not> canon then if flag then limit_alarm time s else set_alarm oldalarm s else s)
        in if (if canon then got \<noteq> 0 else got \<ge> minimum) then Ret (False, got, s)
           else tty_read_loop f others i oldalarm time minimum flag b left got s)"

definition tty_read :: "nat \<Rightarrow> others \<Rightarrow> nat \<Rightarrow> u32 \<Rightarrow> int \<Rightarrow> terminal \<Rightarrow> (int \<times> terminal) kres" where
  "tty_read f others channel buf nr s =
    (if channel > 2 \<or> nr < 0 then Ret (- 1, s)
     else
     let oldalarm = alarm (this s);
         time = 10 * uint (cc (tt channel s) VTIME);
         vmin = uint (cc (tt channel s) VMIN);
         limited = (time \<noteq> 0 \<and> vmin = 0);
         flag = (limited \<and> limit_first oldalarm time s);
         s = (if flag then limit_alarm time s else s);
         minimum = min (if limited then 1 else vmin) nr
     in kbind (tty_read_loop f others channel oldalarm time minimum flag buf nr 0 s) (\<lambda>(at_once, got, s).
        if at_once then Ret (got, s)
        else let s = set_alarm oldalarm s
             in Ret (if signal (this s) \<noteq> 0 \<and> got = 0 then - EINTR else got, s)))"

section \<open>Start-up\<close>

text \<open>The serial ports; the interrupt gates of this function and of \<open>con_init\<close> are not modelled.\<close>

definition init :: "nat \<Rightarrow> terminal \<Rightarrow> terminal" where
  "init port s =
    fold (\<lambda>(v, p). out_port v p)
      [(0x80, port + 3), (0x30, port), (0x00, port + 1), (0x03, port + 3), (0x0b, port + 4), (0x0d, port + 1)] s"

definition rs_init :: "terminal \<Rightarrow> terminal" where
  "rs_init s =
    (let s = init (unat (q_data (read_q (tt 1 s)))) s;
         s = init (unat (q_data (read_q (tt 2 s)))) s
     in out_port (inp (con s) 0x21 AND 0xe7) 0x21 s)"

definition tty_init :: "boot_video \<Rightarrow> terminal \<Rightarrow> terminal" where
  "tty_init b s = (let s = rs_init s in s\<lparr>con := con_init b (con s)\<rparr>)"

section \<open>\<open>ioctl\<close>\<close>

definition quotient :: "u16 list" where
  "quotient = [0, 2304, 1536, 1047, 857, 768, 576, 384, 192, 96, 64, 48, 24, 12, 6, 3]"

definition change_speed :: "nat \<Rightarrow> terminal \<Rightarrow> terminal" where
  "change_speed i s =
    (let port = unat (ucast (q_data (read_q (tt i s))) :: u16);
         quot = quotient ! unat (c_cflag (termios (tt i s)) AND CBAUD)
     in if port = 0 then s
        else fold (\<lambda>(v, p). out_port v p)
          [(0x80, port + 3), (ucast quot, port), (ucast (drop_bit 8 quot), port + 1), (0x03, port + 3)] s)"

definition flush :: "tty_queue \<Rightarrow> tty_queue" where
  "flush q = q\<lparr>q_head := q_tail q\<rparr>"

definition flush_read :: "nat \<Rightarrow> terminal \<Rightarrow> terminal" where
  "flush_read i = upd_tty i (\<lambda>t. t\<lparr>read_q := flush (read_q t)\<rparr>)"

definition flush_write :: "nat \<Rightarrow> terminal \<Rightarrow> terminal" where
  "flush_write i = upd_tty i (\<lambda>t. t\<lparr>write_q := flush (write_q t)\<rparr>)"

definition wait_until_sent :: "nat \<Rightarrow> terminal \<Rightarrow> terminal" where
  "wait_until_sent i s = s"

definition send_break :: "nat \<Rightarrow> terminal \<Rightarrow> terminal" where
  "send_break i s = s"

text \<open>The bytes of a \<open>struct termios\<close>, the last two of them padding.\<close>

definition le32 :: "u32 \<Rightarrow> u8 list" where
  "le32 v = [ucast v, ucast (drop_bit 8 v), ucast (drop_bit 16 v), ucast (drop_bit 24 v)]"

definition of_le32 :: "u8 list \<Rightarrow> u32" where
  "of_le32 xs = ucast (xs ! 0) OR push_bit 8 (ucast (xs ! 1)) OR push_bit 16 (ucast (xs ! 2)) OR push_bit 24 (ucast (xs ! 3))"

definition termios_bytes :: "termios \<Rightarrow> u8 list" where
  "termios_bytes t =
    le32 (c_iflag t) @ le32 (c_oflag t) @ le32 (c_cflag t) @ le32 (c_lflag t) @ [c_line t] @ c_cc t @ c_pad t"

definition bytes_termios :: "u8 list \<Rightarrow> termios" where
  "bytes_termios xs =
    \<lparr>c_iflag = of_le32 xs, c_oflag = of_le32 (drop 4 xs), c_cflag = of_le32 (drop 8 xs),
     c_lflag = of_le32 (drop 12 xs), c_line = xs ! 16, c_cc = take NCCS (drop 17 xs), c_pad = take 2 (drop 34 xs)\<rparr>"

definition verify :: "u32 \<Rightarrow> int \<Rightarrow> terminal \<Rightarrow> terminal kres" where
  "verify a n s = kbind (verify_area a n (sy s)) (\<lambda>y. Ret (s\<lparr>sy := y\<rparr>))"

definition put_bytes :: "u8 list \<Rightarrow> u32 \<Rightarrow> terminal \<Rightarrow> terminal" where
  "put_bytes xs a s = s\<lparr>sy := (sy s)\<lparr>kr := put_fs_bytes xs a (kr (sy s))\<rparr>\<rparr>"

definition get_termios :: "nat \<Rightarrow> u32 \<Rightarrow> terminal \<Rightarrow> (int \<times> terminal) kres" where
  "get_termios i a s =
    kbind (verify a 36 s) (\<lambda>s. Ret (0, put_bytes (termios_bytes (termios (tt i s))) a s))"

definition set_termios :: "nat \<Rightarrow> u32 \<Rightarrow> terminal \<Rightarrow> int \<times> terminal" where
  "set_termios i a s =
    (let t = bytes_termios (get_fs_bytes a 36 (kr (sy s)))
     in (0, change_speed i (upd_tty i (\<lambda>x. x\<lparr>termios := t\<rparr>) s)))"

text \<open>The older \<open>struct termio\<close>, with 16-bit flags. Its padding byte is whatever was on the stack (\<open>junk\<close>).\<close>

definition le16 :: "u16 \<Rightarrow> u8 list" where
  "le16 v = [ucast v, ucast (drop_bit 8 v)]"

definition of_le16 :: "u8 list \<Rightarrow> u16" where
  "of_le16 xs = ucast (xs ! 0) OR push_bit 8 (ucast (xs ! 1))"

definition get_termio :: "u8 \<Rightarrow> nat \<Rightarrow> u32 \<Rightarrow> terminal \<Rightarrow> (int \<times> terminal) kres" where
  "get_termio junk i a s =
    kbind (verify a 18 s) (\<lambda>s.
      let t = termios (tt i s)
      in Ret (0, put_bytes (le16 (ucast (c_iflag t)) @ le16 (ucast (c_oflag t)) @ le16 (ucast (c_cflag t))
           @ le16 (ucast (c_lflag t)) @ [c_line t] @ take NCC (c_cc t) @ [junk]) a s))"

text \<open>Only the low half of each flag word is replaced.\<close>

definition set_low :: "u16 \<Rightarrow> u32 \<Rightarrow> u32" where
  "set_low v w = (w AND 0xffff0000) OR ucast v"

definition set_termio :: "nat \<Rightarrow> u32 \<Rightarrow> terminal \<Rightarrow> int \<times> terminal" where
  "set_termio i a s =
    (let xs = get_fs_bytes a 18 (kr (sy s))
     in (0, change_speed i (upd_tty i (\<lambda>x. x\<lparr>termios := (termios x)
          \<lparr>c_iflag := set_low (of_le16 xs) (c_iflag (termios x)),
           c_oflag := set_low (of_le16 (drop 2 xs)) (c_oflag (termios x)),
           c_cflag := set_low (of_le16 (drop 4 xs)) (c_cflag (termios x)),
           c_lflag := set_low (of_le16 (drop 6 xs)) (c_lflag (termios x)),
           c_line := xs ! 8,
           c_cc := take NCC (drop 9 xs) @ drop NCC (c_cc (termios x))\<rparr>\<rparr>) s)))"

definition put_long :: "u32 \<Rightarrow> u32 \<Rightarrow> terminal \<Rightarrow> (int \<times> terminal) kres" where
  "put_long v a s = kbind (verify a 4 s) (\<lambda>s. Ret (0, s\<lparr>sy := (sy s)\<lparr>kr := put_fs_long v a (kr (sy s))\<rparr>\<rparr>))"

text \<open>The commands on terminal \<open>i\<close>; the ones that the code lists as not implemented give \<open>EINVAL\<close>, as does
  the default.\<close>

definition tty_command :: "u8 \<Rightarrow> nat \<Rightarrow> nat \<Rightarrow> u32 \<Rightarrow> terminal \<Rightarrow> (int \<times> terminal) kres" where
  "tty_command junk i cmd arg s =
    (if cmd = 0x5401 then get_termios i arg s
     else if cmd = 0x5404 then Ret (set_termios i arg (wait_until_sent i (flush_read i s)))
     else if cmd = 0x5403 then Ret (set_termios i arg (wait_until_sent i s))
     else if cmd = 0x5402 then Ret (set_termios i arg s)
     else if cmd = 0x5405 then get_termio junk i arg s
     else if cmd = 0x5408 then Ret (set_termio i arg (wait_until_sent i (flush_read i s)))
     else if cmd = 0x5407 then Ret (set_termio i arg (wait_until_sent i s))
     else if cmd = 0x5406 then Ret (set_termio i arg s)
     else if cmd = 0x5409 then Ret (0, if arg = 0 then send_break i (wait_until_sent i s) else s)
     else if cmd = 0x540B
     then if arg = 0 then Ret (0, flush_read i s)
          else if arg = 1 then Ret (0, flush_write i s)
          else if arg = 2 then Ret (0, flush_write i (flush_read i s))
          else Ret (- EINVAL, s)
     else if cmd = 0x540F then put_long (of_int (tty_pgrp (kr (sy s)) ! i)) arg s
     else if cmd = 0x5410
     then let g = sint (get_fs_long arg (kr (sy s)))
          in Ret (0, s\<lparr>sy := (sy s)\<lparr>kr := (kr (sy s))\<lparr>tty_pgrp := (tty_pgrp (kr (sy s)))[i := g]\<rparr>\<rparr>\<rparr>)
     else if cmd = 0x5411 then put_long (CHARS (write_q (tt i s))) arg s
     else if cmd = 0x541B then put_long (CHARS (secondary (tt i s))) arg s
     else Ret (- EINVAL, s))"

definition tty_ioctl :: "u8 \<Rightarrow> nat \<Rightarrow> nat \<Rightarrow> u32 \<Rightarrow> terminal \<Rightarrow> (int \<times> terminal) kres" where
  "tty_ioctl junk dev cmd arg s =
    (if MAJOR dev = 5
     then if tty (this s) < 0 then Panic ''tty_ioctl: dev<0'' else tty_command junk (nat (tty (this s))) cmd arg s
     else tty_command junk (MINOR dev) cmd arg s)"

end
