(* ===== verification/Screen.thy ===== *)
theory Screen imports Console begin

unbundle bit_operations_syntax

text \<open>
  The invariant of the console (\<open>Console\<close>): the cursor is on the screen or just after the end of a
  line, its address agrees with its column and line, the screen lies in the video memory, and the
  scroll region in the screen. Every operation keeps it and stores into the video memory only.
\<close>

section \<open>Stores that stay in an interval\<close>

definition within :: "nat \<Rightarrow> nat \<Rightarrow> bytes \<Rightarrow> bytes \<Rightarrow> bool" where
  "within s e m m' \<longleftrightarrow> (\<forall>a. m' a \<noteq> m a \<longrightarrow> s \<le> unat a \<and> unat a < e)"

lemma within_refl [simp]: "within s e m m"
  by (simp add: within_def)

lemma within_trans: "within s e m m' \<Longrightarrow> within s e m' m'' \<Longrightarrow> within s e m m''"
  unfolding within_def by metis

lemma unat_add_u32: "unat a + unat b < 2 ^ 32 \<Longrightarrow> unat (a + b :: u32) = unat a + unat b"
  by (simp add: unat_word_ariths)

lemma unat_sub_u32: "unat b \<le> unat a \<Longrightarrow> unat (a - b :: u32) = unat a - unat b"
  by (simp add: unat_sub word_le_nat_alt)

lemma unat_mult_u32: "unat a * unat b < 2 ^ 32 \<Longrightarrow> unat (a * b :: u32) = unat a * unat b"
  by (simp add: unat_word_ariths)

lemma unat_add_num:
  "unat (a :: u32) < 2 ^ 31 \<Longrightarrow> unat (a + 1) = unat a + 1"
  "unat (a :: u32) < 2 ^ 31 \<Longrightarrow> unat (a + 2) = unat a + 2"
  "unat (a :: u32) < 2 ^ 31 \<Longrightarrow> unat (a + 3) = unat a + 3"
  "unat (a :: u32) < 2 ^ 31 \<Longrightarrow> unat (a + 4) = unat a + 4"
  by (simp_all add: unat_word_ariths)

lemma unat_sub_num:
  "2 \<le> unat a \<Longrightarrow> unat (a - 2 :: u32) = unat a - 2"
  "4 \<le> unat a \<Longrightarrow> unat (a - 4 :: u32) = unat a - 4"
  using unat_sub_u32 [of 2 a] unat_sub_u32 [of 4 a] by simp_all

lemma within_poke16:
  assumes "s \<le> unat a" "unat a + 2 \<le> e" "e < 2 ^ 31"
  shows "within s e m (poke16 a v m)"
  using assms unat_add_num(1) [of a] by (simp add: within_def poke16_def)

lemma within_move4:
  assumes "s \<le> unat dst" "unat dst + 4 \<le> e" "e < 2 ^ 31"
  shows "within s e m (move4 src dst m)"
  using assms unat_add_num [of dst] by (simp add: within_def move4_def)

lemma within_stosw_up:
  "s \<le> unat a \<Longrightarrow> unat a + 2 * n \<le> e \<Longrightarrow> e < 2 ^ 31 \<Longrightarrow> within s e m (stosw n 2 a v m)"
proof (induction n arbitrary: a m)
  case (Suc n)
  then have "within s e m (poke16 a v m)" by (intro within_poke16) simp_all
  moreover have "within s e (poke16 a v m) (stosw n 2 (a + 2) v (poke16 a v m))"
    using Suc.prems unat_add_num(2) [of a] by (intro Suc.IH) simp_all
  ultimately show ?case by (auto intro: within_trans)
qed simp

lemma within_stosw_down:
  "s + 2 * n \<le> unat a + 2 \<Longrightarrow> unat a + 2 \<le> e \<Longrightarrow> e < 2 ^ 31 \<Longrightarrow> within s e m (stosw n (- 2) a v m)"
proof (induction n arbitrary: a m)
  case (Suc n)
  then have "within s e m (poke16 a v m)" by (intro within_poke16) simp_all
  moreover have "within s e (poke16 a v m) (stosw n (- 2) (a - 2) v (poke16 a v m))"
  proof (cases n)
    case (Suc k)
    with Suc.prems unat_sub_num(1) [of a] show ?thesis by (intro Suc.IH) simp_all
  qed simp
  ultimately show ?case by (auto intro: within_trans)
qed simp

lemma within_movsl_up:
  "s \<le> unat dst \<Longrightarrow> unat dst + 4 * n \<le> e \<Longrightarrow> e < 2 ^ 31 \<Longrightarrow> within s e m (movsl n 4 src dst m)"
proof (induction n arbitrary: src dst m)
  case (Suc n)
  then have "within s e m (move4 src dst m)" by (intro within_move4) simp_all
  moreover have "within s e (move4 src dst m) (movsl n 4 (src + 4) (dst + 4) (move4 src dst m))"
    using Suc.prems unat_add_num(4) [of dst] by (intro Suc.IH) simp_all
  ultimately show ?case by (auto intro: within_trans)
qed simp

lemma within_movsl_down:
  "s + 4 * n \<le> unat dst + 4 \<Longrightarrow> unat dst + 4 \<le> e \<Longrightarrow> e < 2 ^ 31 \<Longrightarrow>
    within s e m (movsl n (- 4) src dst m)"
proof (induction n arbitrary: src dst m)
  case (Suc n)
  then have "within s e m (move4 src dst m)" by (intro within_move4) simp_all
  moreover have "within s e (move4 src dst m) (movsl n (- 4) (src - 4) (dst - 4) (move4 src dst m))"
  proof (cases n)
    case (Suc k)
    with Suc.prems unat_sub_num(2) [of dst] show ?thesis by (intro Suc.IH) simp_all
  qed simp
  ultimately show ?case by (auto intro: within_trans)
qed simp

lemma within_shift_right:
  "s \<le> unat p \<Longrightarrow> unat p + 2 * n \<le> e \<Longrightarrow> e < 2 ^ 31 \<Longrightarrow> within s e m (shift_right n v p m)"
proof (induction n arbitrary: v p m)
  case (Suc n)
  then have "within s e m (poke16 p v m)" by (intro within_poke16) simp_all
  moreover have "within s e (poke16 p v m) (shift_right n (peek16 m p) (p + 2) (poke16 p v m))"
    using Suc.prems unat_add_num(2) [of p] by (intro Suc.IH) simp_all
  ultimately show ?case by (auto intro: within_trans)
qed simp

lemma within_shift_left:
  "s \<le> unat p \<Longrightarrow> unat p + 2 * n + 2 \<le> e \<Longrightarrow> e < 2 ^ 31 \<Longrightarrow> within s e m (shift_left n v p m)"
proof (induction n arbitrary: p m)
  case 0
  then show ?case by (simp add: within_poke16)
next
  case (Suc n)
  then have "within s e m (poke16 p (peek16 m (p + 2)) m)" by (intro within_poke16) simp_all
  moreover have "within s e (poke16 p (peek16 m (p + 2)) m)
      (shift_left n v (p + 2) (poke16 p (peek16 m (p + 2)) m))"
    using Suc.prems unat_add_num(2) [of p] by (intro Suc.IH) simp_all
  ultimately show ?case by (auto intro: within_trans)
qed

lemma within_put_desc:
  "s \<le> unat p \<Longrightarrow> unat p + 2 * length xs \<le> e \<Longrightarrow> e < 2 ^ 31 \<Longrightarrow> within s e m (put_desc xs p m)"
proof (induction xs arbitrary: p m)
  case (Cons c xs)
  then have "within s e m (m(p := ch c))" by (auto simp: within_def)
  moreover have "within s e (m(p := ch c)) (put_desc xs (p + 2) (m(p := ch c)))"
    using Cons.prems unat_add_num(2) [of p] by (intro Cons.IH) simp_all
  ultimately show ?case by (auto intro: within_trans)
qed simp


section \<open>The invariant\<close>

text \<open>The card and the size of the screen, which no output changes.\<close>

definition geometry :: "console \<Rightarrow> u32 \<times> u32 \<times> u32 \<times> u32 \<times> u32 \<times> u16" where
  "geometry k = (video_mem_start k, video_mem_end k, video_num_columns k, video_num_lines k,
     video_size_row k, video_erase_char k)"

definition geometry_ok :: "console \<Rightarrow> bool" where
  "geometry_ok k \<longleftrightarrow> video_num_lines k = 25 \<and> video_size_row k = 2 * video_num_columns k
    \<and> 8 \<le> unat (video_num_columns k) \<and> 4 \<le> unat (video_mem_start k)
    \<and> unat (video_mem_start k) + 50 * unat (video_num_columns k) \<le> unat (video_mem_end k)
    \<and> unat (video_mem_end k) < 2 ^ 30"

definition screen_ok :: "console \<Rightarrow> bool" where
  "screen_ok k \<longleftrightarrow> geometry_ok k
    \<and> unat (video_mem_start k) \<le> unat (origin k)
    \<and> unat (origin k) + 50 * unat (video_num_columns k) \<le> unat (video_mem_end k)
    \<and> scr_end k = origin k + 25 * video_size_row k
    \<and> con_pos k = origin k + con_y k * video_size_row k + 2 * con_x k
    \<and> con_x k \<le> video_num_columns k \<and> con_y k < 25"

definition region_ok :: "console \<Rightarrow> bool" where
  "region_ok k \<longleftrightarrow> con_top k < con_bottom k \<and> con_bottom k \<le> 25"

definition stores_ok :: "console \<Rightarrow> console \<Rightarrow> bool" where
  "stores_ok k k' \<longleftrightarrow>
    within (unat (video_mem_start k)) (unat (video_mem_end k)) (vram k) (vram k')"

text \<open>What an operation does: it stores into the video memory only and keeps the invariant. The
  operations that insert and delete lines change the scroll region for a moment, so it is apart.\<close>

definition good :: "console \<Rightarrow> console \<Rightarrow> bool" where
  "good k k' \<longleftrightarrow> screen_ok k' \<and> geometry k' = geometry k \<and> stores_ok k k'"

definition region :: "console \<Rightarrow> u32 \<times> u32" where
  "region k = (con_top k, con_bottom k)"

lemma good_refl: "screen_ok k \<Longrightarrow> good k k"
  by (simp add: good_def stores_ok_def)

lemma good_trans: "good k k' \<Longrightarrow> good k' k'' \<Longrightarrow> good k k''"
  by (auto simp: good_def stores_ok_def geometry_def intro: within_trans)

lemma goodD: "good k k' \<Longrightarrow> screen_ok k'"
  by (simp add: good_def)

section \<open>Addresses on the screen\<close>

lemma unat_add_below:
  assumes "unat (a :: u32) = m" "unat b = n" "m + n \<le> e" "e < 2 ^ 30"
  shows "unat (a + b) = m + n"
  using assms by (simp add: unat_add_u32)

lemma unat_mult_below:
  assumes "unat (a :: u32) = m" "unat b = n" "n * m \<le> e" "e < 2 ^ 30"
  shows "unat (a * b) = n * m"
  using assms by (simp add: unat_mult_u32 mult.commute)

lemma geometryD:
  assumes "geometry_ok k"
  shows "video_num_lines k = 25" "video_size_row k = 2 * video_num_columns k"
    "8 \<le> unat (video_num_columns k)" "4 \<le> unat (video_mem_start k)" "unat (video_num_columns k) < 2 ^ 25"
    "unat (video_mem_start k) + 50 * unat (video_num_columns k) \<le> unat (video_mem_end k)"
    "unat (video_mem_end k) < 2 ^ 30" "unat (video_size_row k) = 2 * unat (video_num_columns k)"
proof -
  show c: "unat (video_num_columns k) < 2 ^ 25"
    using assms by (simp add: geometry_ok_def)
  show "unat (video_size_row k) = 2 * unat (video_num_columns k)"
    using assms c unat_mult_u32 [of 2 "video_num_columns k"] by (simp add: geometry_ok_def)
qed (use assms in \<open>simp_all add: geometry_ok_def\<close>)

lemma line_unat:
  assumes g: "geometry_ok k" and o: "unat (origin k) + 50 * unat (video_num_columns k) \<le> unat (video_mem_end k)"
    and l: "unat l \<le> 25"
  shows "unat (origin k + video_size_row k * l) = unat (origin k) + unat l * (2 * unat (video_num_columns k))"
    "unat l * (2 * unat (video_num_columns k)) \<le> 50 * unat (video_num_columns k)"
proof -
  show m: "unat l * (2 * unat (video_num_columns k)) \<le> 50 * unat (video_num_columns k)"
    using mult_le_mono1 [OF l, of "2 * unat (video_num_columns k)"] by simp
  have b: "unat (video_mem_end k) < 2 ^ 30"
    using geometryD(7) [OF g] .
  have r: "unat (video_size_row k) = 2 * unat (video_num_columns k)"
    using geometryD(8) [OF g] .
  have e: "unat l * (2 * unat (video_num_columns k)) \<le> unat (video_mem_end k)"
    using m o by linarith
  have "unat (video_size_row k * l) = unat l * (2 * unat (video_num_columns k))"
    by (rule unat_mult_below [OF r refl e b])
  then show "unat (origin k + video_size_row k * l) = unat (origin k) + unat l * (2 * unat (video_num_columns k))"
    by (rule unat_add_below [OF refl _ _ b]) (use m o in linarith)
qed

lemma pos_unat:
  assumes "screen_ok k"
  shows "unat (con_pos k) = unat (origin k) + unat (con_y k) * (2 * unat (video_num_columns k)) + 2 * unat (con_x k)"
    "unat (con_y k) * (2 * unat (video_num_columns k)) + 2 * unat (video_num_columns k) \<le> 50 * unat (video_num_columns k)"
    "unat (con_x k) \<le> unat (video_num_columns k)"
proof -
  have s: "geometry_ok k" "unat (origin k) + 50 * unat (video_num_columns k) \<le> unat (video_mem_end k)"
    "unat (con_y k) < 25" "con_pos k = origin k + video_size_row k * con_y k + 2 * con_x k"
    using assms by (simp_all add: screen_ok_def word_less_nat_alt mult.commute)
  show x: "unat (con_x k) \<le> unat (video_num_columns k)"
    using assms by (simp add: screen_ok_def word_le_nat_alt)
  have "(unat (con_y k) + 1) * (2 * unat (video_num_columns k)) \<le> 25 * (2 * unat (video_num_columns k))"
    using s(3) by (intro mult_le_mono1) simp
  then show y: "unat (con_y k) * (2 * unat (video_num_columns k)) + 2 * unat (video_num_columns k)
      \<le> 50 * unat (video_num_columns k)"
    by (simp add: algebra_simps)
  have l: "unat (origin k + video_size_row k * con_y k)
      = unat (origin k) + unat (con_y k) * (2 * unat (video_num_columns k))"
    using line_unat(1) [OF s(1,2)] s(3) by simp
  have b: "unat (video_mem_end k) < 2 ^ 30"
    using geometryD(7) [OF s(1)] .
  have "unat (2 * con_x k) = 2 * unat (con_x k)"
    using x geometryD(5) [OF s(1)] unat_mult_u32 [of 2 "con_x k"] by simp
  then show "unat (con_pos k) = unat (origin k) + unat (con_y k) * (2 * unat (video_num_columns k)) + 2 * unat (con_x k)"
    unfolding s(4) by (rule unat_add_below [OF l _ _ b]) (use x y s(2) in linarith)
qed

section \<open>The cursor\<close>

lemma good_gotoxy: "screen_ok k \<Longrightarrow> good k (gotoxy a b k)"
  by (auto simp: good_def gotoxy_def screen_ok_def geometry_ok_def geometry_def stores_ok_def
      push_bit_eq_mult mult.commute linorder_not_le linorder_not_less)

lemma good_cr: "screen_ok k \<Longrightarrow> good k (cr k)"
  by (simp add: good_def cr_def screen_ok_def geometry_ok_def geometry_def stores_ok_def push_bit_eq_mult)

text \<open>One column to the left, one line up and one down.\<close>

lemma good_left:
  assumes "screen_ok k" "con_x k \<noteq> 0"
  shows "good k (k\<lparr>con_pos := con_pos k - 2, con_x := con_x k - 1\<rparr>)"
proof -
  have "con_x k - 1 \<le> video_num_columns k"
    using assms by (auto simp: screen_ok_def word_le_nat_alt unat_sub_u32 unat_gt_0 Suc_leI)
  with assms show ?thesis
    by (simp add: good_def screen_ok_def geometry_ok_def geometry_def stores_ok_def algebra_simps)
qed

lemma good_up:
  assumes "screen_ok k" "con_y k \<noteq> 0"
  shows "good k (k\<lparr>con_y := con_y k - 1, con_pos := con_pos k - video_size_row k\<rparr>)"
proof -
  have "con_y k - 1 < 25"
    using assms by (auto simp: screen_ok_def word_less_nat_alt unat_sub_u32 unat_gt_0 Suc_leI)
  with assms show ?thesis
    by (simp add: good_def screen_ok_def geometry_ok_def geometry_def stores_ok_def algebra_simps)
qed

lemma good_down:
  assumes "screen_ok k" "con_y k + 1 < 25"
  shows "good k (k\<lparr>con_y := con_y k + 1, con_pos := con_pos k + video_size_row k\<rparr>)"
  using assms
  by (simp add: good_def screen_ok_def geometry_ok_def geometry_def stores_ok_def algebra_simps)


section \<open>Scrolling\<close>

text \<open>An operation that only changes bytes, all of them in the video memory.\<close>

lemma good_vram:
  "screen_ok k \<Longrightarrow> within (unat (video_mem_start k)) (unat (video_mem_end k)) (vram k) (f (vram k))
    \<Longrightarrow> good k (upd_vram f k)"
  by (simp add: good_def stores_ok_def screen_ok_def geometry_ok_def geometry_def upd_vram_def)

text \<open>The number of double words moved: at most the lines of the region but one.\<close>

lemma dwords_unat:
  assumes "unat (c :: u32) < 2 ^ 25" "unat (d :: u32) \<le> 24"
  shows "unat (drop_bit 1 (d * c)) = unat d * unat c div 2" "4 * (unat d * unat c div 2) \<le> unat d * (2 * unat c)"
    "unat (4 * drop_bit 1 (d * c)) = 4 * (unat d * unat c div 2)"
proof -
  have "unat d * unat c \<le> 24 * unat c"
    using assms(2) by simp
  also have "\<dots> < 2 ^ 31"
    using assms(1) by simp
  finally have m: "unat d * unat c < 2 ^ 31" .
  show b: "unat (drop_bit 1 (d * c)) = unat d * unat c div 2"
    using unat_mult_u32 [of d c] m unfolding unat_drop_bit_eq by (simp add: drop_bit_eq_div)
  show "4 * (unat d * unat c div 2) \<le> unat d * (2 * unat c)"
    using times_div_less_eq_dividend [of 2 "unat d * unat c"] by (simp add: mult.commute)
  show "unat (4 * drop_bit 1 (d * c)) = 4 * (unat d * unat c div 2)"
    using m assms b unat_mult_u32 [of 4 "drop_bit 1 (d * c)"] by simp
qed

lemma region_lines:
  assumes "region_ok k"
  obtains d where "con_bottom k = con_top k + 1 + d" "unat (con_bottom k) = unat (con_top k) + 1 + unat d"
    "unat (con_bottom k) \<le> 25" "con_bottom k - con_top k - 1 = d"
proof
  let ?d = "con_bottom k - con_top k - 1"
  have "unat (con_top k) < unat (con_bottom k)" "unat (con_bottom k) \<le> 25"
    using assms by (simp_all add: region_ok_def word_less_nat_alt word_le_nat_alt)
  then show "unat (con_bottom k) = unat (con_top k) + 1 + unat ?d" "unat (con_bottom k) \<le> 25"
    by (simp_all add: unat_sub_u32)
qed simp_all

lemma good_region_up:
  assumes k: "screen_ok k" and r: "region_ok k"
  shows "good k (region_up k)"
proof -
  obtain d where d: "unat (con_bottom k) = unat (con_top k) + 1 + unat d" "unat (con_bottom k) \<le> 25"
    "con_bottom k - con_top k - 1 = d"
    by (rule region_lines [OF r])
  have g: "geometry_ok k" and o: "unat (origin k) + 50 * unat (video_num_columns k) \<le> unat (video_mem_end k)"
    and s: "unat (video_mem_start k) \<le> unat (origin k)"
    using k by (simp_all add: screen_ok_def)
  define c where "c = unat (video_num_columns k)"
  define n where "n = unat d * c div 2"
  define di where "di = origin k + video_size_row k * con_top k"
  have c: "unat (video_num_columns k) < 2 ^ 25" and e: "unat (video_mem_end k) < 2 ^ 30"
    using geometryD(6,7) [OF g] by simp_all
  have n4: "4 * n \<le> unat d * (2 * c)" "unat (drop_bit 1 (d * video_num_columns k)) = n"
    "unat (4 * drop_bit 1 (d * video_num_columns k)) = 4 * n"
    using dwords_unat [OF c, of d] d by (simp_all add: n_def c_def)
  have di: "unat di = unat (origin k) + unat (con_top k) * (2 * c)"
    using line_unat(1) [OF g o, of "con_top k"] d by (simp add: di_def c_def)
  have "(unat (con_top k) + 1 + unat d) * (2 * c) \<le> 25 * (2 * c)"
    using d by (intro mult_le_mono1) simp
  then have b: "unat (con_top k) * (2 * c) + 2 * c + unat d * (2 * c) \<le> 50 * c"
    by (simp add: algebra_simps)
  have di4: "unat (di + 4 * drop_bit 1 (d * video_num_columns k)) = unat di + 4 * n"
    by (rule unat_add_below [OF refl n4(3) _ e]) (use di b n4(1) o in \<open>simp add: c_def\<close>)
  show ?thesis
    unfolding region_up_def Let_def d(3) di_def [symmetric]
  proof (rule good_vram [OF k], rule within_trans [OF within_movsl_up within_stosw_up])
    show "unat (video_mem_start k) \<le> unat di" "unat (video_mem_end k) < 2 ^ 31"
        "unat di + 4 * unat (drop_bit 1 (d * video_num_columns k)) \<le> unat (video_mem_end k)"
      using s di e b n4 o by (simp_all add: c_def)
    show "unat (video_mem_start k) \<le> unat (di + 4 * drop_bit 1 (d * video_num_columns k))"
        "unat (di + 4 * drop_bit 1 (d * video_num_columns k)) + 2 * unat (video_num_columns k) \<le> unat (video_mem_end k)"
      using s di b n4 o di4 by (simp_all add: c_def)
  qed (use e in simp)
qed


lemma good_region_down:
  assumes k: "screen_ok k" and r: "region_ok k"
  shows "good k (region_down k)"
proof -
  obtain d where d: "unat (con_bottom k) = unat (con_top k) + 1 + unat d" "unat (con_bottom k) \<le> 25"
    "con_bottom k - con_top k - 1 = d"
    by (rule region_lines [OF r])
  have g: "geometry_ok k" and o: "unat (origin k) + 50 * unat (video_num_columns k) \<le> unat (video_mem_end k)"
    and s: "unat (video_mem_start k) \<le> unat (origin k)"
    using k by (simp_all add: screen_ok_def)
  define c where "c = unat (video_num_columns k)"
  define n where "n = unat d * c div 2"
  define di where "di = origin k + video_size_row k * con_bottom k - 4"
  have c: "unat (video_num_columns k) < 2 ^ 25" "8 \<le> c" and e: "unat (video_mem_end k) < 2 ^ 30"
    using geometryD(3,6,7) [OF g] by (simp_all add: c_def)
  have n4: "4 * n \<le> unat d * (2 * c)" "unat (drop_bit 1 (d * video_num_columns k)) = n"
    "unat (4 * drop_bit 1 (d * video_num_columns k)) = 4 * n"
    using dwords_unat [OF c(1), of d] d by (simp_all add: n_def c_def)
  have b: "unat (con_bottom k) * (2 * c) = unat (con_top k) * (2 * c) + 2 * c + unat d * (2 * c)"
    by (simp add: d(1) algebra_simps)
  have di: "unat di + 4 = unat (origin k) + unat (con_bottom k) * (2 * c)"
    using line_unat(1) [OF g o d(2)] b c(2) by (simp_all add: di_def c_def unat_sub_num)
  have le: "unat (origin k) + unat (con_bottom k) * (2 * c) \<le> unat (video_mem_end k)"
    using line_unat(2) [OF g o d(2)] o unfolding c_def by linarith
  have "4 * n \<le> unat di"
    using n4(1) di b c(2) by linarith
  then have "unat (di - 4 * drop_bit 1 (d * video_num_columns k)) = unat di - 4 * n"
    using unat_sub_u32 [of "4 * drop_bit 1 (d * video_num_columns k)" di] n4(3) by simp
  then have di4: "unat (di - 4 * drop_bit 1 (d * video_num_columns k) + 2) = unat di - 4 * n + 2"
    by (rule unat_add_below [OF _ _ _ e]) (use di le c(2) in simp_all)
  show ?thesis
    unfolding region_down_def Let_def d(3) di_def [symmetric]
  proof (rule good_vram [OF k], rule within_trans [OF within_movsl_down within_stosw_down])
    show "unat (video_mem_start k) + 4 * unat (drop_bit 1 (d * video_num_columns k)) \<le> unat di + 4"
        "unat di + 4 \<le> unat (video_mem_end k)"
      unfolding n4(2) using s di le b n4(1) by linarith+
    show "unat (video_mem_start k) + 2 * unat (video_num_columns k)
          \<le> unat (di - 4 * drop_bit 1 (d * video_num_columns k) + 2) + 2"
        "unat (di - 4 * drop_bit 1 (d * video_num_columns k) + 2) + 2 \<le> unat (video_mem_end k)"
      unfolding di4 c_def [symmetric] using s di le b n4(1) c(2) by linarith+
  qed (use e in simp_all)
qed

lemma good_pan_up:
  assumes k: "screen_ok k"
  shows "good k (pan_up k)"
proof -
  have g: "geometry_ok k" and o: "unat (origin k) + 50 * unat (video_num_columns k) \<le> unat (video_mem_end k)"
    and s: "unat (video_mem_start k) \<le> unat (origin k)"
    using k by (simp_all add: screen_ok_def)
  note gd = geometryD [OF g]
  define c where "c = unat (video_num_columns k)"
  let ?row = "video_size_row k"
  have e: "unat (video_mem_end k) < 2 ^ 30"
    using gd(7) .
  have last: "unat (scr_end k) = unat (origin k) + 50 * c"
    using line_unat(1) [OF g o, of 25] k by (simp add: screen_ok_def c_def mult.commute)
  have row: "unat ?row = 2 * c"
    using gd(8) by (simp add: c_def)
  show ?thesis
  proof (cases "scr_end k + ?row > video_mem_end k")
    case True
    define n where "n = unat (drop_bit 1 ((25 - 1) * video_num_columns k))"
    have c: "unat (video_num_columns k) < 2 ^ 25"
      using gd(6,7) by simp
    have n4: "4 * n \<le> 24 * (2 * c)" "unat (4 * drop_bit 1 (24 * video_num_columns k)) = 4 * n"
      using dwords_unat [OF c, of 24] by (simp_all add: n_def c_def)
    let ?f = "\<lambda>m. stosw c 2 (video_mem_start k + 4 * drop_bit 1 ((25 - 1) * video_num_columns k))
        (video_erase_char k) (movsl n 4 (origin k + ?row) (video_mem_start k) m)"
    have at: "unat (video_mem_start k + 4 * drop_bit 1 (24 * video_num_columns k))
        = unat (video_mem_start k) + 4 * n"
      by (rule unat_add_below [OF refl n4(2) _ e]) (use n4(1) gd(6) in \<open>simp add: c_def\<close>)
    have "within (unat (video_mem_start k)) (unat (video_mem_end k)) (vram k) (?f (vram k))"
    proof (rule within_trans [OF within_movsl_up within_stosw_up])
      show "unat (video_mem_start k + 4 * drop_bit 1 ((25 - 1) * video_num_columns k)) + 2 * c
          \<le> unat (video_mem_end k)"
        "unat (video_mem_start k) + 4 * n \<le> unat (video_mem_end k)"
        "unat (video_mem_start k) \<le> unat (video_mem_start k + 4 * drop_bit 1 ((25 - 1) * video_num_columns k))"
        using n4(1) gd(6) at by (simp_all add: c_def)
    qed (use e in simp_all)
    then show ?thesis
      using True k gd(1,4,6,7) unfolding pan_up_def set_origin_def Let_def
      by (simp add: good_def stores_ok_def screen_ok_def geometry_ok_def geometry_def upd_vram_def
          outb_def n_def c_def algebra_simps)
  next
    case False
    have "unat (scr_end k + ?row) = unat (origin k) + 50 * c + 2 * c"
      by (subst unat_add_u32) (use last row e o gd(6) in \<open>simp_all add: c_def\<close>)
    with False have le: "unat (origin k) + 50 * c + 2 * c \<le> unat (video_mem_end k)"
      by (simp add: word_less_nat_alt)
    have up: "unat (origin k + ?row) = unat (origin k) + 2 * c"
      by (rule unat_add_below [OF refl row _ e]) (use le in simp)
    have "within (unat (video_mem_start k)) (unat (video_mem_end k)) (vram k)
        (stosw c 2 (scr_end k) (video_erase_char k) (vram k))"
      by (rule within_stosw_up) (use s last le e in simp_all)
    with False le up show ?thesis
      using k s gd(1,4,6,7) unfolding pan_up_def set_origin_def Let_def
      by (simp add: good_def stores_ok_def screen_ok_def geometry_ok_def geometry_def upd_vram_def
          outb_def c_def algebra_simps)
  qed
qed

lemma good_scrup: "screen_ok k \<Longrightarrow> region_ok k \<Longrightarrow> good k (scrup k)"
  by (simp add: scrup_def good_pan_up good_region_up)

lemma good_scrdown: "screen_ok k \<Longrightarrow> region_ok k \<Longrightarrow> good k (scrdown k)"
  by (simp add: scrdown_def good_region_down)


section \<open>All of the console\<close>

definition console_ok :: "console \<Rightarrow> bool" where
  "console_ok k \<longleftrightarrow> screen_ok k \<and> region_ok k \<and> length (par k) = NPAR \<and> npar k < NPAR"

definition fine :: "console \<Rightarrow> console \<Rightarrow> bool" where
  "fine k k' \<longleftrightarrow> good k k' \<and> console_ok k'"

text \<open>The scroll region and the parameters of the control sequence.\<close>

definition modes :: "console \<Rightarrow> u32 \<times> u32 \<times> u32 list \<times> nat" where
  "modes k = (con_top k, con_bottom k, par k, npar k)"

lemma fine_refl: "console_ok k \<Longrightarrow> fine k k"
  by (simp add: fine_def console_ok_def good_refl)

lemma fine_trans: "fine k k' \<Longrightarrow> fine k' k'' \<Longrightarrow> fine k k''"
  by (auto simp: fine_def intro: good_trans)

lemma fineI: "console_ok k \<Longrightarrow> good k k' \<Longrightarrow> modes k' = modes k \<Longrightarrow> fine k k'"
  by (auto simp: fine_def console_ok_def modes_def region_ok_def good_def)

lemma fine_funpow: "(\<And>k. console_ok k \<Longrightarrow> fine k (f k)) \<Longrightarrow> console_ok k \<Longrightarrow> fine k ((f ^^ n) k)"
proof (induction n)
  case (Suc n)
  then have "fine k ((f ^^ n) k)" by blast
  with Suc.prems(1) show ?case by (auto simp: fine_def intro: good_trans)
qed (simp add: fine_refl)

lemma modes_simps [simp]:
  "modes (upd_vram f k) = modes k" "modes (gotoxy a b k) = modes k" "modes (outb v p k) = modes k"
  "modes (region_up k) = modes k" "modes (region_down k) = modes k" "modes (cr k) = modes k"
  "modes (pan_up k) = modes k" "modes (scrup k) = modes k" "modes (scrdown k) = modes k"
  "modes (lf k) = modes k" "modes (ri k) = modes k" "modes (del k) = modes k" "modes (new_line k) = modes k"
  by (simp_all add: modes_def upd_vram_def gotoxy_def outb_def region_up_def region_down_def cr_def
      pan_up_def set_origin_def Let_def scrup_def scrdown_def lf_def ri_def del_def new_line_def)

text \<open>Changes of fields that the invariant does not mention.\<close>

lemma fine_fields:
  assumes "console_ok k"
  shows "fine k (k\<lparr>con_state := a\<rparr>)" "fine k (k\<lparr>attr := b\<rparr>)" "fine k (k\<lparr>saved_x := c, saved_y := d\<rparr>)"
    "fine k (outb v p k)" "fine k (k\<lparr>beepcount := i\<rparr>)"
  using assms
  by (auto simp: fine_def console_ok_def good_def screen_ok_def geometry_ok_def geometry_def stores_ok_def
      region_ok_def outb_def)

lemma fine_gotoxy: "console_ok k \<Longrightarrow> fine k (gotoxy a b k)"
  by (simp add: fineI good_gotoxy console_ok_def)

lemma fine_cr: "console_ok k \<Longrightarrow> fine k (cr k)"
  by (simp add: fineI good_cr console_ok_def)

lemma down_on_screen:
  assumes "con_y k + 1 < con_bottom k" "region_ok k"
  shows "con_y k + 1 < 25"
  using assms by (simp add: region_ok_def less_le_trans)

lemma good_lf: "screen_ok k \<Longrightarrow> region_ok k \<Longrightarrow> good k (lf k)"
  by (simp add: lf_def good_down good_scrup down_on_screen)

lemma good_ri: "screen_ok k \<Longrightarrow> region_ok k \<Longrightarrow> good k (ri k)"
  by (auto simp: ri_def intro: good_up good_scrdown)

lemma fine_lf: "console_ok k \<Longrightarrow> fine k (lf k)"
  by (simp add: fineI good_lf console_ok_def)

lemma fine_ri: "console_ok k \<Longrightarrow> fine k (ri k)"
  by (simp add: fineI good_ri console_ok_def)

text \<open>Where a character of the line is stored.\<close>

lemma within_screen:
  assumes k: "screen_ok k" and n: "unat (con_x k) + n \<le> unat (video_num_columns k)"
  shows "unat (video_mem_start k) \<le> unat (con_pos k)"
    "unat (con_pos k) + 2 * n \<le> unat (video_mem_end k)" "unat (video_mem_end k) < 2 ^ 31"
proof -
  note p = pos_unat [OF k]
  have o: "unat (origin k) + 50 * unat (video_num_columns k) \<le> unat (video_mem_end k)"
    and s: "unat (video_mem_start k) \<le> unat (origin k)" and g: "geometry_ok k"
    using k by (simp_all add: screen_ok_def)
  show "unat (video_mem_start k) \<le> unat (con_pos k)"
    using p(1) s by linarith
  show "unat (con_pos k) + 2 * n \<le> unat (video_mem_end k)"
    using p n o by linarith
  show "unat (video_mem_end k) < 2 ^ 31"
    using geometryD(7) [OF g] by simp
qed

lemma fine_poke:
  assumes "console_ok k" "con_x k < video_num_columns k"
  shows "fine k (upd_vram (poke16 (con_pos k) v) k)"
proof (rule fineI [OF assms(1) good_vram])
  have k: "screen_ok k" and x: "unat (con_x k) + 1 \<le> unat (video_num_columns k)"
    using assms by (simp_all add: console_ok_def word_less_nat_alt)
  show "within (unat (video_mem_start k)) (unat (video_mem_end k)) (vram k) (poke16 (con_pos k) v (vram k))"
    using within_screen [OF k x] by (intro within_poke16) simp_all
qed (use assms in \<open>simp_all add: console_ok_def\<close>)

lemma fine_left: "console_ok k \<Longrightarrow> con_x k \<noteq> 0 \<Longrightarrow> fine k (k\<lparr>con_pos := con_pos k - 2, con_x := con_x k - 1\<rparr>)"
  by (rule fineI) (simp_all add: console_ok_def good_left modes_def)

lemma fine_del: "console_ok k \<Longrightarrow> fine k (del k)"
proof (cases "con_x k = 0")
  case False
  assume k: "console_ok k"
  let ?l = "k\<lparr>con_pos := con_pos k - 2, con_x := con_x k - 1\<rparr>"
  have l: "fine k ?l" by (rule fine_left [OF k False])
  have "con_x k \<le> video_num_columns k" using k by (simp add: console_ok_def screen_ok_def)
  moreover have "0 < unat (con_x k)" using False by (simp add: unat_gt_0)
  ultimately have "con_x ?l < video_num_columns ?l"
    by (simp add: word_less_nat_alt word_le_nat_alt unat_sub_u32)
  with l have "fine ?l (upd_vram (poke16 (con_pos ?l) (video_erase_char ?l)) ?l)"
    by (intro fine_poke) (simp_all add: fine_def)
  with l show ?thesis
    using False unfolding del_def Let_def by (auto intro: fine_trans)
qed (simp add: del_def fine_refl)

text \<open>The cursor just after the line, or a tabulator beyond, goes to the next line.\<close>

lemma fine_new_line:
  assumes k: "console_ok k" and x: "unat (con_x k') \<le> 2 * unat (video_num_columns k)" "video_num_columns k \<le> con_x k'"
    and k': "k' = k\<lparr>con_x := con_x k + d, con_pos := con_pos k + 2 * d\<rparr>"
  shows "fine k (new_line k')" "con_x (new_line k') = con_x k' - video_num_columns k"
proof -
  let ?l = "k'\<lparr>con_x := con_x k' - video_num_columns k', con_pos := con_pos k' - video_size_row k'\<rparr>"
  have "con_x k' - video_num_columns k \<le> video_num_columns k"
    using x by (simp add: word_le_nat_alt unat_sub_u32)
  then have "good k ?l"
    using k unfolding k'
    by (simp add: console_ok_def good_def screen_ok_def geometry_ok_def geometry_def stores_ok_def algebra_simps)
  then have l: "fine k ?l"
    by (rule fineI [OF k]) (simp add: k' modes_def)
  moreover have "fine ?l (lf ?l)"
    using l by (intro fine_lf) (simp add: fine_def)
  ultimately show "fine k (new_line k')"
    unfolding new_line_def by (rule fine_trans)
  show "con_x (new_line k') = con_x k' - video_num_columns k"
    by (simp add: new_line_def lf_def scrup_def pan_up_def region_up_def Let_def set_origin_def outb_def
        upd_vram_def k')
qed


lemma fine_right:
  assumes "console_ok k" "con_x k + d \<le> video_num_columns k"
  shows "fine k (k\<lparr>con_x := con_x k + d, con_pos := con_pos k + 2 * d\<rparr>)"
  by (rule fineI [OF assms(1)])
    (use assms in \<open>simp_all add: console_ok_def good_def screen_ok_def geometry_ok_def geometry_def
      stores_ok_def algebra_simps modes_def\<close>)

lemma columns:
  assumes "console_ok k"
  shows "con_x k \<le> video_num_columns k" "8 \<le> unat (video_num_columns k)" "unat (video_num_columns k) < 2 ^ 28"
  using assms geometryD(3,5) [of k] by (simp_all add: console_ok_def screen_ok_def)

lemma fine_put_graphic:
  assumes k: "console_ok k"
  shows "fine k (put_graphic c k)"
proof -
  define k1 where "k1 = (if con_x k \<ge> video_num_columns k then new_line k else k)"
  have k1: "fine k k1 \<and> con_x k1 < video_num_columns k1"
  proof (cases "con_x k \<ge> video_num_columns k")
    case True
    then have x: "con_x k = video_num_columns k" using columns(1) [OF k] by simp
    then have f: "fine k (new_line k)" "con_x (new_line k) = 0"
      using fine_new_line [OF k, of k 0] by simp_all
    moreover have "video_num_columns (new_line k) \<noteq> 0"
      using f(1) columns(2) [of "new_line k"] by (auto simp: fine_def)
    ultimately show ?thesis using True by (simp add: k1_def word_gt_0)
  qed (simp add: k1_def fine_refl k)
  define v where "v = (ucast c OR push_bit 8 (ucast (attr k1)) :: u16)"
  define k2 where "k2 = upd_vram (poke16 (con_pos k1) v) k1"
  have k2: "fine k1 k2"
    unfolding k2_def using k1 by (intro fine_poke) (simp_all add: fine_def)
  have "con_x k2 + 1 \<le> video_num_columns k2"
    using k1 by (simp add: k2_def upd_vram_def inc_le)
  with k2 have "fine k2 (k2\<lparr>con_x := con_x k2 + 1, con_pos := con_pos k2 + 2 * 1\<rparr>)"
    by (intro fine_right) (simp_all add: fine_def)
  moreover have "put_graphic c k = k2\<lparr>con_x := con_x k2 + 1, con_pos := con_pos k2 + 2 * 1\<rparr>"
    by (simp add: put_graphic_def Let_def k2_def v_def k1_def)
  ultimately show ?thesis
    using k1 k2 by (auto intro: fine_trans)
qed

lemma fine_tabulate:
  assumes k: "console_ok k"
  shows "fine k (tabulate k)"
proof -
  define d where "d = 8 - (con_x k AND 7)"
  define k' where "k' = k\<lparr>con_x := con_x k + d, con_pos := con_pos k + 2 * d\<rparr>"
  have "con_x k AND 7 \<le> 7" by (rule word_and_le1)
  then have "unat (con_x k AND 7) \<le> 7" by (simp add: word_le_nat_alt)
  then have d: "unat d \<le> 8" unfolding d_def by (subst unat_sub_u32) simp_all
  have x: "unat (con_x k + d) = unat (con_x k) + unat d"
    using d columns [OF k] by (subst unat_add_u32) (simp_all add: word_le_nat_alt)
  have t: "tabulate k = (if con_x k' > video_num_columns k' then new_line k' else k')"
    by (simp add: tabulate_def Let_def k'_def d_def push_bit_eq_mult mult.commute)
  show ?thesis
  proof (cases "con_x k' > video_num_columns k'")
    case True
    with x d columns [OF k] show ?thesis
      unfolding t using fine_new_line(1) [OF k _ _ k'_def]
      by (simp add: k'_def word_le_nat_alt word_less_nat_alt)
  next
    case False
    then have "tabulate k = k'" using t by simp
    with False show ?thesis
      using fine_right [OF k, of d] by (simp add: k'_def linorder_not_less)
  qed
qed

lemma fine_outb: "fine k k' \<Longrightarrow> fine k (outb v p k')"
  using fine_fields(4) by (auto simp: fine_def intro: good_trans)

lemma fine_ok: "fine k k' \<Longrightarrow> console_ok k'"
  by (simp add: fine_def)

lemma fine_sysbeep:
  assumes "console_ok k"
  shows "fine k (sysbeep k)"
proof -
  have b: "fine k (outb 0x06 0x42 (outb 0x37 0x42 (outb 0xb6 0x43 (outb (inp k 0x61 OR 3) 0x61 k))))"
    by (intro fine_outb fine_refl assms)
  then show ?thesis
    unfolding sysbeep_def by (rule fine_trans) (rule fine_fields(5) [OF fine_ok [OF b]])
qed

lemma fine_back:
  "console_ok k \<Longrightarrow> con_x k \<noteq> 0 \<Longrightarrow> fine k (k\<lparr>con_x := con_x k - 1, con_pos := con_pos k - 2\<rparr>)"
  by (rule fineI) (use good_left [of k] in \<open>simp_all add: console_ok_def modes_def good_def
    screen_ok_def geometry_ok_def geometry_def stores_ok_def\<close>)

lemma fine_put_plain: "console_ok k \<Longrightarrow> fine k (put_plain er c k)"
  unfolding put_plain_def
  by (simp add: fine_put_graphic fine_fields(1) fine_lf fine_cr fine_del fine_tabulate fine_sysbeep
      fine_refl fine_back)

section \<open>Control sequences\<close>

lemma fine_upd_vram:
  "console_ok k \<Longrightarrow> within (unat (video_mem_start k)) (unat (video_mem_end k)) (vram k) (f (vram k)) \<Longrightarrow>
    fine k (upd_vram f k)"
  by (rule fineI) (simp_all add: console_ok_def good_vram)

lemma fine_erase:
  "console_ok k \<Longrightarrow> unat (video_mem_start k) \<le> unat a \<Longrightarrow> unat a + 2 * unat n \<le> unat (video_mem_end k) \<Longrightarrow>
    fine k (erase n a k)"
  unfolding erase_def using geometryD(7) [of k]
  by (auto simp: console_ok_def screen_ok_def intro!: fine_upd_vram within_stosw_up)

lemma screenD:
  assumes "console_ok k"
  shows "geometry_ok k" "unat (video_mem_start k) \<le> unat (origin k)"
    "unat (origin k) + 50 * unat (video_num_columns k) \<le> unat (video_mem_end k)"
    "unat (scr_end k) = unat (origin k) + 50 * unat (video_num_columns k)"
    "unat (con_pos k) = unat (origin k) + unat (con_y k) * (2 * unat (video_num_columns k)) + 2 * unat (con_x k)"
    "unat (con_pos k) \<le> unat (scr_end k)" "unat (con_x k) \<le> unat (video_num_columns k)"
    "unat (con_y k) * (2 * unat (video_num_columns k)) + 2 * unat (video_num_columns k)
      \<le> 50 * unat (video_num_columns k)"
proof -
  have s: "screen_ok k" using assms by (simp add: console_ok_def)
  then show g: "geometry_ok k" and "unat (video_mem_start k) \<le> unat (origin k)"
    and o: "unat (origin k) + 50 * unat (video_num_columns k) \<le> unat (video_mem_end k)"
    by (simp_all add: screen_ok_def)
  show e: "unat (scr_end k) = unat (origin k) + 50 * unat (video_num_columns k)"
    using line_unat(1) [OF g o, of 25] s by (simp add: screen_ok_def mult.commute)
  note p = pos_unat [OF s]
  show "unat (con_pos k) = unat (origin k) + unat (con_y k) * (2 * unat (video_num_columns k)) + 2 * unat (con_x k)"
    "unat (con_x k) \<le> unat (video_num_columns k)"
    "unat (con_y k) * (2 * unat (video_num_columns k)) + 2 * unat (video_num_columns k)
      \<le> 50 * unat (video_num_columns k)"
    by (rule p)+
  show "unat (con_pos k) \<le> unat (scr_end k)"
    using e p by linarith
qed

lemma half_unat: "2 * unat (drop_bit 1 (a :: u32)) \<le> unat a"
  unfolding unat_drop_bit_eq by (simp add: drop_bit_eq_div)

lemma fine_csi_J:
  assumes k: "console_ok k"
  shows "fine k (csi_J p k)"
proof -
  note d = screenD [OF k] and h = half_unat
  have e: "unat (scr_end k - con_pos k) = unat (scr_end k) - unat (con_pos k)"
    "unat (con_pos k - origin k) = unat (con_pos k) - unat (origin k)"
    using d(5,6) by (simp_all add: unat_sub_u32)
  have "fine k (erase (drop_bit 1 (scr_end k - con_pos k)) (con_pos k) k)"
    by (rule fine_erase [OF k]) (use h [of "scr_end k - con_pos k"] e d in linarith)+
  moreover have "fine k (erase (drop_bit 1 (con_pos k - origin k)) (origin k) k)"
    by (rule fine_erase [OF k]) (use h [of "con_pos k - origin k"] e d in linarith)+
  moreover have "unat (video_num_columns k * video_num_lines k) = 25 * unat (video_num_columns k)"
    using geometryD(1,5) [OF d(1)] unat_mult_u32 [of "video_num_columns k" 25] by simp
  then have "fine k (erase (video_num_columns k * video_num_lines k) (origin k) k)"
    by (intro fine_erase [OF k]) (use d in linarith)+
  ultimately show ?thesis
    unfolding csi_J_def using fine_refl [OF k] by simp
qed

lemma fine_csi_K:
  assumes k: "console_ok k"
  shows "fine k (csi_K p k)"
proof -
  note d = screenD [OF k]
  have x2: "unat (2 * con_x k) = 2 * unat (con_x k)"
    using d(7) geometryD(5) [OF d(1)] unat_mult_u32 [of 2 "con_x k"] by simp
  have l: "unat (con_pos k - push_bit 1 (con_x k)) = unat (origin k) + unat (con_y k) * (2 * unat (video_num_columns k))"
    using x2 d(5) by (simp add: push_bit_eq_mult unat_sub_u32 mult.commute [of _ 2])
  have "fine k (erase (video_num_columns k - con_x k) (con_pos k) k)"
    by (rule fine_erase [OF k])
      (use unat_sub_u32 [OF d(7)] d in linarith)+
  moreover have "fine k (erase n (con_pos k - push_bit 1 (con_x k)) k)"
    if "unat n \<le> unat (video_num_columns k)" for n
    by (rule fine_erase [OF k]) (use l d that in linarith)+
  ultimately show ?thesis
    unfolding csi_K_def using fine_refl [OF k] d(7) by simp
qed


lemma fine_insert_char:
  assumes k: "console_ok k"
  shows "fine k (insert_char k)"
  unfolding insert_char_def
proof (rule fine_upd_vram [OF k], rule within_shift_right)
  have s: "screen_ok k" using k by (simp add: console_ok_def)
  have n: "unat (con_x k) + (unat (video_num_columns k) - unat (con_x k)) \<le> unat (video_num_columns k)"
    using screenD(7) [OF k] by simp
  show "unat (video_mem_start k) \<le> unat (con_pos k)" "unat (video_mem_end k) < 2 ^ 31"
      "unat (con_pos k) + 2 * (unat (video_num_columns k) - unat (con_x k)) \<le> unat (video_mem_end k)"
    by (rule within_screen [OF s n])+
qed

lemma fine_delete_char:
  assumes k: "console_ok k"
  shows "fine k (delete_char k)"
proof (cases "con_x k \<ge> video_num_columns k")
  case False
  have s: "screen_ok k" using k by (simp add: console_ok_def)
  have x: "unat (con_x k) < unat (video_num_columns k)"
    using False by (simp add: word_less_nat_alt linorder_not_le)
  then have n: "unat (con_x k) + (unat (video_num_columns k) - unat (con_x k)) \<le> unat (video_num_columns k)"
    by simp
  note w = within_screen [OF s n]
  have "fine k (upd_vram (shift_left (unat (video_num_columns k) - unat (con_x k) - 1) (video_erase_char k) (con_pos k)) k)"
    by (rule fine_upd_vram [OF k], rule within_shift_left) (use w x in simp_all)
  with False show ?thesis by (simp add: delete_char_def)
qed (simp add: delete_char_def fine_refl k)

text \<open>A line is inserted or deleted by scrolling the region from the cursor to the end.\<close>

lemma good_region_fields:
  "screen_ok (k\<lparr>con_top := a, con_bottom := b\<rparr>) = screen_ok k"
  "good (k\<lparr>con_top := a, con_bottom := b\<rparr>) k' = good k k'"
  "good k (k'\<lparr>con_top := a, con_bottom := b\<rparr>) = good k k'"
  by (simp_all add: screen_ok_def geometry_ok_def good_def geometry_def stores_ok_def)

lemma fine_in_region:
  assumes k: "console_ok k" and f: "\<And>k. screen_ok k \<Longrightarrow> region_ok k \<Longrightarrow> good k (f k)"
    and m: "\<And>k. modes (f k) = modes k"
  shows "fine k ((f (k\<lparr>con_top := con_y k, con_bottom := video_num_lines k\<rparr>))\<lparr>con_top := con_top k, con_bottom := con_bottom k\<rparr>)"
proof (rule fineI [OF k])
  let ?k = "k\<lparr>con_top := con_y k, con_bottom := video_num_lines k\<rparr>"
  have "screen_ok ?k" "region_ok ?k"
    using k by (simp_all add: console_ok_def good_region_fields region_ok_def screen_ok_def geometry_ok_def)
  then have "good ?k (f ?k)" by (rule f)
  then show "good k ((f ?k)\<lparr>con_top := con_top k, con_bottom := con_bottom k\<rparr>)"
    by (simp add: good_region_fields)
  show "modes ((f ?k)\<lparr>con_top := con_top k, con_bottom := con_bottom k\<rparr>) = modes k"
    using m [of ?k] by (simp add: modes_def)
qed

lemma fine_insert_line: "console_ok k \<Longrightarrow> fine k (insert_line k)"
  unfolding insert_line_def by (rule fine_in_region) (simp_all add: good_scrdown)

lemma fine_delete_line: "console_ok k \<Longrightarrow> fine k (delete_line k)"
  unfolding delete_line_def by (rule fine_in_region) (simp_all add: good_scrup)

lemma fine_repeats:
  assumes "console_ok k"
  shows "fine k (csi_at nr k)" "fine k (csi_L nr k)" "fine k (csi_P nr k)" "fine k (csi_M nr k)"
  using assms
  by (simp_all add: csi_at_def csi_L_def csi_P_def csi_M_def fine_funpow fine_insert_char
      fine_insert_line fine_delete_char fine_delete_line)

lemma fine_csi_m: "console_ok k \<Longrightarrow> fine k (csi_m k)"
  unfolding csi_m_def
proof (rule fold_invariant [where Q = "\<lambda>_. True" and P = "fine k"])
  fix i k' assume "fine k k'"
  moreover from this have "fine k' (sgr (par k ! i) k')"
    by (simp add: sgr_def fine_fields(2) fine_refl fine_ok)
  ultimately show "fine k (sgr (par k ! i) k')" by (rule fine_trans)
qed (simp_all add: fine_refl)

text \<open>The parameters may have any value.\<close>

lemma fine_par: "console_ok k \<Longrightarrow> fine k (set_par i v k)" "console_ok k \<Longrightarrow> fine k (dec_par i k)"
  "console_ok k \<Longrightarrow> fine k (inc_par k)"
  by (auto simp: fine_def console_ok_def good_def screen_ok_def geometry_ok_def geometry_def stores_ok_def
      region_ok_def set_par_def dec_par_def inc_par_def)

lemma fine_set_region:
  assumes k: "console_ok k"
  shows "fine k (set_region k)"
proof -
  define k1 where "k1 = dec_par 0 k"
  have k1: "fine k k1" unfolding k1_def by (rule fine_par(2) [OF k])
  define k2 where "k2 = (if par k1 ! 1 = 0 then set_par 1 (video_num_lines k1) k1 else k1)"
  have k2: "fine k k2"
    using k1 fine_trans [OF k1 fine_par(1) [OF fine_ok [OF k1]]] by (simp add: k2_def)
  have "fine k2 (k2\<lparr>con_top := par k2 ! 0, con_bottom := par k2 ! 1\<rparr>)"
    if "par k2 ! 0 < par k2 ! 1" "par k2 ! 1 \<le> video_num_lines k2"
    using that fine_ok [OF k2]
    by (simp add: fine_def console_ok_def good_region_fields good_refl region_ok_def screen_ok_def geometry_ok_def)
  with k2 show ?thesis
    unfolding set_region_def Let_def k1_def [symmetric] k2_def [symmetric] by (auto intro: fine_trans)
qed

lemma fine_goto: "fine k k' \<Longrightarrow> fine k (gotoxy a b k')"
  by (meson fine_gotoxy fine_ok fine_trans)

lemma fine_par2: "console_ok k \<Longrightarrow> fine k (dec_par i (dec_par j k))"
  by (meson fine_ok fine_trans fine_par(2))

lemma fine_save: "console_ok k \<Longrightarrow> fine k (save_cur k)" "console_ok k \<Longrightarrow> fine k (restore_cur k)"
  by (simp_all add: save_cur_def restore_cur_def fine_fields(3) fine_gotoxy)

lemmas fine_ops = fine_refl fine_gotoxy fine_csi_J fine_csi_K fine_repeats fine_csi_m fine_set_region
  fine_lf fine_ri fine_goto fine_par fine_par2 fine_save fine_fields(1)

lemma fine_put_final:
  assumes k: "console_ok k"
  shows "fine k (put_final c k)"
proof -
  define k1 where "k1 = k\<lparr>con_state := 0\<rparr>"
  have f: "fine k k1" unfolding k1_def by (rule fine_fields(1) [OF k])
  have "fine k1 (put_final c k)"
    unfolding put_final_def Let_def k1_def [symmetric] using fine_ok [OF f] by (simp add: fine_ops)
  with f show ?thesis by (rule fine_trans)
qed

lemma fine_put_escape:
  assumes k: "console_ok k"
  shows "fine k (put_escape c k)"
proof -
  define k1 where "k1 = k\<lparr>con_state := 0\<rparr>"
  have f: "fine k k1" unfolding k1_def by (rule fine_fields(1) [OF k])
  have "fine k1 (put_escape c k)"
    unfolding put_escape_def Let_def k1_def [symmetric] using fine_ok [OF f] by (simp add: fine_ops)
  with f show ?thesis by (rule fine_trans)
qed

lemma fine_put_param:
  assumes k: "console_ok k"
  shows "fine k (put_param c k)"
proof -
  have "fine k (k\<lparr>npar := npar k + 1\<rparr>)" if "npar k < NPAR - 1"
    using k that
    by (auto simp: fine_def console_ok_def good_def screen_ok_def geometry_ok_def geometry_def stores_ok_def
        region_ok_def)
  then show ?thesis
    using k by (simp add: put_param_def fine_par fine_put_final)
qed

lemma fine_put_bracket:
  assumes k: "console_ok k"
  shows "fine k (put_bracket c k)"
proof -
  define k1 where "k1 = k\<lparr>par := replicate NPAR 0, npar := 0, con_state := 3, ques := (c = ch CHR ''?'')\<rparr>"
  have f: "fine k k1"
    using k by (auto simp: k1_def fine_def console_ok_def good_def screen_ok_def geometry_ok_def geometry_def
        stores_ok_def region_ok_def NPAR_def)
  moreover have "fine k1 (put_bracket c k)"
    unfolding put_bracket_def Let_def k1_def [symmetric]
    using fine_ok [OF f] by (simp add: fine_refl fine_put_param)
  ultimately show ?thesis by (rule fine_trans)
qed

lemma fine_con_put: "console_ok k \<Longrightarrow> fine k (con_put er c k)"
  by (simp add: con_put_def fine_put_plain fine_put_escape fine_put_bracket fine_put_param fine_put_final fine_refl)


section \<open>Start-up\<close>

definition boot_ok :: "boot_video \<Rightarrow> bool" where
  "boot_ok b \<longleftrightarrow> 8 \<le> ORIG_VIDEO_COLS b \<and> ORIG_VIDEO_COLS b \<le> 163 \<and> ORIG_X b \<le> ORIG_VIDEO_COLS b \<and> ORIG_Y b < 25"

text \<open>The memory of the card starts at its screen and holds 8 KB or more.\<close>

lemma video_card_memory:
  assumes "video_card b = (start, fin, reg, val, type, desc)"
  shows "unat start + 8192 \<le> unat fin" "unat fin < 2 ^ 30" "0xb0000 \<le> unat start" "length desc = 4"
  using assms by (auto simp: video_card_def split: if_splits)

lemma unat_u8_u32: "unat (ucast (x :: u8) :: u32) = unat x"
  using unsigned_less [of x, where ?'a = nat] by (simp add: unsigned_ucast_eq take_bit_nat_eq_self)

lemma con_init_ok:
  assumes b: "boot_ok b" and p: "length (par k) = NPAR" "npar k < NPAR"
  defines "k' \<equiv> con_init b k"
  shows "console_ok k' \<and> stores_ok k' (k'\<lparr>vram := vram k\<rparr>)"
proof -
  obtain start fin reg val type desc where v: "video_card b = (start, fin, reg, val, type, desc)"
    by (metis prod_cases6)
  note m = video_card_memory [OF v]
  define c where "c = (ucast (ORIG_VIDEO_COLS b) :: u32)"
  have c: "8 \<le> unat c" "unat c \<le> 163" "ucast (ORIG_X b) \<le> c" "(ucast (ORIG_Y b) :: u32) < 25"
    using b by (simp_all add: boot_ok_def c_def word_le_nat_alt word_less_nat_alt unat_u8_u32)
  have x: "\<not> (ucast (ORIG_X b) > c \<or> (ucast (ORIG_Y b) :: u32) \<ge> ORIG_VIDEO_LINES)"
    using c by (auto simp: ORIG_VIDEO_LINES_def)
  have c2: "unat (c * 2) = 2 * unat c"
    using c(2) unat_mult_u32 [of c 2] by simp
  have d: "unat (start + c * 2 - 8) = unat start + 2 * unat c - 8"
    using unat_add_below [OF refl c2 _ m(2)] m(1) c unat_sub_u32 [of 8 "start + c * 2"] by simp
  have w: "within (unat start) (unat fin) (put_desc desc (start + c * 2 - 8) (vram k)) (vram k)"
    using within_put_desc [of "unat start" "start + c * 2 - 8" desc "unat fin" "vram k"] d m c
    by (auto simp: within_def)
  show ?thesis
    using m c p x w
    by (simp add: k'_def con_init_def v Let_def gotoxy_def upd_vram_def outb_def ORIG_VIDEO_LINES_def
        console_ok_def screen_ok_def geometry_ok_def region_ok_def stores_ok_def push_bit_eq_mult
        mult.commute flip: c_def)
qed

lemma fine_fold: "console_ok k \<Longrightarrow> fine k (fold (con_put er) xs k)"
proof (induction xs arbitrary: k)
  case (Cons c xs)
  then show ?case
    using fine_con_put [of k er c] by (auto intro: fine_trans fine_ok)
qed (simp add: fine_refl)


text \<open>C6: from start-up on, whatever is written to the console, in any state of its control
  sequences: the cursor is on the screen or just after the end of a line and its address agrees with
  its column and line, the screen lies in the memory of the card, the scroll region is a region of
  the screen, and no byte outside that memory has been changed.\<close>

theorem console_stays_in_video_memory:
  fixes b k er xs
  assumes b: "boot_ok b" and p: "length (par k) = NPAR" "npar k < NPAR"
  defines "k' \<equiv> fold (con_put er) xs (con_init b k)"
  shows "con_x k' \<le> video_num_columns k' \<and> con_y k' < video_num_lines k'
    \<and> con_pos k' = origin k' + con_y k' * video_size_row k' + 2 * con_x k'
    \<and> video_mem_start k' \<le> origin k' \<and> origin k' \<le> con_pos k' \<and> con_pos k' \<le> scr_end k'
    \<and> scr_end k' \<le> video_mem_end k' \<and> con_top k' < con_bottom k' \<and> con_bottom k' \<le> video_num_lines k'
    \<and> (\<forall>a. vram k' a \<noteq> vram k a \<longrightarrow> video_mem_start k' \<le> a \<and> a < video_mem_end k')"
proof -
  have i: "console_ok (con_init b k)" "stores_ok (con_init b k) ((con_init b k)\<lparr>vram := vram k\<rparr>)"
    using con_init_ok [OF b p] by simp_all
  have f: "fine (con_init b k) k'" unfolding k'_def by (rule fine_fold [OF i(1)])
  then have ok: "console_ok k'" and g: "geometry k' = geometry (con_init b k)"
    by (simp_all add: fine_def good_def)
  note d = screenD [OF ok]
  have w0: "within (unat (video_mem_start k')) (unat (video_mem_end k')) (vram k) (vram (con_init b k))"
    using i(2) g by (simp add: stores_ok_def geometry_def within_def eq_commute)
  have w1: "within (unat (video_mem_start k')) (unat (video_mem_end k')) (vram (con_init b k)) (vram k')"
    using f g by (simp add: fine_def good_def stores_ok_def geometry_def)
  note w = within_trans [OF w0 w1]
  have "origin k' \<le> con_pos k'" "con_pos k' \<le> scr_end k'" "scr_end k' \<le> video_mem_end k'" "video_mem_start k' \<le> origin k'"
    unfolding word_le_nat_alt using d by linarith+
  moreover have "\<forall>a. vram k' a \<noteq> vram k a \<longrightarrow> video_mem_start k' \<le> a \<and> a < video_mem_end k'"
    using w by (simp add: within_def word_le_nat_alt word_less_nat_alt)
  ultimately show ?thesis
    using ok by (simp add: console_ok_def screen_ok_def geometry_ok_def region_ok_def)
qed

definition vga_boot :: boot_video where
  "vga_boot = \<lparr>ORIG_X = 0, ORIG_Y = 3, ORIG_VIDEO_PAGE = 0, ORIG_VIDEO_MODE = 3, ORIG_VIDEO_COLS = 80, ORIG_VIDEO_EGA_BX = 3\<rparr>"

definition unset_console :: console where
  "unset_console = \<lparr>video_type = 0, video_num_columns = 0, video_size_row = 0, video_num_lines = 0, video_page = 0,
     video_mem_start = 0, video_mem_end = 0, video_port_reg = 0, video_port_val = 0, video_erase_char = 0,
     origin = 0, scr_end = 0, con_pos = 0, con_x = 0, con_y = 0, con_top = 0, con_bottom = 0, con_state = 0,
     npar = 0, par = replicate NPAR 0, ques = False, attr = 7, saved_x = 0, saved_y = 0, beepcount = 0,
     vram = (\<lambda>_. 0), inp = (\<lambda>_. 0), outp = []\<rparr>"

lemma console_stays_in_video_memory_witness:
  "con_y (fold (con_put 127) (map of_char ''hello'') (con_init vga_boot unset_console))
    < video_num_lines (fold (con_put 127) (map of_char ''hello'') (con_init vga_boot unset_console))"
  by (rule console_stays_in_video_memory [THEN conjunct2, THEN conjunct1])
    (simp_all add: boot_ok_def vga_boot_def unset_console_def NPAR_def)

section \<open>Cursor addressing\<close>

text \<open>The decimal digits of a number.\<close>

fun decimal :: "nat \<Rightarrow> u8 list" where
  "decimal n = (if n < 10 then [of_nat (48 + n)] else decimal (n div 10) @ [of_nat (48 + n mod 10)])"

declare decimal.simps [simp del]

text \<open>\<open>ESC [ row ; column H\<close>\<close>

definition move_to :: "nat \<Rightarrow> nat \<Rightarrow> u8 list" where
  "move_to r c = [27, ch CHR ''[''] @ decimal r @ [ch CHR '';''] @ decimal c @ [ch CHR ''H'']"

lemma digit_byte:
  assumes "n < 10"
  shows "sint (of_nat (48 + n) :: u8) = 48 + int n" "ucast (of_nat (48 + n) :: u8) = (48 + of_nat n :: u32)"
    "(of_nat (48 + n) :: u8) \<noteq> 59" "(of_nat (48 + n) :: u8) \<noteq> 63"
proof -
  have "n \<in> {0, 1, 2, 3, 4, 5, 6, 7, 8, 9}" using assms by auto
  then show "sint (of_nat (48 + n) :: u8) = 48 + int n" "ucast (of_nat (48 + n) :: u8) = (48 + of_nat n :: u32)"
    "(of_nat (48 + n) :: u8) \<noteq> 59" "(of_nat (48 + n) :: u8) \<noteq> 63"
    by auto
qed

text \<open>A digit extends the current parameter.\<close>

lemma put_param_digit:
  "n < 10 \<Longrightarrow> put_param (of_nat (48 + n)) k = set_par (npar k) (10 * (par k ! npar k) + of_nat n) k"
  using digit_byte [of n] by (simp add: put_param_def algebra_simps)

lemma par_set_par [simp]:
  "con_state (set_par i v k) = con_state k" "npar (set_par i v k) = npar k" "length (par (set_par i v k)) = length (par k)"
  "par (set_par i v k) = (par k)[i := v]" "set_par i v (set_par i w k) = set_par i v k"
  by (simp_all add: set_par_def)

lemma put_decimal:
  "con_state k = 3 \<Longrightarrow> npar k < length (par k) \<Longrightarrow> par k ! npar k = 0 \<Longrightarrow>
    fold (con_put er) (decimal n) k = set_par (npar k) (of_nat n) k"
proof (induction n rule: decimal.induct)
  case (1 n)
  show ?case
  proof (cases "n < 10")
    case True
    with 1 put_param_digit [OF True, of k] show ?thesis
      by (subst decimal.simps) (simp add: con_put_def)
  next
    case False
    let ?k = "set_par (npar k) (of_nat (n div 10)) k"
    have i: "fold (con_put er) (decimal (n div 10)) k = ?k"
      using 1 False by simp
    have "10 * (of_nat (n div 10) :: u32) + of_nat (n mod 10) = of_nat (10 * (n div 10) + n mod 10)"
      by (simp only: of_nat_add of_nat_mult of_nat_numeral)
    then have v: "10 * (of_nat (n div 10) :: u32) + of_nat (n mod 10) = of_nat n"
      by simp
    have "con_put er (of_nat (48 + n mod 10)) ?k = set_par (npar k) (of_nat n) k"
      using put_param_digit [of "n mod 10" ?k] 1(2-4) v by (simp add: con_put_def)
    with i False show ?thesis by (subst decimal.simps) simp
  qed
qed

lemma decimal_u32: "n < 2 ^ 32 \<Longrightarrow> unat (of_nat n :: u32) = n"
  by (simp add: unat_of_nat)

text \<open>C23: the cursor-addressing sequence with a line and a column, printed in decimal, is parsed back to
  these numbers: the cursor goes to that place, counted from 1, if it is on the screen or just after the
  end of a line, and otherwise stays; nothing is stored to memory, and the console is ready for the next character.\<close>

theorem move_to_correct:
  fixes k er r c
  assumes k: "con_state k = 0" "length (par k) = NPAR"
    and rc: "0 < r" "r < 2 ^ 32" "0 < c" "c < 2 ^ 32"
  defines "k' \<equiv> fold (con_put er) (move_to r c) k"
  shows "k' = (if c - 1 \<le> unat (video_num_columns k) \<and> r - 1 < unat (video_num_lines k)
      then k\<lparr>ques := False, npar := 1, con_state := 0, par := [of_nat (r - 1), of_nat (c - 1)] @ replicate 14 0,
             con_x := of_nat (c - 1), con_y := of_nat (r - 1),
             con_pos := origin k + of_nat (r - 1) * video_size_row k + 2 * of_nat (c - 1)\<rparr>
      else k\<lparr>ques := False, npar := 1, con_state := 0, par := [of_nat (r - 1), of_nat (c - 1)] @ replicate 14 0\<rparr>)"
proof -
  let ?k = "k\<lparr>par := replicate NPAR 0, npar := 0, con_state := 3, ques := False\<rparr>"
  have "\<exists>d ds. decimal r = of_nat (48 + d) # ds \<and> d < 10"
  proof (induction r rule: decimal.induct)
    case (1 n)
    then show ?case by (cases "n < 10") (subst decimal.simps, force)+
  qed
  then obtain d ds where d: "decimal r = of_nat (48 + d) # ds" "d < 10" by blast
  have b: "con_put er (of_nat (48 + d)) (k\<lparr>con_state := 2\<rparr>) = con_put er (of_nat (48 + d)) ?k"
    using digit_byte(4) [OF d(2)] by (simp add: con_put_def put_bracket_def)
  have "fold (con_put er) (decimal r) (k\<lparr>con_state := 2\<rparr>) = fold (con_put er) (decimal r) ?k"
    unfolding d(1) by (simp only: fold_simps b)
  also have "\<dots> = set_par 0 (of_nat r) ?k"
    by (subst put_decimal) (simp_all add: NPAR_def)
  finally have f1: "fold (con_put er) (decimal r) (k\<lparr>con_state := 2\<rparr>) = set_par 0 (of_nat r) ?k" .
  let ?k1 = "set_par 0 (of_nat r) ?k\<lparr>npar := 1\<rparr>"
  have f2: "con_put er (ch CHR '';'') (set_par 0 (of_nat r) ?k) = ?k1"
    by (simp add: con_put_def put_param_def NPAR_def set_par_def)
  have f3: "fold (con_put er) (decimal c) ?k1 = set_par 1 (of_nat c) ?k1"
    by (subst put_decimal) (simp_all add: NPAR_def set_par_def)
  have "con_put er 27 k = k\<lparr>con_state := 1\<rparr>"
    using k by (simp add: con_put_def put_plain_def)
  moreover have "con_put er (ch CHR ''['') (k\<lparr>con_state := 1\<rparr>) = k\<lparr>con_state := 2\<rparr>"
    by (simp add: con_put_def put_escape_def)
  ultimately have k': "k' = con_put er (ch CHR ''H'') (set_par 1 (of_nat c) ?k1)"
    unfolding k'_def move_to_def by (simp only: fold_append fold_simps o_apply append.simps id_apply f1 f2 f3)
  let ?p = "[of_nat (r - 1), of_nat (c - 1)] @ replicate 14 0 :: u32 list"
  have rep: "replicate NPAR (0 :: u32) = 0 # 0 # replicate 14 0"
    by (simp add: NPAR_def numeral_eq_Suc)
  have nz: "(of_nat r :: u32) \<noteq> 0" "(of_nat c :: u32) \<noteq> 0" "(of_nat r - 1 :: u32) = of_nat (r - 1)" "(of_nat c - 1 :: u32) = of_nat (c - 1)"
    using rc decimal_u32 [of r] decimal_u32 [of c] by (auto simp: of_nat_diff)
  have "k' = gotoxy (of_nat (c - 1)) (of_nat (r - 1)) (k\<lparr>ques := False, npar := 1, con_state := 0, par := ?p\<rparr>)"
    unfolding k' using nz
    by (simp add: con_put_def put_param_def put_final_def dec_par_def set_par_def Let_def rep)
  then show ?thesis
    using rc decimal_u32 [of "r - 1"] decimal_u32 [of "c - 1"]
    by (simp add: gotoxy_def word_less_nat_alt word_le_nat_alt push_bit_eq_mult mult.commute)
qed


lemma move_to_correct_witness:
  "con_x (fold (con_put 127) (move_to 3 10) (unset_console\<lparr>video_num_columns := 80, video_num_lines := 25\<rparr>)) = 9"
  by (subst move_to_correct) (simp_all add: unset_console_def NPAR_def)

text \<open>\<open>ESC 7\<close> and \<open>ESC 8\<close> do nothing unless the cursor happens to be in the column whose number is the code
  of 7 or 8, and there any unknown sequence saves or restores the cursor.\<close>

lemma escape_7_compares_the_column:
  assumes "con_state k = 1"
  shows "con_x k \<noteq> 55 \<Longrightarrow> con_x k \<noteq> 56 \<Longrightarrow> con_put er (ch CHR ''7'') k = k\<lparr>con_state := 0\<rparr>"
    "con_x k = 55 \<Longrightarrow> con_put er (ch CHR ''x'') k = save_cur (k\<lparr>con_state := 0\<rparr>)"
  using assms by (simp_all add: con_put_def put_escape_def)

end
