(* ===== verification/User_Memory.thy ===== *)
theory User_Memory imports Open begin

unbundle bit_operations_syntax

text \<open>
  The memory of the process as the system calls read and write it: blocks of bytes and 32-bit words,
  what is read after a write, and strings ended by a zero byte. Addresses are words and wrap around;
  distances from a base address are natural numbers.
\<close>

section \<open>Bytes\<close>

lemma get_fs_bytes_length [simp]: "length (get_fs_bytes a n s) = n"
  by (simp add: get_fs_bytes_def)

lemma get_fs_bytes_add: "get_fs_bytes a (m + n) s = get_fs_bytes a m s @ get_fs_bytes (a + of_nat m) n s"
proof -
  have "[0..<m + n] = [0..<m] @ map (\<lambda>i. i + m) [0..<n]"
    using upt_add_eq_append [of 0 m n] map_add_upt [of m n] by (simp add: add.commute)
  then show ?thesis
    by (simp add: get_fs_bytes_def o_def algebra_simps)
qed

lemma get_fs_bytes_Suc: "get_fs_bytes p (Suc n) k = user k p # get_fs_bytes (p + 1) n k"
  using get_fs_bytes_add [of p 1 n k] by (simp add: get_fs_bytes_def)

lemma get_fs_bytes_user: "user s' = user s \<Longrightarrow> get_fs_bytes a n s' = get_fs_bytes a n s"
  by (simp add: get_fs_bytes_def)

lemma put_fs_bytes_append: "put_fs_bytes (xs @ ys) a s = put_fs_bytes ys (a + of_nat (length xs)) (put_fs_bytes xs a s)"
  by (induction xs arbitrary: a s) (simp_all add: add.assoc)

lemma put_fs_bytes_other [simp]:
  "inode_table (put_fs_bytes xs a s) = inode_table s" "mem (put_fs_bytes xs a s) = mem s"
  by (induction xs arbitrary: a s) simp_all

lemma put_fs_bytes_user_cong: "user s = user s' \<Longrightarrow> user (put_fs_bytes xs a s) = user (put_fs_bytes xs a s')"
  by (induction xs arbitrary: a s s') simp_all

text \<open>Bytes put are the bytes got, when the addresses do not run round the address space.\<close>

lemma user_put_fs_bytes:
  "length xs \<le> 2 ^ 32 \<Longrightarrow> user (put_fs_bytes xs a s) b =
    (if unat (b - a) < length xs then xs ! unat (b - a) else user s b)"
proof (induction xs arbitrary: a s)
  case (Cons x xs)
  have d: "unat (b - a) = (if b = a then 0 else Suc (unat (b - (a + 1))))"
  proof (cases "b = a")
    case False
    have e: "b - a = 1 + (b - (a + 1))" by simp
    have "1 + (b - (a + 1)) \<noteq> 0" using False by simp
    then have "unat (b - a) = Suc (unat (b - (a + 1)))"
      unfolding e by (rule unatSuc)
    with False show ?thesis by simp
  qed simp
  have "unat (- 1 :: u32) = 4294967295"
    by (simp add: unsigned_minus_1_eq_mask mask_eq_exp_minus_1)
  then show ?case
    using Cons d by (auto simp: nth_Cons')
qed simp

lemma get_put_fs_bytes:
  assumes "length xs \<le> 2 ^ 32" "user s' = user (put_fs_bytes xs a s)"
  shows "get_fs_bytes a (length xs) s' = xs"
proof (rule nth_equalityI)
  fix i assume "i < length (get_fs_bytes a (length xs) s')"
  then have i: "i < length xs" by simp
  then have "unat (of_nat i :: u32) = i" using assms(1) by (simp add: unat_of_nat)
  with i show "get_fs_bytes a (length xs) s' ! i = xs ! i"
    by (simp add: get_fs_bytes_def assms(2) user_put_fs_bytes [OF assms(1)])
qed simp

section \<open>Distances\<close>

lemma unat_diff_of_nat:
  assumes "x < 2 ^ 32" "y < 2 ^ 32"
  shows "unat ((of_nat x :: u32) - of_nat y) = (if y \<le> x then x - y else 2 ^ 32 + x - y)"
proof -
  have "unat (of_nat x :: u32) = x" "unat (of_nat y :: u32) = y" using assms by (simp_all add: unat_of_nat)
  then show ?thesis by (simp add: unat_sub_if_size word_size) presburger
qed

lemma unat_offset_diff:
  assumes "x < 2 ^ 32" "y < 2 ^ 32"
  shows "unat ((a + of_nat x) - (a + of_nat y :: u32)) = (if y \<le> x then x - y else 2 ^ 32 + x - y)"
  using unat_diff_of_nat [OF assms] by simp

section \<open>Words\<close>

lemma bytes_of_word:
  "(ucast (ucast v :: u8) :: u32) OR push_bit 8 (ucast (ucast (drop_bit 8 v) :: u8))
    OR push_bit 16 (ucast (ucast (drop_bit 16 v) :: u8)) OR push_bit 24 (ucast (ucast (drop_bit 24 v) :: u8)) = v"
proof (rule bit_word_eqI)
  fix n assume "n < LENGTH(32)"
  then have n: "n < 32" by simp
  consider "n < 8" | "8 \<le> n" "n < 16" | "16 \<le> n" "n < 24" | "24 \<le> n" by linarith
  then show "bit ((ucast (ucast v :: u8) :: u32) OR push_bit 8 (ucast (ucast (drop_bit 8 v) :: u8))
    OR push_bit 16 (ucast (ucast (drop_bit 16 v) :: u8)) OR push_bit 24 (ucast (ucast (drop_bit 24 v) :: u8))) n = bit v n"
    using n by cases (auto simp: bit_simps)
qed

lemma get_fs_long_bytes:
  "get_fs_bytes a 4 s = get_fs_bytes b 4 t \<Longrightarrow> get_fs_long a s = get_fs_long b t"
  by (simp add: get_fs_bytes_def get_fs_long_def upt_rec)

lemma put_fs_long_other:
  "4 \<le> unat (b - a) \<Longrightarrow> user (put_fs_long v a s) b = user s b"
  unfolding put_fs_long_def by (subst user_put_fs_bytes) simp_all

lemma get_put_long:
  assumes "i < 2 ^ 30" "j < 2 ^ 30"
  shows "get_fs_long (a + 4 * of_nat i) (put_fs_long v (a + 4 * of_nat j) s) =
    (if i = j then v else get_fs_long (a + 4 * of_nat i) s)"
proof (cases "i = j")
  case True
  let ?xs = "[ucast v, ucast (drop_bit 8 v), ucast (drop_bit 16 v), ucast (drop_bit 24 v)] :: u8 list"
  let ?b = "a + 4 * of_nat j" and ?t = "put_fs_long v (a + 4 * of_nat j) s"
  have "get_fs_bytes ?b (length ?xs) ?t = ?xs"
    by (rule get_put_fs_bytes) (simp_all add: put_fs_long_def)
  then have "user ?t ?b = ?xs ! 0" "user ?t (?b + 1) = ?xs ! 1" "user ?t (?b + 2) = ?xs ! 2" "user ?t (?b + 3) = ?xs ! 3"
    by (simp_all add: get_fs_bytes_def upt_rec)
  then have "get_fs_long ?b ?t = v" unfolding get_fs_long_def using bytes_of_word [of v] by simp
  with True show ?thesis by simp
next
  case False
  have "user (put_fs_long v (a + 4 * of_nat j) s) (a + 4 * of_nat i + of_nat e) = user s (a + 4 * of_nat i + of_nat e)"
    if e: "e < 4" for e
  proof -
    have "(a + 4 * of_nat i + of_nat e) - (a + 4 * of_nat j) = (of_nat (4 * i + e) :: u32) - of_nat (4 * j)" by simp
    moreover have "4 * i + e < 2 ^ 32" "4 * j < 2 ^ 32" using assms e by simp_all
    ultimately have "unat ((a + 4 * of_nat i + of_nat e) - (a + 4 * of_nat j)) =
        (if 4 * j \<le> 4 * i + e then 4 * i + e - 4 * j else 2 ^ 32 + (4 * i + e) - 4 * j)"
      by (simp only: unat_diff_of_nat)
    moreover have "4 \<le> (if 4 * j \<le> 4 * i + e then 4 * i + e - 4 * j else 2 ^ 32 + (4 * i + e) - 4 * j)"
      using False assms e by (auto split: if_split)
    ultimately show ?thesis by (intro put_fs_long_other) (simp only:)
  qed
  then have "get_fs_bytes (a + 4 * of_nat i) 4 (put_fs_long v (a + 4 * of_nat j) s) = get_fs_bytes (a + 4 * of_nat i) 4 s"
    unfolding get_fs_bytes_def by (intro map_cong refl) simp
  from get_fs_long_bytes [OF this] show ?thesis using False by simp
qed

lemma put_fs_bytes_state: "\<exists>u. put_fs_bytes xs a s = s\<lparr>user := u\<rparr>"
proof (induction xs arbitrary: a s)
  case Nil
  have "s = s\<lparr>user := user s\<rparr>" by simp
  then show ?case by (metis put_fs_bytes.simps(1))
next
  case (Cons x xs)
  obtain u where "put_fs_bytes xs (a + 1) (s\<lparr>user := (user s)(a := x)\<rparr>) = s\<lparr>user := (user s)(a := x)\<rparr>\<lparr>user := u\<rparr>"
    using Cons.IH by blast
  then show ?case by auto
qed

end
