(* ===== verification/Line_Edit.thy ===== *)
theory Line_Edit imports Tty Process_Ids Screen User_Memory begin

unbundle bit_operations_syntax

text \<open>
  What the line discipline (\<open>Tty\<close>) does to the bytes: \<open>copy_to_cooked\<close> is a line editor on the list of the
  bytes typed, and \<open>tty_write\<close> processes its bytes as
  the output flags say. Both are stated on the contents of the queues
  (\<open>queue_chars\<close> of \<open>Tty_Queue\<close>).
\<close>

section \<open>Queues in terminals\<close>

lemma upd_tty_simps [simp]:
  "before_ctype (upd_tty i f s) = before_ctype s" "length (ttys (upd_tty i f s)) = length (ttys s)"
  "con (upd_tty i f s) = con s" "cr_flag (upd_tty i f s) = cr_flag s" "sy (upd_tty i f s) = sy s"
  by (simp_all add: upd_tty_def)

lemma upd_tty_at [simp]: "i < length (ttys s) \<Longrightarrow> tt i (upd_tty i f s) = f (tt i s)"
  by (simp add: upd_tty_def)

lemma upd_tty_twice [simp]: "i < length (ttys s) \<Longrightarrow> upd_tty i f (upd_tty i g s) = upd_tty i (\<lambda>t. f (g t)) s"
  by (simp add: upd_tty_def)

lemma queue_fields [simp]:
  "queue_ok (q\<lparr>q_data := d\<rparr>) = queue_ok q" "queue_chars (q\<lparr>q_data := d\<rparr>) = queue_chars q"
  "queue_ok (q\<lparr>proc_list := p\<rparr>) = queue_ok q" "queue_chars (q\<lparr>proc_list := p\<rparr>) = queue_chars q"
  by (simp_all add: queue_ok_def queue_chars_def CHARS_def)

lemma EMPTY_chars: "queue_ok q \<Longrightarrow> EMPTY q \<longleftrightarrow> queue_chars q = []"
  by (simp add: queue_empty)

lemma FULL_chars: "queue_ok q \<Longrightarrow> FULL q \<longleftrightarrow> length (queue_chars q) = TTY_BUF_SIZE - 1"
  by (simp only: queue_full)


section \<open>Output processing\<close>

text \<open>What the output flags make of one byte: with ONLCR a newline is preceded by CR.\<close>

definition post_byte :: "(nat \<Rightarrow> u8) \<Rightarrow> tty_struct \<Rightarrow> u8 \<Rightarrow> u8 list" where
  "post_byte below t c =
    (let d = out_char below t c
     in (if o_flag t OPOST \<and> o_flag t ONLCR \<and> d = 10 then [13] else []) @ [out_case below t d])"

lemma post_byte_plain: "\<not> o_flag t OPOST \<Longrightarrow> post_byte below t c = [c]"
  by (simp add: post_byte_def out_char_def out_case_def)

lemma post_byte_crnl:
  assumes "c_oflag (termios t) = OPOST OR ONLCR"
  shows "post_byte below t c = (if c = 10 then [13, 10] else [c])"
  using assms
  by (simp add: post_byte_def o_flag_def OPOST_def ONLCR_def OCRNL_def ONLRET_def OLCUC_def out_char_def out_case_def)

text \<open>Filling the output queue changes neither the flags nor what they make of a byte.\<close>

lemma post_queue [simp]:
  "o_flag (t\<lparr>write_q := q\<rparr>) = o_flag t" "out_char below (t\<lparr>write_q := q\<rparr>) = out_char below t"
  "out_case below (t\<lparr>write_q := q\<rparr>) = out_case below t" "post_byte below (t\<lparr>write_q := q\<rparr>) = post_byte below t"
  by (simp_all add: fun_eq_iff o_flag_def out_char_def out_case_def post_byte_def)

text \<open>One byte: a CR takes a round of the loop of its own.\<close>

lemma write_loop_byte:
  fixes s i c defines "xs \<equiv> post_byte (before_ctype s) (tt i s) c"
  assumes i: "i < length (ttys s)" and cr: "\<not> cr_flag s" and q: "queue_ok (write_q (tt i s))" and nr: "0 < nr"
    and room: "length (queue_chars (write_q (tt i s))) + length xs < TTY_BUF_SIZE"
    and c: "c = user (kr (sy s)) b"
  shows "write_loop (Suc (Suc f)) i b nr s
    = write_loop (if length xs = 2 then f else Suc f) i (b + 1) (nr - 1)
        (upd_tty i (\<lambda>t. t\<lparr>write_q := fold PUTCH xs (write_q t)\<rparr>) s)"
proof -
  let ?d = "out_char (before_ctype s) (tt i s) c"
  have full: "\<not> FULL (write_q (tt i s))"
    using FULL_chars [OF q] room by (auto simp: xs_def post_byte_def Let_def split: if_splits)
  have s: "s\<lparr>cr_flag := False\<rparr> = s" using cr by simp
  show ?thesis
  proof (cases "o_flag (tt i s) OPOST \<and> o_flag (tt i s) ONLCR \<and> ?d = 10")
    case False
    then show ?thesis
      using full nr c
      by (subst write_loop.simps(2)) (auto simp: s cr xs_def post_byte_def Let_def put_write_def simp del: write_loop.simps)
  next
    case True
    let ?s = "put_write i 13 (s\<lparr>cr_flag := True\<rparr>)"
    have xs: "xs = [13, out_case (before_ctype s) (tt i s) 10]" using True by (simp add: xs_def post_byte_def)
    have t: "tt i ?s = (tt i s)\<lparr>write_q := PUTCH 13 (write_q (tt i s))\<rparr>"
      using i by (simp add: put_write_def upd_tty_def)
    have "\<not> FULL (PUTCH 13 (write_q (tt i s)))"
      using FULL_chars [OF PUTCH_ok [OF q], of 13] tq.chars_put [OF q, of 13] room xs
      by (auto simp del: length_queue_chars)
    then have "write_loop (Suc f) i b nr ?s
        = write_loop f i (b + 1) (nr - 1) (put_write i (out_case (before_ctype s) (tt i s) 10) (?s\<lparr>cr_flag := False\<rparr>))"
      using nr t True c
      by (subst write_loop.simps(2)) (simp add: put_write_def del: write_loop.simps)
    moreover have "put_write i x (?s\<lparr>cr_flag := False\<rparr>) = upd_tty i (\<lambda>t. t\<lparr>write_q := PUTCH x (PUTCH 13 (write_q t))\<rparr>) s" for x
      using i s by (simp add: put_write_def upd_tty_def)
    moreover have "write_loop (Suc (Suc f)) i b nr s = write_loop (Suc f) i b nr ?s"
      using full nr True c cr
      by (subst write_loop.simps(2)) (simp add: put_write_def del: write_loop.simps)
    ultimately show ?thesis
      by (simp add: xs del: write_loop.simps)
  qed
qed

abbreviation processed :: "terminal \<Rightarrow> nat \<Rightarrow> u32 \<Rightarrow> nat \<Rightarrow> u8 list" where
  "processed s i b n \<equiv> concat (map (post_byte (before_ctype s) (tt i s)) (get_fs_bytes b n (kr (sy s))))"

lemma write_loop_bytes:
  assumes i: "i < length (ttys s)" and cr: "\<not> cr_flag s" and q: "queue_ok (write_q (tt i s))"
    and room: "length (queue_chars (write_q (tt i s))) + length (processed s i b n) < TTY_BUF_SIZE"
    and f: "2 * n \<le> f"
  shows "write_loop f i b (int n) s
    = (b + of_nat n, 0, upd_tty i (\<lambda>t. t\<lparr>write_q := fold PUTCH (processed s i b n) (write_q t)\<rparr>) s)"
  using assms
proof (induction n arbitrary: b f s)
  case 0
  then show ?case by (cases f) (simp_all add: get_fs_bytes_def upd_tty_def)
next
  case (Suc n)
  then obtain g where g: "f = Suc (Suc g)" by (cases f; cases "f - 1") auto
  let ?c = "user (kr (sy s)) b"
  let ?ys = "post_byte (before_ctype s) (tt i s) ?c"
  let ?xs = "processed s i (b + 1) n"
  let ?s = "upd_tty i (\<lambda>t. t\<lparr>write_q := fold PUTCH ?ys (write_q t)\<rparr>) s"
  let ?g = "if length ?ys = 2 then g else Suc g"
  have room: "length (queue_chars (write_q (tt i s))) + length ?ys + length ?xs < TTY_BUF_SIZE"
    using Suc.prems(4) by (simp add: get_fs_bytes_Suc)
  have step: "write_loop f i b (int (Suc n)) s = write_loop ?g i (b + 1) (int n) ?s"
    unfolding g using write_loop_byte [OF Suc.prems(1-3), of "int (Suc n)" ?c b g] room by simp
  have p: "queue_ok (fold PUTCH ?ys (write_q (tt i s)))"
    "queue_chars (fold PUTCH ?ys (write_q (tt i s))) = queue_chars (write_q (tt i s)) @ ?ys"
    using tq.put_all [OF Suc.prems(3), of ?ys] room by simp_all
  have same: "processed ?s i (b + 1) n = ?xs" using Suc.prems(1) by simp
  have "write_loop ?g i (b + 1) (int n) ?s
      = (b + 1 + of_nat n, 0, upd_tty i (\<lambda>t. t\<lparr>write_q := fold PUTCH ?xs (write_q t)\<rparr>) ?s)"
    using Suc.IH [of ?s "b + 1" ?g] Suc.prems g p room
    unfolding same by (simp del: length_queue_chars)
  then show ?case
    unfolding step using Suc.prems(1) by (simp add: get_fs_bytes_Suc algebra_simps)
qed


lemma rs_out_fields [simp]: "ttys (rs_out i s) = ttys s" "before_ctype (rs_out i s) = before_ctype s"
  by (simp_all add: rs_out_def out_port_def Let_def)

text \<open>C35: a write to a serial line that has room for all of it, when no signal is pending and no newline is
  half written, puts the bytes into the output queue, in order, each as the output flags of the line
  process it, and returns their number. With the flags OPOST and ONLCR each newline becomes CR and LF;
  without OPOST, as the line starts, the bytes are put as they are.\<close>

theorem tty_write_processes:
  fixes others :: others
  assumes i: "i \<le> 2" "length (ttys s) = 3" and drv: "t_write (tt i s) = rs_write" and cr: "\<not> cr_flag s"
    and q: "queue_ok (write_q (tt i s))" and sig: "signal (this s) = 0" and f: "2 \<le> f"
    and room: "length (queue_chars (write_q (tt i s))) + length (processed s i b n) < TTY_BUF_SIZE - 1"
  shows "(case tty_write f others i b (int n) s of
      Ret (r, s') \<Rightarrow> r = int n \<and> queue_chars (write_q (tt i s')) = queue_chars (write_q (tt i s)) @ processed s i b n
    | _ \<Rightarrow> False)
    \<and> (o_flag (tt i s) OPOST \<or> processed s i b n = get_fs_bytes b n (kr (sy s)))
    \<and> (c_oflag (termios (tt i s)) \<noteq> OPOST OR ONLCR
       \<or> processed s i b n = concat (map (\<lambda>c. if c = 10 then [13, 10] else [c]) (get_fs_bytes b n (kr (sy s)))))"
proof -
  have plain: "o_flag (tt i s) OPOST \<or> processed s i b n = get_fs_bytes b n (kr (sy s))"
    by (cases "o_flag (tt i s) OPOST") (simp_all add: post_byte_plain [THEN ext] concat_map_singleton)
  have crnl: "c_oflag (termios (tt i s)) \<noteq> OPOST OR ONLCR
      \<or> processed s i b n = concat (map (\<lambda>c. if c = 10 then [13, 10] else [c]) (get_fs_bytes b n (kr (sy s))))"
    by (cases "c_oflag (termios (tt i s)) = OPOST OR ONLCR") (simp_all add: post_byte_crnl [THEN ext])
  have "case tty_write f others i b (int n) s of
      Ret (r, s') \<Rightarrow> r = int n \<and> queue_chars (write_q (tt i s')) = queue_chars (write_q (tt i s)) @ processed s i b n
    | _ \<Rightarrow> False"
  proof (cases n)
    case 0
    with f i show ?thesis
      by (cases f) (simp_all add: tty_write_def get_fs_bytes_def)
  next
    case (Suc m)
    obtain g where g: "f = Suc (Suc g)" using f by (cases f; cases "f - 1") auto
    let ?s = "upd_tty i (\<lambda>t. t\<lparr>write_q := fold PUTCH (processed s i b n) (write_q t)\<rparr>) s"
    have il: "i < length (ttys s)" using i by simp
    have full: "\<not> FULL (write_q (tt i s))"
      using FULL_chars [OF q] room by (auto simp del: length_queue_chars)
    have w: "write_loop (2 * nat (int n)) i b (int n) s = (b + of_nat n, 0, ?s)"
      by (rule write_loop_bytes [OF il cr q]) (use room in simp_all)
    have "queue_chars (fold PUTCH (processed s i b n) (write_q (tt i s))) = queue_chars (write_q (tt i s)) @ processed s i b n"
      using tq.put_all [OF q, of "processed s i b n"] room by (simp del: length_queue_chars)
    moreover have "tty_out (Suc g) i ?s = Ret (rs_out i ?s)"
      using drv il by simp
    moreover have "sleep_if_full (Suc g) others i s = Ret s"
      using full by (simp add: sleep_if_full_def)
    ultimately show ?thesis
      using w il i Suc sig unfolding g tty_write_def by (simp del: write_loop.simps)
  qed
  then show ?thesis using plain crnl by blast
qed

text \<open>A serial line with output processing, and the bytes \<open>h\<close> and newline at address 0.\<close>

definition serial_example :: terminal where
  "serial_example =
    \<lparr>sy = one_process\<lparr>kr := blank_kernel\<lparr>user := (\<lambda>a. if a = 0 then 104 else 10)\<rparr>\<rparr>,
     con = unset_console,
     ttys = tty_table[1 := (serial_tty 0x3f8)\<lparr>termios := (termios (serial_tty 0x3f8))\<lparr>c_oflag := OPOST OR ONLCR\<rparr>\<rparr>],
     cr_flag = False, before_ctype = (\<lambda>_. 0)\<rparr>"

lemma serial_example_simps:
  "length (ttys serial_example) = 3" "user (kr (sy serial_example)) = (\<lambda>a. if a = 0 then 104 else 10)"
  "cr_flag serial_example = False" "signal (this serial_example) = 0"
  "tt (Suc 0) serial_example = (serial_tty 0x3f8)\<lparr>termios := (termios (serial_tty 0x3f8))\<lparr>c_oflag := OPOST OR ONLCR\<rparr>\<rparr>"
  by (simp_all add: serial_example_def tty_table_def this_def me_def cur_def one_process_def INIT_TASK_def NR_TASKS_def)

lemma empty_queue_simps [simp]: "queue_ok (empty_queue d)" "queue_chars (empty_queue d) = []"
  by (simp_all add: empty_queue_def queue_ok_def TTY_BUF_SIZE_def queue_chars_def CHARS_def)

lemma tty_write_processes_witness:
  "case tty_write 2 Ret 1 0 2 serial_example of
      Ret (r, s') \<Rightarrow> r = 2 \<and> queue_chars (write_q (tt 1 s')) = [104, 13, 10]
    | _ \<Rightarrow> False"
proof -
  have g: "get_fs_bytes 0 2 (kr (sy serial_example)) = [104, 10]"
    by (simp add: get_fs_bytes_def serial_example_simps numeral_2_eq_2)
  have w: "write_q (tt 1 serial_example) = empty_queue 0x3f8"
    "c_oflag (termios (tt 1 serial_example)) = OPOST OR ONLCR"
    by (simp_all add: serial_example_simps serial_tty_def)
  have e: "processed serial_example 1 0 2 = [104, 13, 10]"
    unfolding g using post_byte_crnl [OF w(2)] by simp
  show ?thesis
    using tty_write_processes [of 1 serial_example 2 0 2 Ret, unfolded e of_nat_numeral w(1) empty_queue_simps(2)
        append_Nil]
    by (simp add: serial_example_simps serial_tty_def TTY_BUF_SIZE_def)
qed

section \<open>Line editing\<close>

text \<open>The editor, on the bytes of the lines that have been typed: what one byte of input does.\<close>

definition ends_line :: "tty_struct \<Rightarrow> u8 \<Rightarrow> bool" where
  "ends_line t c \<longleftrightarrow> c = 10 \<or> is_cc c t VEOF"

definition drop_line :: "tty_struct \<Rightarrow> u8 list \<Rightarrow> u8 list" where
  "drop_line t xs = rev (dropWhile (\<lambda>c. \<not> ends_line t c) (rev xs))"

definition drop_char :: "tty_struct \<Rightarrow> u8 list \<Rightarrow> u8 list" where
  "drop_char t xs = (if xs = [] \<or> ends_line t (last xs) then xs else butlast xs)"

definition edit :: "(nat \<Rightarrow> u8) \<Rightarrow> tty_struct \<Rightarrow> u8 \<Rightarrow> u8 list \<Rightarrow> u8 list" where
  "edit below t c xs =
    (case in_char below t c of
       None \<Rightarrow> xs
     | Some c \<Rightarrow>
        if l_flag t ICANON \<and> is_cc c t VKILL then drop_line t xs
        else if l_flag t ICANON \<and> is_cc c t VERASE then drop_char t xs
        else if l_flag t ICANON \<and> (is_cc c t VSTOP \<or> is_cc c t VSTART) then xs
        else if l_flag t ISIG \<and> (is_cc c t VINTR \<or> is_cc c t VQUIT) then xs
        else xs @ [c])"

lemma drop_line_snoc: "drop_line t xs = (if xs = [] \<or> ends_line t (last xs) then xs else drop_line t (butlast xs))"
  by (cases xs rule: rev_cases) (auto simp: drop_line_def)

lemma drop_line_length: "length (drop_line t xs) \<le> length xs"
  using length_dropWhile_le [of "\<lambda>c. \<not> ends_line t c" "rev xs"] by (simp add: drop_line_def)

lemma edit_length: "length (edit below t c xs) \<le> Suc (length xs)"
  using drop_line_length [of t xs]
  by (auto simp: edit_def drop_char_def split: option.split)

text \<open>What the editor looks at but for the bytes of the lines, and what the settings make of input.\<close>

definition same :: "nat \<Rightarrow> terminal \<Rightarrow> terminal \<Rightarrow> bool" where
  "same i s s' \<longleftrightarrow> termios (tt i s') = termios (tt i s) \<and> t_write (tt i s') = t_write (tt i s)
    \<and> read_q (tt i s') = read_q (tt i s) \<and> before_ctype s' = before_ctype s \<and> length (ttys s') = length (ttys s)"

definition lines_are :: "nat \<Rightarrow> terminal \<Rightarrow> u8 list \<Rightarrow> bool" where
  "lines_are i s xs \<longleftrightarrow> queue_ok (secondary (tt i s)) \<and> queue_chars (secondary (tt i s)) = xs"

definition gives :: "nat \<Rightarrow> terminal \<Rightarrow> terminal kres \<Rightarrow> u8 list \<Rightarrow> bool" where
  "gives i s r xs \<longleftrightarrow> (\<exists>s'. r = Ret s' \<and> same i s s' \<and> lines_are i s' xs)"

text \<open>Echoing changes the output queue only: the line is a serial one, or echo is off.\<close>

definition silent :: "nat \<Rightarrow> nat \<Rightarrow> terminal \<Rightarrow> bool" where
  "silent f i s \<longleftrightarrow> i < length (ttys s) \<and> (\<not> l_flag (tt i s) ECHO \<or> t_write (tt i s) = rs_write \<and> 0 < f)"

lemma same_refl [simp]: "same i s s"
  by (simp add: same_def)

lemma same_trans: "same i s s' \<Longrightarrow> same i s' s'' \<Longrightarrow> same i s s''"
  by (simp add: same_def)

lemma same_flags:
  assumes "same i s s'"
  shows "l_flag (tt i s') m = l_flag (tt i s) m" "is_cc c (tt i s') j = is_cc c (tt i s) j"
    "silent f i s' = silent f i s" "ends_line (tt i s') = ends_line (tt i s)"
    "drop_line (tt i s') = drop_line (tt i s)" "edit b (tt i s') = edit b (tt i s)" "i_flag (tt i s') m = i_flag (tt i s) m"
proof -
  have t: "termios (tt i s') = termios (tt i s)" "t_write (tt i s') = t_write (tt i s)" "length (ttys s') = length (ttys s)"
    using assms by (simp_all add: same_def)
  show l: "l_flag (tt i s') m = l_flag (tt i s) m" and c: "is_cc c (tt i s') j = is_cc c (tt i s) j"
    and f: "i_flag (tt i s') m = i_flag (tt i s) m" for m c j
    by (simp_all add: t l_flag_def is_cc_def cc_def i_flag_def)
  show "silent f i s' = silent f i s"
    by (simp add: silent_def l t)
  show e: "ends_line (tt i s') = ends_line (tt i s)"
    by (simp add: ends_line_def c fun_eq_iff)
  show d: "drop_line (tt i s') = drop_line (tt i s)"
    by (simp add: drop_line_def e fun_eq_iff)
  have ic: "in_char b (tt i s') a = in_char b (tt i s) a" for b a
    unfolding in_char_def f by (rule refl)
  have dc: "drop_char (tt i s') xs = drop_char (tt i s) xs" for xs
    unfolding drop_char_def e by (rule refl)
  have "edit b (tt i s') a xs = edit b (tt i s) a xs" for a xs
    unfolding edit_def ic dc l c d by (rule refl)
  then show "edit b (tt i s') = edit b (tt i s)"
    by (intro ext)
qed

lemma put_write_same [simp]:
  "i < length (ttys s) \<Longrightarrow> same i s (put_write i c s)" "secondary (tt i (put_write i c s)) = secondary (tt i s)"
  by (simp add: same_def put_write_def upd_tty_def)
    (cases "i < length (ttys s)", simp_all add: put_write_def upd_tty_def list_update_beyond)

text \<open>Whatever is echoed.\<close>

lemma silent_write:
  assumes "silent f i s" "l_flag (tt i s) ECHO" "same i s s1" "secondary (tt i s1) = secondary (tt i s)"
  obtains s' where "tty_out f i s1 = Ret s'" "same i s s'" "secondary (tt i s') = secondary (tt i s)"
proof -
  obtain g where "f = Suc g" using assms(1,2) by (cases f) (auto simp: silent_def)
  then have "tty_out f i s1 = Ret (rs_out i s1)"
    using assms(1-3) by (simp add: silent_def same_def)
  then show ?thesis
    using assms(3,4) by (intro that [of "rs_out i s1"]) (simp_all add: same_def)
qed

lemma echo_erase_same:
  assumes "silent f i s"
  shows "\<exists>s'. echo_erase (tty_out f i) i c s = Ret s' \<and> same i s s' \<and> secondary (tt i s') = secondary (tt i s)"
proof (cases "l_flag (tt i s) ECHO")
  case True
  let ?s1 = "put_write i 127 (if sint c < 32 then put_write i 127 s else s)"
  have il: "i < length (ttys s)" using assms by (simp add: silent_def)
  then have "same i s ?s1"
    using put_write_same(1) [of i s] put_write_same(1) [of i "put_write i 127 s"]
    by (auto intro: same_trans simp: same_def)
  then obtain s' where "tty_out f i ?s1 = Ret s'" "same i s s'" "secondary (tt i s') = secondary (tt i s)"
    by (rule silent_write [OF assms True]) auto
  with True show ?thesis by (simp add: echo_erase_def)
qed (simp add: echo_erase_def)

lemma line_empty_chars:
  assumes "lines_are i s xs"
  shows "line_empty (tt i s) \<longleftrightarrow> xs = [] \<or> ends_line (tt i s) (last xs)"
proof (cases "xs = []")
  case True
  with assms EMPTY_chars [of "secondary (tt i s)"] show ?thesis by (simp add: lines_are_def line_empty_def)
next
  case False
  have q: "queue_ok (secondary (tt i s))" "queue_chars (secondary (tt i s)) = xs"
    using assms by (simp_all add: lines_are_def)
  then have "CHARS (secondary (tt i s)) \<noteq> 0" using False by (auto simp: queue_chars_def)
  from LAST_chars(1) [OF q(1) this] q False EMPTY_chars [OF q(1)] show ?thesis
    by (simp add: line_empty_def ends_line_def)
qed

lemma drop_secondary_lines:
  assumes "lines_are i s xs" "xs \<noteq> []" "i < length (ttys s)"
  shows "same i s (drop_secondary i s)" "lines_are i (drop_secondary i s) (butlast xs)"
proof -
  have q: "queue_ok (secondary (tt i s))" "queue_chars (secondary (tt i s)) = xs"
    using assms by (simp_all add: lines_are_def)
  then have "CHARS (secondary (tt i s)) \<noteq> 0" using assms(2) by (auto simp: queue_chars_def)
  note l = LAST_chars(2,3) [OF q(1) this]
  show "same i s (drop_secondary i s)" "lines_are i (drop_secondary i s) (butlast xs)"
    using l q assms(3) by (simp_all add: same_def lines_are_def drop_secondary_def upd_tty_def)
qed

lemma kill_line_gives:
  "silent f i s \<Longrightarrow> lines_are i s xs \<Longrightarrow> length xs < g \<Longrightarrow> gives i s (kill_line g (tty_out f i) i s) (drop_line (tt i s) xs)"
proof (induction g arbitrary: s xs)
  case (Suc g)
  show ?case
  proof (cases "line_empty (tt i s)")
    case True
    with Suc.prems drop_line_snoc [of "tt i s" xs] line_empty_chars [OF Suc.prems(2)] show ?thesis
      by (auto simp: gives_def)
  next
    case False
    then have ne: "xs \<noteq> []" "\<not> ends_line (tt i s) (last xs)" using line_empty_chars [OF Suc.prems(2)] by auto
    obtain s1 where s1: "echo_erase (tty_out f i) i (LAST (secondary (tt i s))) s = Ret s1" "same i s s1"
      "secondary (tt i s1) = secondary (tt i s)"
      using echo_erase_same [OF Suc.prems(1)] by blast
    have il: "i < length (ttys s1)" and l1: "lines_are i s1 xs"
      using Suc.prems s1 by (simp_all add: silent_def same_def lines_are_def)
    note d = drop_secondary_lines [OF l1 ne(1) il]
    have ss: "same i s (drop_secondary i s1)" using s1(2) d(1) by (rule same_trans)
    have lg: "length (butlast xs) < g" using Suc.prems(3) ne(1) by (cases xs) simp_all
    have "gives i (drop_secondary i s1) (kill_line g (tty_out f i) i (drop_secondary i s1))
        (drop_line (tt i (drop_secondary i s1)) (butlast xs))"
      using Suc.prems(1) lg d(2) same_flags(3) [OF ss] by (intro Suc.IH) simp_all
    then show ?thesis
      using False s1(1) ss ne drop_line_snoc [of "tt i s" xs] same_flags(5) [OF ss]
      by (auto simp: gives_def intro: same_trans)
  qed
qed simp

lemma erase_char_gives:
  assumes "silent f i s" "lines_are i s xs"
  shows "gives i s (erase_char (tty_out f i) i s) (drop_char (tt i s) xs)"
proof (cases "line_empty (tt i s)")
  case True
  with assms line_empty_chars [OF assms(2)] show ?thesis
    by (auto simp: gives_def erase_char_def drop_char_def)
next
  case False
  then have ne: "xs \<noteq> []" "\<not> ends_line (tt i s) (last xs)" using line_empty_chars [OF assms(2)] by auto
  obtain s1 where s1: "echo_erase (tty_out f i) i (LAST (secondary (tt i s))) s = Ret s1" "same i s s1"
    "secondary (tt i s1) = secondary (tt i s)"
    using echo_erase_same [OF assms(1)] by blast
  have "i < length (ttys s1)" "lines_are i s1 xs"
    using assms s1 by (simp_all add: silent_def same_def lines_are_def)
  note d = drop_secondary_lines [OF this(2) ne(1) this(1)]
  show ?thesis
    using False s1 ne d by (auto simp: gives_def erase_char_def drop_char_def intro: same_trans)
qed

lemma echo_char_same:
  assumes "silent f i s"
  shows "\<exists>s'. echo_char (tty_out f i) i c s = Ret s' \<and> same i s s' \<and> secondary (tt i s') = secondary (tt i s)"
proof (cases "l_flag (tt i s) ECHO")
  case True
  let ?s1 = "if c = 10 then put_write i 13 (put_write i 10 s)
              else if sint c < 32
              then if l_flag (tt i s) ECHOCTL then put_write i (c + 64) (put_write i (ch CHR ''^'') s) else s
              else put_write i c s"
  have il: "i < length (ttys s)" using assms by (simp add: silent_def)
  then have il2: "i < length (ttys (put_write i a s))" for a
    by (simp add: put_write_def)
  have two: "same i s (put_write i a (put_write i b s))" for a b
    by (rule same_trans [OF put_write_same(1) [OF il] put_write_same(1) [OF il2]])
  then have "same i s ?s1" using il by simp
  then obtain s' where "tty_out f i ?s1 = Ret s'" "same i s s'" "secondary (tt i s') = secondary (tt i s)"
    by (rule silent_write [OF assms True]) auto
  with True show ?thesis by (simp add: echo_char_def)
qed (simp add: echo_char_def)

lemma store_char_gives:
  assumes "silent f i s" "lines_are i s xs" "length xs < TTY_BUF_SIZE - 1"
  shows "gives i s (store_char (tty_out f i) i c s) (xs @ [c])"
proof -
  define s0 where "s0 = (if c = 10 \<or> is_cc c (tt i s) VEOF
     then upd_tty i (\<lambda>t. t\<lparr>secondary := (secondary t)\<lparr>q_data := q_data (secondary t) + 1\<rparr>\<rparr>) s else s)"
  have il: "i < length (ttys s)" using assms(1) by (simp add: silent_def)
  have s0: "same i s s0" "lines_are i s0 xs"
    using assms(2) il by (simp_all add: s0_def same_def lines_are_def)
  obtain s1 where s1: "echo_char (tty_out f i) i c s0 = Ret s1" "same i s0 s1"
    "secondary (tt i s1) = secondary (tt i s0)"
    using echo_char_same [of f i s0 c] assms(1) same_flags(3) [OF s0(1)] by blast
  have q: "queue_ok (secondary (tt i s1))" "queue_chars (secondary (tt i s1)) = xs"
    using s0 s1(3) by (simp_all add: lines_are_def)
  have "queue_chars (PUTCH c (secondary (tt i s1))) = xs @ [c]"
    using tq.chars_put [OF q(1), of c] assms(3) unfolding q(2) by blast
  then have "lines_are i (put_secondary i c s1) (xs @ [c])" "same i s1 (put_secondary i c s1)"
    using il PUTCH_ok [OF q(1)] same_trans [OF s0(1) s1(2)]
    by (simp_all add: lines_are_def put_secondary_def same_def)
  then show ?thesis
    using s1(1) same_trans [OF same_trans [OF s0(1) s1(2)]]
    by (auto simp: gives_def store_char_def simp flip: s0_def)
qed

lemma cook_char_gives:
  assumes s: "silent f i s" "lines_are i s xs" "length xs < TTY_BUF_SIZE - 1" and f: "length xs < g"
  shows "gives i s (cook_char g (tty_out f i) i c s) (edit (before_ctype s) (tt i s) c xs)"
proof -
  have il: "i < length (ttys s)" using s(1) by (simp add: silent_def)
  have keep: "gives i s (Ret (upd_tty i (\<lambda>t. t\<lparr>stopped := b\<rparr>) s)) xs" "gives i s (Ret (tty_intr i m s)) xs"
    "gives i s (Ret s) xs" for b m
    using s(2) il by (simp_all add: gives_def same_def lines_are_def tty_intr_def Let_def)
  show ?thesis
  proof (cases "in_char (before_ctype s) (tt i s) c")
    case None
    then show ?thesis using keep(3) by (simp add: cook_char_def edit_def)
  next
    case (Some a)
    then show ?thesis
      using keep kill_line_gives [OF s(1,2) f] erase_char_gives [OF s(1,2)] store_char_gives [OF s, of a]
      by (auto simp: cook_char_def edit_def Let_def)
  qed
qed

text \<open>All of the input queue, then the readers are woken.\<close>

lemma cook_loop_gives:
  assumes "silent f i s" "lines_are i s xs" "queue_ok (read_q (tt i s))" "queue_chars (read_q (tt i s)) = rs"
    "length xs + length rs < TTY_BUF_SIZE - 1" "length xs + 2 * length rs < g"
  shows "\<exists>s'. cook_loop g (tty_out f i) i s = Ret s' \<and> termios (tt i s') = termios (tt i s)
    \<and> lines_are i s' (fold (edit (before_ctype s) (tt i s)) rs xs) \<and> queue_chars (read_q (tt i s')) = []
    \<and> length (ttys s') = length (ttys s)"
  using assms
proof (induction rs arbitrary: s xs g)
  case Nil
  then show ?case
    using EMPTY_chars [of "read_q (tt i s)"] by (cases g) auto
next
  case (Cons r rs)
  then obtain h where g: "g = Suc h" by (cases g) auto
  have il: "i < length (ttys s)" using Cons.prems(1) by (simp add: silent_def)
  have "\<not> EMPTY (read_q (tt i s))" using EMPTY_chars Cons.prems(3,4) by simp
  moreover have "\<not> FULL (secondary (tt i s))"
    using FULL_chars [of "secondary (tt i s)"] Cons.prems(2,5) by (auto simp: lines_are_def)
  moreover obtain q where q: "GETCH (read_q (tt i s)) = (r, q)" "queue_ok q" "queue_chars q = rs"
    using tq.get_chars [OF Cons.prems(3,4)] tq.get_ok [OF Cons.prems(3)] by (cases "GETCH (read_q (tt i s))") auto
  define s0 where "s0 = upd_tty i (\<lambda>t. t\<lparr>read_q := q\<rparr>) s"
  have s0: "tt i s0 = (tt i s)\<lparr>read_q := q\<rparr>" "before_ctype s0 = before_ctype s" "length (ttys s0) = length (ttys s)"
    using il by (simp_all add: s0_def)
  have flags: "l_flag (tt i s0) = l_flag (tt i s)" "is_cc c (tt i s0) = is_cc c (tt i s)"
    "i_flag (tt i s0) = i_flag (tt i s)" for c
    by (simp_all add: fun_eq_iff l_flag_def i_flag_def is_cc_def cc_def s0)
  have ed: "edit b (tt i s0) = edit b (tt i s)" for b
  proof (intro ext)
    fix c ys
    show "edit b (tt i s0) c ys = edit b (tt i s) c ys"
      unfolding edit_def in_char_def drop_line_def drop_char_def ends_line_def flags by (rule refl)
  qed
  have p: "silent f i s0" "lines_are i s0 xs"
    using Cons.prems(1,2) flags(1) s0 by (simp_all add: silent_def lines_are_def)
  have len: "length xs < TTY_BUF_SIZE - 1" "length xs < h" using Cons.prems(5,6) g by simp_all
  let ?ys = "edit (before_ctype s) (tt i s) r xs"
  obtain s1 where s1: "cook_char h (tty_out f i) i r s0 = Ret s1" "same i s0 s1" "lines_are i s1 ?ys"
    using cook_char_gives [OF p len, of r] ed s0 by (auto simp: gives_def)
  have "length ?ys \<le> Suc (length xs)" by (rule edit_length)
  then have "length ?ys + length rs < TTY_BUF_SIZE - 1" "length ?ys + 2 * length rs < h"
    using Cons.prems(5,6) g by simp_all
  moreover have "queue_ok (read_q (tt i s1))" "queue_chars (read_q (tt i s1)) = rs"
    using s1(2) q s0 by (simp_all add: same_def)
  moreover have "silent f i s1" using p(1) same_flags(3) [OF s1(2)] by simp
  ultimately obtain s' where s': "cook_loop h (tty_out f i) i s1 = Ret s'" "termios (tt i s') = termios (tt i s1)"
    "lines_are i s' (fold (edit (before_ctype s1) (tt i s1)) rs ?ys)" "queue_chars (read_q (tt i s')) = []"
    "length (ttys s') = length (ttys s1)"
    using Cons.IH [of s1 ?ys h] s1(3) by blast
  moreover have "edit (before_ctype s1) (tt i s1) = edit (before_ctype s) (tt i s)"
    using same_flags(6) [OF s1(2)] ed s1(2) s0(2) by (simp add: same_def)
  ultimately show ?case
    unfolding g using q(1) s1(1,2) s0 \<open>\<not> EMPTY _\<close> \<open>\<not> FULL _\<close> by (auto simp: same_def simp flip: s0_def)
qed

text \<open>C7: on a serial line, or with echo off, and when the queue of typed lines has room for all of the input,
  \<open>copy_to_cooked\<close> is a line editor: the bytes typed are
  taken from the input queue, in order, and change the typed lines as the editor does: a kill character
  drops the line that is not ended, an erase character its last byte, stop, start, interrupt and quit
  characters leave no byte, and any other byte, translated as the input flags say, is appended.\<close>

theorem copy_to_cooked_edits:
  assumes i: "i < length (ttys s)" and e: "\<not> l_flag (tt i s) ECHO \<or> t_write (tt i s) = rs_write"
    and q: "queue_ok (read_q (tt i s))" "queue_ok (secondary (tt i s))"
    and room: "length (queue_chars (secondary (tt i s))) + length (queue_chars (read_q (tt i s))) < TTY_BUF_SIZE - 1"
    and f: "3 * TTY_BUF_SIZE \<le> f"
  shows "case copy_to_cooked f i s of
      Ret s' \<Rightarrow> queue_chars (secondary (tt i s'))
          = fold (edit (before_ctype s) (tt i s)) (queue_chars (read_q (tt i s))) (queue_chars (secondary (tt i s)))
        \<and> queue_chars (read_q (tt i s')) = [] \<and> termios (tt i s') = termios (tt i s)
    | _ \<Rightarrow> False"
proof -
  have "0 < f" using f by (simp add: TTY_BUF_SIZE_def)
  then have "silent f i s" "lines_are i s (queue_chars (secondary (tt i s)))"
    using i e q by (simp_all add: silent_def lines_are_def disj_commute)
  moreover have "length (queue_chars (secondary (tt i s))) + 2 * length (queue_chars (read_q (tt i s))) < f"
    using room f by linarith
  ultimately obtain s' where s': "cook_loop f (tty_out f i) i s = Ret s'" "termios (tt i s') = termios (tt i s)"
    "lines_are i s' (fold (edit (before_ctype s) (tt i s)) (queue_chars (read_q (tt i s))) (queue_chars (secondary (tt i s))))"
    "queue_chars (read_q (tt i s')) = []" "length (ttys s') = length (ttys s)"
    using cook_loop_gives [OF _ _ q(1) refl room, of f f] by blast
  obtain p c where "wake_up (proc_list (secondary (tt i s'))) (sc (sy s')) = (p, c)" by fastforce
  then have w: "tt i (wake_readers i s') = (tt i s')\<lparr>secondary := (secondary (tt i s'))\<lparr>proc_list := p\<rparr>\<rparr>"
    using i s'(5) by (simp add: wake_readers_def set_sleepers_def upd_tty_def)
  show ?thesis
    using s' by (simp add: copy_to_cooked_def cook_with_def w lines_are_def)
qed

text \<open>The bytes \<open>a\<close>, \<open>b\<close>, delete, \<open>c\<close>, carriage return, typed on a line without echo.\<close>

definition typing_example :: terminal where
  "typing_example = serial_example
    \<lparr>ttys := [(serial_tty 0x3f8)\<lparr>termios := (termios (serial_tty 0x3f8))\<lparr>c_iflag := ICRNL, c_lflag := ICANON\<rparr>,
               read_q := fold PUTCH [97, 98, 127, 99, 13] (empty_queue 0x3f8)\<rparr>]\<rparr>"

lemma copy_to_cooked_edits_witness:
  "case copy_to_cooked (3 * TTY_BUF_SIZE) 0 typing_example of
     Ret s' \<Rightarrow> queue_chars (secondary (tt 0 s')) = [97, 99, 10] | _ \<Rightarrow> False"
proof -
  let ?t = "tt 0 typing_example"
  have t: "secondary ?t = empty_queue 0" "read_q ?t = fold PUTCH [97, 98, 127, 99, 13] (empty_queue 0x3f8)"
    "t_write ?t = rs_write" "length (ttys typing_example) = 1"
    by (simp_all add: typing_example_def serial_tty_def)
  have r: "queue_ok (read_q ?t)" "queue_chars (read_q ?t) = [97, 98, 127, 99, 13]"
    using tq.put_all [of "empty_queue 0x3f8" "[97, 98, 127, 99, 13]"] unfolding t
    by (simp_all add: TTY_BUF_SIZE_def)
  have in_c: "in_char b ?t c = Some (if c = 13 then 10 else c)" for b c
    by (simp add: in_char_def typing_example_def i_flag_def ICRNL_def IUCLC_def INLCR_def)
  have fl: "l_flag ?t ICANON" "\<not> l_flag ?t ISIG"
    by (simp_all add: typing_example_def l_flag_def ICANON_def ISIG_def)
  have cc: "cc ?t VERASE = 127" "cc ?t VKILL = 21" "cc ?t VSTOP = 19" "cc ?t VSTART = 17" "cc ?t VEOF = 4"
    by (simp_all add: cc_def typing_example_def serial_tty_def INIT_C_CC_def VERASE_def VKILL_def VSTOP_def
        VSTART_def VEOF_def)
  have ed: "fold (edit (before_ctype typing_example) ?t) [97, 98, 127, 99, 13] [] = [97, 99, 10]"
    by (simp add: edit_def in_c fl is_cc_def cc drop_char_def ends_line_def)
  have sec: "queue_ok (secondary ?t)" "queue_chars (secondary ?t) = []"
    by (simp_all add: t)
  have i: "0 < length (ttys typing_example)" and e: "\<not> l_flag ?t ECHO \<or> t_write ?t = rs_write"
    by (simp_all add: t)
  have room: "length (queue_chars (secondary ?t)) + length (queue_chars (read_q ?t)) < TTY_BUF_SIZE - 1"
    unfolding r sec by (simp add: TTY_BUF_SIZE_def)
  show ?thesis
    using copy_to_cooked_edits [OF i e r(1) sec(1) room order_refl, unfolded r(2) sec(2) ed]
    by (cases "copy_to_cooked (3 * TTY_BUF_SIZE) 0 typing_example") simp_all
qed


section \<open>A reader that does not sleep\<close>

lemma tty_read_loop_spins:
  assumes "l_flag (tt i s) ICANON" "q_data (secondary (tt i s)) = 0" "\<not> EMPTY (secondary (tt i s))"
    "LEFT_chars (secondary (tt i s)) > 20" "signal (this s) = 0" "0 < nr"
  shows "tty_read_loop f others i oldalarm time minimum False b nr got s = Hang"
proof (induction f)
  case (Suc f)
  have "sleep_if_empty f others i s = (if f = 0 then Hang else Ret s)"
    using assms(3) by (cases f) simp_all
  with Suc assms show ?case by (simp add: no_line_def)
qed simp

text \<open>A process that reads a line of which only the first bytes have been typed does not sleep until the
  rest comes: \<open>sleep_if_empty\<close> returns at once, because the queue is not empty, and the loop goes round in
  the kernel for ever, without a call of \<open>schedule\<close>, whatever the other processes would do.\<close>

theorem tty_read_spins:
  fixes others :: others
  assumes "i \<le> 2" "0 < nr" "cc (tt i s) VTIME = 0" "l_flag (tt i s) ICANON"
    "q_data (secondary (tt i s)) = 0" "\<not> EMPTY (secondary (tt i s))" "LEFT_chars (secondary (tt i s)) > 20"
    "signal (this s) = 0"
  shows "tty_read f others i buf nr s = Hang"
  using assms by (simp add: tty_read_def Let_def tty_read_loop_spins)

text \<open>The byte \<open>a\<close> has been typed.\<close>

definition half_line :: terminal where
  "half_line = serial_example
    \<lparr>ttys := [(serial_tty 0x3f8)\<lparr>termios := (termios (serial_tty 0x3f8))\<lparr>c_lflag := ICANON\<rparr>,
               secondary := PUTCH 97 (empty_queue 0)\<rparr>]\<rparr>"

lemma tty_read_spins_witness: "tty_read 100 Ret 0 0 10 half_line = Hang"
proof (rule tty_read_spins)
  have "this half_line = this serial_example" by (simp add: half_line_def this_def)
  then show "signal (this half_line) = 0" by (simp add: serial_example_simps)
qed (simp_all add: half_line_def cc_def serial_tty_def INIT_C_CC_def VTIME_def l_flag_def ICANON_def PUTCH_def INC_def
    empty_queue_def EMPTY_def LEFT_chars_def TTY_BUF_SIZE_def)

end
