(* ===== verification/Pipe_Fifo.thy ===== *)
theory Pipe_Fifo imports User_Memory Ring_Arith begin

text \<open>
  A pipe (\<open>Pipe\<close>) is a bounded queue of bytes: the bytes written come out in the order they were
  written, across the end of the page.
\<close>

definition pipe_ok :: "nat \<Rightarrow> kernel \<Rightarrow> bool" where
  "pipe_ok i s \<longleftrightarrow> i < length (inode_table s) \<and> 2 \<le> length (i_zone (inode_table s ! i))
    \<and> PIPE_HEAD (inode_table s ! i) < PAGE_SIZE \<and> PIPE_TAIL (inode_table s ! i) < PAGE_SIZE
    \<and> i_size (inode_table s ! i) + PAGE_SIZE \<le> 2 ^ 32"

text \<open>The bytes in the pipe, from its tail to its head.\<close>

definition pipe_chars :: "nat \<Rightarrow> kernel \<Rightarrow> u8 list" where
  "pipe_chars i s =
    (let n = inode_table s ! i
     in map (\<lambda>j. load_byte (mem s) (i_size n + (PIPE_TAIL n + j) mod PAGE_SIZE)) [0..<PIPE_SIZE n])"

lemma PIPE_SIZE_nat:
  assumes "PIPE_HEAD n < PAGE_SIZE" "PIPE_TAIL n < PAGE_SIZE"
  shows "PIPE_SIZE n = (PIPE_HEAD n + PAGE_SIZE - PIPE_TAIL n) mod PAGE_SIZE"
proof -
  have "int (PIPE_HEAD n + PAGE_SIZE - PIPE_TAIL n) = int (PIPE_HEAD n) - int (PIPE_TAIL n) + int PAGE_SIZE"
    using assms by simp
  then have "(int (PIPE_HEAD n) - int (PIPE_TAIL n)) mod int PAGE_SIZE
      = int ((PIPE_HEAD n + PAGE_SIZE - PIPE_TAIL n) mod PAGE_SIZE)"
    by (simp only: zmod_int mod_add_self2)
  then show ?thesis by (simp add: PIPE_SIZE_def)
qed

lemma pipe_chars_length [simp]: "length (pipe_chars i s) = PIPE_SIZE (inode_table s ! i)"
  by (simp add: pipe_chars_def Let_def)

section \<open>Writing\<close>

text \<open>One round of the loop: \<open>k\<close> bytes go to the head.\<close>

definition pipe_put :: "nat \<Rightarrow> u8 list \<Rightarrow> kernel \<Rightarrow> kernel" where
  "pipe_put i xs s =
    (let n = inode_table s ! i;
         s = upd_inode i (\<lambda>n. n\<lparr>i_zone := (i_zone n)[0 := (PIPE_HEAD n + length xs) mod PAGE_SIZE]\<rparr>) s
     in s\<lparr>mem := store_bytes (i_size n + PIPE_HEAD n) xs (mem s)\<rparr>)"

lemma pipe_put:
  assumes ok: "pipe_ok i s" and k: "length xs \<le> PAGE_SIZE - PIPE_HEAD (inode_table s ! i)"
    "PIPE_SIZE (inode_table s ! i) + length xs < PAGE_SIZE"
  shows "pipe_ok i (pipe_put i xs s)" "pipe_chars i (pipe_put i xs s) = pipe_chars i s @ xs"
    "user (pipe_put i xs s) = user s" "i_count (inode_table (pipe_put i xs s) ! i) = i_count (inode_table s ! i)"
proof -
  define n where "n = inode_table s ! i"
  define h t a where "h = PIPE_HEAD n" and "t = PIPE_TAIL n" and "a = i_size n"
  have o: "i < length (inode_table s)" "2 \<le> length (i_zone n)" "h < PAGE_SIZE" "t < PAGE_SIZE" "a + PAGE_SIZE \<le> 2 ^ 32"
    using ok by (simp_all add: pipe_ok_def n_def h_def t_def a_def)
  let ?n = "n\<lparr>i_zone := (i_zone n)[0 := (h + length xs) mod PAGE_SIZE]\<rparr>"
  have n': "inode_table (pipe_put i xs s) ! i = ?n"
    using o(1) by (simp add: pipe_put_def Let_def n_def h_def)
  have f: "PIPE_HEAD ?n = (h + length xs) mod PAGE_SIZE" "PIPE_TAIL ?n = t" "i_size ?n = a"
    using o(2) less_le_trans [of 0 2 "length (i_zone n)"] by (auto simp: PIPE_HEAD_def PIPE_TAIL_def t_def a_def)
  show ok': "pipe_ok i (pipe_put i xs s)"
    using ok o n' f by (simp add: pipe_ok_def pipe_put_def Let_def PAGE_SIZE_def n_def)
  have sz: "PIPE_SIZE n = (h + PAGE_SIZE - t) mod PAGE_SIZE"
    using o(3,4) PIPE_SIZE_nat [of n] by (simp add: h_def t_def)
  note r = ring_put_block [OF o(3,4), of "length xs"]
  have k': "length xs \<le> PAGE_SIZE - h" "(h + PAGE_SIZE - t) mod PAGE_SIZE + length xs < PAGE_SIZE"
    using k sz by (simp_all add: h_def n_def)
  have sz': "PIPE_SIZE ?n = PIPE_SIZE n + length xs"
    using PIPE_SIZE_nat [of ?n] o(4) f r(1) [OF k'] sz by (simp add: PAGE_SIZE_def)
  have mem': "load_byte (mem (pipe_put i xs s)) (a + b) = (if h \<le> b \<and> b < h + length xs then xs ! (b - h) else load_byte (mem s) (a + b))"
    if "b < PAGE_SIZE" for b
  proof -
    have "a + h + length xs \<le> 2 ^ 32" "a + b < 2 ^ 32" using o(3,5) k'(1) that by simp_all
    then show ?thesis
      using load_store_bytes [of "a + h" xs "a + b" "mem s"] by (simp add: pipe_put_def Let_def n_def a_def h_def)
  qed
  show "pipe_chars i (pipe_put i xs s) = pipe_chars i s @ xs"
  proof (rule nth_equalityI)
    fix j assume j: "j < length (pipe_chars i (pipe_put i xs s))"
    then have j': "j < PIPE_SIZE n + length xs" using n' sz' by simp
    have "(t + j) mod PAGE_SIZE < PAGE_SIZE" by (simp add: PAGE_SIZE_def)
    from mem' [OF this] have at: "pipe_chars i (pipe_put i xs s) ! j =
        (if h \<le> (t + j) mod PAGE_SIZE \<and> (t + j) mod PAGE_SIZE < h + length xs then xs ! ((t + j) mod PAGE_SIZE - h)
         else load_byte (mem s) (a + (t + j) mod PAGE_SIZE))"
      using j' n' sz' f by (simp add: pipe_chars_def Let_def)
    show "pipe_chars i (pipe_put i xs s) ! j = (pipe_chars i s @ xs) ! j"
    proof (cases "j < PIPE_SIZE n")
      case True
      with r(3) [OF k', of j] sz at show ?thesis
        by (auto simp: nth_append pipe_chars_def Let_def simp flip: n_def t_def a_def)
    next
      case False
      define d where "d = j - PIPE_SIZE n"
      with False j' have d: "j = PIPE_SIZE n + d" "d < length xs" by simp_all
      then have "(t + j) mod PAGE_SIZE = h + d"
        using r(2) [OF k', of d] sz by simp
      with at d show ?thesis
        by (simp add: nth_append flip: n_def)
    qed
  qed (use n' sz' in \<open>simp add: n_def\<close>)
  show "user (pipe_put i xs s) = user s" by (simp add: pipe_put_def Let_def)
  show "i_count (inode_table (pipe_put i xs s) ! i) = i_count (inode_table s ! i)"
    unfolding n' by (simp add: n_def)
qed

lemma write_pipe_loop_appends:
  "pipe_ok i s \<Longrightarrow> 0 \<le> count \<Longrightarrow> length (pipe_chars i s) + nat count < PAGE_SIZE \<Longrightarrow> nat count \<le> f \<Longrightarrow>
    \<exists>s'. write_pipe_loop f i buf count written s = Ret (written + count, s') \<and> pipe_ok i s' \<and> user s' = user s
      \<and> pipe_chars i s' = pipe_chars i s @ get_fs_bytes buf (nat count) s"
proof (induction f arbitrary: buf count written s)
  case (Suc f)
  show ?case
  proof (cases "count = 0")
    case False
    let ?n = "inode_table s ! i"
    define k where "k = min (min (PAGE_SIZE - PIPE_HEAD ?n) (nat count)) (PAGE_SIZE - 1 - PIPE_SIZE ?n)"
    have room: "PAGE_SIZE - 1 - PIPE_SIZE ?n \<noteq> 0" and pos: "0 < nat count"
      using Suc.prems(2,3) False by simp_all
    have "PIPE_HEAD ?n < PAGE_SIZE" using Suc.prems(1) by (simp add: pipe_ok_def)
    then have k: "0 < k" "k \<le> nat count" "k \<le> PAGE_SIZE - PIPE_HEAD ?n" "PIPE_SIZE ?n + k < PAGE_SIZE"
      using room pos Suc.prems(3) by (auto simp: k_def)
    let ?s = "pipe_put i (get_fs_bytes buf k s) s"
    have step: "write_pipe_loop (Suc f) i buf count written s
        = write_pipe_loop f i (buf + of_nat k) (count - int k) (written + int k) ?s"
      unfolding write_pipe_loop.simps(2) Let_def k_def [symmetric] pipe_put_def using pos room
      by (simp add: get_fs_bytes_def del: write_pipe_loop.simps)
    note p = pipe_put [OF Suc.prems(1), of "get_fs_bytes buf k s"]
    have p: "pipe_ok i ?s" "pipe_chars i ?s = pipe_chars i s @ get_fs_bytes buf k s" "user ?s = user s"
      using p k by simp_all
    have "length (pipe_chars i ?s) = length (pipe_chars i s) + k" unfolding p(2) by simp
    then have "length (pipe_chars i ?s) + nat (count - int k) < PAGE_SIZE" "nat (count - int k) \<le> f" "0 \<le> count - int k"
      using k Suc.prems by (simp_all add: nat_diff_distrib del: pipe_chars_length)
    from Suc.IH [OF p(1) this(3,1,2), of "buf + of_nat k" "written + int k"]
    obtain s' where s': "write_pipe_loop f i (buf + of_nat k) (count - int k) (written + int k) ?s = Ret (written + count, s')"
      "pipe_ok i s'" "user s' = user ?s" "pipe_chars i s' = pipe_chars i ?s @ get_fs_bytes (buf + of_nat k) (nat (count - int k)) ?s"
      by (auto simp: algebra_simps)
    have "nat count = k + nat (count - int k)" using k by simp
    then have "get_fs_bytes buf (nat count) s = get_fs_bytes buf k s @ get_fs_bytes (buf + of_nat k) (nat (count - int k)) s"
      by (metis get_fs_bytes_add)
    with s' p show ?thesis
      unfolding step by (simp add: get_fs_bytes_user [OF p(3)] del: pipe_chars_length)
  qed (use Suc.prems in \<open>simp add: get_fs_bytes_def\<close>)
qed (simp add: get_fs_bytes_def)

section \<open>Reading\<close>

definition pipe_skip :: "nat \<Rightarrow> nat \<Rightarrow> kernel \<Rightarrow> kernel" where
  "pipe_skip i k = upd_inode i (\<lambda>n. n\<lparr>i_zone := (i_zone n)[1 := (PIPE_TAIL n + k) mod PAGE_SIZE]\<rparr>)"

lemma pipe_skip:
  assumes ok: "pipe_ok i s" and k: "k \<le> PAGE_SIZE - PIPE_TAIL (inode_table s ! i)" "k \<le> PIPE_SIZE (inode_table s ! i)"
  shows "pipe_ok i (pipe_skip i k s)" "pipe_chars i (pipe_skip i k s) = drop k (pipe_chars i s)"
    "load_bytes (mem s) (i_size (inode_table s ! i) + PIPE_TAIL (inode_table s ! i)) k = take k (pipe_chars i s)"
proof -
  define n where "n = inode_table s ! i"
  define h t a where "h = PIPE_HEAD n" and "t = PIPE_TAIL n" and "a = i_size n"
  have o: "i < length (inode_table s)" "2 \<le> length (i_zone n)" "h < PAGE_SIZE" "t < PAGE_SIZE"
    using ok by (simp_all add: pipe_ok_def n_def h_def t_def)
  let ?n = "n\<lparr>i_zone := (i_zone n)[1 := (t + k) mod PAGE_SIZE]\<rparr>"
  have n': "inode_table (pipe_skip i k s) ! i = ?n"
    using o(1) by (simp add: pipe_skip_def n_def t_def)
  have f: "PIPE_HEAD ?n = h" "PIPE_TAIL ?n = (t + k) mod PAGE_SIZE" "i_size ?n = a"
    using o(2) by (simp_all add: PIPE_HEAD_def PIPE_TAIL_def h_def a_def)
  show "pipe_ok i (pipe_skip i k s)"
    using ok o n' f by (simp add: pipe_ok_def pipe_skip_def PAGE_SIZE_def n_def)
  have sz: "PIPE_SIZE n = (h + PAGE_SIZE - t) mod PAGE_SIZE" "PIPE_SIZE ?n = PIPE_SIZE n - k"
    using o(3,4) PIPE_SIZE_nat [of n] PIPE_SIZE_nat [of ?n] f ring_get_block [OF o(3,4), of k] k
    by (simp_all add: PAGE_SIZE_def h_def t_def n_def)
  have m: "((t + k) mod PAGE_SIZE + j) mod PAGE_SIZE = (t + (k + j)) mod PAGE_SIZE" for j
    by (simp add: mod_simps add.assoc)
  show "pipe_chars i (pipe_skip i k s) = drop k (pipe_chars i s)"
    using n' f sz k o(1)
    by (intro nth_equalityI) (simp_all add: pipe_chars_def Let_def m pipe_skip_def flip: n_def t_def a_def)
  have lin: "(t + j) mod PAGE_SIZE = t + j" if "j < k" for j
    using that k(1) by (simp add: t_def n_def)
  show "load_bytes (mem s) (i_size (inode_table s ! i) + PIPE_TAIL (inode_table s ! i)) k = take k (pipe_chars i s)"
    using k(2) lin
    by (intro nth_equalityI) (simp_all add: load_bytes_def pipe_chars_def Let_def add.assoc flip: n_def t_def a_def)
qed


lemma read_pipe_loop_takes:
  "pipe_ok i s \<Longrightarrow> 0 \<le> count \<Longrightarrow> nat count \<le> length (pipe_chars i s) \<Longrightarrow> nat count \<le> f \<Longrightarrow>
    \<exists>s'. read_pipe_loop f i buf count got s = Ret (got + count, s') \<and> pipe_ok i s'
      \<and> user s' = user (put_fs_bytes (take (nat count) (pipe_chars i s)) buf s)
      \<and> pipe_chars i s' = drop (nat count) (pipe_chars i s)"
proof (induction f arbitrary: buf count got s)
  case (Suc f)
  show ?case
  proof (cases "count = 0")
    case False
    let ?n = "inode_table s ! i"
    define k where "k = min (min (PAGE_SIZE - PIPE_TAIL ?n) (nat count)) (PIPE_SIZE ?n)"
    have avail: "PIPE_SIZE ?n \<noteq> 0" and pos: "0 < nat count"
      using Suc.prems(2,3) False by simp_all
    have "PIPE_TAIL ?n < PAGE_SIZE" using Suc.prems(1) by (simp add: pipe_ok_def)
    then have k: "0 < k" "k \<le> nat count" "k \<le> PAGE_SIZE - PIPE_TAIL ?n" "k \<le> PIPE_SIZE ?n"
      using avail pos by (auto simp: k_def)
    note p = pipe_skip [OF Suc.prems(1) k(3,4)]
    let ?xs = "take k (pipe_chars i s)"
    let ?s = "put_fs_bytes ?xs buf (pipe_skip i k s)"
    have step: "read_pipe_loop (Suc f) i buf count got s
        = read_pipe_loop f i (buf + of_nat k) (count - int k) (got + int k) ?s"
      unfolding read_pipe_loop.simps(2) Let_def k_def [symmetric] using pos avail p(3)
      by (simp add: pipe_skip_def del: read_pipe_loop.simps)
    have c: "pipe_chars i ?s = drop k (pipe_chars i s)" "pipe_ok i ?s"
      using p(1,2) by (simp_all add: pipe_chars_def pipe_ok_def Let_def)
    have "nat (count - int k) \<le> length (pipe_chars i ?s)" "nat (count - int k) \<le> f" "0 \<le> count - int k"
      using k Suc.prems unfolding c(1) by (simp_all add: nat_diff_distrib del: pipe_chars_length)
    from Suc.IH [OF c(2) this(3,1,2), of "buf + of_nat k" "got + int k"]
    obtain s' where s': "read_pipe_loop f i (buf + of_nat k) (count - int k) (got + int k) ?s = Ret (got + count, s')"
      "pipe_ok i s'" "pipe_chars i s' = drop (nat (count - int k)) (pipe_chars i ?s)"
      "user s' = user (put_fs_bytes (take (nat (count - int k)) (pipe_chars i ?s)) (buf + of_nat k) ?s)"
      by (auto simp: algebra_simps)
    have n: "nat count = k + nat (count - int k)" using k by simp
    have "length ?xs = k" using k(4) by simp
    then have "user s' = user (put_fs_bytes (take (nat count) (pipe_chars i s)) buf (pipe_skip i k s))"
      using s'(4) put_fs_bytes_append [of ?xs "take (nat (count - int k)) (drop k (pipe_chars i s))" buf "pipe_skip i k s"]
      unfolding c(1) n take_add by simp
    also have "\<dots> = user (put_fs_bytes (take (nat count) (pipe_chars i s)) buf s)"
      by (rule put_fs_bytes_user_cong) (simp add: pipe_skip_def)
    finally show ?thesis
      using s'(1,2,3) n unfolding step c(1) by (simp add: add.commute)
  qed (use Suc.prems in simp)
qed simp

text \<open>C36: a pipe is a bounded first-in first-out queue. A write that has room appends the bytes at the
  address given, and returns their number; a read of at most what is there takes the bytes from the
  front, stores them at the address given, and returns their number. This holds wherever the ring's
  head and tail are, also when the bytes run over the end of the page.\<close>

theorem pipe_is_fifo:
  assumes ok: "pipe_ok i s" and n: "n < PAGE_SIZE"
  shows "(case write_pipe i buf (int n) s of
        Ret (r, s') \<Rightarrow> length (pipe_chars i s) + n < PAGE_SIZE \<longrightarrow>
          r = int n \<and> pipe_ok i s' \<and> pipe_chars i s' = pipe_chars i s @ get_fs_bytes buf n s
      | _ \<Rightarrow> PAGE_SIZE \<le> length (pipe_chars i s) + n)
    \<and> (case read_pipe i buf (int n) s of
        Ret (r, s') \<Rightarrow> n \<le> length (pipe_chars i s) \<longrightarrow>
          r = int n \<and> pipe_ok i s' \<and> pipe_chars i s' = drop n (pipe_chars i s)
          \<and> get_fs_bytes buf n s' = take n (pipe_chars i s)
      | _ \<Rightarrow> length (pipe_chars i s) < n)"
proof (rule conjI)
  let ?w = "write_pipe i buf (int n) s" and ?r = "read_pipe i buf (int n) s"
  have "\<exists>s'. ?w = Ret (int n, s') \<and> pipe_ok i s' \<and> pipe_chars i s' = pipe_chars i s @ get_fs_bytes buf n s"
    if "length (pipe_chars i s) + n < PAGE_SIZE"
    using write_pipe_loop_appends [OF ok, of "int n" "n" buf 0] that
    by (auto simp: write_pipe_def simp del: pipe_chars_length)
  then show "case ?w of
        Ret (r, s') \<Rightarrow> length (pipe_chars i s) + n < PAGE_SIZE \<longrightarrow>
          r = int n \<and> pipe_ok i s' \<and> pipe_chars i s' = pipe_chars i s @ get_fs_bytes buf n s
      | _ \<Rightarrow> PAGE_SIZE \<le> length (pipe_chars i s) + n"
    by (cases ?w; cases "length (pipe_chars i s) + n < PAGE_SIZE") (auto simp del: pipe_chars_length)
  have "\<exists>s'. ?r = Ret (int n, s') \<and> pipe_ok i s' \<and> pipe_chars i s' = drop n (pipe_chars i s)
      \<and> get_fs_bytes buf n s' = take n (pipe_chars i s)" if le: "n \<le> length (pipe_chars i s)"
  proof -
    obtain s' where s': "?r = Ret (int n, s')" "pipe_ok i s'" "pipe_chars i s' = drop n (pipe_chars i s)"
      "user s' = user (put_fs_bytes (take n (pipe_chars i s)) buf s)"
      using read_pipe_loop_takes [OF ok, of "int n" n buf 0] le by (auto simp: read_pipe_def)
    have l: "length (take n (pipe_chars i s)) = n" using le by simp
    have "n \<le> 2 ^ 32" using n by (simp add: PAGE_SIZE_def)
    then have "get_fs_bytes buf n s' = take n (pipe_chars i s)"
      using get_put_fs_bytes [of "take n (pipe_chars i s)" s' buf s] s'(4) unfolding l by blast
    with s' show ?thesis by blast
  qed
  then show "case ?r of
        Ret (r, s') \<Rightarrow> n \<le> length (pipe_chars i s) \<longrightarrow>
          r = int n \<and> pipe_ok i s' \<and> pipe_chars i s' = drop n (pipe_chars i s)
          \<and> get_fs_bytes buf n s' = take n (pipe_chars i s)
      | _ \<Rightarrow> length (pipe_chars i s) < n"
    by (cases ?r; cases "n \<le> length (pipe_chars i s)") (auto simp del: pipe_chars_length)
qed


text \<open>An empty pipe whose head and tail are two bytes before the end of its page.\<close>

definition pipe_example :: kernel where
  "pipe_example = blank_kernel\<lparr>user := (\<lambda>a. ucast a),
     inode_table := (inode_table blank_kernel)[1 := blank_inode\<lparr>i_pipe := True, i_count := 2, i_size := 0x200000,
       i_zone := [4094, 4094, 0, 0, 0, 0, 0, 0, 0]\<rparr>]\<rparr>"

lemma pipe_is_fifo_witness:
  "case write_pipe 1 10 4 pipe_example of
     Ret (r, s') \<Rightarrow> r = 4 \<and> pipe_chars 1 s' = [10, 11, 12, 13] | _ \<Rightarrow> False"
proof -
  have n: "inode_table pipe_example ! 1 = blank_inode\<lparr>i_pipe := True, i_count := 2, i_size := 0x200000,
       i_zone := [4094, 4094, 0, 0, 0, 0, 0, 0, 0]\<rparr>" "1 < length (inode_table pipe_example)"
    by (simp_all add: pipe_example_def blank_kernel_def NR_INODE_def)
  have ok: "pipe_ok 1 pipe_example"
    using n(2) unfolding pipe_ok_def n(1) by (simp add: PIPE_HEAD_def PIPE_TAIL_def PAGE_SIZE_def)
  have e: "pipe_chars 1 pipe_example = []"
    unfolding pipe_chars_def n(1) by (simp add: PIPE_SIZE_def PIPE_HEAD_def PIPE_TAIL_def)
  have g: "get_fs_bytes 10 4 pipe_example = [10, 11, 12, 13]"
    by (simp add: get_fs_bytes_def pipe_example_def upt_rec)
  have "4 < PAGE_SIZE" "length (pipe_chars 1 pipe_example) + 4 < PAGE_SIZE" "\<not> PAGE_SIZE \<le> length (pipe_chars 1 pipe_example) + 4"
    unfolding e by (simp_all add: PAGE_SIZE_def)
  then show ?thesis
    using pipe_is_fifo [OF ok, of 4 10, THEN conjunct1] unfolding e g
    by (cases "write_pipe 1 10 4 pipe_example") (simp_all split: prod.splits)
qed

end
