(* ===== verification/Demand.thy ===== *)
theory Demand imports Process begin

unbundle bit_operations_syntax

text \<open>
  The rest of two components that need the file system: \<open>do_no_page\<close> of \<open>mm/memory.c\<close>, which loads the
  pages of a program from its file when they are first used, and \<open>rd_load\<close> of
  \<open>kernel/blk_drv/ramdisk.c\<close>, which copies a root file system from a floppy disk to the RAM disk.
\<close>

section \<open>Page faults\<close>

text \<open>The loop that clears a page from its end downwards: \<open>t\<close> is one more than the next address.\<close>

primrec clear_down :: "nat \<Rightarrow> u32 \<Rightarrow> mm \<Rightarrow> mm" where
  "clear_down 0 t m = m"
| "clear_down (Suc n) t m = clear_down n (t - 1) (store_byte (unat (t - 1)) 0 m)"

text \<open>The numbers of \<open>n\<close> blocks of a file from \<open>block\<close> on.\<close>

primrec bmap_blocks :: "nat \<Rightarrow> nat \<Rightarrow> int \<Rightarrow> kernel \<Rightarrow> (nat list \<times> kernel) kres" where
  "bmap_blocks 0 ino block k = Ret ([], k)"
| "bmap_blocks (Suc n) ino block k =
    kbind (bmap ino block k) (\<lambda>(nr, k). kbind (bmap_blocks n ino (block + 1) k) (\<lambda>(nrs, k). Ret (nr # nrs, k)))"

definition load_page :: "u32 \<Rightarrow> nat \<Rightarrow> u32 \<Rightarrow> kernel \<Rightarrow> kernel kres" where
  "load_page page ino tmp k =
    kbind (bmap_blocks 4 ino (1 + int (unat tmp div BLOCK_SIZE)) k) (\<lambda>(nr, k).
    bread_page_si sync_inodes (unat page) (i_dev (inode_table k ! ino)) nr k)"

definition do_no_page :: "u32 \<Rightarrow> u32 \<Rightarrow> system \<Rightarrow> system kres" where
  "do_no_page error_code address s =
    (let address = address AND 0xfffff000;
         tmp = address - start_code (me s);
         anonymous = on_mm (get_empty_page address) s
     in case executable (me s) of
          None \<Rightarrow> anonymous
        | Some ino \<Rightarrow>
           if tmp \<ge> end_data (me s) then anonymous
           else
           kbind (share_page (\<lambda>i. i_count (inode_table (kr s) ! i)) tmp (task_at s) (current (sc s)) (me s)
                    (mem (kr s))) (\<lambda>(r, m).
           let s = s\<lparr>kr := (kr s)\<lparr>mem := m\<rparr>\<rparr>
           in if r \<noteq> 0 then Ret s
              else
              let (page, m) = get_free_page (mem (kr s));
                  s = s\<lparr>kr := (kr s)\<lparr>mem := m\<rparr>\<rparr>
              in if page = 0 then oom
                 else
                 kbind (fs_proc (load_page page ino tmp) s) (\<lambda>s.
                 let i = sint (tmp + 4096 - end_data (me s));
                     (r, m) = put_page page address (clear_down (nat i) (page + 4096) (mem (kr s)));
                     s = s\<lparr>kr := (kr s)\<lparr>mem := m\<rparr>\<rparr>
                 in if r \<noteq> 0 then Ret s
                    else kbind (on_mm (free_page page) s) (\<lambda>_. oom))))"

section \<open>Loading the RAM disk\<close>

text \<open>\<open>n\<close> blocks from \<open>block\<close> on to the address \<open>cp\<close>; the result tells whether all of them were read.
  \<open>nblocks > 2\<close> is a comparison of signed numbers.\<close>

primrec rd_load_loop :: "nat \<Rightarrow> nat \<Rightarrow> nat \<Rightarrow> kernel \<Rightarrow> (bool \<times> kernel) kres" where
  "rd_load_loop 0 block cp k = Ret (True, k)"
| "rd_load_loop (Suc n) block cp k =
    kbind (if wrap32 (int (Suc n)) > 2
           then breada_si sync_inodes (ROOT_DEV k) block [block + 1, block + 2] k
           else bread (ROOT_DEV k) block k) (\<lambda>(r, k).
    case r of
      None \<Rightarrow> Ret (False, k)
    | Some b \<Rightarrow>
       let k = k\<lparr>mem := store_bytes cp (take BLOCK_SIZE (b_data (bufs k ! b))) (mem k)\<rparr>
       in kbind (brelse (Some b) k) (rd_load_loop n (block + 1) (cp + BLOCK_SIZE)))"

text \<open>The image starts at block 256 of the floppy disk, its super block is in the block after. The number
  of blocks is the 32-bit value of the shift, whose count the processor reduces modulo 32.\<close>

definition rd_load :: "kernel \<Rightarrow> kernel kres" where
  "rd_load k =
    (if rd_length k = 0 then Ret k
     else if MAJOR (ROOT_DEV k) \<noteq> 2 then Ret k
     else
     kbind (breada_si sync_inodes (ROOT_DEV k) 257 [256, 258] k) (\<lambda>(r, k).
     case r of
       None \<Rightarrow> Ret k
     | Some b \<Rightarrow>
        let d = b_data (bufs k ! b)
        in kbind (brelse (Some b) k) (\<lambda>k.
           if get16 d 16 \<noteq> SUPER_MAGIC then Ret k
           else
           let nblocks = wrap32 (int (get16 d 2 * 2 ^ (get16 d 10 mod 32)))
           in if nblocks > int (rd_length k div 1024) then Ret k
              else kbind (rd_load_loop (nat (nblocks mod 2 ^ 32)) 256 (rd_start k) k) (\<lambda>(ok, k).
                Ret (if ok then k\<lparr>ROOT_DEV := 0x0101\<rparr> else k)))))"

end
