(* ===== verification/Exec.thy ===== *)
theory Exec imports Demand begin

unbundle bit_operations_syntax

text \<open>
  \<open>fs/exec.c\<close> with the header of executables of \<open>include/a.out.h\<close>: the system call \<open>execve\<close>.

  The arguments and the environment are copied to free pages while the old program is still there;
  after the old memory is given back these pages become the end of the new data segment, and the tables
  of pointers are built below the strings. From then on the memory of the process is what its page
  tables map; where they map nothing, a page fault brings in the bytes \<open>backing\<close>: \<open>do_no_page\<close> loads
  them from the file.

  The registers the call returns with are part of the result: the new instruction pointer and the new
  stack pointer.
\<close>

definition MAX_ARG_PAGES :: nat where "MAX_ARG_PAGES = 32"

section \<open>Strings of the process\<close>

text \<open>The bytes of the string at \<open>a\<close>, without the zero that ends it.\<close>

primrec string_at :: "nat \<Rightarrow> u32 \<Rightarrow> (u32 \<Rightarrow> u8) \<Rightarrow> u8 list option" where
  "string_at 0 a u = None"
| "string_at (Suc f) a u =
    (if u a = 0 then Some [] else map_option (Cons (u a)) (string_at f (a + 1) u))"

section \<open>The tables of a new program\<close>

text \<open>\<open>n\<close> pointers to the strings from \<open>p\<close> on, stored from \<open>t\<close> on.\<close>

primrec put_pointers :: "nat \<Rightarrow> u32 \<Rightarrow> u32 \<Rightarrow> kernel \<Rightarrow> (u32 \<times> u32 \<times> kernel) kres" where
  "put_pointers 0 p t k = Ret (p, t, k)"
| "put_pointers (Suc n) p t k =
    (let k = put_fs_long p t k
     in case string_at USER_BYTES p (user k) of
          None \<Rightarrow> Hang
        | Some xs \<Rightarrow> put_pointers n (p + of_nat (Suc (length xs))) (t + 4) k)"

definition create_tables :: "u32 \<Rightarrow> int \<Rightarrow> int \<Rightarrow> kernel \<Rightarrow> (u32 \<times> kernel) kres" where
  "create_tables p argc envc k =
    (let sp = 0xfffffffc AND p;
         envp = sp - 4 * of_int (envc + 1);
         argv = envp - 4 * of_int (argc + 1);
         k = put_fs_long envp (argv - 4) k;
         k = put_fs_long argv (argv - 8) k;
         k = put_fs_long (of_int argc) (argv - 12) k
     in kbind (put_pointers (nat argc) p argv k) (\<lambda>(p, t, k).
        let k = put_fs_long 0 t k
        in kbind (put_pointers (nat envc) p envp k) (\<lambda>(p, t, k).
           Ret (argv - 12, put_fs_long 0 t k))))"

text \<open>The number of pointers before the null pointer that ends an array.\<close>

primrec count_from :: "nat \<Rightarrow> u32 \<Rightarrow> kernel \<Rightarrow> int option" where
  "count_from 0 a k = None"
| "count_from (Suc f) a k =
    (if get_fs_long a k = 0 then Some 0 else map_option (\<lambda>i. i + 1) (count_from f (a + 4) k))"

definition count :: "u32 \<Rightarrow> kernel \<Rightarrow> int option" where
  "count argv k = (if argv = 0 then Some 0 else count_from USER_BYTES argv k)"

section \<open>Copying the arguments\<close>

text \<open>Where the strings are, with the value of \<open>from_kmem\<close>: an array of pointers and strings of the
  process (0), one pointer of the kernel to a string of the process (1), or one string of the kernel (2).\<close>

datatype arg_source = User_array u32 | Kernel_pointer u32 | Kernel_string "u8 list"

definition user_string :: "u32 \<Rightarrow> kernel \<Rightarrow> u8 list kres" where
  "user_string tmp k =
    (if tmp = 0 then Panic ''argc is wrong''
     else case string_at USER_BYTES tmp (user k) of None \<Rightarrow> Hang | Some xs \<Rightarrow> Ret (xs @ [0]))"

definition arg_string :: "arg_source \<Rightarrow> nat \<Rightarrow> kernel \<Rightarrow> u8 list kres" where
  "arg_string src i k =
    (case src of
       User_array argv \<Rightarrow> user_string (get_fs_long (argv + 4 * of_nat i) k) k
     | Kernel_pointer tmp \<Rightarrow> user_string tmp k
     | Kernel_string xs \<Rightarrow> Ret (xs @ [0]))"

text \<open>The variables of \<open>copy_strings\<close>, with the memory it stores to.\<close>

record arg_area =
  ar_p :: u32
  ar_offset :: int
  ar_pag :: u32
  ar_page :: "u32 list"
  ar_mem :: mm

text \<open>The page for the address \<open>p\<close>; the result tells whether there is one. The test \<open>p-len < 0\<close> of the
  code compares an unsigned number and is never true, so arguments that are too long take \<open>p\<close> below 0
  and the index out of the table; what happens then is left open.\<close>

definition next_arg_page :: "arg_area \<Rightarrow> (bool \<times> arg_area) kres" where
  "next_arg_page a =
    (let a = a\<lparr>ar_offset := int (unat (ar_p a) mod 4096)\<rparr>;
         i = unat (ar_p a) div 4096
     in if i \<ge> MAX_ARG_PAGES then Hang
        else if ar_page a ! i \<noteq> 0 then Ret (True, a\<lparr>ar_pag := ar_page a ! i\<rparr>)
        else let (pag, m) = get_free_page (ar_mem a)
             in Ret (pag \<noteq> 0, a\<lparr>ar_pag := pag, ar_page := (ar_page a)[i := pag], ar_mem := m\<rparr>))"

definition put_arg_byte :: "u8 \<Rightarrow> arg_area \<Rightarrow> (bool \<times> arg_area) kres" where
  "put_arg_byte c a =
    (let a = a\<lparr>ar_p := ar_p a - 1, ar_offset := ar_offset a - 1\<rparr>
     in kbind (if ar_offset a < 0 then next_arg_page a else Ret (True, a)) (\<lambda>(ok, a).
        Ret (ok, if ok then a\<lparr>ar_mem := store_byte (unat (ar_pag a + of_int (ar_offset a))) c (ar_mem a)\<rparr> else a)))"

primrec put_arg_bytes :: "u8 list \<Rightarrow> arg_area \<Rightarrow> (bool \<times> arg_area) kres" where
  "put_arg_bytes [] a = Ret (True, a)"
| "put_arg_bytes (c # xs) a =
    kbind (put_arg_byte c a) (\<lambda>(ok, a). if ok then put_arg_bytes xs a else Ret (False, a))"

text \<open>The last string first, each from its end.\<close>

primrec copy_args :: "nat list \<Rightarrow> arg_source \<Rightarrow> kernel \<Rightarrow> arg_area \<Rightarrow> (bool \<times> arg_area) kres" where
  "copy_args [] src k a = Ret (True, a)"
| "copy_args (i # is) src k a =
    kbind (arg_string src i k) (\<lambda>xs.
    kbind (put_arg_bytes (rev xs) a) (\<lambda>(ok, a). if ok then copy_args is src k a else Ret (False, a)))"

definition copy_strings ::
  "int \<Rightarrow> arg_source \<Rightarrow> u32 list \<Rightarrow> u32 \<Rightarrow> kernel \<Rightarrow> (u32 \<times> u32 list \<times> kernel) kres" where
  "copy_strings argc src page p k =
    (if p = 0 then Ret (0, page, k)
     else kbind (copy_args (rev [0..<nat argc]) src k
                   \<lparr>ar_p = p, ar_offset = 0, ar_pag = 0, ar_page = page, ar_mem = mem k\<rparr>) (\<lambda>(ok, a).
          Ret (if ok then ar_p a else 0, ar_page a, k\<lparr>mem := ar_mem a\<rparr>)))"

section \<open>The segments of a new program\<close>

definition set_limit :: "desc_struct \<Rightarrow> u32 \<Rightarrow> desc_struct" where
  "set_limit d limit =
    (let n = drop_bit 12 (limit - 1)
     in ((fst d AND 0xffff0000) OR (n AND 0xffff), (snd d AND 0xfff0ffff) OR (n AND 0xf0000)))"

text \<open>The byte the process sees at \<open>a\<close>.\<close>

definition user_byte :: "mm \<Rightarrow> u32 \<Rightarrow> (u32 \<Rightarrow> u8) \<Rightarrow> u32 \<Rightarrow> u8" where
  "user_byte m base backing a =
    (let lin = base + a; e = phys m (entry_addr lin m)
     in if present (phys m (dir_addr lin)) \<and> present e
        then load_byte m (unat (frame e + (lin AND 0xfff))) else backing a)"

text \<open>The pages of the arguments, the last one first; \<open>put_page\<close> is not asked whether it could map one.\<close>

definition put_arg_pages :: "u32 list \<Rightarrow> u32 \<Rightarrow> mm \<Rightarrow> mm" where
  "put_arg_pages page data_end m =
    fold (\<lambda>i m. if page ! i \<noteq> 0
                 then snd (put_page (page ! i) (data_end - 4096 * of_nat (MAX_ARG_PAGES - i)) m) else m)
      (rev [0..<MAX_ARG_PAGES]) m"

definition change_ldt :: "(u32 \<Rightarrow> u8) \<Rightarrow> u32 \<Rightarrow> u32 list \<Rightarrow> system \<Rightarrow> u32 \<times> system" where
  "change_ldt backing text_size page s =
    (let code_limit = (text_size + 4096 - 1) AND 0xfffff000;
         data_limit = 0x4000000;
         base = get_base (ldt (me s) ! 1);
         s = upd (current (sc s)) (\<lambda>p. p\<lparr>ldt :=
               (ldt p)[1 := set_limit (set_base (ldt p ! 1) base) code_limit,
                       2 := set_limit (set_base (ldt p ! 2) base) data_limit]\<rparr>) s;
         m = put_arg_pages page (base + data_limit) (mem (kr s))
     in (data_limit, s\<lparr>kr := (kr s)\<lparr>mem := m, user := user_byte m base backing\<rparr>\<rparr>))"

section \<open>Executable files\<close>

record exec =
  a_magic :: u32
  a_text :: u32
  a_data :: u32
  a_bss :: u32
  a_syms :: u32
  a_entry :: u32
  a_trsize :: u32
  a_drsize :: u32

definition get_exec :: "u8 list \<Rightarrow> exec" where
  "get_exec d =
    \<lparr>a_magic = of_nat (get32 d 0), a_text = of_nat (get32 d 4), a_data = of_nat (get32 d 8),
     a_bss = of_nat (get32 d 12), a_syms = of_nat (get32 d 16), a_entry = of_nat (get32 d 20),
     a_trsize = of_nat (get32 d 24), a_drsize = of_nat (get32 d 28)\<rparr>"

definition ZMAGIC :: u32 where "ZMAGIC = 0x10B"
definition SEGMENT_SIZE :: u32 where "SEGMENT_SIZE = 1024"

definition N_TXTOFF :: "exec \<Rightarrow> u32" where
  "N_TXTOFF x = (if a_magic x = ZMAGIC then (SEGMENT_SIZE - 32) + 32 else 32)"

text \<open>The tests of the header; the sums are unsigned and wrap around.\<close>

definition header_ok :: "exec \<Rightarrow> nat \<Rightarrow> bool" where
  "header_ok ex isize \<longleftrightarrow>
    \<not> (a_magic ex \<noteq> ZMAGIC \<or> a_trsize ex \<noteq> 0 \<or> a_drsize ex \<noteq> 0
       \<or> a_text ex + a_data ex + a_bss ex > 0x3000000
       \<or> of_nat isize < a_text ex + a_data ex + a_syms ex + N_TXTOFF ex)
    \<and> N_TXTOFF ex = of_nat BLOCK_SIZE"

definition S_ISUID :: u16 where "S_ISUID = 0x800"
definition S_ISGID :: u16 where "S_ISGID = 0x400"

definition exec_bits :: "m_inode \<Rightarrow> kernel \<Rightarrow> u16" where
  "exec_bits n k =
    (if euid (proc k) = i_uid n then drop_bit 6 (i_mode n)
     else if egid (proc k) = ucast (i_gid n) then drop_bit 3 (i_mode n) else i_mode n)"

definition may_exec :: "m_inode \<Rightarrow> kernel \<Rightarrow> bool" where
  "may_exec n k \<longleftrightarrow> exec_bits n k AND 1 \<noteq> 0 \<or> (i_mode n AND 0x49 \<noteq> 0 \<and> suser k)"

definition exec_ids :: "m_inode \<Rightarrow> kernel \<Rightarrow> u16 \<times> u16" where
  "exec_ids n k =
    (if i_mode n AND S_ISUID \<noteq> 0 then i_uid n else euid (proc k),
     if i_mode n AND S_ISGID \<noteq> 0 then ucast (i_gid n) else egid (proc k))"

text \<open>From the label \<open>restart_interp\<close> to the header: an error, or the first block of the file and the
  effective user and group of the program.\<close>

definition exec_open :: "nat \<Rightarrow> kernel \<Rightarrow> ((int + u8 list \<times> u16 \<times> u16) \<times> kernel) kres" where
  "exec_open ino k =
    (let n = inode_table k ! ino
     in if \<not> S_ISREG (i_mode n) then Ret (Inl (- EACCES), k)
        else if \<not> may_exec n k then Ret (Inl (- ENOEXEC), k)
        else kbind (bread (i_dev n) (i_zone n ! 0) k) (\<lambda>(r, k').
             case r of
               None \<Rightarrow> Ret (Inl (- EACCES), k')
             | Some b \<Rightarrow> kbind (brelse (Some b) k') (\<lambda>k''. Ret (Inr (b_data (bufs k' ! b), exec_ids n k), k''))))"

section \<open>Scripts\<close>

definition is_blank :: "u8 \<Rightarrow> bool" where
  "is_blank c \<longleftrightarrow> c = 32 \<or> c = 9"

text \<open>The first line of a script: the interpreter, its name without directories, and the optional
  argument, which goes to the end of the line.\<close>

definition parse_sh_bang :: "u8 list \<Rightarrow> (u8 list \<times> u8 list \<times> u8 list option) option" where
  "parse_sh_bang d =
    (let buf = takeWhile (\<lambda>c. c \<noteq> 0) (take 1022 (drop 2 d));
         cp = dropWhile is_blank (takeWhile (\<lambda>c. c \<noteq> 10) buf);
         interp = takeWhile (\<lambda>c. \<not> is_blank c) cp
     in if 10 \<notin> set buf \<or> cp = [] then None
        else Some (interp, rev (takeWhile (\<lambda>c. c \<noteq> 0x2F) (rev interp)),
                   case dropWhile (\<lambda>c. \<not> is_blank c) cp of [] \<Rightarrow> None | _ # i_arg \<Rightarrow> Some i_arg))"

text \<open>\<open>namei\<close> of a string of the kernel; addresses are relative to it.\<close>

definition namei_kernel :: "u8 list \<Rightarrow> kernel \<Rightarrow> (nat option \<times> kernel) kres" where
  "namei_kernel xs k =
    kbind (namei 0 (k\<lparr>user := (\<lambda>a. if unat a < length xs then xs ! unat a else 0)\<rparr>)) (\<lambda>(r, k').
      Ret (r, k'\<lparr>user := user k\<rparr>))"

text \<open>The arguments of an interpreter; the result is the new stack address, the pages and the number of
  arguments.\<close>

definition splice_args ::
  "u8 list \<Rightarrow> u8 list option \<Rightarrow> u32 \<Rightarrow> int \<Rightarrow> u32 \<Rightarrow> int \<Rightarrow> u32 \<Rightarrow> u32 list \<Rightarrow> u32 \<Rightarrow> kernel
    \<Rightarrow> (u32 \<times> u32 list \<times> int \<times> kernel) kres" where
  "splice_args i_name i_arg filename argc argv envc envp page p k =
    kbind (copy_strings envc (User_array envp) page p k) (\<lambda>(p, page, k).
    kbind (copy_strings (argc - 1) (User_array (argv + 4)) page p k) (\<lambda>(p, page, k).
    kbind (copy_strings 1 (Kernel_pointer filename) page p k) (\<lambda>(p, page, k).
    kbind (case i_arg of None \<Rightarrow> Ret (p, page, k) | Some a \<Rightarrow> copy_strings 1 (Kernel_string a) page p k) (\<lambda>(p, page, k).
    kbind (copy_strings 1 (Kernel_string i_name) page p k) (\<lambda>(p, page, k).
    Ret (p, page, argc - 1 + 1 + (if i_arg = None then 0 else 1) + 1, k))))))"

section \<open>\<open>execve\<close>\<close>

type_synonym exec_result = "(int \<times> (u32 \<times> u32) option \<times> system) kres"

definition exec_error1 :: "int \<Rightarrow> u32 list \<Rightarrow> system \<Rightarrow> exec_result" where
  "exec_error1 retval page s = kbind (on_mm (kfold free_page page) s) (\<lambda>s. Ret (retval, None, s))"

definition exec_error2 :: "nat \<Rightarrow> int \<Rightarrow> u32 list \<Rightarrow> system \<Rightarrow> exec_result" where
  "exec_error2 ino retval page s = kbind (fs_proc (iput (Some ino)) s) (exec_error1 retval page)"

text \<open>From the point of no return to the memory and the process of the new program.\<close>

definition drop_program :: "nat \<Rightarrow> system \<Rightarrow> system kres" where
  "drop_program ino s =
    (let c = current (sc s)
     in
     kbind (fs_proc (\<lambda>k. iput (executable (proc k)) k) s) (\<lambda>s.
     let s = upd c (\<lambda>p. p\<lparr>executable := Some ino\<rparr>) s;
         s = upd c (\<lambda>p. p\<lparr>sigactions := map (\<lambda>a. a\<lparr>sa_handler := 0\<rparr>) (sigactions p)\<rparr>) s
     in
     kbind (kfold (\<lambda>i s. if bit (close_on_exec (me s)) i then kbind (on_fs (sys_close i) s) (\<lambda>(_, s). Ret s) else Ret s)
              [0..<NR_OPEN] s) (\<lambda>s.
     let s = upd c (\<lambda>p. p\<lparr>close_on_exec := 0\<rparr>) s
     in
     kbind (free_segment 1 s) (\<lambda>s.
     kbind (free_segment 2 s) (\<lambda>s.
     let s = (if last_task_used_math (sc s) = Some c then s\<lparr>sc := (sc s)\<lparr>last_task_used_math := None\<rparr>\<rparr> else s)
     in Ret (upd c (\<lambda>p. p\<lparr>used_math := 0\<rparr>) s))))))"

definition start_program ::
  "(u32 \<Rightarrow> u8) \<Rightarrow> exec \<Rightarrow> u16 \<Rightarrow> u16 \<Rightarrow> int \<Rightarrow> int \<Rightarrow> u32 \<Rightarrow> u32 list \<Rightarrow> system \<Rightarrow> exec_result" where
  "start_program backing ex e_uid e_gid argc envc p page s =
    (let (data_limit, s) = change_ldt backing (a_text ex) page s;
         p = p + (data_limit - of_nat (MAX_ARG_PAGES * 4096))
     in
     kbind (create_tables p argc envc (kr s)) (\<lambda>(p, k).
     let s = upd (current (sc s)) (\<lambda>q. q\<lparr>end_code := a_text ex, end_data := a_data ex + a_text ex,
               brk := a_bss ex + (a_data ex + a_text ex), start_stack := p AND 0xfffff000,
               euid := e_uid, egid := e_gid\<rparr>) (s\<lparr>kr := k\<rparr>);
         i = a_text ex + a_data ex;
         s = s\<lparr>kr := put_fs_bytes (replicate (nat (- uint i mod 4096)) 0) i (kr s)\<rparr>
     in Ret (0, Some (a_entry ex, p), s)))"

text \<open>From the header \<open>d\<close> of the file to the end; \<open>sh_bang\<close> tells whether the arguments are copied.\<close>

definition exec_file ::
  "(u32 \<Rightarrow> u8) \<Rightarrow> bool \<Rightarrow> nat \<Rightarrow> u8 list \<Rightarrow> u16 \<Rightarrow> u16 \<Rightarrow> int \<Rightarrow> u32 \<Rightarrow> int \<Rightarrow> u32 \<Rightarrow> u32 \<Rightarrow> u32 list \<Rightarrow> system
    \<Rightarrow> exec_result" where
  "exec_file backing sh_bang ino d e_uid e_gid argc argv envc envp p page s =
    (let ex = get_exec d
     in if \<not> header_ok ex (i_size (inode_table (kr s) ! ino)) then exec_error2 ino (- ENOEXEC) page s
        else
        kbind (if sh_bang then Ret (p, page, kr s)
               else kbind (copy_strings envc (User_array envp) page p (kr s)) (\<lambda>(p, page, k).
                    copy_strings argc (User_array argv) page p k)) (\<lambda>(p, page, k).
        let s = s\<lparr>kr := k\<rparr>
        in if \<not> sh_bang \<and> p = 0 then exec_error2 ino (- ENOMEM) page s
           else kbind (drop_program ino s) (start_program backing ex e_uid e_gid argc envc p page)))"

definition exec_script ::
  "(u32 \<Rightarrow> u8) \<Rightarrow> u8 list \<Rightarrow> u32 \<Rightarrow> int \<Rightarrow> u32 \<Rightarrow> int \<Rightarrow> u32 \<Rightarrow> u32 \<Rightarrow> u32 list \<Rightarrow> system \<Rightarrow> exec_result" where
  "exec_script backing d filename argc argv envc envp p page s =
    (case parse_sh_bang d of
       None \<Rightarrow> exec_error1 (- ENOEXEC) page s
     | Some (interp, i_name, i_arg) \<Rightarrow>
        kbind (splice_args i_name i_arg filename argc argv envc envp page p (kr s)) (\<lambda>(p, page, argc, k).
        let s = s\<lparr>kr := k\<rparr>
        in if p = 0 then exec_error1 (- ENOMEM) page s
           else kbind (on_fs (namei_kernel interp) s) (\<lambda>(r, s).
                case r of
                  None \<Rightarrow> exec_error1 (- ENOENT) page s
                | Some ino \<Rightarrow>
                   kbind (on_fs (exec_open ino) s) (\<lambda>(h, s).
                   case h of
                     Inl e \<Rightarrow> exec_error2 ino e page s
                   | Inr (d, e_uid, e_gid) \<Rightarrow>
                      exec_file backing True ino d e_uid e_gid argc argv envc envp p page s))))"

definition do_execve :: "(u32 \<Rightarrow> u8) \<Rightarrow> u32 \<Rightarrow> u32 \<Rightarrow> u32 \<Rightarrow> u32 \<Rightarrow> system \<Rightarrow> exec_result" where
  "do_execve backing eip1 filename argv envp s =
    (let p = of_nat (4096 * MAX_ARG_PAGES - 4);
         page = replicate MAX_ARG_PAGES 0
     in if 0xffff AND eip1 \<noteq> 0x000f then Panic ''execve called from supervisor mode''
        else kbind (on_fs (namei filename) s) (\<lambda>(r, s).
             case r of
               None \<Rightarrow> Ret (- ENOENT, None, s)
             | Some ino \<Rightarrow>
                (case (count argv (kr s), count envp (kr s)) of
                   (Some argc, Some envc) \<Rightarrow>
                     kbind (on_fs (exec_open ino) s) (\<lambda>(h, s).
                     case h of
                       Inl e \<Rightarrow> exec_error2 ino e page s
                     | Inr (d, e_uid, e_gid) \<Rightarrow>
                        if d ! 0 = 0x23 \<and> d ! 1 = 0x21
                        then kbind (fs_proc (iput (Some ino)) s)
                               (exec_script backing d filename argc argv envc envp p page)
                        else exec_file backing False ino d e_uid e_gid argc argv envc envp p page s)
                 | _ \<Rightarrow> Hang)))"

end
