(* ===== verification/Arguments.thy ===== *)
theory Arguments imports Exec User_Memory begin

unbundle bit_operations_syntax

text \<open>
  How \<open>execve\<close> passes arguments: the tables \<open>create_tables\<close> builds below the strings, and the strings
  \<open>copy_strings\<close> puts into the pages of the arguments.
\<close>

section \<open>Blocks of strings\<close>

definition strings_bytes :: "u8 list list \<Rightarrow> u8 list" where
  "strings_bytes xss = concat (map (\<lambda>xs. xs @ [0]) xss)"

text \<open>The strings are in memory one after another from \<open>p\<close> on.\<close>

definition strings_at :: "u32 \<Rightarrow> u8 list list \<Rightarrow> kernel \<Rightarrow> bool" where
  "strings_at p xss k \<longleftrightarrow> get_fs_bytes p (length (strings_bytes xss)) k = strings_bytes xss \<and> (\<forall>xs\<in>set xss. 0 \<notin> set xs)"

text \<open>The addresses of strings that are stored from \<open>p\<close> on.\<close>

primrec starts :: "u32 \<Rightarrow> u8 list list \<Rightarrow> u32 list" where
  "starts p [] = []"
| "starts p (xs # xss) = p # starts (p + of_nat (Suc (length xs))) xss"

definition words_at :: "u32 \<Rightarrow> nat \<Rightarrow> kernel \<Rightarrow> u32 list" where
  "words_at sp n k = map (\<lambda>i. get_fs_long (sp + 4 * of_nat i) k) [0..<n]"

lemma strings_bytes_simps [simp]:
  "strings_bytes [] = []" "strings_bytes (xs # xss) = xs @ 0 # strings_bytes xss"
  "strings_bytes (xss @ yss) = strings_bytes xss @ strings_bytes yss"
  by (simp_all add: strings_bytes_def)

lemma length_starts [simp]: "length (starts p xss) = length xss"
  by (induction xss arbitrary: p) simp_all

lemma starts_append: "starts p (xss @ yss) = starts p xss @ starts (p + of_nat (length (strings_bytes xss))) yss"
  by (induction xss arbitrary: p) (simp_all add: algebra_simps)

lemma strings_at_append:
  "strings_at p (xss @ yss) k \<longleftrightarrow>
    strings_at p xss k \<and> strings_at (p + of_nat (length (strings_bytes xss))) yss k"
  by (auto simp: strings_at_def get_fs_bytes_add)

lemma strings_at_Cons:
  "strings_at p (xs # xss) k \<longleftrightarrow>
    strings_at p [xs] k \<and> strings_at (p + of_nat (Suc (length xs))) xss k"
  using strings_at_append [of p "[xs]" xss k] by simp

lemma get_fs_bytes_cong:
  "(\<And>i. i < n \<Longrightarrow> user k' (p + of_nat i) = user k (p + of_nat i)) \<Longrightarrow> get_fs_bytes p n k' = get_fs_bytes p n k"
  unfolding get_fs_bytes_def by (intro map_cong refl) simp

lemma strings_at_cong:
  "(\<And>i. i < length (strings_bytes xss) \<Longrightarrow> user k' (p + of_nat i) = user k (p + of_nat i)) \<Longrightarrow>
    strings_at p xss k' \<longleftrightarrow> strings_at p xss k"
  using get_fs_bytes_cong [of "length (strings_bytes xss)" k' p k] by (simp add: strings_at_def)

lemma string_at_bytes:
  "get_fs_bytes p (Suc (length xs)) k = xs @ [0] \<Longrightarrow> 0 \<notin> set xs \<Longrightarrow> length xs < f \<Longrightarrow>
    string_at f p (user k) = Some xs"
proof (induction xs arbitrary: p f)
  case Nil
  then show ?case by (cases f) (simp_all add: get_fs_bytes_def)
next
  case (Cons x xs)
  obtain g where f: "f = Suc g" using Cons.prems(3) by (cases f) simp_all
  have "user k p = x" "get_fs_bytes (p + 1) (Suc (length xs)) k = xs @ [0]"
    using Cons.prems(1) get_fs_bytes_Suc [of p "Suc (length xs)" k] by simp_all
  then show ?case using Cons.IH [of "p + 1" g] Cons.prems(2,3) by (simp add: f)
qed

lemma string_at_strings:
  assumes "strings_at p (xs # xss) k" "length (strings_bytes (xs # xss)) \<le> 2 ^ 32"
  shows "string_at USER_BYTES p (user k) = Some xs"
proof (rule string_at_bytes)
  show "get_fs_bytes p (Suc (length xs)) k = xs @ [0]" "0 \<notin> set xs"
    using assms(1) [unfolded strings_at_Cons [of p xs xss]] by (simp_all add: strings_at_def)
  show "length xs < USER_BYTES" using assms(2) by (simp add: USER_BYTES_def)
qed

section \<open>Tables of pointers\<close>

text \<open>A store of a table entry below the strings.\<close>

lemma put_long_below:
  assumes "4 * Suc j \<le> n" "n < 2 ^ 32" "j < 2 ^ 30"
  shows "user (put_fs_long v (sp + 4 * of_nat j) k) (sp + of_nat n) = user k (sp + of_nat n)"
proof (rule put_fs_long_other)
  have "(sp + of_nat n) - (sp + 4 * of_nat j) = (of_nat n :: u32) - of_nat (4 * j)" by simp
  moreover have "4 * j < 2 ^ 32" using assms by simp
  ultimately show "4 \<le> unat ((sp + of_nat n) - (sp + 4 * of_nat j))"
    using unat_diff_of_nat [of n "4 * j"] assms by (simp only:) simp
qed

lemma put_pointers_correct:
  assumes "strings_at (sp + of_nat q) xss k" "4 * (j + length xss) \<le> q" "q + length (strings_bytes xss) \<le> 2 ^ 32"
  shows "\<exists>k'. put_pointers (length xss) (sp + of_nat q) (sp + 4 * of_nat j) k
      = Ret (sp + of_nat (q + length (strings_bytes xss)), sp + 4 * of_nat (j + length xss), k')
    \<and> (\<forall>i < 2 ^ 30. get_fs_long (sp + 4 * of_nat i) k'
         = (if j \<le> i \<and> i < j + length xss then starts (sp + of_nat q) xss ! (i - j) else get_fs_long (sp + 4 * of_nat i) k))
    \<and> (\<forall>n < 2 ^ 32. 4 * (j + length xss) \<le> n \<longrightarrow> user k' (sp + of_nat n) = user k (sp + of_nat n))"
  using assms
proof (induction xss arbitrary: q j k)
  case Nil
  then show ?case by auto
next
  case (Cons xs xss)
  let ?p = "sp + of_nat q" and ?t = "sp + 4 * of_nat j" and ?q = "q + Suc (length xs)"
  have j: "j < 2 ^ 30" "4 * Suc j \<le> q" using Cons.prems(2,3) by simp_all
  define k1 where "k1 = put_fs_long ?p ?t k"
  have u1: "user k1 (sp + of_nat n) = user k (sp + of_nat n)" if "4 * Suc j \<le> n" "n < 2 ^ 32" for n
    unfolding k1_def using put_long_below [OF that j(1)] .
  have "strings_at ?p (xs # xss) k1 \<longleftrightarrow> strings_at ?p (xs # xss) k"
  proof (rule strings_at_cong)
    fix i assume "i < length (strings_bytes (xs # xss))"
    then have "4 * Suc j \<le> q + i" "q + i < 2 ^ 32" using Cons.prems(3) j(2) by linarith+
    from u1 [OF this] show "user k1 (?p + of_nat i) = user k (?p + of_nat i)" by (simp add: add.assoc)
  qed
  then have s1: "strings_at ?p (xs # xss) k1" using Cons.prems(1) by simp
  have str: "string_at USER_BYTES ?p (user k1) = Some xs"
    by (rule string_at_strings [OF s1]) (use Cons.prems(3) in simp)
  have next_p: "?p + of_nat (Suc (length xs)) = sp + of_nat ?q" "?t + 4 = sp + 4 * of_nat (Suc j)"
    by (simp_all add: algebra_simps)
  have "strings_at (sp + of_nat ?q) xss k1" using s1 strings_at_Cons [of ?p xs xss k1] unfolding next_p(1) by blast
  moreover have "4 * (Suc j + length xss) \<le> ?q" "?q + length (strings_bytes xss) \<le> 2 ^ 32"
    using Cons.prems(2,3) by simp_all
  ultimately obtain k' where k': "put_pointers (length xss) (sp + of_nat ?q) (sp + 4 * of_nat (Suc j)) k1
      = Ret (sp + of_nat (?q + length (strings_bytes xss)), sp + 4 * of_nat (Suc j + length xss), k')"
    "\<And>i. i < 2 ^ 30 \<Longrightarrow> get_fs_long (sp + 4 * of_nat i) k'
       = (if Suc j \<le> i \<and> i < Suc j + length xss then starts (sp + of_nat ?q) xss ! (i - Suc j) else get_fs_long (sp + 4 * of_nat i) k1)"
    "\<And>n. n < 2 ^ 32 \<Longrightarrow> 4 * (Suc j + length xss) \<le> n \<Longrightarrow> user k' (sp + of_nat n) = user k1 (sp + of_nat n)"
    using Cons.IH [of ?q k1 "Suc j"] by blast
  have g1: "get_fs_long (sp + 4 * of_nat i) k1 = (if i = j then ?p else get_fs_long (sp + 4 * of_nat i) k)" if "i < 2 ^ 30" for i
    unfolding k1_def by (rule get_put_long [OF that j(1)])
  show ?case
  proof (intro exI conjI allI impI)
    show "put_pointers (length (xs # xss)) ?p ?t k
        = Ret (sp + of_nat (q + length (strings_bytes (xs # xss))), sp + 4 * of_nat (j + length (xs # xss)), k')"
    proof -
      have e: "?q + length (strings_bytes xss) = q + length (strings_bytes (xs # xss))"
        "Suc j + length xss = j + length (xs # xss)" by simp_all
      have "put_pointers (length (xs # xss)) ?p ?t k = put_pointers (length xss) (sp + of_nat ?q) (sp + 4 * of_nat (Suc j)) k1"
        by (simp only: list.size add_0_right add_Suc_right put_pointers.simps Let_def k1_def [symmetric] str option.case next_p)
      then show ?thesis by (simp only: k'(1) e)
    qed
  next
    fix i :: nat assume i: "i < 2 ^ 30"
    show "get_fs_long (sp + 4 * of_nat i) k' = (if j \<le> i \<and> i < j + length (xs # xss)
        then starts ?p (xs # xss) ! (i - j) else get_fs_long (sp + 4 * of_nat i) k)"
      unfolding starts.simps next_p(1) using k'(2) [OF i] g1 [OF i] by (cases "i = j") (auto simp: nth_Cons')
  next
    fix n :: nat assume "n < 2 ^ 32" "4 * (j + length (xs # xss)) \<le> n"
    then show "user k' (sp + of_nat n) = user k (sp + of_nat n)" using k'(3) [of n] u1 [of n] by simp
  qed
qed

text \<open>The address rounded down to a multiple of 4.\<close>

lemma unat_and_fffffffc: "unat (0xfffffffc AND (p :: u32)) = unat p - unat p mod 4"
proof -
  have m: "(0xfffffffc :: u32) = NOT (mask 2)" by (simp add: mask_eq_exp_minus_1)
  have two: "Suc (Suc (i - 2)) = i" if "2 \<le> i" for i :: nat using that by simp
  have "0xfffffffc AND p = push_bit 2 (drop_bit 2 p)"
    unfolding m by (rule bit_eqI)
      (auto simp: bit_and_iff bit_not_iff bit_mask_iff bit_push_bit_iff bit_drop_bit_eq not_less two dest: bit_imp_le_length)
  then have "unat (0xfffffffc AND p) = take_bit 32 (unat p div 4 * 4)"
    by (simp add: unsigned_push_bit_eq unat_drop_bit_eq) (simp add: push_bit_eq_mult drop_bit_eq_div)
  moreover have "unat p div 4 * 4 < 2 ^ 32"
    using u32_bounds(3) [of p] div_times_less_eq_dividend [of "unat p" 4] by linarith
  ultimately show ?thesis by (simp add: take_bit_eq_mod minus_mod_eq_div_mult)
qed

lemma stack_base:
  assumes "4 * n + 3 \<le> unat (p :: u32)"
  obtains sp q where "sp = (0xfffffffc AND p) - 4 * of_nat n" "p = sp + of_nat q" "q = 4 * n + unat p mod 4"
    "unat sp + q = unat p" "unat sp mod 4 = 0"
proof -
  let ?a = "0xfffffffc AND p"
  have a: "unat ?a = unat p - unat p mod 4" by (rule unat_and_fffffffc)
  have m: "unat p mod 4 \<le> 3" using mod_less_divisor [of 4 "unat p"] by linarith
  have n: "unat (4 * of_nat n :: u32) = 4 * n"
  proof -
    have "(4 * of_nat n :: u32) = of_nat (4 * n)" by simp
    moreover have "4 * n < 2 ^ 32" using assms u32_bounds(3) [of p] by linarith
    ultimately show ?thesis by (simp only: unat_of_nat) simp
  qed
  have sp: "unat (?a - 4 * of_nat n) = unat ?a - 4 * n"
    using a m n assms by (simp add: unat_sub word_le_nat_alt)
  then have q: "unat (?a - 4 * of_nat n) + (4 * n + unat p mod 4) = unat p" using a m assms by linarith
  show thesis
  proof (rule that [OF refl _ refl q])
    have "p = of_nat (unat (?a - 4 * of_nat n) + (4 * n + unat p mod 4))" unfolding q by simp
    then show "p = (?a - 4 * of_nat n) + of_nat (4 * n + unat p mod 4)" by (simp only: of_nat_add) simp
    have "unat ?a mod 4 = 0" unfolding a by (simp add: minus_mod_eq_mult_div)
    then show "unat (?a - 4 * of_nat n) mod 4 = 0"
      using sp by (simp add: mod_eq_0_iff_dvd dvd_diff_nat)
  qed
qed

lemma words_at_nth [simp]: "i < n \<Longrightarrow> words_at sp n k ! i = get_fs_long (sp + 4 * of_nat i) k"
  "length (words_at sp n k) = n"
  by (simp_all add: words_at_def)

text \<open>The stack of a new program with arguments \<open>args\<close> and environment \<open>envs\<close> whose strings start at \<open>p\<close>.\<close>

definition stack_words :: "u32 \<Rightarrow> u8 list list \<Rightarrow> u8 list list \<Rightarrow> u32 \<Rightarrow> u32 list" where
  "stack_words p args envs sp =
    [of_nat (length args), sp + 12, sp + 4 * of_nat (4 + length args)]
    @ starts p args @ [0] @ starts (p + of_nat (length (strings_bytes args))) envs @ [0]"

lemma stack_words_nth:
  assumes "i < 5 + length args + length envs"
  shows "stack_words p args envs sp ! i =
    (if i = 0 then of_nat (length args) else if i = 1 then sp + 12 else if i = 2 then sp + 4 * of_nat (4 + length args)
     else if i < 3 + length args then starts p args ! (i - 3)
     else if i = 3 + length args \<or> i = 4 + length args + length envs then 0
     else starts (p + of_nat (length (strings_bytes args))) envs ! (i - (4 + length args)))"
proof (cases "i < 3")
  case True
  then have "i = 0 \<or> i = 1 \<or> i = 2" by linarith
  then show ?thesis by (auto simp: stack_words_def)
next
  case False
  then obtain j where j: "i = 3 + j" by (metis le_Suc_ex not_less)
  let ?rest = "starts (p + of_nat (length (strings_bytes args))) envs @ [0]"
  have "stack_words p args envs sp ! i = (starts p args @ [0] @ ?rest) ! j"
    by (simp add: stack_words_def j)
  also have "\<dots> = (if j < length args then starts p args ! j else if j = length args then 0 else ?rest ! (j - Suc (length args)))"
    by (auto simp: nth_append nth_Cons')
  finally have s: "stack_words p args envs sp ! i = (if j < length args then starts p args ! j
      else if j = length args then 0 else ?rest ! (j - Suc (length args)))" .
  have "?rest ! (j - Suc (length args)) = (if j = 1 + length args + length envs then 0
      else starts (p + of_nat (length (strings_bytes args))) envs ! (j - Suc (length args)))" if "length args < j"
    using that assms by (auto simp: j nth_append)
  then show ?thesis unfolding s by (auto simp: j)
qed

text \<open>C5: \<open>create_tables\<close> makes the stack the C runtime expects. Given the strings of the arguments and of
  the environment one after another, and room below them, it returns a stack pointer that is a multiple
  of 4, where the number of arguments is found, then the addresses of the two tables, the addresses
  of the strings of the arguments, a null pointer, those of the environment, and a null pointer; the strings are not
  touched.\<close>

theorem create_tables_correct:
  assumes str: "strings_at p (args @ envs) k"
    and room: "4 * (5 + length args + length envs) + 3 \<le> unat p"
    and fits: "unat p + length (strings_bytes (args @ envs)) \<le> 2 ^ 32"
  shows "\<exists>sp k'. create_tables p (int (length args)) (int (length envs)) k = Ret (sp, k')
    \<and> unat sp mod 4 = 0 \<and> unat sp + 4 * (5 + length args + length envs) + unat p mod 4 = unat p
    \<and> words_at sp (5 + length args + length envs) k' = stack_words p args envs sp
    \<and> strings_at p (args @ envs) k'"
proof -
  let ?a = "length args" and ?e = "length envs"
  obtain sp q where sp: "sp = (0xfffffffc AND p) - 4 * of_nat (5 + ?a + ?e)" "p = sp + of_nat q"
    "q = 4 * (5 + ?a + ?e) + unat p mod 4" "unat sp + q = unat p" "unat sp mod 4 = 0"
    using stack_base [OF room] .
  let ?b = "q + length (strings_bytes args)"
  have small: "5 + ?a + ?e < 2 ^ 30" using room u32_bounds(3) [of p] by simp
  have q: "4 * (5 + ?a + ?e) \<le> q" "q + length (strings_bytes args) + length (strings_bytes envs) \<le> 2 ^ 32"
    using sp(3,4) fits by simp_all
  define k1 where "k1 = put_fs_long (of_nat ?a) (sp + 4 * of_nat 0) (put_fs_long (sp + 12) (sp + 4 * of_nat 1)
    (put_fs_long (sp + 4 * of_nat (4 + ?a)) (sp + 4 * of_nat 2) k))"
  have u1: "user k1 (sp + of_nat n) = user k (sp + of_nat n)" if "12 \<le> n" "n < 2 ^ 32" for n
    unfolding k1_def using that put_long_below [of 0 n] put_long_below [of 1 n] put_long_below [of 2 n] by simp
  have g1: "get_fs_long (sp + 4 * of_nat i) k1 = (if i = 0 then of_nat ?a else if i = 1 then sp + 12
      else if i = 2 then sp + 4 * of_nat (4 + ?a) else get_fs_long (sp + 4 * of_nat i) k)" if "i < 2 ^ 30" for i
    unfolding k1_def using get_put_long [OF that, of 0] get_put_long [OF that, of 1] get_put_long [OF that, of 2] by simp
  have same: "strings_at (sp + of_nat n) xss k'' \<longleftrightarrow> strings_at (sp + of_nat n) xss k'"
    if "\<And>n. n < 2 ^ 32 \<Longrightarrow> 4 * (5 + ?a + ?e) \<le> n \<Longrightarrow> user k'' (sp + of_nat n) = user k' (sp + of_nat n)"
      "q \<le> n" "n + length (strings_bytes xss) \<le> 2 ^ 32" for k' k'' n xss
  proof (rule strings_at_cong)
    fix i assume "i < length (strings_bytes xss)"
    then have "n + i < 2 ^ 32" "4 * (5 + ?a + ?e) \<le> n + i" using that(2,3) q(1) by linarith+
    from that(1) [OF this] show "user k'' (sp + of_nat n + of_nat i) = user k' (sp + of_nat n + of_nat i)"
      by (simp add: add.assoc)
  qed
  have s: "strings_at (sp + of_nat q) args k" "strings_at (sp + of_nat ?b) envs k"
    using str unfolding strings_at_append sp(2) by (simp_all add: add.assoc)
  have s1: "strings_at (sp + of_nat q) args k1"
    by (rule iffD2 [OF same s(1)]) (use u1 q in simp_all)
  have s2: "strings_at (sp + of_nat ?b) envs k1"
    by (rule iffD2 [OF same s(2)]) (use u1 q in simp_all)
  obtain k2 where k2: "put_pointers ?a (sp + of_nat q) (sp + 4 * of_nat 3) k1
      = Ret (sp + of_nat ?b, sp + 4 * of_nat (3 + ?a), k2)"
    "\<And>i. i < 2 ^ 30 \<Longrightarrow> get_fs_long (sp + 4 * of_nat i) k2
       = (if 3 \<le> i \<and> i < 3 + ?a then starts (sp + of_nat q) args ! (i - 3) else get_fs_long (sp + 4 * of_nat i) k1)"
    "\<And>n. n < 2 ^ 32 \<Longrightarrow> 4 * (3 + ?a) \<le> n \<Longrightarrow> user k2 (sp + of_nat n) = user k1 (sp + of_nat n)"
    using put_pointers_correct [OF s1, of 3] q by auto
  define k3 where "k3 = put_fs_long 0 (sp + 4 * of_nat (3 + ?a)) k2"
  have u3: "user k3 (sp + of_nat n) = user k2 (sp + of_nat n)" if "n < 2 ^ 32" "4 * (4 + ?a) \<le> n" for n
    unfolding k3_def by (rule put_long_below) (use that small in simp_all)
  have s3: "strings_at (sp + of_nat ?b) envs k3"
    by (rule iffD2 [OF same s2]) (use u3 k2(3) q in simp_all)
  obtain k4 where k4: "put_pointers ?e (sp + of_nat ?b) (sp + 4 * of_nat (4 + ?a)) k3
      = Ret (sp + of_nat (?b + length (strings_bytes envs)), sp + 4 * of_nat (4 + ?a + ?e), k4)"
    "\<And>i. i < 2 ^ 30 \<Longrightarrow> get_fs_long (sp + 4 * of_nat i) k4
       = (if 4 + ?a \<le> i \<and> i < 4 + ?a + ?e then starts (sp + of_nat ?b) envs ! (i - (4 + ?a)) else get_fs_long (sp + 4 * of_nat i) k3)"
    "\<And>n. n < 2 ^ 32 \<Longrightarrow> 4 * (4 + ?a + ?e) \<le> n \<Longrightarrow> user k4 (sp + of_nat n) = user k3 (sp + of_nat n)"
    using put_pointers_correct [OF s3, of "4 + ?a"] q by auto
  define k5 where "k5 = put_fs_long 0 (sp + 4 * of_nat (4 + ?a + ?e)) k4"
  have u5: "user k5 (sp + of_nat n) = user k4 (sp + of_nat n)" if "n < 2 ^ 32" "4 * (5 + ?a + ?e) \<le> n" for n
    unfolding k5_def by (rule put_long_below) (use that small in simp_all)
  show ?thesis
  proof (intro exI conjI)
    have t: "sp + 4 * of_nat (4 + ?a) - 4 * of_int (int ?a + 1) = sp + 12" by (simp add: algebra_simps)
    have "(0xfffffffc AND p) - 4 * of_int (int ?e + 1) = sp + 4 * of_nat (4 + ?a)"
      unfolding sp(1) by (simp add: algebra_simps)
    then have "create_tables p (int ?a) (int ?e) k = kbind (put_pointers ?a p (sp + 12) k1) (\<lambda>(p, t, k).
        kbind (put_pointers ?e p (sp + 4 * of_nat (4 + ?a)) (put_fs_long 0 t k)) (\<lambda>(p, t, k). Ret (sp, put_fs_long 0 t k)))"
      unfolding create_tables_def Let_def k1_def by (simp only: t nat_int) (simp add: ac_simps)
    then show "create_tables p (int ?a) (int ?e) k = Ret (sp, k5)"
      using k2(1) k4(1) unfolding sp(2) k3_def k5_def by simp
  next
    show "words_at sp (5 + ?a + ?e) k5 = stack_words p args envs sp"
    proof (rule nth_equalityI)
      fix i assume "i < length (words_at sp (5 + ?a + ?e) k5)"
      then have i: "i < 5 + ?a + ?e" "i < 2 ^ 30" using small by simp_all
      have g3: "get_fs_long (sp + 4 * of_nat i) k3 = (if i = 3 + ?a then 0 else get_fs_long (sp + 4 * of_nat i) k2)"
        unfolding k3_def by (rule get_put_long) (use i small in simp_all)
      have g5: "get_fs_long (sp + 4 * of_nat i) k5 = (if i = 4 + ?a + ?e then 0 else get_fs_long (sp + 4 * of_nat i) k4)"
        unfolding k5_def by (rule get_put_long) (use i small in simp_all)
      have p: "p + of_nat (length (strings_bytes args)) = sp + of_nat ?b" unfolding sp(2) by simp
      show "words_at sp (5 + ?a + ?e) k5 ! i = stack_words p args envs sp ! i"
        unfolding stack_words_nth [OF i(1)] words_at_nth(1) [OF i(1)] g5 k4(2) [OF i(2)] g3 k2(2) [OF i(2)] g1 [OF i(2)] p
        using i(1) unfolding sp(2) by auto
    qed (simp add: stack_words_def)
  next
    have "user k5 (sp + of_nat n) = user k (sp + of_nat n)" if "n < 2 ^ 32" "4 * (5 + ?a + ?e) \<le> n" for n
      using u5 [OF that] k4(3) [of n] u3 [of n] k2(3) [of n] u1 [of n] that by simp
    then show "strings_at p (args @ envs) k5"
      using str same [of k5 k q "args @ envs"] q unfolding sp(2) by simp
  qed (use sp(3-5) in simp_all)
qed

definition stack_example :: kernel where
  "stack_example = blank_kernel\<lparr>user := (\<lambda>_. 0)(100 := 0x6C, 101 := 0x73, 103 := 0x41)\<rparr>"

lemma create_tables_correct_witness:
  "\<exists>sp k. create_tables 100 1 1 stack_example = Ret (sp, k) \<and> unat sp mod 4 = 0
    \<and> words_at sp 7 k = [1, sp + 12, sp + 20, 100, 0, 103, 0]"
proof -
  have "strings_at 100 ([[0x6C, 0x73]] @ [[0x41]]) stack_example"
    by (simp add: strings_at_def stack_example_def get_fs_bytes_def upt_rec)
  then show ?thesis
    using create_tables_correct [of 100 "[[0x6C, 0x73]]" "[[0x41]]" stack_example] by (auto simp: stack_words_def)
qed

section \<open>The pages of the arguments\<close>

text \<open>The page of a byte of the argument area, and the byte itself.\<close>

definition arg_byte :: "u32 list \<Rightarrow> mm \<Rightarrow> nat \<Rightarrow> u8" where
  "arg_byte page m x = load_byte m (unat (page ! (x div 4096)) + x mod 4096)"

definition arg_pages_ok :: "u32 list \<Rightarrow> mm \<Rightarrow> bool" where
  "arg_pages_ok page m \<longleftrightarrow> wf_mm m \<and> length page = MAX_ARG_PAGES
    \<and> (\<forall>i < MAX_ARG_PAGES. page ! i \<noteq> 0 \<longrightarrow> (\<exists>q < PAGING_PAGES. page ! i = page_addr q \<and> refcount m q \<noteq> 0))
    \<and> (\<forall>i < MAX_ARG_PAGES. \<forall>j < MAX_ARG_PAGES. page ! i \<noteq> 0 \<longrightarrow> page ! i = page ! j \<longrightarrow> i = j)"

text \<open>\<open>offset\<close> and \<open>pag\<close> belong to \<open>p\<close>, unless a new page is to be looked up.\<close>

definition arg_area_ok :: "arg_area \<Rightarrow> bool" where
  "arg_area_ok a \<longleftrightarrow> arg_pages_ok (ar_page a) (ar_mem a)
    \<and> (ar_offset a = 0 \<or> ar_offset a = int (unat (ar_p a) mod 4096) \<and> unat (ar_p a) div 4096 < MAX_ARG_PAGES
         \<and> ar_pag a = ar_page a ! (unat (ar_p a) div 4096) \<and> ar_pag a \<noteq> 0)"

lemma page_addr_offset:
  assumes "q < PAGING_PAGES" "k < 4096"
  shows "unat (page_addr q) + k < 2 ^ 32" "unat (page_addr q + of_nat k) = unat (page_addr q) + k"
    "frame (of_nat (unat (page_addr q) + k - (unat (page_addr q) + k) mod 4)) = page_addr q"
proof -
  have q: "unat (page_addr q) = 4096 * q + 1048576" "q < 3840"
    using unat_page_addr [of q] assms(1) by (simp_all add: PAGING_PAGES_def)
  then show lt: "unat (page_addr q) + k < 2 ^ 32" using assms(2) by simp
  then show "unat (page_addr q + of_nat k) = unat (page_addr q) + k"
    using assms(2) by (simp add: unat_word_ariths unat_of_nat)
  have "unat (page_addr q) + k = k + 4 * (1024 * q + 262144)" unfolding q(1) by simp
  then have "(unat (page_addr q) + k) mod 4 = k mod 4" by (simp only: mod_mult_self2)
  then have e: "unat (page_addr q) + k - (unat (page_addr q) + k) mod 4 = unat (page_addr q) + (k - k mod 4)" by simp
  obtain j where j: "k - k mod 4 = j" "j < 4096" using assms(2) by simp
  then have "unat (of_nat j :: u32) < 4096" by (simp add: unat_of_nat)
  then show "frame (of_nat (unat (page_addr q) + k - (unat (page_addr q) + k) mod 4)) = page_addr q"
    unfolding e j(1) using frame_offset [of "page_addr q" "of_nat j"] page_addr_props(2) [of q] assms(1) by simp
qed

lemma load_byte_page:
  assumes "q < PAGING_PAGES" "k < 4096" "\<And>x. frame x = page_addr q \<Longrightarrow> phys m' x = phys m x"
  shows "load_byte m' (unat (page_addr q) + k) = load_byte m (unat (page_addr q) + k)"
  using assms(3) [OF page_addr_offset(3) [OF assms(1,2)]] by (simp add: load_byte_def)

lemma store_byte_page:
  assumes "q < PAGING_PAGES" "k < 4096" "frame x \<noteq> page_addr q"
  shows "phys (store_byte (unat (page_addr q) + k) v m) x = phys m x"
  using page_addr_offset(3) [OF assms(1,2)] assms(3) by (auto simp: store_byte_def Let_def)

text \<open>A store to one page of the area changes that byte of the area only.\<close>

lemma arg_byte_store:
  assumes ok: "arg_pages_ok page m" and p: "p < 4096 * MAX_ARG_PAGES" "page ! (p div 4096) \<noteq> 0"
    and x: "x < 4096 * MAX_ARG_PAGES" "page ! (x div 4096) \<noteq> 0"
  shows "arg_byte page (store_byte (unat (page ! (p div 4096)) + p mod 4096) v m) x = (if x = p then v else arg_byte page m x)"
proof -
  have i: "p div 4096 < MAX_ARG_PAGES" "x div 4096 < MAX_ARG_PAGES" using p(1) x(1) by (simp_all add: less_mult_imp_div_less mult.commute)
  obtain q where q: "q < PAGING_PAGES" "page ! (p div 4096) = page_addr q"
    using ok i(1) p(2) unfolding arg_pages_ok_def by blast
  obtain r where r: "r < PAGING_PAGES" "page ! (x div 4096) = page_addr r"
    using ok i(2) x(2) unfolding arg_pages_ok_def by blast
  have b: "unat (page_addr q) + p mod 4096 < 2 ^ 32" "unat (page_addr r) + x mod 4096 < 2 ^ 32"
    by (rule page_addr_offset(1) [OF q(1)], simp, rule page_addr_offset(1) [OF r(1)], simp)
  have u: "unat (page_addr q) = 4096 * q + 1048576" "unat (page_addr r) = 4096 * r + 1048576"
    using unat_page_addr q(1) r(1) by simp_all
  have "unat (page_addr r) + x mod 4096 = unat (page_addr q) + p mod 4096 \<longleftrightarrow> x = p"
  proof
    assume "unat (page_addr r) + x mod 4096 = unat (page_addr q) + p mod 4096"
    then have e: "4096 * r + x mod 4096 = 4096 * q + p mod 4096" unfolding u by simp
    then have "(4096 * r + x mod 4096) div 4096 = (4096 * q + p mod 4096) div 4096" by (simp only:)
    then have "r = q" by simp
    moreover have "x mod 4096 = p mod 4096" using e \<open>r = q\<close> by simp
    moreover have "x div 4096 = p div 4096"
      using ok i p(2) q r \<open>r = q\<close> unfolding arg_pages_ok_def by metis
    ultimately show "x = p" by (metis div_mult_mod_eq)
  qed (use q r page_addr_inject [OF q(1) r(1)] in simp)
  then show ?thesis unfolding arg_byte_def q(2) r(2) load_store_byte [OF b] by simp
qed

text \<open>The bytes \<open>xs\<close> are in the area from \<open>x\<close> on; and what a change of the area leaves from \<open>p\<close> on.\<close>

definition arg_holds :: "u32 list \<Rightarrow> mm \<Rightarrow> nat \<Rightarrow> u8 list \<Rightarrow> bool" where
  "arg_holds page m x xs \<longleftrightarrow> (\<forall>i < length xs. page ! ((x + i) div 4096) \<noteq> 0 \<and> arg_byte page m (x + i) = xs ! i)"

definition arg_kept :: "nat \<Rightarrow> u32 list \<Rightarrow> mm \<Rightarrow> u32 list \<Rightarrow> mm \<Rightarrow> bool" where
  "arg_kept p page m page' m' \<longleftrightarrow> (\<forall>i < MAX_ARG_PAGES. page ! i \<noteq> 0 \<longrightarrow> page' ! i = page ! i)
    \<and> (\<forall>x < 4096 * MAX_ARG_PAGES. p \<le> x \<longrightarrow> page ! (x div 4096) \<noteq> 0 \<longrightarrow> arg_byte page' m' x = arg_byte page m x)"

definition no_free_page :: "mm \<Rightarrow> bool" where
  "no_free_page m \<longleftrightarrow> (\<forall>q < PAGING_PAGES. refcount m q \<noteq> 0)"

lemma arg_page_index: "x < 4096 * MAX_ARG_PAGES \<Longrightarrow> x div 4096 < MAX_ARG_PAGES"
  by (simp add: less_mult_imp_div_less mult.commute)

lemma arg_kept_refl [simp]: "arg_kept p page m page m"
  by (simp add: arg_kept_def)

lemma arg_kept_trans:
  assumes "arg_kept p page m page' m'" "arg_kept p' page' m' page'' m''" "p' \<le> p"
  shows "arg_kept p page m page'' m''"
  unfolding arg_kept_def
proof (intro conjI allI impI)
  fix i assume "i < MAX_ARG_PAGES" "page ! i \<noteq> 0"
  then show "page'' ! i = page ! i" using assms(1,2) by (simp add: arg_kept_def)
next
  fix x assume x: "x < 4096 * MAX_ARG_PAGES" "p \<le> x" "page ! (x div 4096) \<noteq> 0"
  have "page' ! (x div 4096) = page ! (x div 4096)"
    using assms(1) x(3) arg_page_index [OF x(1)] by (simp add: arg_kept_def)
  moreover have "arg_byte page' m' x = arg_byte page m x" using assms(1) x by (simp add: arg_kept_def)
  moreover have "p' \<le> x" using x(2) assms(3) by linarith
  ultimately show "arg_byte page'' m'' x = arg_byte page m x" using assms(2) x by (simp add: arg_kept_def)
qed

lemma arg_holds_kept:
  assumes "arg_kept p page m page' m'" "arg_holds page m x xs" "p \<le> x" "x + length xs \<le> 4096 * MAX_ARG_PAGES"
  shows "arg_holds page' m' x xs"
  unfolding arg_holds_def
proof (intro allI impI)
  fix i assume i: "i < length xs"
  then have "x + i < 4096 * MAX_ARG_PAGES" "p \<le> x + i" using assms(3,4) by linarith+
  with i assms(1,2) arg_page_index [of "x + i"]
  show "page' ! ((x + i) div 4096) \<noteq> 0 \<and> arg_byte page' m' (x + i) = xs ! i"
    unfolding arg_kept_def arg_holds_def by metis
qed

lemma arg_holds_append:
  "arg_holds page m x (xs @ ys) \<longleftrightarrow> arg_holds page m x xs \<and> arg_holds page m (x + length xs) ys"
proof
  assume h: "arg_holds page m x (xs @ ys)"
  have "page ! ((x + length xs + i) div 4096) \<noteq> 0 \<and> arg_byte page m (x + length xs + i) = ys ! i" if "i < length ys" for i
    using h [unfolded arg_holds_def, rule_format, of "length xs + i"] that by (simp add: add.assoc)
  then show "arg_holds page m x xs \<and> arg_holds page m (x + length xs) ys"
    using h by (auto simp: arg_holds_def nth_append)
next
  assume h: "arg_holds page m x xs \<and> arg_holds page m (x + length xs) ys"
  show "arg_holds page m x (xs @ ys)"
    unfolding arg_holds_def
  proof (intro allI impI)
    fix i assume "i < length (xs @ ys)"
    with h show "page ! ((x + i) div 4096) \<noteq> 0 \<and> arg_byte page m (x + i) = (xs @ ys) ! i"
      unfolding arg_holds_def by (cases "i < length xs") (auto simp: nth_append dest: spec [of _ "i - length xs"])
  qed
qed

lemma next_arg_page_ok:
  assumes ok: "arg_pages_ok (ar_page a) (ar_mem a)" and i: "unat (ar_p a) div 4096 < MAX_ARG_PAGES"
  shows "\<exists>r a'. next_arg_page a = Ret (r, a') \<and> arg_pages_ok (ar_page a') (ar_mem a') \<and> ar_p a' = ar_p a
    \<and> ar_offset a' = int (unat (ar_p a) mod 4096)
    \<and> (r \<longrightarrow> ar_pag a' = ar_page a' ! (unat (ar_p a) div 4096) \<and> ar_pag a' \<noteq> 0)
    \<and> (\<not> r \<longrightarrow> no_free_page (ar_mem a')) \<and> arg_kept 0 (ar_page a) (ar_mem a) (ar_page a') (ar_mem a')"
proof (cases "ar_page a ! (unat (ar_p a) div 4096) = 0")
  case False
  then show ?thesis using ok i by (intro exI [of _ True]) (simp add: next_arg_page_def Let_def)
next
  case True
  let ?i = "unat (ar_p a) div 4096" and ?p = "ar_page a"
  obtain g m where g: "get_free_page (ar_mem a) = (g, m)" by fastforce
  have n: "next_arg_page a = Ret (g \<noteq> 0, a\<lparr>ar_offset := int (unat (ar_p a) mod 4096), ar_pag := g,
      ar_page := ?p[?i := g], ar_mem := m\<rparr>)"
    using True i g by (simp add: next_arg_page_def Let_def)
  have len: "length ?p = MAX_ARG_PAGES" using ok by (simp add: arg_pages_ok_def)
  from g show ?thesis
  proof (cases rule: get_free_page_cases)
    case none
    then have "?p[?i := g] = ?p" using True by (metis list_update_id)
    then show ?thesis using none n ok True len i by (intro exI [of _ False]) (simp add: no_free_page_def)
  next
    case (page q)
    have g0: "g \<noteq> 0" using page page_addr_props(1) [of q] by simp
    have other: "?p ! j \<noteq> g" if j: "j < MAX_ARG_PAGES" "?p ! j \<noteq> 0" for j
    proof -
      obtain r where "r < PAGING_PAGES" "?p ! j = page_addr r" "refcount (ar_mem a) r \<noteq> 0"
        using ok j unfolding arg_pages_ok_def by blast
      then show ?thesis using page(1-3) page_addr_inject [of r q] by auto
    qed
    have ml: "length (mem_map (ar_mem a)) = PAGING_PAGES" using ok by (simp add: arg_pages_ok_def wf_mm_def)
    have ok': "arg_pages_ok (?p[?i := g]) m"
      unfolding arg_pages_ok_def
    proof (intro conjI allI impI)
      show "wf_mm m" using get_free_page_wf [OF _ g] ok by (simp add: arg_pages_ok_def)
      show "length (?p[?i := g]) = MAX_ARG_PAGES" using len by simp
    next
      fix j assume j: "j < MAX_ARG_PAGES" "?p[?i := g] ! j \<noteq> 0"
      show "\<exists>q < PAGING_PAGES. ?p[?i := g] ! j = page_addr q \<and> refcount m q \<noteq> 0"
      proof (cases "j = ?i")
        case True
        then show ?thesis using page(1,2,5) len j(1) ml by (intro exI [of _ q]) simp
      next
        case False
        then obtain r where "r < PAGING_PAGES" "?p ! j = page_addr r" "refcount (ar_mem a) r \<noteq> 0"
          using ok j unfolding arg_pages_ok_def by (metis nth_list_update_neq)
        then show ?thesis using page(1,5) False ml by (intro exI [of _ r]) (auto simp: nth_list_update)
      qed
    next
      fix j l assume j: "j < MAX_ARG_PAGES" "l < MAX_ARG_PAGES" "?p[?i := g] ! j \<noteq> 0" "?p[?i := g] ! j = ?p[?i := g] ! l"
      show "j = l"
      proof (rule ccontr)
        assume "j \<noteq> l"
        then consider "j = ?i" "l \<noteq> ?i" | "j \<noteq> ?i" "l = ?i" | "j \<noteq> ?i" "l \<noteq> ?i" by blast
        then show False
        proof cases
          case 1
          then show False using j other [OF j(2)] len i g0 by simp
        next
          case 2
          then show False using j other [OF j(1)] len i by simp
        next
          case 3
          then have e: "?p ! j = ?p ! l" "?p ! j \<noteq> 0" using j by (simp_all add: nth_list_update_neq)
          have "\<forall>i < MAX_ARG_PAGES. \<forall>j < MAX_ARG_PAGES. ?p ! i \<noteq> 0 \<longrightarrow> ?p ! i = ?p ! j \<longrightarrow> i = j"
            using ok unfolding arg_pages_ok_def by (elim conjE)
          then show False using j(1,2) e \<open>j \<noteq> l\<close> by blast
        qed
      qed
    qed
    have "arg_byte (?p[?i := g]) m x = arg_byte ?p (ar_mem a) x" if x: "x < 4096 * MAX_ARG_PAGES" "?p ! (x div 4096) \<noteq> 0" for x
    proof -
      have j: "x div 4096 < MAX_ARG_PAGES" "x div 4096 \<noteq> ?i" using arg_page_index [OF x(1)] x(2) True by auto
      obtain r where r: "r < PAGING_PAGES" "?p ! (x div 4096) = page_addr r"
        using ok j(1) x(2) unfolding arg_pages_ok_def by blast
      have "load_byte m (unat (page_addr r) + x mod 4096) = load_byte (ar_mem a) (unat (page_addr r) + x mod 4096)"
      proof (rule load_byte_page [OF r(1)])
        show "phys m y = phys (ar_mem a) y" if "frame y = page_addr r" for y
          using page(7) other [OF j(1) x(2)] r(2) that by simp
      qed simp
      then show ?thesis using j(2) r(2) by (simp add: arg_byte_def)
    qed
    moreover have "?p[?i := g] ! j = ?p ! j" if "?p ! j \<noteq> 0" for j using True that by (metis nth_list_update_neq)
    ultimately have "arg_kept 0 ?p (ar_mem a) (?p[?i := g]) m" by (simp add: arg_kept_def)
    then show ?thesis using n ok' g0 len i by (intro exI [of _ True]) simp
  qed
qed

lemma put_arg_byte_ok:
  assumes ok: "arg_area_ok a" and p: "unat (ar_p a) = Suc p" "p < 4096 * MAX_ARG_PAGES"
  shows "\<exists>r a'. put_arg_byte c a = Ret (r, a') \<and> arg_pages_ok (ar_page a') (ar_mem a')
    \<and> (\<not> r \<longrightarrow> no_free_page (ar_mem a'))
    \<and> (r \<longrightarrow> arg_area_ok a' \<and> unat (ar_p a') = p \<and> arg_holds (ar_page a') (ar_mem a') p [c]
         \<and> arg_kept (Suc p) (ar_page a) (ar_mem a) (ar_page a') (ar_mem a'))"
proof -
  define b where "b = a\<lparr>ar_p := ar_p a - 1, ar_offset := ar_offset a - 1\<rparr>"
  have pb: "unat (ar_p b) = p" using p(1) by (simp add: b_def unat_sub word_le_nat_alt)
  have i: "unat (ar_p b) div 4096 < MAX_ARG_PAGES" using arg_page_index [OF p(2)] pb by simp
  have okb: "arg_pages_ok (ar_page b) (ar_mem b)" using ok by (simp add: b_def arg_area_ok_def)
  have look: "\<exists>r d. (if ar_offset b < 0 then next_arg_page b else Ret (True, b)) = Ret (r, d)
    \<and> arg_pages_ok (ar_page d) (ar_mem d) \<and> ar_p d = ar_p b \<and> ar_offset d = int (p mod 4096)
    \<and> (r \<longrightarrow> ar_pag d = ar_page d ! (p div 4096) \<and> ar_pag d \<noteq> 0)
    \<and> (\<not> r \<longrightarrow> no_free_page (ar_mem d)) \<and> arg_kept 0 (ar_page a) (ar_mem a) (ar_page d) (ar_mem d)"
  proof (cases "ar_offset a = 0")
    case True
    then have "ar_offset b < 0" by (simp add: b_def)
    then show ?thesis using next_arg_page_ok [OF okb i] unfolding pb by (simp add: b_def)
  next
    case False
    then have o: "ar_offset a = int (Suc p mod 4096)" "ar_pag a = ar_page a ! (Suc p div 4096)" "ar_pag a \<noteq> 0" "Suc p mod 4096 \<noteq> 0"
      using ok p(1) by (auto simp: arg_area_ok_def)
    have "Suc p mod 4096 = Suc (p mod 4096)" "Suc p div 4096 = p div 4096"
      using o(4) by (simp_all add: mod_Suc div_Suc split: if_splits)
    then have "ar_offset b = int (p mod 4096)" "ar_pag b = ar_page b ! (p div 4096)" "ar_pag b \<noteq> 0"
      using o by (simp_all add: b_def)
    then show ?thesis using okb by (intro exI [of _ True] exI [of _ b]) (simp add: b_def)
  qed
  then obtain r d where d: "(if ar_offset b < 0 then next_arg_page b else Ret (True, b)) = Ret (r, d)"
    "arg_pages_ok (ar_page d) (ar_mem d)" "ar_p d = ar_p b" "ar_offset d = int (p mod 4096)"
    "r \<Longrightarrow> ar_pag d = ar_page d ! (p div 4096) \<and> ar_pag d \<noteq> 0" "\<not> r \<Longrightarrow> no_free_page (ar_mem d)"
    "arg_kept 0 (ar_page a) (ar_mem a) (ar_page d) (ar_mem d)"
    by blast
  let ?m = "store_byte (unat (ar_pag d + of_int (ar_offset d))) c (ar_mem d)"
  have put: "put_arg_byte c a = Ret (r, if r then d\<lparr>ar_mem := ?m\<rparr> else d)"
    using d(1) by (simp add: put_arg_byte_def b_def [symmetric])
  show ?thesis
  proof (cases r)
    case False
    then show ?thesis using put d(2,6) by (intro exI [of _ False]) simp
  next
    case True
    have ip: "p div 4096 < MAX_ARG_PAGES" using arg_page_index [OF p(2)] .
    obtain q where q: "q < PAGING_PAGES" "ar_page d ! (p div 4096) = page_addr q"
      using d(2,5) True ip unfolding arg_pages_ok_def by metis
    have addr: "unat (ar_pag d + of_int (ar_offset d)) = unat (ar_page d ! (p div 4096)) + p mod 4096"
      using page_addr_offset(2) [OF q(1), of "p mod 4096"] d(4,5) True q(2) by simp
    have pg: "ar_page d ! (p div 4096) \<noteq> 0" using d(5) True by auto
    have byte: "arg_byte (ar_page d) ?m x = (if x = p then c else arg_byte (ar_page d) (ar_mem d) x)"
      if "x < 4096 * MAX_ARG_PAGES" "ar_page d ! (x div 4096) \<noteq> 0" for x
      unfolding addr by (rule arg_byte_store [OF d(2) p(2) pg that])
    have ok': "arg_pages_ok (ar_page d) ?m" using d(2) by (simp add: arg_pages_ok_def wf_mm_def)
    have "arg_holds (ar_page d) ?m p [c]" using byte [OF p(2) pg] pg by (simp add: arg_holds_def)
    moreover have "arg_kept (Suc p) (ar_page a) (ar_mem a) (ar_page d) ?m"
    proof (rule arg_kept_trans [OF _ _ order_refl])
      show "arg_kept (Suc p) (ar_page a) (ar_mem a) (ar_page d) (ar_mem d)" using d(7) by (simp add: arg_kept_def)
      show "arg_kept (Suc p) (ar_page d) (ar_mem d) (ar_page d) ?m" using byte by (auto simp: arg_kept_def)
    qed
    moreover have "arg_area_ok (d\<lparr>ar_mem := ?m\<rparr>)"
      using True ok' d(3-5) pb ip pg by (simp add: arg_area_ok_def)
    ultimately show ?thesis
      using True put ok' d(3) pb by (intro exI [of _ True] exI [of _ "d\<lparr>ar_mem := ?m\<rparr>"]) simp
  qed
qed

lemma put_arg_bytes_ok:
  "arg_area_ok a \<Longrightarrow> unat (ar_p a) = p + length xs \<Longrightarrow> p + length xs \<le> 4096 * MAX_ARG_PAGES \<Longrightarrow>
    \<exists>r a'. put_arg_bytes xs a = Ret (r, a') \<and> arg_pages_ok (ar_page a') (ar_mem a')
    \<and> (\<not> r \<longrightarrow> no_free_page (ar_mem a'))
    \<and> (r \<longrightarrow> arg_area_ok a' \<and> unat (ar_p a') = p \<and> arg_holds (ar_page a') (ar_mem a') p (rev xs)
         \<and> arg_kept (p + length xs) (ar_page a) (ar_mem a) (ar_page a') (ar_mem a'))"
proof (induction xs arbitrary: a)
  case Nil
  then show ?case by (intro exI [of _ True] exI [of _ a]) (simp add: arg_holds_def arg_area_ok_def)
next
  case (Cons x xs)
  have p1: "unat (ar_p a) = Suc (p + length xs)" "p + length xs < 4096 * MAX_ARG_PAGES" using Cons.prems by simp_all
  obtain r b where b: "put_arg_byte x a = Ret (r, b)" "arg_pages_ok (ar_page b) (ar_mem b)" "\<not> r \<Longrightarrow> no_free_page (ar_mem b)"
    "r \<Longrightarrow> arg_area_ok b \<and> unat (ar_p b) = p + length xs \<and> arg_holds (ar_page b) (ar_mem b) (p + length xs) [x]
      \<and> arg_kept (Suc (p + length xs)) (ar_page a) (ar_mem a) (ar_page b) (ar_mem b)"
    using put_arg_byte_ok [OF Cons.prems(1) p1, of x] by blast
  show ?case
  proof (cases r)
    case False
    then show ?thesis using b by (intro exI [of _ False]) simp
  next
    case True
    note b' = b(4) [OF True]
    obtain r' d where d: "put_arg_bytes xs b = Ret (r', d)" "arg_pages_ok (ar_page d) (ar_mem d)" "\<not> r' \<Longrightarrow> no_free_page (ar_mem d)"
      "r' \<Longrightarrow> arg_area_ok d \<and> unat (ar_p d) = p \<and> arg_holds (ar_page d) (ar_mem d) p (rev xs)
        \<and> arg_kept (p + length xs) (ar_page b) (ar_mem b) (ar_page d) (ar_mem d)"
      using Cons.IH [of b] b' Cons.prems(3) by auto
    have put: "put_arg_bytes (x # xs) a = Ret (r', d)" using b(1) d(1) True by simp
    show ?thesis
    proof (cases r')
      case False
      then show ?thesis using put d by (intro exI [of _ False]) simp
    next
      case r': True
      note d' = d(4) [OF r']
      have "arg_holds (ar_page d) (ar_mem d) (p + length xs) [x]"
        by (rule arg_holds_kept [OF conjunct2 [OF conjunct2 [OF conjunct2 [OF d']]]]) (use b' p1(2) in simp_all)
      then have "arg_holds (ar_page d) (ar_mem d) p (rev (x # xs))"
        using d' by (simp add: arg_holds_append)
      moreover have "arg_kept (p + length (x # xs)) (ar_page a) (ar_mem a) (ar_page d) (ar_mem d)"
        by (rule arg_kept_trans [of _ _ _ "ar_page b" "ar_mem b" "p + length xs"]) (use b' d' in simp_all)
      ultimately show ?thesis using put d' d(2) r' by (intro exI [of _ True]) simp
    qed
  qed
qed

lemma copy_args_ok:
  "arg_area_ok a \<Longrightarrow> unat (ar_p a) = x + length (strings_bytes xss) \<Longrightarrow>
    x + length (strings_bytes xss) \<le> 4096 * MAX_ARG_PAGES \<Longrightarrow>
    (\<And>i. i < length xss \<Longrightarrow> arg_string src i k = Ret (xss ! i @ [0])) \<Longrightarrow>
    \<exists>r a'. copy_args (rev [0..<length xss]) src k a = Ret (r, a') \<and> arg_pages_ok (ar_page a') (ar_mem a')
    \<and> (\<not> r \<longrightarrow> no_free_page (ar_mem a'))
    \<and> (r \<longrightarrow> unat (ar_p a') = x \<and> arg_holds (ar_page a') (ar_mem a') x (strings_bytes xss)
         \<and> arg_kept (x + length (strings_bytes xss)) (ar_page a) (ar_mem a) (ar_page a') (ar_mem a'))"
proof (induction xss arbitrary: a rule: rev_induct)
  case Nil
  then show ?case by (intro exI [of _ True] exI [of _ a]) (simp add: arg_holds_def arg_area_ok_def)
next
  case (snoc xs xss)
  let ?n = "length (strings_bytes xss)"
  have str: "arg_string src (length xss) k = Ret (xs @ [0])" using snoc.prems(4) [of "length xss"] by simp
  have strs: "arg_string src i k = Ret (xss ! i @ [0])" if "i < length xss" for i
    using snoc.prems(4) [of i] that by (simp add: nth_append)
  have p1: "unat (ar_p a) = (x + ?n) + length (rev (xs @ [0]))" "(x + ?n) + length (rev (xs @ [0])) \<le> 4096 * MAX_ARG_PAGES"
    using snoc.prems(2,3) by simp_all
  obtain r b where b: "put_arg_bytes (rev (xs @ [0])) a = Ret (r, b)" "arg_pages_ok (ar_page b) (ar_mem b)"
    "\<not> r \<Longrightarrow> no_free_page (ar_mem b)"
    "r \<Longrightarrow> arg_area_ok b \<and> unat (ar_p b) = x + ?n \<and> arg_holds (ar_page b) (ar_mem b) (x + ?n) (xs @ [0])
      \<and> arg_kept (x + ?n + length (rev (xs @ [0]))) (ar_page a) (ar_mem a) (ar_page b) (ar_mem b)"
    using put_arg_bytes_ok [OF snoc.prems(1) p1] unfolding rev_rev_ident by blast
  have step: "copy_args (rev [0..<length (xss @ [xs])]) src k a = (if r then copy_args (rev [0..<length xss]) src k b else Ret (False, b))"
    using str b(1) by simp
  show ?case
  proof (cases r)
    case False
    then show ?thesis unfolding step using b by (intro exI [of _ False]) simp
  next
    case True
    note b' = b(4) [OF True]
    obtain r' d where d: "copy_args (rev [0..<length xss]) src k b = Ret (r', d)" "arg_pages_ok (ar_page d) (ar_mem d)"
      "\<not> r' \<Longrightarrow> no_free_page (ar_mem d)"
      "r' \<Longrightarrow> unat (ar_p d) = x \<and> arg_holds (ar_page d) (ar_mem d) x (strings_bytes xss)
        \<and> arg_kept (x + ?n) (ar_page b) (ar_mem b) (ar_page d) (ar_mem d)"
      using snoc.IH [of b] strs b' snoc.prems(3) by auto
    show ?thesis
    proof (cases r')
      case False
      then show ?thesis unfolding step using True d by (intro exI [of _ False]) simp
    next
      case r': True
      note d' = d(4) [OF r']
      have "arg_holds (ar_page d) (ar_mem d) (x + ?n) (xs @ [0])"
        by (rule arg_holds_kept [OF conjunct2 [OF conjunct2 [OF d']]]) (use b' p1(2) in simp_all)
      then have "arg_holds (ar_page d) (ar_mem d) x (strings_bytes (xss @ [xs]))"
        using d' by (simp add: arg_holds_append [of _ _ _ "strings_bytes xss"])
      moreover have "arg_kept (x + length (strings_bytes (xss @ [xs]))) (ar_page a) (ar_mem a) (ar_page d) (ar_mem d)"
        by (rule arg_kept_trans [of _ _ _ "ar_page b" "ar_mem b" "x + ?n"]) (use b' d' in \<open>simp_all add: add.assoc\<close>)
      ultimately show ?thesis unfolding step using True r' d(1,2) d' by (intro exI [of _ True]) simp
    qed
  qed
qed

text \<open>C4: \<open>copy_strings\<close> puts the strings, each with its zero byte, one after another into the pages of the
  arguments, ending at the address it is given, and returns where they start; what is above is kept,
  so the strings of a second call are followed by those of the first. Pages are taken as needed; the call returns 0
  only when no page is free. The strings must be shorter than the room below the address.\<close>

theorem copy_strings_places:
  assumes pages: "arg_pages_ok page (mem k)"
    and strings: "\<forall>i < length xss. arg_string src i k = Ret (xss ! i @ [0])"
    and room: "length (strings_bytes xss) < unat p" "unat p \<le> 4096 * MAX_ARG_PAGES"
  shows "\<exists>r page' m. copy_strings (int (length xss)) src page p k = Ret (r, page', k\<lparr>mem := m\<rparr>)
    \<and> arg_pages_ok page' m
    \<and> (if r = 0 then no_free_page m
       else unat r + length (strings_bytes xss) = unat p \<and> arg_holds page' m (unat r) (strings_bytes xss)
         \<and> arg_kept (unat p) page (mem k) page' m)"
proof -
  let ?x = "unat p - length (strings_bytes xss)"
  let ?a = "\<lparr>ar_p = p, ar_offset = 0, ar_pag = 0, ar_page = page, ar_mem = mem k\<rparr>"
  have p: "p \<noteq> 0" "unat (ar_p ?a) = ?x + length (strings_bytes xss)" "?x + length (strings_bytes xss) = unat p" "0 < ?x"
    using room(1) by auto
  have ok: "arg_area_ok ?a" using pages by (simp add: arg_area_ok_def)
  obtain r a where a: "copy_args (rev [0..<length xss]) src k ?a = Ret (r, a)" "arg_pages_ok (ar_page a) (ar_mem a)"
    "\<not> r \<Longrightarrow> no_free_page (ar_mem a)"
    "r \<Longrightarrow> unat (ar_p a) = ?x \<and> arg_holds (ar_page a) (ar_mem a) ?x (strings_bytes xss)
      \<and> arg_kept (unat p) page (mem k) (ar_page a) (ar_mem a)"
    using copy_args_ok [OF ok p(2) _ strings [rule_format], unfolded p(3) arg_area.select_convs] room(2) by blast
  have c: "copy_strings (int (length xss)) src page p k = Ret (if r then ar_p a else 0, ar_page a, k\<lparr>mem := ar_mem a\<rparr>)"
    using p(1) a(1) by (simp add: copy_strings_def)
  show ?thesis
  proof (cases r)
    case False
    then show ?thesis
      unfolding c using a(2,3) by (intro exI [of _ 0] exI [of _ "ar_page a"] exI [of _ "ar_mem a"]) simp
  next
    case True
    then have "unat (ar_p a) = ?x" using a(4) by blast
    moreover from this have "ar_p a \<noteq> 0" using p(4) by auto
    ultimately show ?thesis
      unfolding c using True a(2,4) p(3) by (intro exI [of _ "ar_p a"] exI [of _ "ar_page a"] exI [of _ "ar_mem a"]) simp
  qed
qed

definition args_example :: kernel where
  "args_example = stack_example\<lparr>user := (user stack_example)(104 := 100),
     mem := (mem stack_example)\<lparr>mem_map := replicate PAGING_PAGES 0\<rparr>\<rparr>"

lemma copy_strings_places_witness:
  "\<exists>r page m. copy_strings 1 (User_array 104) (replicate 32 0) 0x1FFFC args_example = Ret (r, page, args_example\<lparr>mem := m\<rparr>)
    \<and> (if r = 0 then no_free_page m else unat r = 0x1FFF9 \<and> arg_holds page m 0x1FFF9 [0x6C, 0x73, 0])"
proof -
  let ?k = args_example
  have pages: "arg_pages_ok (replicate 32 0) (mem ?k)"
    by (simp add: arg_pages_ok_def MAX_ARG_PAGES_def args_example_def stack_example_def blank_kernel_def wf_mm_def)
  have "string_at USER_BYTES 100 (user ?k) = Some [0x6C, 0x73]"
    by (rule string_at_bytes) (simp_all add: args_example_def stack_example_def get_fs_bytes_def upt_rec USER_BYTES_def)
  moreover have "get_fs_long 104 ?k = 100" by (simp add: get_fs_long_def args_example_def stack_example_def blank_kernel_def)
  ultimately have s: "\<forall>i < length [[0x6C, 0x73]]. arg_string (User_array 104) i ?k = Ret ([[0x6C, 0x73]] ! i @ [0])"
    by (simp add: arg_string_def user_string_def)
  have room: "unat (0x1FFFC :: u32) \<le> 4096 * MAX_ARG_PAGES" by (simp add: MAX_ARG_PAGES_def)
  have less: "length (strings_bytes [[0x6C, 0x73 :: u8]]) < unat (0x1FFFC :: u32)" by simp
  obtain r page m where c: "copy_strings 1 (User_array 104) (replicate 32 0) 0x1FFFC ?k = Ret (r, page, ?k\<lparr>mem := m\<rparr>)"
    "if r = 0 then no_free_page m
     else unat r + 3 = unat (0x1FFFC :: u32) \<and> arg_holds page m (unat r) [0x6C, 0x73, 0]"
  proof -
    obtain r page m where "copy_strings (int (length [[0x6C, 0x73 :: u8]])) (User_array 104) (replicate 32 0) 0x1FFFC ?k
        = Ret (r, page, ?k\<lparr>mem := m\<rparr>)"
      "if r = 0 then no_free_page m
       else unat r + length (strings_bytes [[0x6C, 0x73]]) = unat (0x1FFFC :: u32)
         \<and> arg_holds page m (unat r) (strings_bytes [[0x6C, 0x73]])
         \<and> arg_kept (unat (0x1FFFC :: u32)) (replicate 32 0) (mem ?k) page m"
      using copy_strings_places [OF pages s less room] by (elim exE conjE) (rule that)
    then show thesis using that [of r page m] by (cases "r = 0") auto
  qed
  have "if r = 0 then no_free_page m else unat r = 0x1FFF9 \<and> arg_holds page m 0x1FFF9 [0x6C, 0x73, 0]"
    using c(2) by (cases "r = 0") auto
  with c(1) show ?thesis by blast
qed

end
