(* ===== verification/Exec_Stack.thy ===== *)
theory Exec_Stack imports Arguments Process_Ids begin

unbundle bit_operations_syntax

text \<open>
  The stack of the program \<open>execve\<close> starts: the pages of the arguments become the end of the data segment,
  and the program finds the arguments and the environment its caller passed.
\<close>

section \<open>The parts of a linear address\<close>

lemma bit_ffc: "bit (0xffc :: u32) n \<longleftrightarrow> 2 \<le> n \<and> n < 12"
proof -
  have "(0xffc :: u32) = push_bit 2 (mask 10)" by (simp add: mask_eq_exp_minus_1 push_bit_eq_mult)
  then show ?thesis by (simp only: bit_push_bit_iff bit_mask_iff) auto
qed

lemma dir_addr_drop: "dir_addr x = push_bit 2 (drop_bit 22 x)"
proof (rule bit_eqI)
  fix n :: nat
  have "22 + (n - 2) = 20 + n" if "2 \<le> n" using that by simp
  then show "bit (dir_addr x) n = bit (push_bit 2 (drop_bit 22 x)) n"
    by (auto simp only: dir_addr_def bit_and_iff bit_push_bit_iff bit_drop_bit_eq comp_def bit_ffc dest: bit_imp_le_length)
      (auto dest: bit_imp_le_length)
qed

lemma table_index: "drop_bit 10 x AND 0xffc = (push_bit 2 (take_bit 10 (drop_bit 12 x)) :: u32)"
proof (rule bit_eqI)
  fix n :: nat
  have "12 + (n - 2) = 10 + n" if "2 \<le> n" using that by simp
  then show "bit (drop_bit 10 x AND 0xffc) n = bit (push_bit 2 (take_bit 10 (drop_bit 12 x))) n"
    by (auto simp only: bit_and_iff bit_push_bit_iff bit_take_bit_iff bit_drop_bit_eq comp_def bit_ffc dest: bit_imp_le_length)
      (auto dest: bit_imp_le_length)
qed

lemma table_index': "push_bit 2 (drop_bit 12 x AND 0x3ff) = (push_bit 2 (take_bit 10 (drop_bit 12 x)) :: u32)"
proof -
  have "(0x3ff :: u32) = mask 10" by (simp add: mask_eq_exp_minus_1)
  then show ?thesis by (simp only: take_bit_eq_mask)
qed

text \<open>An address in the 4 MB that the table of \<open>a\<close> describes.\<close>

lemma linear_parts:
  assumes a: "unat a mod 2 ^ 22 = 0" and j: "j < 1024" and k: "k < 4096"
  shows "dir_addr (a + of_nat (4096 * j + k)) = dir_addr a"
    "drop_bit 10 (a + of_nat (4096 * j + k)) AND 0xffc = 4 * of_nat j"
    "(a + of_nat (4096 * j + k)) AND 0xfff = of_nat k"
proof -
  let ?x = "a + of_nat (4096 * j + k)"
  obtain q where q: "unat a = 2 ^ 22 * q" using a by (metis mod_0_imp_dvd dvdE)
  have lt: "4096 * j + k < 2 ^ 22" using j k by simp
  have from_unat: "y = of_nat n" if "unat y = n" for y :: u32 and n using that by auto
  have "unat a < 2 ^ 32" by (rule u32_bounds)
  then have "q < 1024" using q by simp
  then have "unat a + (4096 * j + k) < 2 ^ 32" using q lt by simp
  then have x: "unat ?x = 2 ^ 22 * q + (4096 * j + k)"
    using q lt by (simp add: unat_word_ariths unat_of_nat)
  have drop: "unat (drop_bit n y) = unat y div 2 ^ n" for n and y :: u32
    by (simp only: unat_drop_bit_eq) (simp only: drop_bit_eq_div)
  have "unat (drop_bit 22 ?x) = unat (drop_bit 22 a)"
    unfolding drop x q using lt by simp
  then have "drop_bit 22 ?x = drop_bit 22 a" by (simp only: word_unat_eq_iff)
  then show "dir_addr ?x = dir_addr a" by (simp only: dir_addr_drop)
  have e: "2 ^ 22 * q + (4096 * j + k) = 4096 * (1024 * q + j) + k" by simp
  have d: "unat ?x div 4096 = 1024 * q + j" unfolding x e using k by simp
  have "unat (take_bit 10 (drop_bit 12 ?x)) = j"
  proof -
    have "unat (take_bit 10 y) = unat y mod 1024" for y :: u32
      by (simp only: unsigned_take_bit_eq) (simp only: take_bit_eq_mod, simp)
    then show ?thesis using d j drop [of 12 ?x] by simp
  qed
  then have "take_bit 10 (drop_bit 12 ?x) = of_nat j" by (rule from_unat)
  then show "drop_bit 10 ?x AND 0xffc = 4 * of_nat j" by (simp add: table_index push_bit_eq_mult)
  have "(0xfff :: u32) = mask 12" by (simp add: mask_eq_exp_minus_1)
  then have "?x AND 0xfff = take_bit 12 ?x" by (simp only: take_bit_eq_mask)
  moreover have "unat (take_bit 12 ?x) = k"
  proof -
    have t: "unat (take_bit 12 y) = unat y mod 4096" for y :: u32
      by (simp only: unsigned_take_bit_eq) (simp only: take_bit_eq_mod, simp)
    have "unat ?x = k + 4096 * (1024 * q + j)" using x by simp
    then show ?thesis unfolding t using k by (simp only: mod_mult_self2 mod_less)
  qed
  ultimately show "?x AND 0xfff = of_nat k" by (metis from_unat)
qed

section \<open>Mapping the pages of the arguments\<close>

text \<open>The page table \<open>t\<close> is in use, is not a page of the arguments, and describes the 4 MB from \<open>a\<close> on.\<close>

definition table_ready :: "u32 \<Rightarrow> u32 \<Rightarrow> u32 list \<Rightarrow> mm \<Rightarrow> bool" where
  "table_ready a t page m \<longleftrightarrow> phys m (dir_addr a) = t OR 7 \<and> aligned t \<and> LOW_MEM \<le> t
    \<and> (\<forall>i < MAX_ARG_PAGES. page ! i \<noteq> t)"

text \<open>The entry of the table for page \<open>i\<close> of the arguments, and the linear address of the page.\<close>

definition arg_entry :: "u32 \<Rightarrow> nat \<Rightarrow> u32" where
  "arg_entry t i = t + 4 * of_nat (992 + i)"

definition arg_linear :: "u32 \<Rightarrow> nat \<Rightarrow> u32" where
  "arg_linear a i = a + of_nat (4096 * (992 + i) + 0)"

lemma arg_entry_frame: "aligned t \<Longrightarrow> i < MAX_ARG_PAGES \<Longrightarrow> frame (arg_entry t i) = t"
  using frame_ent [of t "992 + i"] by (simp add: arg_entry_def ent_def MAX_ARG_PAGES_def)

lemma arg_entry_inject:
  "i < MAX_ARG_PAGES \<Longrightarrow> j < MAX_ARG_PAGES \<Longrightarrow> arg_entry t i = arg_entry t j \<longleftrightarrow> i = j"
  using ent_inject [of "992 + i" "992 + j" t] by (simp add: arg_entry_def ent_def MAX_ARG_PAGES_def)

lemma dir_addr_frame: "frame (dir_addr a) = 0"
proof -
  have "bit (frame (dir_addr a)) n = False" for n
    by (auto simp only: bit_frame dir_addr_def bit_and_iff bit_ffc)
  then show ?thesis by (intro bit_eqI) simp
qed

lemma put_page_ready:
  assumes a: "unat a mod 2 ^ 22 = 0" and t: "table_ready a t page m" and i: "i < MAX_ARG_PAGES"
  shows "put_page pg (arg_linear a i) m = (pg, store (arg_entry t i) (pg OR 7) m)"
proof -
  have j: "992 + i < 1024" using i by (simp add: MAX_ARG_PAGES_def)
  have "dir_addr (arg_linear a i) = dir_addr a"
    "push_bit 2 (drop_bit 12 (arg_linear a i) AND 0x3ff) = 4 * of_nat (992 + i)"
    using linear_parts [OF a j, of 0] unfolding table_index table_index' arg_linear_def by simp_all
  then show ?thesis
    using t by (simp add: put_page_def Let_def table_ready_def aligned_def arg_entry_def)
qed

definition map_arg_page :: "u32 list \<Rightarrow> u32 \<Rightarrow> nat \<Rightarrow> mm \<Rightarrow> mm" where
  "map_arg_page page a i m = (if page ! i \<noteq> 0 then snd (put_page (page ! i) (arg_linear a i) m) else m)"

lemma put_arg_pages_fold:
  "put_arg_pages page (a + 0x400000) m = fold (map_arg_page page a) (rev [0..<MAX_ARG_PAGES]) m"
proof -
  have e: "(a + 0x400000) - 4096 * of_nat (MAX_ARG_PAGES - i) = arg_linear a i" if "i < MAX_ARG_PAGES" for i
    using that by (simp add: arg_linear_def MAX_ARG_PAGES_def of_nat_diff algebra_simps)
  show ?thesis
    unfolding put_arg_pages_def
  proof (rule fold_cong [OF refl refl])
    fix i assume "i \<in> set (rev [0..<MAX_ARG_PAGES])"
    then have "i < MAX_ARG_PAGES" by simp
    from e [OF this] show "(\<lambda>m. if page ! i \<noteq> 0
        then snd (put_page (page ! i) ((a + 0x400000) - 4096 * of_nat (MAX_ARG_PAGES - i)) m) else m) = map_arg_page page a i"
      by (intro ext) (simp only: map_arg_page_def)
  qed
qed

lemma map_arg_page_phys:
  assumes "unat a mod 2 ^ 22 = 0" "table_ready a t page m" "i < MAX_ARG_PAGES"
  shows "phys (map_arg_page page a i m) =
    (if page ! i \<noteq> 0 then (phys m)(arg_entry t i := page ! i OR 7) else phys m)"
  by (simp add: map_arg_page_def put_page_ready [OF assms])

lemma map_arg_page_ready:
  assumes "unat a mod 2 ^ 22 = 0" "table_ready a t page m" "i < MAX_ARG_PAGES"
  shows "table_ready a t page (map_arg_page page a i m)"
proof -
  have "t \<noteq> 0" using assms(2) by (auto simp: table_ready_def LOW_MEM_def)
  then have "dir_addr a \<noteq> arg_entry t i"
    using arg_entry_frame [OF _ assms(3), of t] assms(2) dir_addr_frame [of a] by (auto simp: table_ready_def)
  then show ?thesis using assms(2) by (simp add: table_ready_def map_arg_page_phys [OF assms])
qed

lemma map_arg_pages_phys:
  assumes a: "unat a mod 2 ^ 22 = 0"
  shows "table_ready a t page m \<Longrightarrow> distinct is \<Longrightarrow> \<forall>i\<in>set is. i < MAX_ARG_PAGES \<Longrightarrow>
    table_ready a t page (fold (map_arg_page page a) is m)
    \<and> (\<forall>x. frame x \<noteq> t \<longrightarrow> phys (fold (map_arg_page page a) is m) x = phys m x)
    \<and> (\<forall>i < MAX_ARG_PAGES. phys (fold (map_arg_page page a) is m) (arg_entry t i) =
         (if i \<in> set is \<and> page ! i \<noteq> 0 then page ! i OR 7 else phys m (arg_entry t i)))"
proof (induction "is" arbitrary: m)
  case (Cons j js)
  let ?m = "map_arg_page page a j m"
  have j: "j < MAX_ARG_PAGES" "aligned t" using Cons.prems by (auto simp: table_ready_def)
  note ph = map_arg_page_phys [OF a Cons.prems(1) j(1)]
  note IH = Cons.IH [OF map_arg_page_ready [OF a Cons.prems(1) j(1)]]
  have "phys ?m x = phys m x" if "frame x \<noteq> t" for x
    using that arg_entry_frame [OF j(2,1)] by (auto simp: ph)
  moreover have "phys ?m (arg_entry t i) = (if i = j \<and> page ! i \<noteq> 0 then page ! i OR 7 else phys m (arg_entry t i))"
    if "i < MAX_ARG_PAGES" for i
    using that arg_entry_inject [OF that j(1)] by (auto simp: ph)
  ultimately show ?case using IH Cons.prems(2,3) by auto
qed simp

text \<open>When there is no table yet, the first page that is mapped makes one.\<close>

lemma map_arg_page_table:
  assumes a: "unat a mod 2 ^ 22 = 0" and "\<not> present (phys m (dir_addr a))" "get_free_page m = (t, m1)" "t \<noteq> 0" "aligned t"
    and i: "i < MAX_ARG_PAGES" "page ! i \<noteq> 0"
  shows "map_arg_page page a i m = map_arg_page page a i (store (dir_addr a) (t OR 7) m1)"
proof -
  have j: "992 + i < 1024" using i by (simp add: MAX_ARG_PAGES_def)
  have "dir_addr (arg_linear a i) = dir_addr a"
    using linear_parts(1) [OF a j, of 0] unfolding arg_linear_def by simp
  then show ?thesis using assms by (simp add: map_arg_page_def put_page_def Let_def aligned_def)
qed

lemma map_arg_pages_table:
  assumes "unat a mod 2 ^ 22 = 0" "\<not> present (phys m (dir_addr a))" "get_free_page m = (t, m1)" "t \<noteq> 0" "aligned t"
  shows "\<forall>i\<in>set is. i < MAX_ARG_PAGES \<Longrightarrow> \<exists>i\<in>set is. page ! i \<noteq> 0 \<Longrightarrow>
    fold (map_arg_page page a) is m = fold (map_arg_page page a) is (store (dir_addr a) (t OR 7) m1)"
proof (induction "is")
  case (Cons j js)
  show ?case
  proof (cases "page ! j = 0")
    case True
    then have "map_arg_page page a j x = x" for x by (simp add: map_arg_page_def)
    then show ?thesis using Cons True by simp
  next
    case False
    then show ?thesis using map_arg_page_table [OF assms, of j page] Cons.prems(1) by simp
  qed
qed simp

lemma new_table_ready:
  assumes pages: "arg_pages_ok page m" and alloc: "get_free_page m = (t, m1)" and free: "\<not> no_free_page m"
  shows "table_ready a t page (store (dir_addr a) (t OR 7) m1)" "t \<noteq> 0" "aligned t"
    and "\<And>i x. i < MAX_ARG_PAGES \<Longrightarrow> page ! i \<noteq> 0 \<Longrightarrow> frame x = page ! i \<Longrightarrow>
      frame x \<noteq> t \<and> phys (store (dir_addr a) (t OR 7) m1) x = phys m x"
proof -
  from alloc have "t \<noteq> 0 \<and> aligned t \<and> LOW_MEM \<le> t
    \<and> (\<forall>i < MAX_ARG_PAGES. page ! i \<noteq> 0 \<longrightarrow> page ! i \<noteq> t) \<and> (\<forall>x. frame x \<noteq> t \<longrightarrow> phys m1 x = phys m x)"
  proof (cases rule: get_free_page_cases)
    case none
    then show ?thesis using free by (simp add: no_free_page_def)
  next
    case (page q)
    have "page ! i \<noteq> t" if i: "i < MAX_ARG_PAGES" "page ! i \<noteq> 0" for i
    proof -
      obtain r where "r < PAGING_PAGES" "page ! i = page_addr r" "refcount m r \<noteq> 0"
        using pages i unfolding arg_pages_ok_def by blast
      then show ?thesis using page(1-3) page_addr_inject [of r q] by auto
    qed
    then show ?thesis using page page_addr_props [of q] by simp
  qed
  note t = this
  show "t \<noteq> 0" "aligned t" using t by simp_all
  then show "table_ready a t page (store (dir_addr a) (t OR 7) m1)"
    using t by (auto simp: table_ready_def)
  fix i x assume i: "i < MAX_ARG_PAGES" "page ! i \<noteq> 0" "frame x = page ! i"
  then have "frame x \<noteq> t" "x \<noteq> dir_addr a" using t dir_addr_frame [of a] by auto
  then show "frame x \<noteq> t \<and> phys (store (dir_addr a) (t OR 7) m1) x = phys m x" using t by simp
qed

lemma arg_pages_seen:
  assumes pages: "arg_pages_ok page m" and base: "unat base mod 2 ^ 26 = 0"
    and new: "\<not> present (phys m (dir_addr (base + 0x3c00000)))" and free: "\<not> no_free_page m"
    and x: "x < 4096 * MAX_ARG_PAGES" "page ! (x div 4096) \<noteq> 0"
  shows "user_byte (put_arg_pages page (base + 0x4000000) m) base backing (0x3fe0000 + of_nat x) = arg_byte page m x"
proof -
  define a where "a = base + 0x3c00000"
  let ?i = "x div 4096" and ?k = "x mod 4096" and ?is = "rev [0..<MAX_ARG_PAGES]"
  have i: "?i < MAX_ARG_PAGES" using arg_page_index [OF x(1)] .
  then have j: "992 + ?i < 1024" by (simp add: MAX_ARG_PAGES_def)
  obtain q where q: "unat base = 2 ^ 26 * q" using base by (metis mod_0_imp_dvd dvdE)
  then have "q < 64" using u32_bounds(3) [of base] by simp
  then have "unat a = 2 ^ 22 * (16 * q + 15)" using q by (simp add: a_def unat_word_ariths)
  then have al: "unat a mod 2 ^ 22 = 0" by simp
  obtain t m1 where alloc: "get_free_page m = (t, m1)" by fastforce
  let ?m2 = "store (dir_addr a) (t OR 7) m1"
  note t = new_table_ready [OF pages alloc free]
  define M where "M = fold (map_arg_page page a) ?is ?m2"
  have "put_arg_pages page (base + 0x4000000) m = M"
  proof -
    have e: "base + 0x4000000 = a + 0x400000" by (simp add: a_def)
    show ?thesis
      unfolding e put_arg_pages_fold M_def
      by (rule map_arg_pages_table [OF al new [folded a_def] alloc t(2,3)]) (use i x(2) in auto)
  qed
  moreover have M: "table_ready a t page M" "\<And>y. frame y \<noteq> t \<Longrightarrow> phys M y = phys ?m2 y" "phys M (arg_entry t ?i) = page ! ?i OR 7"
    using map_arg_pages_phys [OF al t(1), of ?is] i x(2) by (simp_all add: M_def)
  have lin: "base + (0x3fe0000 + of_nat x) = a + of_nat (4096 * (992 + ?i) + ?k)"
    unfolding a_def by (simp add: algebra_simps)
  note l = linear_parts [OF al j, of ?k]
  have "entry_addr (a + of_nat (4096 * (992 + ?i) + ?k)) M = arg_entry t ?i"
    using l(1,2) M(1) by (simp add: entry_addr_def table_ready_def dir_addr_def [symmetric] arg_entry_def aligned_def add.commute)
  moreover obtain r where r: "r < PAGING_PAGES" "page ! ?i = page_addr r"
    using pages i x(2) unfolding arg_pages_ok_def by blast
  moreover have "load_byte M (unat (page_addr r) + ?k) = load_byte m (unat (page_addr r) + ?k)"
    by (rule load_byte_page [OF r(1)]) (use M(2) t(4) [OF i x(2)] r(2) in simp_all)
  moreover have "unat (page_addr r + of_nat ?k) = unat (page_addr r) + ?k"
    by (rule page_addr_offset(2) [OF r(1)]) simp
  moreover have "frame (page_addr r) = page_addr r" using page_addr_props(2) [of r] r(1) by (simp add: aligned_def)
  ultimately show ?thesis
    using l M(1,3) unfolding user_byte_def lin Let_def by (simp add: table_ready_def arg_byte_def)
qed

section \<open>The stack of the new program\<close>

lemma length_le_strings_bytes: "length xss \<le> length (strings_bytes xss)"
  by (induction xss) simp_all

lemma unat_add_small: "unat (a :: u32) + n < 2 ^ 32 \<Longrightarrow> unat (a + of_nat n) = unat a + n"
  by (simp add: unat_word_ariths unat_of_nat mod_simps)

text \<open>What is read from \<open>lo\<close> on does not depend on what is below.\<close>

lemma words_at_cong:
  assumes "\<And>y. lo \<le> unat y \<Longrightarrow> user k' y = user k y" "lo \<le> unat sp" "unat sp + 4 * n \<le> 2 ^ 32"
  shows "words_at sp n k' = words_at sp n k"
  unfolding words_at_def
proof (intro map_cong refl get_fs_long_bytes get_fs_bytes_cong)
  fix i j :: nat assume "i \<in> set [0..<n]" "j < 4"
  then have "i < n" by simp
  then have "unat sp + (4 * i + j) < 2 ^ 32" using \<open>j < 4\<close> assms(3) by linarith
  then have "unat (sp + of_nat (4 * i + j)) = unat sp + (4 * i + j)" by (rule unat_add_small)
  then show "user k' (sp + 4 * of_nat i + of_nat j) = user k (sp + 4 * of_nat i + of_nat j)"
    using assms(1) [of "sp + of_nat (4 * i + j)"] assms(2) by (simp add: add.assoc)
qed

lemma strings_at_cong_above:
  assumes "\<And>y. lo \<le> unat y \<Longrightarrow> user k' y = user k y" "lo \<le> unat p" "unat p + length (strings_bytes xss) \<le> 2 ^ 32"
  shows "strings_at p xss k' = strings_at p xss k"
proof (rule strings_at_cong)
  fix i assume "i < length (strings_bytes xss)"
  then have "unat p + i < 2 ^ 32" using assms(3) by linarith
  then have "unat (p + of_nat i) = unat p + i" by (rule unat_add_small)
  then show "user k' (p + of_nat i) = user k (p + of_nat i)" using assms(1,2) by simp
qed

text \<open>The bytes that are cleared after the data of the program.\<close>

lemma clear_after_data:
  assumes "unat i \<le> 0x3000000" "0x3001000 \<le> unat y"
  shows "user (put_fs_bytes (replicate (nat (- uint i mod 4096)) 0) i k) y = user k y"
proof -
  obtain n where n: "nat (- uint i mod 4096) = n" "n < 4096" by simp
  have "unat (y - i) = unat y - unat i" using assms by (intro unat_sub) (simp add: word_le_nat_alt)
  then have "\<not> unat (y - i) < n" using n(2) assms by simp
  then show ?thesis unfolding n(1) using n(2) by (subst user_put_fs_bytes) simp_all
qed

text \<open>The strings are where the new stack pointer will expect them.\<close>

lemma change_ldt_strings:
  assumes pages: "arg_pages_ok page (mem (kr s))" and p: "unat p + length (strings_bytes xss) \<le> 4096 * MAX_ARG_PAGES"
    and held: "arg_holds page (mem (kr s)) (unat p) (strings_bytes xss)"
    and chars: "\<forall>xs\<in>set xss. 0 \<notin> set xs"
    and base: "unat (get_base (ldt (me s) ! 1)) mod 2 ^ 26 = 0"
    and new: "\<not> present (phys (mem (kr s)) (dir_addr (get_base (ldt (me s) ! 1) + 0x3c00000)))"
    and free: "\<not> no_free_page (mem (kr s))"
  obtains s1 where "change_ldt backing text_size page s = (0x4000000, s1)" "strings_at (p + 0x3fe0000) xss (kr s1)"
proof -
  let ?b = "get_base (ldt (me s) ! 1)" and ?p = "p + 0x3fe0000" and ?S = "strings_bytes xss"
  obtain s1 where ldt: "change_ldt backing text_size page s = (0x4000000, s1)"
    and s1: "user (kr s1) = user_byte (put_arg_pages page (?b + 0x4000000) (mem (kr s))) ?b backing"
    by (simp add: change_ldt_def Let_def upd_def)
  have "strings_at ?p xss (kr s1)"
    unfolding strings_at_def
  proof (intro conjI chars nth_equalityI)
    fix i assume "i < length (get_fs_bytes ?p (length ?S) (kr s1))"
    then have i: "i < length ?S" by simp
    then have "unat p + i < 4096 * MAX_ARG_PAGES" "page ! ((unat p + i) div 4096) \<noteq> 0"
      "arg_byte page (mem (kr s)) (unat p + i) = ?S ! i"
      using p held by (auto simp: arg_holds_def)
    moreover have "0x3fe0000 + of_nat (unat p + i) = ?p + of_nat i" by simp
    ultimately have "user (kr s1) (?p + of_nat i) = ?S ! i"
      using arg_pages_seen [OF pages base new free, of "unat p + i" backing] unfolding s1 by metis
    then show "get_fs_bytes ?p (length ?S) (kr s1) ! i = ?S ! i" using i by (simp add: get_fs_bytes_def)
  qed simp
  with ldt show thesis by (rule that)
qed

text \<open>C3: the program \<open>execve\<close> starts finds on its stack the number of its arguments and the tables of the
  arguments and of the environment, whose strings are those the pages of the arguments hold. This
  needs a page for the page table of the stack; the directory entry of the end of the segment is clear, as it is after the memory
  of the old program was given back.\<close>

theorem start_program_stack:
  assumes pages: "arg_pages_ok page (mem (kr s))" and p: "unat p + length (strings_bytes (args @ envs)) \<le> 4096 * MAX_ARG_PAGES"
    and held: "arg_holds page (mem (kr s)) (unat p) (strings_bytes (args @ envs))"
    and chars: "\<forall>xs\<in>set (args @ envs). 0 \<notin> set xs"
    and base: "unat (get_base (ldt (me s) ! 1)) mod 2 ^ 26 = 0"
    and new: "\<not> present (phys (mem (kr s)) (dir_addr (get_base (ldt (me s) ! 1) + 0x3c00000)))"
    and free: "\<not> no_free_page (mem (kr s))"
    and header: "unat (a_text ex + a_data ex) \<le> 0x3000000"
  shows "\<exists>sp s'. start_program backing ex e_uid e_gid (int (length args)) (int (length envs)) p page s
      = Ret (0, Some (a_entry ex, sp), s')
    \<and> unat sp mod 4 = 0
    \<and> words_at sp (5 + length args + length envs) (kr s') = stack_words (p + 0x3fe0000) args envs sp
    \<and> strings_at (p + 0x3fe0000) (args @ envs) (kr s')"
proof -
  let ?b = "get_base (ldt (me s) ! 1)" and ?p = "p + 0x3fe0000" and ?S = "strings_bytes (args @ envs)"
  let ?N = "5 + length args + length envs"
  obtain s1 where ldt: "change_ldt backing (a_text ex) page s = (0x4000000, s1)" and str: "strings_at ?p (args @ envs) (kr s1)"
    by (rule change_ldt_strings [OF pages p held chars base new free])
  have lim: "unat p + length ?S \<le> 131072" using p by (simp add: MAX_ARG_PAGES_def)
  have up: "unat ?p = unat p + 66977792"
    using unat_add_small [of p 66977792] lim by simp
  have n: "4 * ?N \<le> 4 * (5 + 131072)" using length_le_strings_bytes [of "args @ envs"] lim by simp
  have room: "4 * ?N + 3 \<le> unat ?p" "unat ?p + length ?S \<le> 2 ^ 32" using n lim up by simp_all
  obtain sp k where tab: "create_tables ?p (int (length args)) (int (length envs)) (kr s1) = Ret (sp, k)"
    "unat sp mod 4 = 0" "unat sp + 4 * ?N + unat ?p mod 4 = unat ?p" "words_at sp ?N k = stack_words ?p args envs sp"
    "strings_at ?p (args @ envs) k"
    using create_tables_correct [OF str room] by (elim exE conjE) (rule that)
  let ?i = "a_text ex + a_data ex"
  define k' where "k' = put_fs_bytes (replicate (nat (- uint ?i mod 4096)) 0) ?i k"
  have above: "user k' y = user k y" if "0x3001000 \<le> unat y" for y
    unfolding k'_def using clear_after_data [OF header that] .
  obtain r where r: "unat ?p mod 4 = r" "r < 4" by simp
  have "0x3001000 \<le> unat sp \<and> unat sp + 4 * ?N \<le> 0x5000000"
    using tab(3) [unfolded r(1) up] r(2) n lim by simp
  then have sp: "0x3001000 \<le> unat sp" "unat sp + 4 * ?N \<le> 2 ^ 32" by simp_all
  have "words_at sp ?N k' = words_at sp ?N k" by (rule words_at_cong [OF above sp])
  moreover have "strings_at ?p (args @ envs) k' = strings_at ?p (args @ envs) k"
  proof (rule strings_at_cong_above [OF above])
    have "0x3001000 \<le> unat ?p \<and> unat ?p + length ?S \<le> 0x5000000" unfolding up using lim by linarith
    then show "0x3001000 \<le> unat ?p" "unat ?p + length ?S \<le> 2 ^ 32" by simp_all
  qed simp
  moreover have "p + (0x4000000 - of_nat (MAX_ARG_PAGES * 4096)) = ?p" by (simp add: MAX_ARG_PAGES_def)
  then have "\<exists>s'. start_program backing ex e_uid e_gid (int (length args)) (int (length envs)) p page s
      = Ret (0, Some (a_entry ex, sp), s') \<and> kr s' = k'"
    using tab(1) unfolding start_program_def ldt k'_def by (simp add: Let_def upd_def)
  ultimately show ?thesis using tab by auto
qed

text \<open>The argument \<open>a\<close>, at the end of the first page of main memory.\<close>

definition exec_memory :: mm where
  "exec_memory = \<lparr>phys = (\<lambda>_. 0)(0x100FF8 := 0x61), mem_map = (replicate PAGING_PAGES 0)[0 := 1], HIGH_MEMORY = 0x1000000\<rparr>"

definition exec_pages :: "u32 list" where
  "exec_pages = (replicate 32 0)[31 := 0x100000]"

definition exec_example :: system where
  "exec_example = one_process\<lparr>kr := blank_kernel\<lparr>mem := exec_memory\<rparr>\<rparr>"

definition small_header :: exec where
  "small_header = \<lparr>a_magic = ZMAGIC, a_text = 0x1000, a_data = 0x800, a_bss = 0, a_syms = 0, a_entry = 0, a_trsize = 0, a_drsize = 0\<rparr>"

lemma exec_example_pages: "arg_pages_ok exec_pages exec_memory" "\<not> no_free_page exec_memory"
    "arg_holds exec_pages exec_memory 131064 [0x61, 0]"
proof -
  have n: "i < 32 \<Longrightarrow> exec_pages ! i = (if i = 31 then 0x100000 else 0)" for i
    by (simp add: exec_pages_def nth_list_update)
  have a: "page_addr 0 = 0x100000" "0 < PAGING_PAGES" "length exec_pages = 32"
    by (simp_all add: page_addr_of_nat PAGING_PAGES_def exec_pages_def)
  show "arg_pages_ok exec_pages exec_memory"
    unfolding arg_pages_ok_def
  proof (intro conjI allI impI)
    fix i assume "i < MAX_ARG_PAGES" "exec_pages ! i \<noteq> 0"
    then have "i = 31" "exec_pages ! i = page_addr 0" using n [of i] a by (auto simp: MAX_ARG_PAGES_def split: if_splits)
    then show "\<exists>q<PAGING_PAGES. exec_pages ! i = page_addr q \<and> refcount exec_memory q \<noteq> 0"
      using a by (intro exI [of _ 0]) (simp add: exec_memory_def)
  next
    fix i j assume "i < MAX_ARG_PAGES" "j < MAX_ARG_PAGES" "exec_pages ! i \<noteq> 0" "exec_pages ! i = exec_pages ! j"
    then show "i = j" using n [of i] n [of j] by (auto simp: MAX_ARG_PAGES_def split: if_splits)
  qed (use a in \<open>simp_all add: MAX_ARG_PAGES_def exec_memory_def wf_mm_def\<close>)
  show "\<not> no_free_page exec_memory"
    by (auto simp: no_free_page_def exec_memory_def PAGING_PAGES_def intro!: exI [of _ 1])
  have "arg_byte exec_pages exec_memory (131064 + i) = [0x61, 0] ! i" if "i < 2" for i
    using that n [of 31] by (auto simp: less_2_cases_iff arg_byte_def load_byte_def exec_memory_def)
  then show "arg_holds exec_pages exec_memory 131064 [0x61, 0]"
    unfolding arg_holds_def
  proof (intro allI impI conjI)
    fix i assume "i < length [0x61, 0 :: u8]"
    then have "i < 2" "(131064 + i) div 4096 = 31" by (auto simp: less_2_cases_iff)
    with n [of 31] \<open>\<And>i. i < 2 \<Longrightarrow> arg_byte exec_pages exec_memory (131064 + i) = [0x61, 0] ! i\<close>
    show "exec_pages ! ((131064 + i) div 4096) \<noteq> 0" "arg_byte exec_pages exec_memory (131064 + i) = [0x61, 0] ! i"
      by simp_all
  qed
qed

lemma start_program_stack_witness:
  "\<exists>sp s'. start_program (\<lambda>_. 0) small_header 0 0 1 0 131064 exec_pages exec_example = Ret (0, Some (0, sp), s')
    \<and> words_at sp 6 (kr s') = [1, sp + 12, sp + 20, 0x3ffffd8 + 0x20, 0, 0]"
proof -
  have me: "ldt (me exec_example) ! 1 = (0x9f, 0xc0fa00)" "mem (kr exec_example) = exec_memory"
    by (simp_all add: exec_example_def one_process_def me_def cur_def INIT_TASK_def NR_TASKS_def)
  have b: "get_base (0x9f, 0xc0fa00) = 0" by (simp add: get_base_def)
  have d: "\<not> present (phys exec_memory (dir_addr 0x3c00000))"
    by (simp add: exec_memory_def dir_addr_def present_def)
  show ?thesis
    using start_program_stack [of exec_pages exec_example 131064 "[[0x61]]" "[]" small_header "\<lambda>_. 0" 0 0]
      exec_example_pages d
    unfolding me b by (auto simp: small_header_def stack_words_def MAX_ARG_PAGES_def)
qed

end
