(* ===== verification/Hd.thy ===== *)
theory Hd imports Demand begin

unbundle bit_operations_syntax

text \<open>
  \<open>kernel/blk_drv/hd.c\<close> with \<open>include/linux/hdreg.h\<close>: the driver of the hard disks.

  The driver is a state machine: \<open>do_hd_request\<close> starts a command and names in \<open>do_hd\<close> the function that handles
  the interrupt at its end, and that function goes on with the request or calls \<open>do_hd_request\<close> again. What the
  ports of the controller deliver is a stream: \<open>inputs t p\<close> is what port \<open>p\<close> gives at the \<open>t\<close>-th
  read. The bytes and words written to ports are a log, the last one first.

  The field \<open>buffer\<close> of a request, which points into the block, moves by 512 bytes whenever
  \<open>nr_sectors\<close> goes down by 1, so it is computed from that field, which starts at 2.
\<close>

section \<open>State\<close>

record hd_i_struct =
  hd_head :: nat
  hd_sect :: nat
  hd_cyl :: nat
  hd_wpcom :: nat
  hd_lzone :: nat
  hd_ctl :: nat

record hd_struct =
  start_sect :: nat
  nr_sects :: nat

datatype hd_handler = Read_intr | Write_intr | Recal_intr

record hd_state =
  hk :: kernel
  hd_info :: "hd_i_struct list"
  NR_HD :: nat
  hd_part :: "hd_struct list"
  do_hd :: "hd_handler option"
  recalibrate :: bool
  reset :: bool
  callable :: bool
  inputs :: "nat \<Rightarrow> nat \<Rightarrow> u16"
  reads :: nat
  outs :: "(u16 \<times> nat) list"

definition HD_DATA :: nat where "HD_DATA = 0x1F0"
definition HD_ERROR :: nat where "HD_ERROR = 0x1F1"
definition HD_STATUS :: nat where "HD_STATUS = 0x1F7"
definition HD_CMD :: nat where "HD_CMD = 0x3F6"

definition ERR_STAT :: u8 where "ERR_STAT = 0x01"
definition DRQ_STAT :: u8 where "DRQ_STAT = 0x08"
definition SEEK_STAT :: u8 where "SEEK_STAT = 0x10"
definition WRERR_STAT :: u8 where "WRERR_STAT = 0x20"
definition READY_STAT :: u8 where "READY_STAT = 0x40"
definition BUSY_STAT :: u8 where "BUSY_STAT = 0x80"

definition WIN_RESTORE :: nat where "WIN_RESTORE = 0x10"
definition WIN_READ :: nat where "WIN_READ = 0x20"
definition WIN_WRITE :: nat where "WIN_WRITE = 0x30"
definition WIN_SPECIFY :: nat where "WIN_SPECIFY = 0x91"

definition MAX_ERRORS :: int where "MAX_ERRORS = 7"
definition HD_MAJOR :: nat where "HD_MAJOR = 3"

section \<open>Ports\<close>

definition hd_inb :: "nat \<Rightarrow> hd_state \<Rightarrow> u8 \<times> hd_state" where
  "hd_inb p h = (ucast (inputs h (reads h) p), h\<lparr>reads := reads h + 1\<rparr>)"

definition hd_outb :: "nat \<Rightarrow> nat \<Rightarrow> hd_state \<Rightarrow> hd_state" where
  "hd_outb v p h = h\<lparr>outs := (of_nat (v mod 256), p) # outs h\<rparr>"

text \<open>\<open>port_read\<close> and \<open>port_write\<close>: 16-bit words, low byte first.\<close>

definition port_read :: "nat \<Rightarrow> nat \<Rightarrow> hd_state \<Rightarrow> u8 list \<times> hd_state" where
  "port_read p n h =
    (concat (map (\<lambda>i. let w = inputs h (reads h + i) p in [ucast w, ucast (drop_bit 8 w)]) [0..<n]),
     h\<lparr>reads := reads h + n\<rparr>)"

definition port_write :: "nat \<Rightarrow> u8 list \<Rightarrow> nat \<Rightarrow> hd_state \<Rightarrow> hd_state" where
  "port_write p xs n h =
    h\<lparr>outs := rev (map (\<lambda>i. (ucast (xs ! (2 * i)) OR push_bit 8 (ucast (xs ! (2 * i + 1))), p)) [0..<n]) @ outs h\<rparr>"

section \<open>The controller\<close>

text \<open>The controller is polled until it is ready; the result is the number of tries left.\<close>

primrec ready_loop :: "nat \<Rightarrow> hd_state \<Rightarrow> nat \<times> hd_state" where
  "ready_loop 0 h = (0, h)"
| "ready_loop (Suc n) h =
    (let (v, h) = hd_inb HD_STATUS h in if v AND 0xc0 = 0x40 then (Suc n, h) else ready_loop n h)"

definition controller_ready :: "hd_state \<Rightarrow> nat \<times> hd_state" where
  "controller_ready h = ready_loop 9999 h"

text \<open>\<open>win_result\<close>: whether the command failed.\<close>

definition win_result :: "hd_state \<Rightarrow> bool \<times> hd_state" where
  "win_result h =
    (let (i, h) = hd_inb HD_STATUS h
     in if i AND (BUSY_STAT OR READY_STAT OR WRERR_STAT OR SEEK_STAT OR ERR_STAT) = READY_STAT OR SEEK_STAT
        then (False, h)
        else (True, if i AND 1 \<noteq> 0 then snd (hd_inb HD_ERROR h) else h))"

definition hd_out ::
  "nat \<Rightarrow> nat \<Rightarrow> nat \<Rightarrow> nat \<Rightarrow> nat \<Rightarrow> nat \<Rightarrow> hd_handler \<Rightarrow> hd_state \<Rightarrow> hd_state kres" where
  "hd_out drive nsect sect head cyl cmd intr_addr h =
    (if drive > 1 \<or> head > 15 then Panic ''Trying to write bad sector''
     else
     let (r, h) = controller_ready h
     in if r = 0 then Panic ''HD controller not ready''
        else
        let h = h\<lparr>do_hd := Some intr_addr\<rparr>;
            h = hd_outb (hd_ctl (hd_info h ! drive)) HD_CMD h;
            h = hd_outb (hd_wpcom (hd_info h ! drive) div 4) (HD_DATA + 1) h;
            h = hd_outb nsect (HD_DATA + 2) h;
            h = hd_outb sect (HD_DATA + 3) h;
            h = hd_outb cyl (HD_DATA + 4) h;
            h = hd_outb (cyl div 256) (HD_DATA + 5) h;
            h = hd_outb (0xA0 + 16 * drive + head) (HD_DATA + 6) h
        in Ret (hd_outb cmd (HD_DATA + 7) h))"

primrec busy_loop :: "nat \<Rightarrow> hd_state \<Rightarrow> hd_state" where
  "busy_loop 0 h = h"
| "busy_loop (Suc n) h =
    (let (v, h) = hd_inb HD_STATUS h
     in if v AND (BUSY_STAT OR READY_STAT) = READY_STAT then h else busy_loop n h)"

definition drive_busy :: "hd_state \<Rightarrow> bool \<times> hd_state" where
  "drive_busy h =
    (let (i, h) = hd_inb HD_STATUS (busy_loop 10000 h)
     in (i AND (BUSY_STAT OR READY_STAT OR SEEK_STAT) \<noteq> READY_STAT OR SEEK_STAT, h))"

definition reset_controller :: "hd_state \<Rightarrow> hd_state" where
  "reset_controller h =
    (let h = hd_outb 4 HD_CMD h;
         h = hd_outb (hd_ctl (hd_info h ! 0) mod 16) HD_CMD h;
         (busy, h) = drive_busy h
     in snd (hd_inb HD_ERROR h))"

definition reset_hd :: "nat \<Rightarrow> hd_state \<Rightarrow> hd_state kres" where
  "reset_hd nr h =
    (let h = reset_controller h; d = hd_info h ! nr
     in hd_out nr (hd_sect d) (hd_sect d) ((hd_head d + 2 ^ 32 - 1) mod 2 ^ 32) (hd_cyl d) WIN_SPECIFY Recal_intr h)"

section \<open>Requests\<close>

definition hd_current :: "hd_state \<Rightarrow> nat option" where
  "hd_current h = current_request (blk_dev (hk h) ! HD_MAJOR)"

definition upd_hk :: "(kernel \<Rightarrow> kernel) \<Rightarrow> hd_state \<Rightarrow> hd_state" where
  "upd_hk f h = h\<lparr>hk := f (hk h)\<rparr>"

definition request_offset :: "request \<Rightarrow> nat" where
  "request_offset q = 512 * (2 - r_nr_sectors q)"

text \<open>\<open>CURRENT->errors\<close>; after \<open>end_request\<close> took the last request it is the word at address 8, which belongs to
  the page directory. An interrupt without a request is not followed further.\<close>

definition current_errors :: "hd_state \<Rightarrow> int" where
  "current_errors h = (case hd_current h of
     None \<Rightarrow> sint (phys (mem (hk h)) 8) | Some r \<Rightarrow> r_errors (requests (hk h) ! r))"

definition bad_rw_intr :: "hd_state \<Rightarrow> hd_state kres" where
  "bad_rw_intr h =
    (case hd_current h of
       None \<Rightarrow> Hang
     | Some r \<Rightarrow>
        let h = upd_hk (upd_req r (\<lambda>q. q\<lparr>r_errors := r_errors q + 1\<rparr>)) h;
            h = (if current_errors h \<ge> MAX_ERRORS then upd_hk (end_request HD_MAJOR False) h else h)
        in Ret (if current_errors h > MAX_ERRORS div 2 then h\<lparr>reset := True\<rparr> else h))"

text \<open>The 3000 polls before the first sector of a write; the result is the last value masked.\<close>

primrec drq_loop :: "nat \<Rightarrow> u8 \<Rightarrow> hd_state \<Rightarrow> u8 \<times> hd_state" where
  "drq_loop 0 r h = (r, h)"
| "drq_loop (Suc n) r h =
    (let (v, h) = hd_inb HD_STATUS h; r = v AND DRQ_STAT in if r \<noteq> 0 then (r, h) else drq_loop n r h)"

text \<open>The 512 bytes a request goes on with.\<close>

definition current_sector :: "nat \<Rightarrow> hd_state \<Rightarrow> u8 list" where
  "current_sector r h =
    (case r_bh (requests (hk h) ! r) of
       None \<Rightarrow> [] | Some b \<Rightarrow> block_slice (request_offset (requests (hk h) ! r)) 512 (b_data (bufs (hk h) ! b)))"

text \<open>The place of a sector on a disk: sector in the track (from 1), head and cylinder.\<close>

definition sector_place :: "nat \<Rightarrow> hd_i_struct \<Rightarrow> nat \<times> nat \<times> nat" where
  "sector_place block d =
    (let sec = block mod hd_sect d; block = block div hd_sect d
     in (sec + 1, block mod hd_head d, block div hd_head d))"

text \<open>\<open>do_hd_request\<close>; the fuel is the number of times the label \<open>repeat\<close> is passed. A division by zero
  ends the process through the trap handler.\<close>

primrec hd_requests :: "nat \<Rightarrow> hd_state \<Rightarrow> hd_state kres" where
  "hd_requests 0 h = Hang"
| "hd_requests (Suc n) h =
    (case hd_current h of
       None \<Rightarrow> Ret h
     | Some r \<Rightarrow>
        let q = requests (hk h) ! r
        in if MAJOR (nat (r_dev q)) \<noteq> HD_MAJOR then Panic ''harddisk: request list destroyed''
           else if (case r_bh q of None \<Rightarrow> False | Some b \<Rightarrow> \<not> b_lock (bufs (hk h) ! b))
           then Panic ''harddisk: block not locked''
           else
           let dev = MINOR (nat (r_dev q)); block = r_sector q
           in if dev \<ge> 5 * NR_HD h \<or> (block + 2) mod 2 ^ 32 > nr_sects (hd_part h ! dev)
              then hd_requests n (upd_hk (end_request HD_MAJOR False) h)
              else
              let block = (block + start_sect (hd_part h ! dev)) mod 2 ^ 32;
                  drive = dev div 5;
                  d = hd_info h ! drive
              in if hd_sect d = 0 \<or> hd_head d = 0 then Exit 11
                 else
                 let (sec, head, cyl) = sector_place block d; nsect = r_nr_sectors q
                 in if reset h then reset_hd drive (h\<lparr>reset := False, recalibrate := True\<rparr>)
                    else if recalibrate h
                    then hd_out drive (hd_sect d) 0 0 0 WIN_RESTORE Recal_intr (h\<lparr>recalibrate := False\<rparr>)
                    else if r_cmd q = WRITE
                    then kbind (hd_out drive nsect sec head cyl WIN_WRITE Write_intr h) (\<lambda>h.
                         let (v, h) = drq_loop 3000 0 h
                         in if v = 0 then kbind (bad_rw_intr h) (hd_requests n)
                            else Ret (port_write HD_DATA (current_sector r h) 256 h))
                    else if r_cmd q = READ then hd_out drive nsect sec head cyl WIN_READ Read_intr h
                    else Panic ''unknown hd-command'')"

text \<open>A round that passes the label again ends a request, or adds an error to one, which ends it after
  at most seven.\<close>

definition HD_ROUNDS :: nat where
  "HD_ROUNDS = 8 * NR_REQUEST + 1"

definition do_hd_request :: "hd_state \<Rightarrow> hd_state kres" where
  "do_hd_request h = hd_requests HD_ROUNDS h"

section \<open>Interrupts\<close>

definition read_intr :: "hd_state \<Rightarrow> hd_state kres" where
  "read_intr h =
    (let (bad, h) = win_result h
     in if bad then kbind (bad_rw_intr h) do_hd_request
        else
        case hd_current h of
          None \<Rightarrow> Hang
        | Some r \<Rightarrow>
           let q = requests (hk h) ! r;
               (xs, h) = port_read HD_DATA 256 h;
               h = (case r_bh q of
                      None \<Rightarrow> h
                    | Some b \<Rightarrow> upd_hk (upd_buf b (\<lambda>x. x\<lparr>b_data := block_patch (request_offset q) xs (b_data x)\<rparr>)) h);
               h = upd_hk (upd_req r (\<lambda>q. q\<lparr>r_errors := 0, r_sector := (r_sector q + 1) mod 2 ^ 32,
                                            r_nr_sectors := r_nr_sectors q - 1\<rparr>)) h
           in if r_nr_sectors (requests (hk h) ! r) \<noteq> 0 then Ret (h\<lparr>do_hd := Some Read_intr\<rparr>)
              else do_hd_request (upd_hk (end_request HD_MAJOR True) h))"

definition write_intr :: "hd_state \<Rightarrow> hd_state kres" where
  "write_intr h =
    (let (bad, h) = win_result h
     in if bad then kbind (bad_rw_intr h) do_hd_request
        else
        case hd_current h of
          None \<Rightarrow> Hang
        | Some r \<Rightarrow>
           let h = upd_hk (upd_req r (\<lambda>q. q\<lparr>r_nr_sectors := r_nr_sectors q - 1\<rparr>)) h
           in if r_nr_sectors (requests (hk h) ! r) \<noteq> 0
              then let h = upd_hk (upd_req r (\<lambda>q. q\<lparr>r_sector := (r_sector q + 1) mod 2 ^ 32\<rparr>)) h;
                       h = h\<lparr>do_hd := Some Write_intr\<rparr>
                   in Ret (port_write HD_DATA (current_sector r h) 256 h)
              else do_hd_request (upd_hk (end_request HD_MAJOR True) h))"

definition recal_intr :: "hd_state \<Rightarrow> hd_state kres" where
  "recal_intr h =
    (let (bad, h) = win_result h in kbind (if bad then bad_rw_intr h else Ret h) do_hd_request)"

section \<open>Initialisation\<close>

definition hd_init :: "hd_state \<Rightarrow> hd_state" where
  "hd_init h =
    (let h = upd_hk (upd_blk HD_MAJOR (\<lambda>d. d\<lparr>request_fn := Some (By_interrupt HD_MAJOR)\<rparr>)) h;
         (v, h) = hd_inb 0x21 h;
         h = hd_outb (unat (v AND 0xfb)) 0x21 h;
         (v, h) = hd_inb 0xA1 h
     in hd_outb (unat (v AND 0xbf)) 0xA1 h)"

definition CMOS_READ :: "nat \<Rightarrow> hd_state \<Rightarrow> u8 \<times> hd_state" where
  "CMOS_READ addr h = hd_inb 0x71 (hd_outb (0x80 + addr) 0x70 h)"

text \<open>The table of a drive the BIOS left, 16 bytes at \<open>a\<close>.\<close>

definition bios_drive :: "nat \<Rightarrow> mm \<Rightarrow> hd_i_struct" where
  "bios_drive a m =
    (let b = (\<lambda>k. unat (load_byte m (a + k))); w = (\<lambda>k. b k + 256 * b (k + 1))
     in \<lparr>hd_head = b 2, hd_sect = b 14, hd_cyl = w 0, hd_wpcom = w 5, hd_lzone = w 12, hd_ctl = b 8\<rparr>)"

definition whole_disk :: "hd_i_struct \<Rightarrow> hd_struct" where
  "whole_disk d = \<lparr>start_sect = 0, nr_sects = (hd_head d * hd_sect d * hd_cyl d) mod 2 ^ 32\<rparr>"

text \<open>The four partitions in the first block of a drive. \<open>read_block\<close> is \<open>bread\<close> while the interrupts of
  the disk arrive, which the operations of the buffer cache do not wait for.\<close>

definition read_partitions ::
  "(nat \<Rightarrow> nat \<Rightarrow> kernel \<Rightarrow> (nat option \<times> kernel) kres) \<Rightarrow> nat \<Rightarrow> hd_state \<Rightarrow> hd_state kres" where
  "read_partitions read_block drive h =
    kbind (read_block (0x300 + drive * 5) 0 (hk h)) (\<lambda>(r, k).
    case r of
      None \<Rightarrow> Panic ''''
    | Some b \<Rightarrow>
       let d = b_data (bufs k ! b)
       in if d ! 510 \<noteq> 0x55 \<or> d ! 511 \<noteq> 0xAA then Panic ''''
          else
          let h = h\<lparr>hk := k, hd_part := fold (\<lambda>i ps.
                ps[i + 5 * drive := \<lparr>start_sect = get32 d (0x1BE + 16 * (i - 1) + 8),
                                     nr_sects = get32 d (0x1BE + 16 * (i - 1) + 12)\<rparr>]) [1..<5] (hd_part h)\<rparr>
          in kbind (brelse (Some b) (hk h)) (\<lambda>k. Ret (h\<lparr>hk := k\<rparr>)))"

definition sys_setup ::
  "(nat \<Rightarrow> nat \<Rightarrow> kernel \<Rightarrow> (nat option \<times> kernel) kres) \<Rightarrow> nat \<Rightarrow> hd_state \<Rightarrow> (int \<times> hd_state) kres" where
  "sys_setup read_block BIOS h =
    (if \<not> callable h then Ret (- 1, h)
     else
     let h = h\<lparr>callable := False\<rparr>;
         m = mem (hk h);
         h = h\<lparr>hd_info := [bios_drive BIOS m, bios_drive (BIOS + 16) m]\<rparr>;
         h = h\<lparr>NR_HD := (if hd_cyl (hd_info h ! 1) \<noteq> 0 then 2 else 1)\<rparr>;
         h = h\<lparr>hd_part := fold (\<lambda>i ps. ps[5 * i := whole_disk (hd_info h ! i)]) [0..<NR_HD h] (hd_part h)\<rparr>;
         (cmos_disks, h) = CMOS_READ 0x12 h;
         h = h\<lparr>NR_HD := (if cmos_disks AND 0xf0 \<noteq> 0 then if cmos_disks AND 0x0f \<noteq> 0 then 2 else 1 else 0)\<rparr>;
         h = h\<lparr>hd_part := fold (\<lambda>i ps. ps[5 * i := \<lparr>start_sect = 0, nr_sects = 0\<rparr>]) [NR_HD h..<2] (hd_part h)\<rparr>
     in
     kbind (kfold (read_partitions read_block) [0..<NR_HD h] h) (\<lambda>h.
     kbind (rd_load (hk h)) (\<lambda>k.
     kbind (mount_root k) (\<lambda>(nz, ni, k).
     Ret (0, h\<lparr>hk := k\<rparr>)))))"

end
