(* ===== verification/Hd_Requests.thy ===== *)
theory Hd_Requests imports Hd begin

unbundle bit_operations_syntax

text \<open>
  What the hard disk driver does with a request: where on the disk its sectors are, the command the controller
  gets, and the whole of a read.
\<close>

section \<open>The place of a sector\<close>

text \<open>Counting sectors along the tracks and heads gives back the number of the sector.\<close>

definition place_sector :: "hd_i_struct \<Rightarrow> nat \<times> nat \<times> nat \<Rightarrow> nat" where
  "place_sector d = (\<lambda>(sec, head, cyl). (cyl * hd_head d + head) * hd_sect d + (sec - 1))"

lemma sector_place_correct:
  assumes "0 < hd_sect d" "0 < hd_head d" "sector_place n d = (sec, head, cyl)"
  shows "1 \<le> sec" "sec \<le> hd_sect d" "head < hd_head d" "place_sector d (sec, head, cyl) = n"
    and "n < hd_head d * hd_sect d * hd_cyl d \<Longrightarrow> cyl < hd_cyl d"
proof -
  have e: "sec = n mod hd_sect d + 1" "head = n div hd_sect d mod hd_head d" "cyl = n div hd_sect d div hd_head d"
    using assms(3) by (simp_all add: sector_place_def Let_def)
  then show "1 \<le> sec" "sec \<le> hd_sect d" "head < hd_head d"
    using assms mod_less_divisor [OF assms(1), of n] by simp_all
  have "cyl * hd_head d + head = n div hd_sect d" unfolding e by simp
  then show "place_sector d (sec, head, cyl) = n" by (simp add: place_sector_def e)
  assume "n < hd_head d * hd_sect d * hd_cyl d"
  then have "n div hd_sect d < hd_head d * hd_cyl d" using assms(1) by (simp add: div_less_iff_less_mult ac_simps)
  then show "cyl < hd_cyl d" unfolding e(3) using assms(2) by (simp add: div_less_iff_less_mult ac_simps)
qed

section \<open>Commands\<close>

lemma hd_outb_simps [simp]:
  "hk (hd_outb v p h) = hk h" "hd_info (hd_outb v p h) = hd_info h" "inputs (hd_outb v p h) = inputs h"
  "reads (hd_outb v p h) = reads h" "do_hd (hd_outb v p h) = do_hd h" "NR_HD (hd_outb v p h) = NR_HD h"
  "hd_part (hd_outb v p h) = hd_part h" "reset (hd_outb v p h) = reset h" "recalibrate (hd_outb v p h) = recalibrate h"
  "outs (hd_outb v p h) = (of_nat (v mod 256), p) # outs h"
  by (simp_all add: hd_outb_def)

text \<open>A controller that is ready whenever it is asked, and reports no error.\<close>

definition hd_well :: "hd_state \<Rightarrow> bool" where
  "hd_well h \<longleftrightarrow> (\<forall>t. inputs h t HD_STATUS = 0x50)"

lemma controller_ready_well: "hd_well h \<Longrightarrow> controller_ready h = (9999, h\<lparr>reads := reads h + 1\<rparr>)"
proof -
  assume "hd_well h"
  then have "ready_loop (Suc n) h = (Suc n, h\<lparr>reads := reads h + 1\<rparr>)" for n
    by (simp add: hd_inb_def hd_well_def)
  from this [of 9998] show ?thesis by (simp add: controller_ready_def)
qed

lemma win_result_well: "hd_well h \<Longrightarrow> win_result h = (False, h\<lparr>reads := reads h + 1\<rparr>)"
  by (simp add: win_result_def hd_inb_def hd_well_def BUSY_STAT_def READY_STAT_def WRERR_STAT_def SEEK_STAT_def ERR_STAT_def)

text \<open>The registers of a command, in the order they are written.\<close>

definition command_block :: "hd_i_struct \<Rightarrow> nat \<Rightarrow> nat \<Rightarrow> nat \<Rightarrow> nat \<Rightarrow> nat \<Rightarrow> nat \<Rightarrow> (u16 \<times> nat) list" where
  "command_block d drive nsect sec head cyl cmd =
    map (\<lambda>(v, p). (of_nat (v mod 256), p))
      [(hd_ctl d, HD_CMD), (hd_wpcom d div 4, HD_DATA + 1), (nsect, HD_DATA + 2), (sec, HD_DATA + 3), (cyl, HD_DATA + 4),
       (cyl div 256, HD_DATA + 5), (0xA0 + 16 * drive + head, HD_DATA + 6), (cmd, HD_DATA + 7)]"

lemma hd_out_well:
  assumes "hd_well h" "drive \<le> 1" "head \<le> 15"
  shows "hd_out drive nsect sec head cyl cmd f h =
    Ret (h\<lparr>reads := reads h + 1, do_hd := Some f,
           outs := rev (command_block (hd_info h ! drive) drive nsect sec head cyl cmd) @ outs h\<rparr>)"
  using assms controller_ready_well [OF assms(1)]
  by (simp add: hd_out_def command_block_def Let_def hd_outb_def)

section \<open>Reading a block\<close>

text \<open>The request \<open>r\<close> at the head of the queue asks for a transfer of both sectors of buffer \<open>b\<close> that lies in
  its partition, which lies on the disk, whose numbers are those the registers of the controller can take.\<close>

definition hd_request :: "int \<Rightarrow> nat \<Rightarrow> nat \<Rightarrow> hd_state \<Rightarrow> bool" where
  "hd_request cmd r b h \<longleftrightarrow>
    (let q = requests (hk h) ! r; dev = MINOR (nat (r_dev q)); d = hd_info h ! (dev div 5)
     in hd_current h = Some r \<and> r < length (requests (hk h)) \<and> r_cmd q = cmd \<and> r_nr_sectors q = 2
       \<and> r_bh q = Some b \<and> b < length (bufs (hk h)) \<and> b_lock (bufs (hk h) ! b) \<and> length (b_data (bufs (hk h) ! b)) = 1024
       \<and> MAJOR (nat (r_dev q)) = HD_MAJOR \<and> dev < 5 * NR_HD h \<and> NR_HD h \<le> 2
       \<and> r_sector q + 2 \<le> nr_sects (hd_part h ! dev) \<and> nr_sects (hd_part h ! dev) < 2 ^ 32
       \<and> start_sect (hd_part h ! dev) + nr_sects (hd_part h ! dev) \<le> hd_head d * hd_sect d * hd_cyl d
       \<and> 0 < hd_sect d \<and> hd_sect d < 256 \<and> 0 < hd_head d \<and> hd_head d \<le> 16 \<and> hd_cyl d < 65536)"

text \<open>The bytes of 256 words the data port gives from the \<open>t\<close>-th read on.\<close>

definition sector_input :: "nat \<Rightarrow> hd_state \<Rightarrow> u8 list" where
  "sector_input t h =
    concat (map (\<lambda>i. let w = inputs h (t + i) HD_DATA in [ucast w, ucast (drop_bit 8 w)]) [0..<256])"

lemma length_sector_input [simp]: "length (sector_input t h) = 512"
proof -
  have "length (concat (map (\<lambda>i. let w = inputs h (t + i) HD_DATA in [ucast w :: u8, ucast (drop_bit 8 w)]) [0..<n])) = 2 * n" for n
    by (induction n) (simp_all add: Let_def)
  from this [of 256] show ?thesis by (simp add: sector_input_def)
qed

lemma do_hd_request_starts:
  assumes q: "hd_request READ r b h" and w: "hd_well h" and ready: "\<not> reset h" "\<not> recalibrate h"
  shows "\<exists>sec head cyl.
    do_hd_request h = Ret (h\<lparr>reads := reads h + 1, do_hd := Some Read_intr,
      outs := rev (command_block (hd_info h ! (MINOR (nat (r_dev (requests (hk h) ! r))) div 5))
        (MINOR (nat (r_dev (requests (hk h) ! r))) div 5) 2 sec head cyl WIN_READ) @ outs h\<rparr>)
    \<and> 1 \<le> sec \<and> sec \<le> hd_sect (hd_info h ! (MINOR (nat (r_dev (requests (hk h) ! r))) div 5))
    \<and> head < hd_head (hd_info h ! (MINOR (nat (r_dev (requests (hk h) ! r))) div 5))
    \<and> cyl < hd_cyl (hd_info h ! (MINOR (nat (r_dev (requests (hk h) ! r))) div 5))
    \<and> place_sector (hd_info h ! (MINOR (nat (r_dev (requests (hk h) ! r))) div 5)) (sec, head, cyl)
      = r_sector (requests (hk h) ! r) + start_sect (hd_part h ! MINOR (nat (r_dev (requests (hk h) ! r))))"
proof -
  let ?q = "requests (hk h) ! r"
  let ?dev = "MINOR (nat (r_dev ?q))"
  let ?d = "hd_info h ! (?dev div 5)"
  let ?n = "r_sector ?q + start_sect (hd_part h ! ?dev)"
  note R = q [unfolded hd_request_def Let_def]
  obtain sec head cyl where p: "sector_place ?n ?d = (sec, head, cyl)" by (cases "sector_place ?n ?d")
  have lt: "?n < hd_head ?d * hd_sect ?d * hd_cyl ?d" using R by linarith
  have s: "1 \<le> sec" "sec \<le> hd_sect ?d" "head < hd_head ?d" "place_sector ?d (sec, head, cyl) = ?n" "cyl < hd_cyl ?d"
    using sector_place_correct [OF _ _ p] lt R by simp_all
  have "hd_head ?d * hd_sect ?d * hd_cyl ?d \<le> 16 * 256 * 65536" using R by (intro mult_le_mono) simp_all
  then have n: "?n mod 2 ^ 32 = ?n" using lt by simp
  have "?dev < 2 * 5" using R by linarith
  then have drive: "?dev div 5 \<le> 1" using less_mult_imp_div_less [of ?dev 2 5] by simp
  have o: "hd_out (?dev div 5) 2 sec head cyl WIN_READ Read_intr h = Ret (h\<lparr>reads := reads h + 1, do_hd := Some Read_intr,
      outs := rev (command_block ?d (?dev div 5) 2 sec head cyl WIN_READ) @ outs h\<rparr>)"
    by (rule hd_out_well [OF w drive]) (use R s(3) in linarith)
  obtain f where f: "HD_ROUNDS = Suc f" by (simp add: HD_ROUNDS_def)
  have "do_hd_request h = hd_out (?dev div 5) 2 sec head cyl WIN_READ Read_intr h"
    unfolding do_hd_request_def f using R ready n p by (simp add: Let_def READ_def WRITE_def)
  then show ?thesis using o s by (intro exI [of _ sec] exI [of _ head] exI [of _ cyl]) simp
qed

text \<open>What one sector does to its request and to the buffer.\<close>

definition sector_done :: "request \<Rightarrow> request" where
  "sector_done q = q\<lparr>r_errors := 0, r_sector := (r_sector q + 1) mod 2 ^ 32, r_nr_sectors := r_nr_sectors q - 1\<rparr>"

definition sector_filled :: "u8 list \<Rightarrow> request \<Rightarrow> buffer_head \<Rightarrow> buffer_head" where
  "sector_filled xs q x = x\<lparr>b_data := block_patch (request_offset q) xs (b_data x)\<rparr>"

lemma read_intr_well:
  assumes w: "hd_well h" and c: "hd_current h = Some r" "r_bh (requests (hk h) ! r) = Some b"
    and k: "k = upd_req r sector_done (upd_buf b (sector_filled xs (requests (hk h) ! r)) (hk h))"
    and xs: "xs = sector_input (reads h + 1) h"
  shows "read_intr h =
    (if r_nr_sectors (requests k ! r) \<noteq> 0 then Ret (h\<lparr>reads := reads h + 257, hk := k, do_hd := Some Read_intr\<rparr>)
     else do_hd_request (h\<lparr>reads := reads h + 257, hk := end_request HD_MAJOR True k\<rparr>))"
proof -
  have p: "port_read HD_DATA 256 (h\<lparr>reads := reads h + 1\<rparr>) = (xs, h\<lparr>reads := reads h + 257\<rparr>)"
    by (simp add: port_read_def sector_input_def xs)
  have c': "hd_current (h\<lparr>reads := reads h + 1\<rparr>) = Some r" using c(1) by (simp add: hd_current_def)
  show ?thesis
    unfolding read_intr_def win_result_well [OF w] Let_def case_prod_conv if_False c' option.case hd_state.simps p
    using c(2) by (simp add: upd_hk_def k sector_done_def [abs_def] sector_filled_def [abs_def])
qed

lemma patch_both_sectors:
  "length d = 1024 \<Longrightarrow> length xs = 512 \<Longrightarrow> length ys = 512 \<Longrightarrow> block_patch 512 ys (block_patch 0 xs d) = xs @ ys"
  by (simp add: block_patch_def)

text \<open>C17: a read from the hard disk. The controller is given the command to read 2 sectors and the place of the
  first of them on the disk: a sector of its track, counted from 1, a head and a cylinder that exist. When
  the controller is ready at every poll and reports no error, two interrupts complete the request: the
  buffer holds the bytes the data port delivered, is valid and unlocked, and the request is free again.\<close>

theorem hd_read_completes:
  assumes q: "hd_request READ r b h" and w: "hd_well h" and ready: "\<not> reset h" "\<not> recalibrate h"
    and alone: "r_next (requests (hk h) ! r) = None" and table: "HD_MAJOR < length (blk_dev (hk h))"
  shows "\<exists>h1 h2 h' sec head cyl.
    do_hd_request h = Ret h1 \<and> do_hd h1 = Some Read_intr
    \<and> outs h1 = rev (command_block (hd_info h ! (MINOR (nat (r_dev (requests (hk h) ! r))) div 5))
        (MINOR (nat (r_dev (requests (hk h) ! r))) div 5) 2 sec head cyl WIN_READ) @ outs h
    \<and> 1 \<le> sec \<and> sec \<le> hd_sect (hd_info h ! (MINOR (nat (r_dev (requests (hk h) ! r))) div 5))
    \<and> head < hd_head (hd_info h ! (MINOR (nat (r_dev (requests (hk h) ! r))) div 5))
    \<and> cyl < hd_cyl (hd_info h ! (MINOR (nat (r_dev (requests (hk h) ! r))) div 5))
    \<and> place_sector (hd_info h ! (MINOR (nat (r_dev (requests (hk h) ! r))) div 5)) (sec, head, cyl)
      = r_sector (requests (hk h) ! r) + start_sect (hd_part h ! MINOR (nat (r_dev (requests (hk h) ! r))))
    \<and> read_intr h1 = Ret h2 \<and> do_hd h2 = Some Read_intr \<and> read_intr h2 = Ret h'
    \<and> b_data (bufs (hk h') ! b) = sector_input (reads h + 2) h @ sector_input (reads h + 259) h
    \<and> b_uptodate (bufs (hk h') ! b) \<and> \<not> b_lock (bufs (hk h') ! b)
    \<and> r_dev (requests (hk h') ! r) = - 1 \<and> hd_current h' = None"
proof -
  let ?q = "requests (hk h) ! r"
  note R = q [unfolded hd_request_def Let_def]
  obtain sec head cyl os where s: "do_hd_request h = Ret (h\<lparr>reads := reads h + 1, do_hd := Some Read_intr, outs := os @ outs h\<rparr>)"
    "os = rev (command_block (hd_info h ! (MINOR (nat (r_dev ?q)) div 5)) (MINOR (nat (r_dev ?q)) div 5) 2 sec head cyl WIN_READ)"
    "1 \<le> sec" "sec \<le> hd_sect (hd_info h ! (MINOR (nat (r_dev ?q)) div 5))"
    "head < hd_head (hd_info h ! (MINOR (nat (r_dev ?q)) div 5))" "cyl < hd_cyl (hd_info h ! (MINOR (nat (r_dev ?q)) div 5))"
    "place_sector (hd_info h ! (MINOR (nat (r_dev ?q)) div 5)) (sec, head, cyl) = r_sector ?q + start_sect (hd_part h ! MINOR (nat (r_dev ?q)))"
    using do_hd_request_starts [OF q w ready] by blast
  define h1 where "h1 = h\<lparr>reads := reads h + 1, do_hd := Some Read_intr, outs := os @ outs h\<rparr>"
  let ?xs = "sector_input (reads h + 2) h" and ?ys = "sector_input (reads h + 259) h"
  define k1 where "k1 = upd_req r sector_done (upd_buf b (sector_filled ?xs ?q) (hk h))"
  define h2 where "h2 = h1\<lparr>reads := reads h1 + 257, hk := k1, do_hd := Some Read_intr\<rparr>"
  define k2 where "k2 = upd_req r sector_done (upd_buf b (sector_filled ?ys (requests k1 ! r)) k1)"
  define h' where "h' = h2\<lparr>reads := reads h2 + 257, hk := end_request HD_MAJOR True k2\<rparr>"
  have same: "hk h1 = hk h" "hk h2 = k1" "reads h1 = reads h + 1" "reads h2 = reads h + 258" "inputs h1 = inputs h" "inputs h2 = inputs h"
    "do_hd h1 = Some Read_intr" "do_hd h2 = Some Read_intr"
    by (simp_all add: h1_def h2_def)
  have k1: "requests k1 ! r = sector_done ?q" "blk_dev k1 = blk_dev (hk h)" using R by (simp_all add: k1_def)
  have in1: "hd_well h1" "hd_current h1 = Some r" "r_bh (requests (hk h1) ! r) = Some b"
    and in2: "hd_well h2" "hd_current h2 = Some r" "r_bh (requests (hk h2) ! r) = Some b"
    using w R k1 by (simp_all add: same hd_well_def hd_current_def sector_done_def)
  have t: "reads h1 + 1 = reads h + 2" "reads h2 + 1 = reads h + 259" by (simp_all add: same)
  have xs: "?xs = sector_input (reads h1 + 1) h1" "?ys = sector_input (reads h2 + 1) h2"
    unfolding t unfolding sector_input_def same by (rule refl)+
  have "r_nr_sectors (requests k1 ! r) \<noteq> 0" using R by (simp add: k1(1) sector_done_def)
  then have "read_intr h1 = Ret h2"
    using read_intr_well [OF in1(1-3) k1_def [folded same(1)] xs(1)] by (simp add: h2_def)
  moreover have k2: "requests k2 ! r = sector_done (sector_done ?q)" "blk_dev k2 = blk_dev (hk h)"
    "bufs k2 ! b = sector_filled ?ys (sector_done ?q) (sector_filled ?xs ?q (bufs (hk h) ! b))"
    "length (bufs k2) = length (bufs (hk h))" "length (requests k2) = length (requests (hk h))"
    using R k1 by (simp_all add: k2_def k1_def)
  have off: "request_offset ?q = 0" "request_offset (sector_done ?q) = 512"
    using R by (simp_all add: request_offset_def sector_done_def)
  have none: "hd_current h' = None"
    using R alone table k2 by (simp add: h'_def hd_current_def end_request_def sector_done_def Let_def unlock_buffer_def)
  obtain n where n: "HD_ROUNDS = Suc n" by (simp add: HD_ROUNDS_def)
  have "do_hd_request h' = Ret h'" using none by (simp add: do_hd_request_def n)
  moreover have "r_nr_sectors (requests k2 ! r) = 0" using R by (simp add: k2(1) sector_done_def)
  ultimately have "read_intr h1 = Ret h2" "read_intr h2 = Ret h'"
    using read_intr_well [OF in2(1-3) k2_def [folded same(2)] xs(2)] by (simp_all add: h'_def)
  moreover have "b_data (bufs (hk h') ! b) = ?xs @ ?ys" "b_uptodate (bufs (hk h') ! b)" "\<not> b_lock (bufs (hk h') ! b)"
    "r_dev (requests (hk h') ! r) = - 1"
    using R k2 patch_both_sectors [of "b_data (bufs (hk h) ! b)" ?xs ?ys] off
    by (simp_all add: h'_def end_request_def hd_current_def sector_done_def sector_filled_def Let_def unlock_buffer_def)
  moreover have "do_hd_request h = Ret h1" "outs h1 = os @ outs h" using s(1) by (simp_all add: h1_def)
  ultimately have all: "do_hd_request h = Ret h1" "outs h1 = os @ outs h" "read_intr h1 = Ret h2" "read_intr h2 = Ret h'"
    "b_data (bufs (hk h') ! b) = ?xs @ ?ys" "b_uptodate (bufs (hk h') ! b)" "\<not> b_lock (bufs (hk h') ! b)"
    "r_dev (requests (hk h') ! r) = - 1"
    by blast+
  show ?thesis
    by (rule exI [of _ h1], rule exI [of _ h2], rule exI [of _ h'], rule exI [of _ sec],
        rule exI [of _ head], rule exI [of _ cyl], intro conjI)
      (rule all(1) same(7) all(2) [unfolded s(2)] s(3-7) all(3) same(8) all(4-8) none)+
qed

section \<open>A read from the second partition slot of a drive of four heads\<close>

definition disk_at_work :: hd_state where
  "disk_at_work =
    \<lparr>hk = blank_kernel
       \<lparr>bufs := [blank_buffer\<lparr>b_dev := 0x301, b_blocknr := 5, b_lock := True\<rparr>],
        requests := [\<lparr>r_dev = 0x301, r_cmd = READ, r_errors = 0, r_sector = 10, r_nr_sectors = 2,
                      r_bh = Some 0, r_next = None\<rparr>],
        blk_dev := replicate NR_BLK_DEV \<lparr>request_fn = Some (By_interrupt HD_MAJOR), current_request = Some 0\<rparr>\<rparr>,
     hd_info = [\<lparr>hd_head = 4, hd_sect = 17, hd_cyl = 615, hd_wpcom = 300, hd_lzone = 615, hd_ctl = 0\<rparr>],
     NR_HD = 1,
     hd_part = [\<lparr>start_sect = 0, nr_sects = 41820\<rparr>, \<lparr>start_sect = 100, nr_sects = 1000\<rparr>],
     do_hd = None, recalibrate = False, reset = False, callable = False,
     inputs = (\<lambda>t p. if p = HD_STATUS then 0x50 else 0x6261), reads = 0, outs = []\<rparr>"

lemma disk_at_work_request:
  "hd_request READ 0 0 disk_at_work" "hd_well disk_at_work" "\<not> reset disk_at_work" "\<not> recalibrate disk_at_work"
  "r_next (requests (hk disk_at_work) ! 0) = None" "HD_MAJOR < length (blk_dev (hk disk_at_work))"
  "MINOR (nat (r_dev (requests (hk disk_at_work) ! 0))) = 1"
  by (simp_all add: hd_request_def disk_at_work_def hd_current_def HD_MAJOR_def NR_BLK_DEV_def Let_def MAJOR_def MINOR_def
      blank_buffer_def hd_well_def)

lemma disk_at_work_input: "sector_input t disk_at_work = concat (replicate 256 [0x61, 0x62])"
proof -
  have "map (\<lambda>i. let w = inputs disk_at_work (t + i) HD_DATA in [ucast w :: u8, ucast (drop_bit 8 w)]) [0..<256]
      = map (\<lambda>i. [0x61, 0x62]) [0..<256]"
    by (rule map_cong) (simp_all add: disk_at_work_def HD_DATA_def HD_STATUS_def)
  then show ?thesis unfolding sector_input_def by (simp only: map_replicate_const length_upt diff_zero)
qed

lemma hd_read_completes_witness:
  "\<exists>h1 h2 h'. do_hd_request disk_at_work = Ret h1 \<and> read_intr h1 = Ret h2 \<and> read_intr h2 = Ret h'
    \<and> b_data (bufs (hk h') ! 0) = concat (replicate 512 [0x61, 0x62])
    \<and> b_uptodate (bufs (hk h') ! 0) \<and> hd_current h' = None"
proof -
  have "concat (replicate 256 [0x61, 0x62]) @ concat (replicate 256 [0x61, 0x62 :: u8]) = concat (replicate 512 [0x61, 0x62])"
    by (simp only: concat_append [symmetric] replicate_add [symmetric]) simp
  then show ?thesis
    using hd_read_completes [OF disk_at_work_request(1-6)] unfolding disk_at_work_input by (elim exE conjE) (intro exI conjI, assumption+, simp)
qed

end
