(* ===== verification/Floppy.thy ===== *)
theory Floppy imports Demand begin

unbundle bit_operations_syntax

text \<open>
  \<open>kernel/blk_drv/floppy.c\<close> with \<open>include/linux/fdreg.h\<close>: the driver of the floppy disks.

  \<open>do_fd_request\<close> computes the place of the request at the head of the queue and sets a timer for the start
  of the motor; the timer's function selects the drive and calls \<open>transfer\<close>, which moves the head or starts
  the transfer, and the interrupt at the end of a command is handled by the function named in
  \<open>do_floppy\<close>. These functions call \<open>do_fd_request\<close> again, whose value for the state they have
  reached is an argument here (\<open>again\<close>); the knot is tied at the end.

  The scheduler's state holds the timers, the motors and the log of the bytes written to ports; what is
  read from a port is a stream. The address of the block of a buffer and of \<open>tmp_floppy_area\<close>, both fixed when the
  system starts, are part of the state, as is the memory behind \<open>floppy_type\<close>. The transfer between the
  disk and memory is made by the DMA hardware.
\<close>

section \<open>State\<close>

record floppy_struct =
  fl_size :: nat
  fl_sect :: nat
  fl_head :: nat
  fl_track :: nat
  fl_stretch :: nat
  fl_gap :: u8
  fl_rate :: u8
  fl_spec1 :: u8

datatype fd_handler = Rw_interrupt | Seek_interrupt | Recal_interrupt | Reset_interrupt

record fd_state =
  fk :: kernel
  fsc :: sched
  do_floppy :: "fd_handler option"
  fd_recalibrate :: bool
  fd_reset :: bool
  seek :: bool
  reply_buffer :: "u8 list"
  cur_spec1 :: int
  cur_rate :: int
  floppy :: floppy_struct
  current_drive :: u8
  fd_sector :: u8
  fd_head :: u8
  track :: u8
  seek_track :: u8
  current_track :: u8
  fd_command :: u8
  wait_on_floppy_select :: "nat option"
  tmp_floppy_area :: "u8 list"
  tmp_floppy_addr :: nat
  block_addr :: "nat \<Rightarrow> nat"
  behind_types :: "nat \<Rightarrow> floppy_struct"
  fd_inputs :: "nat \<Rightarrow> nat \<Rightarrow> u8"
  fd_reads :: nat

definition FD_STATUS :: nat where "FD_STATUS = 0x3f4"
definition FD_DATA :: nat where "FD_DATA = 0x3f5"
definition FD_DIR :: nat where "FD_DIR = 0x3f7"
definition FD_DCR :: nat where "FD_DCR = 0x3f7"

definition STATUS_BUSY :: u8 where "STATUS_BUSY = 0x10"
definition STATUS_DIR :: u8 where "STATUS_DIR = 0x40"
definition STATUS_READY :: u8 where "STATUS_READY = 0x80"

definition FD_RECALIBRATE :: u8 where "FD_RECALIBRATE = 0x07"
definition FD_SEEK :: u8 where "FD_SEEK = 0x0F"
definition FD_READ :: u8 where "FD_READ = 0xE6"
definition FD_WRITE :: u8 where "FD_WRITE = 0xC5"
definition FD_SENSEI :: u8 where "FD_SENSEI = 0x08"
definition FD_SPECIFY :: u8 where "FD_SPECIFY = 0x03"

definition DMA_READ :: u8 where "DMA_READ = 0x46"
definition DMA_WRITE :: u8 where "DMA_WRITE = 0x4A"

definition FD_MAX_ERRORS :: int where "FD_MAX_ERRORS = 8"
definition MAX_REPLIES :: nat where "MAX_REPLIES = 7"
definition FD_MAJOR :: nat where "FD_MAJOR = 2"

text \<open>The timer functions of this driver.\<close>

definition FLOPPY_ON_INTERRUPT :: nat where "FLOPPY_ON_INTERRUPT = 1"
definition TRANSFER :: nat where "TRANSFER = 2"

definition floppy_type :: "floppy_struct list" where
  "floppy_type =
    [\<lparr>fl_size = 0, fl_sect = 0, fl_head = 0, fl_track = 0, fl_stretch = 0, fl_gap = 0x00, fl_rate = 0x00, fl_spec1 = 0x00\<rparr>,
     \<lparr>fl_size = 720, fl_sect = 9, fl_head = 2, fl_track = 40, fl_stretch = 0, fl_gap = 0x2A, fl_rate = 0x02, fl_spec1 = 0xDF\<rparr>,
     \<lparr>fl_size = 2400, fl_sect = 15, fl_head = 2, fl_track = 80, fl_stretch = 0, fl_gap = 0x1B, fl_rate = 0x00, fl_spec1 = 0xDF\<rparr>,
     \<lparr>fl_size = 720, fl_sect = 9, fl_head = 2, fl_track = 40, fl_stretch = 1, fl_gap = 0x2A, fl_rate = 0x02, fl_spec1 = 0xDF\<rparr>,
     \<lparr>fl_size = 1440, fl_sect = 9, fl_head = 2, fl_track = 80, fl_stretch = 0, fl_gap = 0x2A, fl_rate = 0x02, fl_spec1 = 0xDF\<rparr>,
     \<lparr>fl_size = 720, fl_sect = 9, fl_head = 2, fl_track = 40, fl_stretch = 1, fl_gap = 0x23, fl_rate = 0x01, fl_spec1 = 0xDF\<rparr>,
     \<lparr>fl_size = 1440, fl_sect = 9, fl_head = 2, fl_track = 80, fl_stretch = 0, fl_gap = 0x23, fl_rate = 0x01, fl_spec1 = 0xDF\<rparr>,
     \<lparr>fl_size = 2880, fl_sect = 18, fl_head = 2, fl_track = 80, fl_stretch = 0, fl_gap = 0x1B, fl_rate = 0x00, fl_spec1 = 0xCF\<rparr>]"

section \<open>Ports and the controller\<close>

definition upd_fk :: "(kernel \<Rightarrow> kernel) \<Rightarrow> fd_state \<Rightarrow> fd_state" where
  "upd_fk f h = h\<lparr>fk := f (fk h)\<rparr>"

definition upd_fsc :: "(sched \<Rightarrow> sched) \<Rightarrow> fd_state \<Rightarrow> fd_state" where
  "upd_fsc f h = h\<lparr>fsc := f (fsc h)\<rparr>"

definition fd_inb :: "nat \<Rightarrow> fd_state \<Rightarrow> u8 \<times> fd_state" where
  "fd_inb p h = (fd_inputs h (fd_reads h) p, h\<lparr>fd_reads := fd_reads h + 1\<rparr>)"

definition fd_outb :: "u8 \<Rightarrow> nat \<Rightarrow> fd_state \<Rightarrow> fd_state" where
  "fd_outb v p h = upd_fsc (emit (Outb v p)) h"

primrec output_loop :: "nat \<Rightarrow> u8 \<Rightarrow> fd_state \<Rightarrow> fd_state" where
  "output_loop 0 v h = h\<lparr>fd_reset := True\<rparr>"
| "output_loop (Suc n) v h =
    (let (status, h) = fd_inb FD_STATUS h
     in if status AND (STATUS_READY OR STATUS_DIR) = STATUS_READY then fd_outb v FD_DATA h else output_loop n v h)"

definition output_byte :: "u8 \<Rightarrow> fd_state \<Rightarrow> fd_state" where
  "output_byte v h = (if fd_reset h then h else output_loop 10000 v h)"

text \<open>\<open>result\<close>: the number of bytes the controller answered with, which are in \<open>reply_buffer\<close>.\<close>

primrec result_loop :: "nat \<Rightarrow> nat \<Rightarrow> fd_state \<Rightarrow> int \<times> fd_state" where
  "result_loop 0 i h = (- 1, h\<lparr>fd_reset := True\<rparr>)"
| "result_loop (Suc n) i h =
    (let (status, h) = fd_inb FD_STATUS h; status = status AND (STATUS_DIR OR STATUS_READY OR STATUS_BUSY)
     in if status = STATUS_READY then (int i, h)
        else if status = STATUS_DIR OR STATUS_READY OR STATUS_BUSY
        then if i \<ge> MAX_REPLIES then (- 1, h\<lparr>fd_reset := True\<rparr>)
             else let (v, h) = fd_inb FD_DATA h
                  in result_loop n (Suc i) (h\<lparr>reply_buffer := (reply_buffer h)[i := v]\<rparr>)
        else result_loop n i h)"

definition fd_result :: "fd_state \<Rightarrow> int \<times> fd_state" where
  "fd_result h = (if fd_reset h then (- 1, h) else result_loop 10000 0 h)"

definition ST0 :: "fd_state \<Rightarrow> u8" where "ST0 h = reply_buffer h ! 0"
definition ST1 :: "fd_state \<Rightarrow> u8" where "ST1 h = reply_buffer h ! 1"
definition ST2 :: "fd_state \<Rightarrow> u8" where "ST2 h = reply_buffer h ! 2"

section \<open>Requests\<close>

definition fd_current :: "fd_state \<Rightarrow> nat option" where
  "fd_current h = current_request (blk_dev (fk h) ! FD_MAJOR)"

text \<open>The buffer of the current request. Without one nothing is followed further.\<close>

definition fd_buffer :: "fd_state \<Rightarrow> nat option" where
  "fd_buffer h = (case fd_current h of None \<Rightarrow> None | Some r \<Rightarrow> r_bh (requests (fk h) ! r))"

definition CURRENT_DEV :: "nat \<Rightarrow> fd_state \<Rightarrow> nat" where
  "CURRENT_DEV r h = nat (r_dev (requests (fk h) ! r)) mod 4"

definition fd_end_request :: "bool \<Rightarrow> fd_state \<Rightarrow> fd_state" where
  "fd_end_request uptodate h =
    (case fd_current h of
       None \<Rightarrow> h
     | Some r \<Rightarrow> upd_fk (end_request FD_MAJOR uptodate) (upd_fsc (floppy_off (CURRENT_DEV r h)) h))"

definition floppy_deselect :: "fd_state \<Rightarrow> fd_state" where
  "floppy_deselect h =
    (let h = upd_fsc (\<lambda>s. s\<lparr>selected := 0\<rparr>) h;
         (p, s) = wake_up (wait_on_floppy_select h) (fsc h)
     in h\<lparr>fsc := s, wait_on_floppy_select := p\<rparr>)"

text \<open>\<open>CURRENT->errors\<close>, which is the word at address 8 when the queue is empty.\<close>

definition fd_errors :: "fd_state \<Rightarrow> int" where
  "fd_errors h = (case fd_current h of
     None \<Rightarrow> sint (phys (mem (fk h)) 8) | Some r \<Rightarrow> r_errors (requests (fk h) ! r))"

definition bad_flp_intr :: "fd_state \<Rightarrow> fd_state kres" where
  "bad_flp_intr h =
    (case fd_current h of
       None \<Rightarrow> Hang
     | Some r \<Rightarrow>
        let h = upd_fk (upd_req r (\<lambda>q. q\<lparr>r_errors := r_errors q + 1\<rparr>)) h;
            h = (if fd_errors h > FD_MAX_ERRORS then fd_end_request False (floppy_deselect h) else h)
        in Ret (if fd_errors h > FD_MAX_ERRORS div 2 then h\<lparr>fd_reset := True\<rparr> else h\<lparr>fd_recalibrate := True\<rparr>))"

section \<open>Transfers\<close>

definition setup_DMA :: "fd_state \<Rightarrow> fd_state kres" where
  "setup_DMA h =
    (case fd_buffer h of
       None \<Rightarrow> Hang
     | Some b \<Rightarrow>
        let addr = block_addr h b;
            (addr, h) = (if addr \<ge> 0x100000
                         then (tmp_floppy_addr h,
                               if fd_command h = FD_WRITE then h\<lparr>tmp_floppy_area := b_data (bufs (fk h) ! b)\<rparr> else h)
                         else (addr, h));
            h = fd_outb (4 OR 2) 10 h;
            dir = (if fd_command h = FD_READ then DMA_READ else DMA_WRITE);
            h = fd_outb dir 12 h;
            h = fd_outb dir 11 h;
            h = fd_outb (of_nat addr) 4 h;
            h = fd_outb (of_nat (addr div 2 ^ 8)) 4 h;
            h = fd_outb (of_nat (addr div 2 ^ 16)) 0x81 h;
            h = fd_outb 0xff 5 h;
            h = fd_outb 3 5 h
        in Ret (fd_outb (0 OR 2) 10 h))"

definition drive_and_head :: "fd_state \<Rightarrow> u8" where
  "drive_and_head h = push_bit 2 (fd_head h) OR current_drive h"

definition setup_rw_floppy :: "(fd_state \<Rightarrow> fd_state kres) \<Rightarrow> fd_state \<Rightarrow> fd_state kres" where
  "setup_rw_floppy again h =
    kbind (setup_DMA h) (\<lambda>h.
    let h = h\<lparr>do_floppy := Some Rw_interrupt\<rparr>;
        h = output_byte (fd_command h) h;
        h = output_byte (drive_and_head h) h;
        h = output_byte (track h) h;
        h = output_byte (fd_head h) h;
        h = output_byte (fd_sector h) h;
        h = output_byte 2 h;
        h = output_byte (of_nat (fl_sect (floppy h))) h;
        h = output_byte (fl_gap (floppy h)) h;
        h = output_byte 0xFF h
    in if fd_reset h then again h else Ret h)"

definition transfer :: "(fd_state \<Rightarrow> fd_state kres) \<Rightarrow> fd_state \<Rightarrow> fd_state kres" where
  "transfer again h =
    (let h = (if cur_spec1 h \<noteq> int (unat (fl_spec1 (floppy h)))
              then let h = h\<lparr>cur_spec1 := int (unat (fl_spec1 (floppy h)))\<rparr>;
                       h = output_byte FD_SPECIFY h;
                       h = output_byte (of_int (cur_spec1 h)) h
                   in output_byte 6 h
              else h);
         h = (if cur_rate h \<noteq> int (unat (fl_rate (floppy h)))
              then fd_outb (fl_rate (floppy h)) FD_DCR (h\<lparr>cur_rate := int (unat (fl_rate (floppy h)))\<rparr>)
              else h)
     in if fd_reset h then again h
        else if \<not> seek h then setup_rw_floppy again h
        else
        let h = h\<lparr>do_floppy := Some Seek_interrupt\<rparr>;
            h = (if seek_track h \<noteq> 0
                 then output_byte (seek_track h) (output_byte (drive_and_head h) (output_byte FD_SEEK h))
                 else output_byte (drive_and_head h) (output_byte FD_RECALIBRATE h))
        in if fd_reset h then again h else Ret h)"

text \<open>The function of the first timer: the drive is selected, and 2 ticks later the transfer starts.\<close>

definition floppy_on_interrupt :: "(fd_state \<Rightarrow> fd_state kres) \<Rightarrow> fd_state \<Rightarrow> fd_state kres" where
  "floppy_on_interrupt again h =
    (let h = upd_fsc (\<lambda>s. s\<lparr>selected := 1\<rparr>) h
     in if current_drive h \<noteq> current_DOR (fsc h) AND 3
        then let h = upd_fsc (\<lambda>s. s\<lparr>current_DOR := (current_DOR s AND 0xFC) OR current_drive h\<rparr>) h;
                 h = fd_outb (current_DOR (fsc h)) FD_DOR h
             in kbind (add_timer 2 TRANSFER (fsc h)) (\<lambda>s. Ret (h\<lparr>fsc := s\<rparr>))
        else transfer again h)"

section \<open>Recalibration and reset\<close>

definition recalibrate_floppy :: "(fd_state \<Rightarrow> fd_state kres) \<Rightarrow> fd_state \<Rightarrow> fd_state kres" where
  "recalibrate_floppy again h =
    (let h = h\<lparr>fd_recalibrate := False, current_track := 0, do_floppy := Some Recal_interrupt\<rparr>;
         h = output_byte FD_RECALIBRATE h;
         h = output_byte (drive_and_head h) h
     in if fd_reset h then again h else Ret h)"

definition reset_floppy :: "fd_state \<Rightarrow> fd_state" where
  "reset_floppy h =
    (let h = h\<lparr>fd_reset := False, cur_spec1 := - 1, cur_rate := - 1, fd_recalibrate := True,
               do_floppy := Some Reset_interrupt\<rparr>;
         h = fd_outb (current_DOR (fsc h) AND NOT 0x04) FD_DOR h
     in fd_outb (current_DOR (fsc h)) FD_DOR h)"

section \<open>\<open>do_fd_request\<close>\<close>

definition floppy_at :: "nat \<Rightarrow> fd_state \<Rightarrow> floppy_struct" where
  "floppy_at i h = (if i < 8 then floppy_type ! i else behind_types h (i - 8))"

text \<open>What is computed for the request \<open>r\<close> once it is known to lie on the disk: the place of its first sector.\<close>

definition fd_place :: "nat \<Rightarrow> fd_state \<Rightarrow> fd_state" where
  "fd_place r h =
    (let block = r_sector (requests (fk h) ! r);
         h = h\<lparr>fd_sector := of_nat (block mod fl_sect (floppy h))\<rparr>;
         block = block div fl_sect (floppy h);
         h = h\<lparr>fd_head := of_nat (block mod fl_head (floppy h))\<rparr>;
         h = h\<lparr>track := of_nat (block div fl_head (floppy h))\<rparr>;
         h = h\<lparr>seek_track := push_bit (fl_stretch (floppy h)) (track h)\<rparr>;
         h = (if seek_track h \<noteq> current_track h then h\<lparr>seek := True\<rparr> else h)
     in h\<lparr>fd_sector := fd_sector h + 1\<rparr>)"

text \<open>The motor of the drive: the timer's function runs at once when the motor is at speed.\<close>

definition fd_start :: "(fd_state \<Rightarrow> fd_state kres) \<Rightarrow> fd_state \<Rightarrow> fd_state kres" where
  "fd_start again h =
    kbind (ticks_to_floppy_on (unat (current_drive h)) (fsc h)) (\<lambda>(t, s).
    let h = h\<lparr>fsc := s\<rparr>
    in if t \<le> 0 then floppy_on_interrupt again h
       else kbind (add_timer t FLOPPY_ON_INTERRUPT (fsc h)) (\<lambda>s. Ret (h\<lparr>fsc := s\<rparr>)))"

text \<open>The code from the label \<open>repeat\<close> on; every further round ends a request. A division by zero
  ends the process through the trap handler.\<close>

primrec fd_requests :: "nat \<Rightarrow> (fd_state \<Rightarrow> fd_state kres) \<Rightarrow> fd_state \<Rightarrow> fd_state kres" where
  "fd_requests 0 again h = Hang"
| "fd_requests (Suc n) again h =
    (case fd_current h of
       None \<Rightarrow> Ret h
     | Some r \<Rightarrow>
        let q = requests (fk h) ! r
        in if MAJOR (nat (r_dev q)) \<noteq> FD_MAJOR then Panic ''floppy: request list destroyed''
           else if (case r_bh q of None \<Rightarrow> False | Some b \<Rightarrow> \<not> b_lock (bufs (fk h) ! b))
           then Panic ''floppy: block not locked''
           else
           let h = h\<lparr>floppy := floppy_at (MINOR (nat (r_dev q)) div 4) h\<rparr>;
               h = (if unat (current_drive h) \<noteq> CURRENT_DEV r h then h\<lparr>seek := True\<rparr> else h);
               h = h\<lparr>current_drive := of_nat (CURRENT_DEV r h)\<rparr>
           in if (r_sector q + 2) mod 2 ^ 32 > fl_size (floppy h) then fd_requests n again (fd_end_request False h)
              else if fl_sect (floppy h) = 0 \<or> fl_head (floppy h) = 0 then Exit 11
              else
              let h = fd_place r h
              in if r_cmd q = READ then fd_start again (h\<lparr>fd_command := FD_READ\<rparr>)
                 else if r_cmd q = WRITE then fd_start again (h\<lparr>fd_command := FD_WRITE\<rparr>)
                 else Panic ''do_fd_request: unknown command'')"

definition fd_request :: "(fd_state \<Rightarrow> fd_state kres) \<Rightarrow> fd_state \<Rightarrow> fd_state kres" where
  "fd_request again h =
    (let h = h\<lparr>seek := False\<rparr>
     in if fd_reset h then Ret (reset_floppy h)
        else if fd_recalibrate h then recalibrate_floppy again h
        else fd_requests (NR_REQUEST + 1) again h)"

text \<open>Only a failed \<open>output_byte\<close>, which asks for a reset, makes \<open>do_fd_request\<close> call itself.\<close>

definition do_fd_request :: "fd_state \<Rightarrow> fd_state kres" where
  "do_fd_request h = fd_request (fd_request (\<lambda>_. Hang)) h"

section \<open>Interrupts\<close>

definition rw_interrupt :: "fd_state \<Rightarrow> fd_state kres" where
  "rw_interrupt h =
    (let (n, h) = fd_result h
     in if n \<noteq> 7 \<or> ST0 h AND 0xf8 \<noteq> 0 \<or> ST1 h AND 0xbf \<noteq> 0 \<or> ST2 h AND 0x73 \<noteq> 0
        then if ST1 h AND 0x02 \<noteq> 0 then do_fd_request (fd_end_request False (floppy_deselect h))
             else kbind (bad_flp_intr h) do_fd_request
        else
        case fd_buffer h of
          None \<Rightarrow> Hang
        | Some b \<Rightarrow>
           let h = (if fd_command h = FD_READ \<and> block_addr h b \<ge> 0x100000
                    then upd_fk (upd_buf b (\<lambda>x. x\<lparr>b_data := tmp_floppy_area h\<rparr>)) h else h)
           in do_fd_request (fd_end_request True (floppy_deselect h)))"

definition seek_interrupt :: "fd_state \<Rightarrow> fd_state kres" where
  "seek_interrupt h =
    (let (n, h) = fd_result (output_byte FD_SENSEI h)
     in if n \<noteq> 2 \<or> ST0 h AND 0xF8 \<noteq> 0x20 \<or> ST1 h \<noteq> seek_track h then kbind (bad_flp_intr h) do_fd_request
        else setup_rw_floppy do_fd_request (h\<lparr>current_track := ST1 h\<rparr>))"

definition recal_interrupt :: "fd_state \<Rightarrow> fd_state kres" where
  "recal_interrupt h =
    (let (n, h) = fd_result (output_byte FD_SENSEI h)
     in do_fd_request (if n \<noteq> 2 \<or> ST0 h AND 0xE0 = 0x60 then h\<lparr>fd_reset := True\<rparr> else h\<lparr>fd_recalibrate := False\<rparr>))"

definition unexpected_floppy_interrupt :: "fd_state \<Rightarrow> fd_state" where
  "unexpected_floppy_interrupt h =
    (let (n, h) = fd_result (output_byte FD_SENSEI h)
     in if n \<noteq> 2 \<or> ST0 h AND 0xE0 = 0x60 then h\<lparr>fd_reset := True\<rparr> else h\<lparr>fd_recalibrate := True\<rparr>)"

definition reset_interrupt :: "fd_state \<Rightarrow> fd_state kres" where
  "reset_interrupt h =
    (let (n, h) = fd_result (output_byte FD_SENSEI h);
         h = output_byte FD_SPECIFY h;
         h = output_byte (of_int (cur_spec1 h)) h
     in do_fd_request (output_byte 6 h))"

definition floppy_init :: "fd_state \<Rightarrow> fd_state" where
  "floppy_init h =
    (let h = upd_fk (upd_blk FD_MAJOR (\<lambda>d. d\<lparr>request_fn := Some (By_interrupt FD_MAJOR)\<rparr>)) h;
         (v, h) = fd_inb 0x21 h
     in fd_outb (v AND NOT 0x40) 0x21 h)"

section \<open>\<open>floppy_change\<close>\<close>

text \<open>A process goes to sleep until the motor runs or until another drive is given up, and then goes
  on from the label \<open>repeat\<close> or from the test of the selected drive; or it learns whether the disk was
  changed.\<close>

datatype fd_wait = Wait_motor "nat option" | Wait_select "nat option" | Changed bool

definition floppy_select :: "(fd_state \<Rightarrow> (fd_wait \<times> fd_state) kres) \<Rightarrow> nat \<Rightarrow> fd_state \<Rightarrow> (fd_wait \<times> fd_state) kres" where
  "floppy_select repeat nr h =
    (if unat (current_DOR (fsc h) AND 3) \<noteq> nr
     then if selected (fsc h) \<noteq> 0
          then kbind (interruptible_sleep_on_enter (wait_on_floppy_select h) (fsc h)) (\<lambda>(p, tmp, s).
               Ret (Wait_select tmp, h\<lparr>fsc := s, wait_on_floppy_select := p\<rparr>))
          else repeat h
     else let (v, h) = fd_inb FD_DIR h in Ret (Changed (v AND 0x80 \<noteq> 0), upd_fsc (floppy_off nr) h))"

primrec floppy_repeat :: "nat \<Rightarrow> nat \<Rightarrow> fd_state \<Rightarrow> (fd_wait \<times> fd_state) kres" where
  "floppy_repeat 0 nr h = Hang"
| "floppy_repeat (Suc n) nr h =
    kbind (floppy_on nr (fsc h)) (\<lambda>(w, s).
    let h = h\<lparr>fsc := s\<rparr>
    in case w of
         Some tmp \<Rightarrow> Ret (Wait_motor tmp, h)
       | None \<Rightarrow> floppy_select (floppy_repeat n nr) nr h)"

text \<open>When no drive is selected, the second round starts the motor and waits for it.\<close>

definition floppy_change :: "nat \<Rightarrow> fd_state \<Rightarrow> (fd_wait \<times> fd_state) kres" where
  "floppy_change nr h = floppy_repeat 2 nr h"

end
