(* ===== verification/Floppy_Requests.thy ===== *)
theory Floppy_Requests imports Floppy begin

unbundle bit_operations_syntax

text \<open>
  The floppy driver: \<open>do_fd_request\<close> is the function its recursive calls refer to, the sectors of a disk are found
  where they are, and a block above 1 MB is read by way of \<open>tmp_floppy_area\<close>.
\<close>

section \<open>The recursion of \<open>do_fd_request\<close>\<close>

text \<open>The driver's functions use \<open>again\<close> only in states that ask for a reset.\<close>

definition same_on_reset :: "(fd_state \<Rightarrow> fd_state kres) \<Rightarrow> (fd_state \<Rightarrow> fd_state kres) \<Rightarrow> bool" where
  "same_on_reset f g \<longleftrightarrow> (\<forall>h. fd_reset h \<longrightarrow> f h = g h)"

lemma again_cong:
  assumes "same_on_reset f g"
  shows "setup_rw_floppy f h = setup_rw_floppy g h" and "transfer f h = transfer g h"
    and "floppy_on_interrupt f h = floppy_on_interrupt g h" and "recalibrate_floppy f h = recalibrate_floppy g h"
    and "fd_start f h = fd_start g h" and "fd_requests n f h = fd_requests n g h" and "fd_request f h = fd_request g h"
proof -
  have fg: "(if fd_reset h then f h else k) = (if fd_reset h then g h else k)" for h k
    using assms by (simp add: same_on_reset_def)
  show rw: "setup_rw_floppy f h = setup_rw_floppy g h" for h
    unfolding setup_rw_floppy_def Let_def fg by (rule refl)
  show tr: "transfer f h = transfer g h" for h
    unfolding transfer_def Let_def fg rw by (rule refl)
  show on: "floppy_on_interrupt f h = floppy_on_interrupt g h" for h
    unfolding floppy_on_interrupt_def Let_def tr by (rule refl)
  show re: "recalibrate_floppy f h = recalibrate_floppy g h" for h
    unfolding recalibrate_floppy_def Let_def fg by (rule refl)
  show st: "fd_start f h = fd_start g h" for h
    unfolding fd_start_def Let_def on by (rule refl)
  show rq: "fd_requests n f h = fd_requests n g h" for n h
    by (induction n arbitrary: h) (simp_all only: fd_requests.simps Let_def st)
  show "fd_request f h = fd_request g h"
    unfolding fd_request_def Let_def re rq by (rule refl)
qed

theorem do_fd_request_unfold: "do_fd_request h = fd_request do_fd_request h"
proof -
  have "same_on_reset (fd_request (\<lambda>_. Hang)) do_fd_request"
    by (simp add: same_on_reset_def do_fd_request_def fd_request_def)
  then show ?thesis unfolding do_fd_request_def [of h] by (rule again_cong)
qed

section \<open>The place of a sector\<close>

lemma floppy_type_sizes:
  assumes "i < 8"
  shows "fl_size (floppy_type ! i) = fl_sect (floppy_type ! i) * fl_head (floppy_type ! i) * fl_track (floppy_type ! i)"
    and "fl_track (floppy_type ! i) * 2 ^ fl_stretch (floppy_type ! i) \<le> 80" "fl_sect (floppy_type ! i) \<le> 18"
    and "fl_head (floppy_type ! i) \<le> 2" "i \<noteq> 0 \<Longrightarrow> 0 < fl_sect (floppy_type ! i)" "i \<noteq> 0 \<Longrightarrow> 0 < fl_head (floppy_type ! i)"
proof -
  have "i \<in> {0, 1, 2, 3, 4, 5, 6, 7}" using assms by auto
  then show "fl_size (floppy_type ! i) = fl_sect (floppy_type ! i) * fl_head (floppy_type ! i) * fl_track (floppy_type ! i)"
    "fl_track (floppy_type ! i) * 2 ^ fl_stretch (floppy_type ! i) \<le> 80" "fl_sect (floppy_type ! i) \<le> 18"
    "fl_head (floppy_type ! i) \<le> 2" "i \<noteq> 0 \<Longrightarrow> 0 < fl_sect (floppy_type ! i)" "i \<noteq> 0 \<Longrightarrow> 0 < fl_head (floppy_type ! i)"
    by (auto simp: floppy_type_def)
qed

lemma unat_byte: "n < 256 \<Longrightarrow> unat (of_nat n :: u8) = n"
  by (simp add: unat_of_nat take_bit_eq_mod)

lemma fd_place_fields:
  "fd_sector (fd_place r h) = of_nat (r_sector (requests (fk h) ! r) mod fl_sect (floppy h)) + 1"
  "fd_head (fd_place r h) = of_nat (r_sector (requests (fk h) ! r) div fl_sect (floppy h) mod fl_head (floppy h))"
  "track (fd_place r h) = of_nat (r_sector (requests (fk h) ! r) div fl_sect (floppy h) div fl_head (floppy h))"
  "seek_track (fd_place r h) = push_bit (fl_stretch (floppy h)) (track (fd_place r h))"
  "seek (fd_place r h) \<longleftrightarrow> seek h \<or> seek_track (fd_place r h) \<noteq> current_track h"
  by (simp_all add: fd_place_def Let_def)

lemma fd_place_keeps [simp]:
  "fk (fd_place r h) = fk h" "fsc (fd_place r h) = fsc h" "do_floppy (fd_place r h) = do_floppy h"
  "fd_reset (fd_place r h) = fd_reset h" "fd_recalibrate (fd_place r h) = fd_recalibrate h"
  "cur_spec1 (fd_place r h) = cur_spec1 h" "cur_rate (fd_place r h) = cur_rate h" "floppy (fd_place r h) = floppy h"
  "current_drive (fd_place r h) = current_drive h" "current_track (fd_place r h) = current_track h"
  "tmp_floppy_area (fd_place r h) = tmp_floppy_area h" "tmp_floppy_addr (fd_place r h) = tmp_floppy_addr h"
  "block_addr (fd_place r h) = block_addr h" "fd_inputs (fd_place r h) = fd_inputs h" "fd_reads (fd_place r h) = fd_reads h"
  "wait_on_floppy_select (fd_place r h) = wait_on_floppy_select h" "reply_buffer (fd_place r h) = reply_buffer h"
  by (simp_all add: fd_place_def Let_def)

text \<open>The number of a sector is found again by counting along the tracks; none of the numbers exceeds its byte.\<close>

lemma fd_place_correct:
  assumes i: "i < 8" "i \<noteq> 0" "floppy h = floppy_type ! i" and n: "r_sector (requests (fk h) ! r) < fl_size (floppy h)"
  shows "1 \<le> unat (fd_sector (fd_place r h))" "unat (fd_sector (fd_place r h)) \<le> fl_sect (floppy h)"
    and "unat (fd_head (fd_place r h)) < fl_head (floppy h)" "unat (track (fd_place r h)) < fl_track (floppy h)"
    and "(unat (track (fd_place r h)) * fl_head (floppy h) + unat (fd_head (fd_place r h))) * fl_sect (floppy h)
      + (unat (fd_sector (fd_place r h)) - 1) = r_sector (requests (fk h) ! r)"
    and "unat (seek_track (fd_place r h)) = unat (track (fd_place r h)) * 2 ^ fl_stretch (floppy h)"
proof -
  note T = floppy_type_sizes [OF i(1), folded i(3)]
  let ?n = "r_sector (requests (fk h) ! r)" and ?s = "fl_sect (floppy h)" and ?d = "fl_head (floppy h)"
  let ?t = "?n div ?s div ?d"
  have pos: "0 < ?s" "0 < ?d" using T(5,6) [OF i(2)] by simp_all
  have "?n div ?s < ?d * fl_track (floppy h)"
    using n T(1) pos by (simp add: div_less_iff_less_mult ac_simps)
  then have t: "?t < fl_track (floppy h)" using pos by (simp add: div_less_iff_less_mult mult.commute)
  have "?t \<le> ?t * 2 ^ fl_stretch (floppy h)" "?t * 2 ^ fl_stretch (floppy h) \<le> fl_track (floppy h) * 2 ^ fl_stretch (floppy h)"
    using t by simp_all
  then have t80: "?t * 2 ^ fl_stretch (floppy h) \<le> 80" "?t \<le> 80" using T(2) by linarith+
  have sec: "?n mod ?s < ?s" and head: "?n div ?s mod ?d < ?d" using pos by simp_all
  have u: "unat (fd_sector (fd_place r h)) = ?n mod ?s + 1" "unat (fd_head (fd_place r h)) = ?n div ?s mod ?d"
    "unat (track (fd_place r h)) = ?t"
    using sec head T(3,4) t80 unat_byte [of "?n mod ?s + 1"]
    by (simp_all add: fd_place_fields unat_byte add.commute)
  show "1 \<le> unat (fd_sector (fd_place r h))" "unat (fd_sector (fd_place r h)) \<le> ?s"
    "unat (fd_head (fd_place r h)) < ?d" "unat (track (fd_place r h)) < fl_track (floppy h)"
    using u sec head t by simp_all
  show "(unat (track (fd_place r h)) * ?d + unat (fd_head (fd_place r h))) * ?s + (unat (fd_sector (fd_place r h)) - 1) = ?n"
    unfolding u by simp
  have "push_bit k (track (fd_place r h)) = of_nat (?t * 2 ^ k)" for k
    by (simp add: fd_place_fields push_bit_eq_mult)
  then have "unat (seek_track (fd_place r h)) = unat (of_nat (?t * 2 ^ fl_stretch (floppy h)) :: u8)"
    by (simp only: fd_place_fields(4))
  also have "\<dots> = ?t * 2 ^ fl_stretch (floppy h)" using t80 by (intro unat_byte) simp
  finally show "unat (seek_track (fd_place r h)) = unat (track (fd_place r h)) * 2 ^ fl_stretch (floppy h)" by (simp add: u)
qed

section \<open>Starting a transfer\<close>

text \<open>A controller that takes every byte.\<close>

definition takes_bytes :: "(nat \<Rightarrow> nat \<Rightarrow> u8) \<Rightarrow> bool" where
  "takes_bytes inp \<longleftrightarrow> (\<forall>t. inp t FD_STATUS AND (STATUS_READY OR STATUS_DIR) = STATUS_READY)"

definition sent :: "u8 list \<Rightarrow> event list" where
  "sent vs = map (\<lambda>v. Outb v FD_DATA) vs"

lemma output_byte_taken:
  assumes "takes_bytes (fd_inputs h)" "\<not> fd_reset h"
  shows "output_byte v h = h\<lparr>fd_reads := fd_reads h + 1, fsc := (fsc h)\<lparr>io := io (fsc h) @ sent [v]\<rparr>\<rparr>"
proof -
  have "output_loop (Suc n) v h = h\<lparr>fd_reads := fd_reads h + 1, fsc := (fsc h)\<lparr>io := io (fsc h) @ sent [v]\<rparr>\<rparr>" for n
    using assms by (simp add: takes_bytes_def fd_inb_def fd_outb_def upd_fsc_def emit_def sent_def)
  from this [of 9999] show ?thesis using assms by (simp add: output_byte_def)
qed

text \<open>The DMA channel is set for 1024 bytes at \<open>addr\<close>.\<close>

definition dma_program :: "u8 \<Rightarrow> nat \<Rightarrow> event list" where
  "dma_program dir addr =
    map (\<lambda>(v, p). Outb v p)
      [(6, 10), (dir, 12), (dir, 11), (of_nat addr, 4), (of_nat (addr div 2 ^ 8), 4), (of_nat (addr div 2 ^ 16), 0x81),
       (0xff, 5), (3, 5), (2, 10)]"

definition rw_command :: "fd_state \<Rightarrow> u8 list" where
  "rw_command h =
    [fd_command h, drive_and_head h, track h, fd_head h, fd_sector h, 2, of_nat (fl_sect (floppy h)), fl_gap (floppy h), 0xFF]"

lemma setup_DMA_read_high:
  assumes "fd_buffer h = Some b" "block_addr h b \<ge> 0x100000" "fd_command h = FD_READ"
  shows "setup_DMA h = Ret (h\<lparr>fsc := (fsc h)\<lparr>io := io (fsc h) @ dma_program DMA_READ (tmp_floppy_addr h)\<rparr>\<rparr>)"
  using assms by (simp add: setup_DMA_def Let_def FD_READ_def FD_WRITE_def fd_outb_def upd_fsc_def emit_def dma_program_def)

lemma setup_rw_floppy_read_high:
  assumes "fd_buffer h = Some b" "block_addr h b \<ge> 0x100000" "fd_command h = FD_READ"
    and "takes_bytes (fd_inputs h)" "\<not> fd_reset h"
  shows "setup_rw_floppy again h = Ret (h\<lparr>do_floppy := Some Rw_interrupt, fd_reads := fd_reads h + 9,
    fsc := (fsc h)\<lparr>io := io (fsc h) @ dma_program DMA_READ (tmp_floppy_addr h) @ sent (rw_command h)\<rparr>\<rparr>)"
  using assms(3-5)
  by (simp add: setup_rw_floppy_def setup_DMA_read_high [OF assms(1-3)] Let_def output_byte_taken sent_def rw_command_def
      drive_and_head_def)

text \<open>The motor of the drive runs, the drive is selected and nobody waits for the motor to reach its speed.\<close>

definition motor_ready :: "u8 \<Rightarrow> sched \<Rightarrow> bool" where
  "motor_ready d s \<longleftrightarrow> d < 4 \<and> current_DOR s AND 3 = d \<and> push_bit (unat d) 0x10 OR current_DOR s = current_DOR s
    \<and> mon_timer s ! unat d = 0"

lemma ticks_motor_ready:
  assumes "motor_ready d s"
  shows "ticks_to_floppy_on (unat d) s = Ret (0, s\<lparr>moff_timer := (moff_timer s)[unat d := 10000]\<rparr>)"
proof -
  have "unat d \<le> 3" using assms unat_mono [of d 4] by (simp add: motor_ready_def)
  moreover have "(current_DOR s AND 0xFC) OR (current_DOR s AND 3) = current_DOR s"
  proof -
    have "(0xFC OR 3 :: u8) = - 1" by simp
    then show ?thesis by (simp only: bit.conj_disj_distrib [symmetric] and.right_neutral)
  qed
  ultimately show ?thesis using assms by (simp add: ticks_to_floppy_on_def motor_ready_def Let_def)
qed

text \<open>A read into a buffer above 1 MB is at the head of the queue, its disk is in a drive whose motor runs, and the
  head of the drive is on the track.\<close>

definition fd_read_request :: "nat \<Rightarrow> nat \<Rightarrow> fd_state \<Rightarrow> bool" where
  "fd_read_request r b h \<longleftrightarrow>
    (let q = requests (fk h) ! r; i = MINOR (nat (r_dev q)) div 4; d = of_nat (CURRENT_DEV r h)
     in fd_current h = Some r \<and> r < length (requests (fk h)) \<and> r_cmd q = READ \<and> r_bh q = Some b
       \<and> b < length (bufs (fk h)) \<and> b_lock (bufs (fk h) ! b) \<and> block_addr h b \<ge> 0x100000
       \<and> MAJOR (nat (r_dev q)) = FD_MAJOR \<and> FD_MAJOR < length (blk_dev (fk h))
       \<and> 0 < i \<and> i < 8 \<and> r_sector q + 2 \<le> fl_size (floppy_type ! i)
       \<and> current_drive h = d \<and> motor_ready d (fsc h)
       \<and> seek_track (fd_place r (h\<lparr>floppy := floppy_type ! i\<rparr>)) = current_track h
       \<and> cur_spec1 h = int (unat (fl_spec1 (floppy_type ! i))) \<and> cur_rate h = int (unat (fl_rate (floppy_type ! i)))
       \<and> \<not> fd_reset h \<and> \<not> fd_recalibrate h)"

lemma fd_place_cong:
  "fk h = fk h' \<Longrightarrow> floppy h = floppy h' \<Longrightarrow> fd_sector (fd_place r h) = fd_sector (fd_place r h')
    \<and> fd_head (fd_place r h) = fd_head (fd_place r h') \<and> track (fd_place r h) = track (fd_place r h')
    \<and> seek_track (fd_place r h) = seek_track (fd_place r h')"
  by (simp add: fd_place_fields)

text \<open>The state in which the transfer starts.\<close>

definition fd_located :: "nat \<Rightarrow> fd_state \<Rightarrow> fd_state" where
  "fd_located r h =
    (fd_place r (h\<lparr>seek := False, floppy := floppy_type ! (MINOR (nat (r_dev (requests (fk h) ! r))) div 4),
                  current_drive := of_nat (CURRENT_DEV r h)\<rparr>))\<lparr>fd_command := FD_READ\<rparr>"

lemma fd_located_keeps [simp]:
  "fk (fd_located r h) = fk h" "fsc (fd_located r h) = fsc h" "fd_reset (fd_located r h) = fd_reset h"
  "fd_recalibrate (fd_located r h) = fd_recalibrate h" "fd_command (fd_located r h) = FD_READ"
  "floppy (fd_located r h) = floppy_type ! (MINOR (nat (r_dev (requests (fk h) ! r))) div 4)"
  "current_drive (fd_located r h) = of_nat (CURRENT_DEV r h)" "fd_inputs (fd_located r h) = fd_inputs h"
  "fd_reads (fd_located r h) = fd_reads h" "cur_spec1 (fd_located r h) = cur_spec1 h" "cur_rate (fd_located r h) = cur_rate h"
  "block_addr (fd_located r h) = block_addr h" "tmp_floppy_addr (fd_located r h) = tmp_floppy_addr h"
  "fd_current (fd_located r h) = fd_current h" "reply_buffer (fd_located r h) = reply_buffer h"
  "wait_on_floppy_select (fd_located r h) = wait_on_floppy_select h" "fd_buffer (fd_located r h) = fd_buffer h"
  by (simp_all add: fd_located_def fd_current_def fd_buffer_def split: option.split)

lemma fd_requests_located:
  assumes "fd_read_request r b h" "\<not> seek h"
  shows "fd_requests (Suc n) again h = fd_start again (fd_located r h)"
proof -
  note R = assms(1) [unfolded fd_read_request_def Let_def]
  let ?i = "MINOR (nat (r_dev (requests (fk h) ! r))) div 4"
  have i: "?i < 8" "?i \<noteq> 0" using R by simp_all
  note T = floppy_type_sizes [OF i(1)]
  have "fl_size (floppy_type ! ?i) \<le> 18 * 2 * 80"
  proof -
    have "fl_track (floppy_type ! ?i) \<le> fl_track (floppy_type ! ?i) * 2 ^ fl_stretch (floppy_type ! ?i)" by simp
    then have "fl_track (floppy_type ! ?i) \<le> 80" using T(2) by linarith
    then show ?thesis unfolding T(1) using T(3,4) by (intro mult_le_mono)
  qed
  then have n: "(r_sector (requests (fk h) ! r) + 2) mod 2 ^ 32 = r_sector (requests (fk h) ! r) + 2" using R by simp
  have d: "unat (current_drive h) = CURRENT_DEV r h" using R unat_byte [of "CURRENT_DEV r h"] by (simp add: CURRENT_DEV_def)
  have h: "h\<lparr>seek := False\<rparr> = h" using assms(2) by simp
  have "h\<lparr>floppy := floppy_type ! ?i, current_drive := of_nat (CURRENT_DEV r h)\<rparr>
      = h\<lparr>seek := False, floppy := floppy_type ! ?i, current_drive := of_nat (CURRENT_DEV r h)\<rparr>" by (simp only: h)
  then show ?thesis
    using R T(5,6) [OF i(2)] n d i by (simp add: Let_def floppy_at_def fd_located_def CURRENT_DEV_def)
qed

text \<open>A request whose head is on the track starts the transfer at once.\<close>

lemma do_fd_request_starts:
  assumes q: "fd_read_request r b h" and t: "takes_bytes (fd_inputs h)"
  shows "do_fd_request h = Ret ((fd_located r h)\<lparr>do_floppy := Some Rw_interrupt, fd_reads := fd_reads h + 9,
    fsc := (fsc h)\<lparr>moff_timer := (moff_timer (fsc h))[CURRENT_DEV r h := 10000], selected := 1,
      io := io (fsc h) @ dma_program DMA_READ (tmp_floppy_addr h) @ sent (rw_command (fd_located r h))\<rparr>\<rparr>)"
proof -
  note R = q [unfolded fd_read_request_def Let_def]
  let ?h0 = "h\<lparr>seek := False\<rparr>" and ?d = "of_nat (CURRENT_DEV r h) :: u8"
  have q0: "fd_read_request r b ?h0" "\<not> seek ?h0" "fd_located r ?h0 = fd_located r h"
  proof -
    have "fd_current ?h0 = fd_current h" "CURRENT_DEV r ?h0 = CURRENT_DEV r h"
      by (simp_all add: fd_current_def CURRENT_DEV_def)
    then show "fd_read_request r b ?h0" "\<not> seek ?h0" "fd_located r ?h0 = fd_located r h"
      using q by (simp_all add: fd_read_request_def Let_def fd_place_fields fd_located_def)
  qed
  let ?g = "fd_located r h"
  let ?again = "fd_request (\<lambda>_. Hang)"
  have "do_fd_request h = fd_requests (Suc NR_REQUEST) ?again ?h0"
    using R by (simp add: do_fd_request_def fd_request_def del: fd_requests.simps)
  also have "\<dots> = fd_start ?again ?g" using fd_requests_located [OF q0(1,2)] by (simp only: q0(3))
  also have "\<dots> = floppy_on_interrupt ?again (?g\<lparr>fsc := (fsc h)\<lparr>moff_timer := (moff_timer (fsc h))[unat ?d := 10000]\<rparr>\<rparr>)"
    using R ticks_motor_ready [of ?d "fsc h"] by (simp add: fd_start_def)
  also have "\<dots> = setup_rw_floppy ?again
      (?g\<lparr>fsc := (fsc h)\<lparr>moff_timer := (moff_timer (fsc h))[unat ?d := 10000], selected := 1\<rparr>\<rparr>)"
  proof -
    have "\<not> seek ?g" using R by (simp add: fd_located_def fd_place_fields)
    then show ?thesis
      using R by (simp add: floppy_on_interrupt_def transfer_def upd_fsc_def Let_def motor_ready_def)
  qed
  finally show ?thesis
    using R t by (simp add: setup_rw_floppy_read_high [where b = b] fd_buffer_def fd_current_def unat_byte CURRENT_DEV_def
        rw_command_def drive_and_head_def)
qed

section \<open>The end of a transfer\<close>

text \<open>From the \<open>t\<close>-th read on the controller offers the bytes \<open>xs\<close> and is ready for a command then.\<close>

definition answers :: "(nat \<Rightarrow> nat \<Rightarrow> u8) \<Rightarrow> nat \<Rightarrow> u8 list \<Rightarrow> bool" where
  "answers inp t xs \<longleftrightarrow> (\<forall>j<length xs. inp (t + 2 * j) FD_STATUS AND 0xD0 = 0xD0 \<and> inp (t + 2 * j + 1) FD_DATA = xs ! j)
    \<and> inp (t + 2 * length xs) FD_STATUS AND 0xD0 = 0x80"

lemma answers_Cons:
  "answers inp t (x # xs) \<longleftrightarrow> inp t FD_STATUS AND 0xD0 = 0xD0 \<and> inp (t + 1) FD_DATA = x \<and> answers inp (t + 2) xs"
  unfolding answers_def by (simp add: All_less_Suc2 algebra_simps)

lemma result_loop_answers:
  "answers (fd_inputs h) (fd_reads h) xs \<Longrightarrow> i + length xs \<le> 7 \<Longrightarrow> length (reply_buffer h) = 7 \<Longrightarrow> length xs < n \<Longrightarrow>
    result_loop n i h = (int (i + length xs), h\<lparr>fd_reads := fd_reads h + 2 * length xs + 1,
      reply_buffer := take i (reply_buffer h) @ xs @ drop (i + length xs) (reply_buffer h)\<rparr>)"
proof (induction xs arbitrary: i h n)
  case Nil
  then obtain m where "n = Suc m" by (cases n) simp_all
  then show ?case using Nil by (simp add: answers_def fd_inb_def STATUS_DIR_def STATUS_READY_def STATUS_BUSY_def)
next
  case (Cons x xs)
  then obtain m where m: "n = Suc m" by (cases n) simp_all
  let ?h = "h\<lparr>fd_reads := fd_reads h + 2, reply_buffer := (reply_buffer h)[i := x]\<rparr>"
  have x: "fd_inputs h (fd_reads h) FD_STATUS AND 0xD0 = 0xD0" "fd_inputs h (fd_reads h + 1) FD_DATA = x"
    "answers (fd_inputs ?h) (fd_reads ?h) xs" using Cons.prems(1) by (simp_all add: answers_Cons)
  have i: "i < 7" "i < length (reply_buffer h)" using Cons.prems by simp_all
  have "result_loop n i h = result_loop m (Suc i) ?h"
    using x(1,2) i by (simp add: m fd_inb_def STATUS_DIR_def STATUS_READY_def STATUS_BUSY_def MAX_REPLIES_def Let_def)
  also have "\<dots> = (int (Suc i + length xs), ?h\<lparr>fd_reads := fd_reads ?h + 2 * length xs + 1,
      reply_buffer := take (Suc i) (reply_buffer ?h) @ xs @ drop (Suc i + length xs) (reply_buffer ?h)\<rparr>)"
    using Cons.prems m by (intro Cons.IH x(3)) simp_all
  also have "take (Suc i) (reply_buffer ?h) @ xs @ drop (Suc i + length xs) (reply_buffer ?h)
      = take i (reply_buffer h) @ (x # xs) @ drop (i + length (x # xs)) (reply_buffer h)"
    using i by (simp add: take_Suc_conv_app_nth)
  finally show ?case by (simp add: algebra_simps)
qed

lemma fd_result_answers:
  assumes "answers (fd_inputs h) (fd_reads h) xs" "length xs \<le> 7" "length (reply_buffer h) = 7" "\<not> fd_reset h"
  shows "fd_result h = (int (length xs), h\<lparr>fd_reads := fd_reads h + 2 * length xs + 1,
    reply_buffer := xs @ drop (length xs) (reply_buffer h)\<rparr>)"
  using result_loop_answers [of h xs 0 10000] assms by (simp add: fd_result_def del: result_loop.simps)

text \<open>The seven bytes of a command that went well.\<close>

definition good_replies :: "u8 list \<Rightarrow> bool" where
  "good_replies xs \<longleftrightarrow> length xs = 7 \<and> xs ! 0 AND 0xf8 = 0 \<and> xs ! 1 AND 0xbf = 0 \<and> xs ! 2 AND 0x73 = 0"

lemma rw_interrupt_good:
  assumes "fd_buffer h = Some b" "fd_command h = FD_READ" "block_addr h b \<ge> 0x100000" "\<not> fd_reset h"
    and "answers (fd_inputs h) (fd_reads h) xs" "good_replies xs" "length (reply_buffer h) = 7"
  shows "rw_interrupt h = do_fd_request (fd_end_request True (floppy_deselect
    (h\<lparr>fd_reads := fd_reads h + 15, reply_buffer := xs,
       fk := upd_buf b (\<lambda>x. x\<lparr>b_data := tmp_floppy_area h\<rparr>) (fk h)\<rparr>)))"
proof -
  let ?h = "h\<lparr>fd_reads := fd_reads h + 15, reply_buffer := xs\<rparr>"
  have "fd_result h = (7, ?h)"
    using fd_result_answers [OF assms(5) _ assms(7,4)] assms(6,7) by (simp add: good_replies_def)
  moreover have "fd_buffer ?h = Some b" using assms(1) by (simp add: fd_buffer_def fd_current_def cong: option.case_cong)
  ultimately show ?thesis
    using assms(2,3,6) by (simp add: rw_interrupt_def ST0_def ST1_def ST2_def good_replies_def upd_fk_def)
qed

lemma floppy_deselect_keeps [simp]:
  "fk (floppy_deselect h) = fk h" "fd_reset (floppy_deselect h) = fd_reset h"
  "fd_recalibrate (floppy_deselect h) = fd_recalibrate h" "selected (fsc (floppy_deselect h)) = 0"
  by (simp_all add: floppy_deselect_def upd_fsc_def Let_def wake_up_def set_state_def upd_task_def split: prod.split option.split)

lemma do_fd_request_idle:
  "fd_current h = None \<Longrightarrow> \<not> fd_reset h \<Longrightarrow> \<not> fd_recalibrate h \<Longrightarrow> do_fd_request h = Ret (h\<lparr>seek := False\<rparr>)"
  by (simp add: do_fd_request_def fd_request_def fd_current_def)

text \<open>What is left of the only request of the queue after \<open>end_request\<close>.\<close>

lemma end_only_request:
  assumes "fd_current h = Some r" "r_bh (requests (fk h) ! r) = Some b" "r_next (requests (fk h) ! r) = None"
    and "r < length (requests (fk h))" "b < length (bufs (fk h))" "FD_MAJOR < length (blk_dev (fk h))"
  shows "fd_current (fd_end_request True h) = None"
    and "bufs (fk (fd_end_request True h)) ! b = (bufs (fk h) ! b)\<lparr>b_uptodate := True, b_lock := False\<rparr>"
    and "r_dev (requests (fk (fd_end_request True h)) ! r) = - 1"
    and "fd_reset (fd_end_request True h) = fd_reset h" "fd_recalibrate (fd_end_request True h) = fd_recalibrate h"
    and "selected (fsc (fd_end_request True h)) = selected (fsc h)"
  using assms
  by (simp_all add: fd_end_request_def fd_current_def end_request_def upd_fk_def upd_fsc_def floppy_off_def unlock_buffer_def
      Let_def)

text \<open>C16: a read from a floppy disk into a block above 1 MB, which the DMA controller cannot reach. \<open>do_fd_request\<close>
  programs a transfer of 1024 bytes to \<open>tmp_floppy_area\<close> and sends the command for the track, head and sector of the
  request; when the transfer has put the bytes \<open>d\<close> there and the controller reports success, the interrupt
  leaves them in the buffer, which is valid and unlocked, frees the request and gives up the drive.\<close>

theorem fd_read_completes:
  assumes q: "fd_read_request r b h" and t: "takes_bytes (fd_inputs h)"
    and alone: "r_next (requests (fk h) ! r) = None" and replies: "length (reply_buffer h) = 7"
    and good: "good_replies xs" "answers inp (fd_reads h + 9) xs"
  shows "\<exists>h1 h2 trk side sec disk. disk = floppy_type ! (MINOR (nat (r_dev (requests (fk h) ! r))) div 4)
    \<and> do_fd_request h = Ret h1 \<and> do_floppy h1 = Some Rw_interrupt
    \<and> io (fsc h1) = io (fsc h) @ dma_program DMA_READ (tmp_floppy_addr h)
        @ sent [FD_READ, push_bit 2 side OR of_nat (CURRENT_DEV r h), trk, side, sec, 2, of_nat (fl_sect disk), fl_gap disk, 0xFF]
    \<and> unat trk < fl_track disk \<and> unat side < fl_head disk \<and> 1 \<le> unat sec \<and> unat sec \<le> fl_sect disk
    \<and> (unat trk * fl_head disk + unat side) * fl_sect disk + (unat sec - 1) = r_sector (requests (fk h) ! r)
    \<and> rw_interrupt (h1\<lparr>tmp_floppy_area := d, fd_inputs := inp\<rparr>) = Ret h2
    \<and> bufs (fk h2) ! b = (bufs (fk h) ! b)\<lparr>b_data := d, b_uptodate := True, b_lock := False\<rparr>
    \<and> r_dev (requests (fk h2) ! r) = - 1 \<and> fd_current h2 = None \<and> selected (fsc h2) = 0"
proof -
  note R = q [unfolded fd_read_request_def Let_def]
  let ?i = "MINOR (nat (r_dev (requests (fk h) ! r))) div 4" and ?g = "fd_located r h"
  let ?disk = "floppy_type ! ?i"
  obtain h1 where h1: "do_fd_request h = Ret h1" and h1_def: "h1 = ?g\<lparr>do_floppy := Some Rw_interrupt, fd_reads := fd_reads h + 9,
    fsc := (fsc h)\<lparr>moff_timer := (moff_timer (fsc h))[CURRENT_DEV r h := 10000], selected := 1,
      io := io (fsc h) @ dma_program DMA_READ (tmp_floppy_addr h) @ sent (rw_command ?g)\<rparr>\<rparr>"
    using do_fd_request_starts [OF q t] by blast
  let ?p = "fd_place r (h\<lparr>seek := False, floppy := ?disk, current_drive := of_nat (CURRENT_DEV r h)\<rparr>)"
  have log: "io (fsc h1) = io (fsc h) @ dma_program DMA_READ (tmp_floppy_addr h)
      @ sent [FD_READ, push_bit 2 (fd_head ?p) OR of_nat (CURRENT_DEV r h), track ?p, fd_head ?p, fd_sector ?p, 2,
          of_nat (fl_sect ?disk), fl_gap ?disk, 0xFF]"
    by (simp add: h1_def rw_command_def drive_and_head_def) (simp add: fd_located_def)
  have i: "?i < 8" "?i \<noteq> 0" and n: "r_sector (requests (fk h) ! r) < fl_size ?disk" using R by simp_all
  define g where "g = h\<lparr>seek := False, floppy := ?disk, current_drive := of_nat (CURRENT_DEV r h)\<rparr>"
  have g: "floppy g = ?disk" "fk g = fk h" by (simp_all add: g_def)
  have p: "1 \<le> unat (fd_sector ?p)" "unat (fd_sector ?p) \<le> fl_sect ?disk" "unat (fd_head ?p) < fl_head ?disk"
    "unat (track ?p) < fl_track ?disk"
    "(unat (track ?p) * fl_head ?disk + unat (fd_head ?p)) * fl_sect ?disk + (unat (fd_sector ?p) - 1) = r_sector (requests (fk h) ! r)"
    using fd_place_correct(1-5) [OF i g(1), unfolded g, OF n] by (simp_all only: g_def)
  let ?h = "h1\<lparr>tmp_floppy_area := d, fd_inputs := inp\<rparr>"
  define e where "e = floppy_deselect (?h\<lparr>fd_reads := fd_reads h1 + 15, reply_buffer := xs,
    fk := upd_buf b (\<lambda>x. x\<lparr>b_data := d\<rparr>) (fk h)\<rparr>)"
  have e: "fk e = upd_buf b (\<lambda>x. x\<lparr>b_data := d\<rparr>) (fk h)" "\<not> fd_reset e" "\<not> fd_recalibrate e" "selected (fsc e) = 0"
    "fd_current e = Some r"
    using R by (simp_all add: e_def h1_def fd_current_def)
  have rw: "rw_interrupt ?h = do_fd_request (fd_end_request True e)"
    using rw_interrupt_good [of ?h b xs] R good replies
    by (simp add: e_def h1_def fd_buffer_def fd_current_def cong: option.case_cong)
  note E = end_only_request [of e r b, unfolded e(1)]
  have "do_fd_request (fd_end_request True e) = Ret ((fd_end_request True e)\<lparr>seek := False\<rparr>)"
    using R alone e E by (intro do_fd_request_idle) simp_all
  then have "rw_interrupt ?h = Ret ((fd_end_request True e)\<lparr>seek := False\<rparr>)" by (simp only: rw)
  moreover have "bufs (fk (fd_end_request True e)) ! b = (bufs (fk h) ! b)\<lparr>b_data := d, b_uptodate := True, b_lock := False\<rparr>"
    "r_dev (requests (fk (fd_end_request True e)) ! r) = - 1" "fd_current (fd_end_request True e) = None"
    "selected (fsc (fd_end_request True e)) = 0"
    using R alone e E by simp_all
  moreover have "do_floppy h1 = Some Rw_interrupt" by (simp add: h1_def)
  ultimately have all: "rw_interrupt ?h = Ret ((fd_end_request True e)\<lparr>seek := False\<rparr>)"
    "bufs (fk ((fd_end_request True e)\<lparr>seek := False\<rparr>)) ! b = (bufs (fk h) ! b)\<lparr>b_data := d, b_uptodate := True, b_lock := False\<rparr>"
    "r_dev (requests (fk ((fd_end_request True e)\<lparr>seek := False\<rparr>)) ! r) = - 1"
    "fd_current ((fd_end_request True e)\<lparr>seek := False\<rparr>) = None"
    "selected (fsc ((fd_end_request True e)\<lparr>seek := False\<rparr>)) = 0" "do_floppy h1 = Some Rw_interrupt"
    by (simp_all add: fd_current_def)
  show ?thesis
    by (rule exI [of _ h1], rule exI [of _ "(fd_end_request True e)\<lparr>seek := False\<rparr>"], rule exI [of _ "track ?p"],
        rule exI [of _ "fd_head ?p"], rule exI [of _ "fd_sector ?p"], rule exI [of _ ?disk])
      (intro conjI refl h1 log p all)
qed

section \<open>A read from a 1.44 MB disk\<close>

definition floppy_at_work :: fd_state where
  "floppy_at_work =
    \<lparr>fk = blank_kernel
       \<lparr>bufs := [blank_buffer\<lparr>b_dev := 0x21C, b_blocknr := 50, b_lock := True\<rparr>],
        requests := [\<lparr>r_dev = 0x21C, r_cmd = READ, r_errors = 0, r_sector = 100, r_nr_sectors = 2,
                      r_bh = Some 0, r_next = None\<rparr>],
        blk_dev := replicate NR_BLK_DEV \<lparr>request_fn = Some (By_interrupt FD_MAJOR), current_request = Some 0\<rparr>\<rparr>,
     fsc = two_tasks\<lparr>current_DOR := 0x1C\<rparr>, do_floppy = None, fd_recalibrate = False, fd_reset = False, seek = False,
     reply_buffer = replicate 7 0, cur_spec1 = 0xCF, cur_rate = 0, floppy = floppy_type ! 7, current_drive = 0,
     fd_sector = 0, fd_head = 0, track = 0, seek_track = 0, current_track = 2, fd_command = 0,
     wait_on_floppy_select = None, tmp_floppy_area = replicate 1024 0, tmp_floppy_addr = 0x5000,
     block_addr = (\<lambda>b. 0x200000 + 1024 * b), behind_types = (\<lambda>_. floppy_type ! 0),
     fd_inputs = (\<lambda>t p. 0x80), fd_reads = 0\<rparr>"

text \<open>Seven replies, all 0, that follow the nine bytes of the command.\<close>

definition replies_0 :: "nat \<Rightarrow> nat \<Rightarrow> u8" where
  "replies_0 t p = (if p = FD_STATUS then if t < 23 then 0xD0 else 0x80 else 0)"

lemma floppy_at_work_request:
  "fd_read_request 0 0 floppy_at_work" "takes_bytes (fd_inputs floppy_at_work)"
  "r_next (requests (fk floppy_at_work) ! 0) = None" "length (reply_buffer floppy_at_work) = 7"
  "good_replies (replicate 7 0)" "answers replies_0 (fd_reads floppy_at_work + 9) (replicate 7 0)"
proof -
  have "unat (seek_track (fd_place 0 (floppy_at_work\<lparr>floppy := floppy_type ! 7\<rparr>))) = 2"
    by (simp add: fd_place_fields floppy_at_work_def floppy_type_def)
  then have "seek_track (fd_place 0 (floppy_at_work\<lparr>floppy := floppy_type ! 7\<rparr>)) = 2"
    by (simp add: word_unat_eq_iff)
  then show "fd_read_request 0 0 floppy_at_work"
    by (simp add: fd_read_request_def Let_def)
      (simp add: floppy_at_work_def fd_current_def FD_MAJOR_def NR_BLK_DEV_def MAJOR_def MINOR_def CURRENT_DEV_def
        motor_ready_def two_tasks_def floppy_type_def)
  show "answers replies_0 (fd_reads floppy_at_work + 9) (replicate 7 0)"
    by (simp add: answers_def floppy_at_work_def replies_0_def FD_STATUS_def FD_DATA_def)
qed (simp_all add: floppy_at_work_def takes_bytes_def STATUS_READY_def STATUS_DIR_def good_replies_def)

lemma fd_read_completes_witness:
  "\<exists>h1 h2. do_fd_request floppy_at_work = Ret h1
    \<and> rw_interrupt (h1\<lparr>tmp_floppy_area := replicate 1024 0x2A, fd_inputs := replies_0\<rparr>) = Ret h2
    \<and> b_data (bufs (fk h2) ! 0) = replicate 1024 0x2A \<and> b_uptodate (bufs (fk h2) ! 0) \<and> fd_current h2 = None"
  using fd_read_completes [OF floppy_at_work_request, of "replicate 1024 0x2A"]
  by (elim exE conjE) (intro exI conjI, assumption+, simp_all)

end
