(* ===== verification/Page_Fault.thy ===== *)
theory Page_Fault imports Exec_Stack begin

unbundle bit_operations_syntax

text \<open>
  A page fault on memory that no file backs: the process gets a page of its own that is all zero, and no page that
  is in use changes.
\<close>

section \<open>Entering a page into a page table\<close>

lemma entry_addr_put: "frame (phys s (dir_addr a)) + push_bit 2 (drop_bit 12 a AND 0x3ff) = entry_addr a s"
  unfolding entry_addr_def dir_addr_def table_index table_index' by (simp only: add.commute)

lemma entry_addr_frame: "frame (entry_addr a s) = frame (phys s (dir_addr a))"
proof -
  have "drop_bit 10 a AND 0xffc \<le> (0xffc :: u32)" by (rule word_and_le1)
  then have "unat (drop_bit 10 a AND 0xffc) < 4096" by (simp add: word_le_nat_alt)
  then show ?thesis
    using frame_offset [OF aligned_frame] unfolding entry_addr_def dir_addr_def by (simp only: add.commute)
qed

lemma entry_addr_store: "dir_addr a \<noteq> x \<Longrightarrow> entry_addr a (store x v m) = entry_addr a m"
  by (simp add: entry_addr_def dir_addr_def)

text \<open>The table for address \<open>a\<close>, when there is one, is a page in use other than the page directory.\<close>

definition table_ok :: "u32 \<Rightarrow> mm \<Rightarrow> bool" where
  "table_ok a m \<longleftrightarrow> wf_mm m \<and> (present (phys m (dir_addr a)) \<longrightarrow>
    frame (phys m (dir_addr a)) \<noteq> 0 \<and> page_in_use m (frame (phys m (dir_addr a))))"

text \<open>What a new mapping leaves alone: the counts of the pages in use and all their words but for the two entries.\<close>

definition keeps_used :: "u32 \<Rightarrow> mm \<Rightarrow> mm \<Rightarrow> bool" where
  "keeps_used a m m' \<longleftrightarrow> (\<forall>p<PAGING_PAGES. refcount m p \<noteq> 0 \<longrightarrow> refcount m' p = refcount m p)
    \<and> (\<forall>x. page_in_use m (frame x) \<and> x \<noteq> dir_addr a \<and> x \<noteq> entry_addr a m' \<longrightarrow> phys m' x = phys m x)"

lemma put_page_present:
  assumes "table_ok a m" "present (phys m (dir_addr a))" "frame (phys m (dir_addr a)) \<noteq> page"
  obtains m' where "put_page page a m = (page, m')" "entry_addr a m' = entry_addr a m" "phys m' (entry_addr a m') = page OR 7"
    "\<forall>x. frame x = page \<longrightarrow> phys m' x = phys m x" "mem_map m' = mem_map m"
    "\<forall>x. x \<noteq> entry_addr a m' \<longrightarrow> phys m' x = phys m x" "present (phys m' (dir_addr a))"
proof -
  let ?m = "store (entry_addr a m) (page OR 7) m"
  have r: "put_page page a m = (page, ?m)" by (simp only: put_page_def Let_def assms(2) if_True prod.case entry_addr_put simp_thms if_False)
  have d: "dir_addr a \<noteq> entry_addr a m"
  proof
    assume "dir_addr a = entry_addr a m"
    then have "frame (entry_addr a m) = 0" using dir_addr_frame [of a] by simp
    then show False using assms by (simp add: entry_addr_frame table_ok_def)
  qed
  have e: "entry_addr a ?m = entry_addr a m"  by (rule entry_addr_store [OF d])
  show thesis
    by (rule that [OF r e]) (use assms(2,3) d in \<open>auto simp: e entry_addr_frame\<close>)
qed

lemma put_page_absent:
  assumes "table_ok a m" "\<not> present (phys m (dir_addr a))" and page: "page = page_addr i" "i < PAGING_PAGES" "refcount m i \<noteq> 0"
    and free: "\<exists>j<PAGING_PAGES. refcount m j = 0"
  obtains m' where "put_page page a m = (page, m')" "phys m' (entry_addr a m') = page OR 7"
    "\<forall>x. frame x = page \<longrightarrow> phys m' x = phys m x" "refcount m' i = refcount m i" "keeps_used a m m'"
    "present (phys m' (dir_addr a))"
proof -
  obtain t m1 where t: "get_free_page m = (t, m1)" by fastforce
  from t show thesis
  proof (cases rule: get_free_page_cases)
    case none
    then show ?thesis using free by blast
  next
    case (page j)
    note T = page_addr_props [of j, folded page(2)]
    have T': "t \<noteq> 0" "aligned t" "frame (t OR 7) = t" using T page(1) by (simp_all add: aligned_def)
    let ?m1 = "store (dir_addr a) (t OR 7) m1"
    have e1: "entry_addr a ?m1 = t + push_bit 2 (drop_bit 12 a AND 0x3ff)" "frame (entry_addr a ?m1) = t"
      using entry_addr_put [of ?m1 a] entry_addr_frame [of a ?m1] T'(3) by simp_all
    let ?m = "store (entry_addr a ?m1) (page_addr i OR 7) ?m1"
    have d: "dir_addr a \<noteq> entry_addr a ?m1" using e1(2) T'(1) dir_addr_frame [of a] by metis
    have e: "entry_addr a ?m = entry_addr a ?m1" by (rule entry_addr_store [OF d])
    have r: "put_page (page_addr i) a m = (page_addr i, ?m)"
      using assms(2) t T'(1) e1(1) by (simp add: put_page_def Let_def)
    have ij: "i \<noteq> j" "t \<noteq> page_addr i" using page assms(3-5) page_addr_inject [of i j] by auto
    have len: "length (mem_map m) = PAGING_PAGES" using assms(1) by (simp add: table_ok_def wf_mm_def)
    show thesis
    proof (rule that)
      show "put_page page a m = (page, ?m)" using r assms(3) by simp
      show "phys ?m (entry_addr a ?m) = page OR 7" by (simp only: e store_simps fun_upd_same assms(3))
      show "\<forall>x. frame x = page \<longrightarrow> phys ?m x = phys m x"
      proof (intro allI impI)
        fix x assume x: "frame x = page"
        then have "x \<noteq> entry_addr a ?m1" "x \<noteq> dir_addr a"
          using e1(2) ij assms(3) dir_addr_frame [of a] page_addr_props(1) [of i] assms(4) by auto
        then show "phys ?m x = phys m x" using x page ij assms(3) by simp
      qed
      show "refcount ?m i = refcount m i" using page ij by simp
      show "keeps_used a m ?m"
        unfolding keeps_used_def e
      proof (intro conjI allI impI)
        fix x assume x: "page_in_use m (frame x) \<and> x \<noteq> dir_addr a \<and> x \<noteq> entry_addr a ?m1"
        then have "frame x \<noteq> t" using page by (auto simp: page_in_use_def)
        then show "phys ?m x = phys m x" using x page by simp
      next
        fix p assume "p < PAGING_PAGES" "refcount m p \<noteq> 0"
        then show "refcount ?m p = refcount m p" using page len by (cases "p = j") simp_all
      qed
      show "present (phys ?m (dir_addr a))" using d by simp
    qed
  qed
qed

lemma put_page_maps:
  assumes t: "table_ok a m" "frame (phys m (dir_addr a)) \<noteq> page \<or> \<not> present (phys m (dir_addr a))"
    and page: "page = page_addr i" "i < PAGING_PAGES" "refcount m i \<noteq> 0" and free: "\<exists>j<PAGING_PAGES. refcount m j = 0"
  obtains m' where "put_page page a m = (page, m')" "phys m' (entry_addr a m') = page OR 7"
    "\<forall>x. frame x = page \<longrightarrow> phys m' x = phys m x" "refcount m' i = refcount m i" "keeps_used a m m'"
    "present (phys m' (dir_addr a))"
proof (cases "present (phys m (dir_addr a))")
  case True
  then have "frame (phys m (dir_addr a)) \<noteq> page" using t(2) by simp
  from put_page_present [OF t(1) True this] obtain m' where m': "put_page page a m = (page, m')" "phys m' (entry_addr a m') = page OR 7"
    "\<forall>x. frame x = page \<longrightarrow> phys m' x = phys m x" "mem_map m' = mem_map m"
    "\<forall>x. x \<noteq> entry_addr a m' \<longrightarrow> phys m' x = phys m x" "present (phys m' (dir_addr a))"
    by metis
  show thesis by (rule that [OF m'(1-3)]) (use m'(4-6) in \<open>simp_all add: keeps_used_def\<close>)
next
  case False
  show thesis by (rule put_page_absent [OF t(1) False page free]) (rule that)
qed

section \<open>The page fault\<close>

definition two_free_pages :: "mm \<Rightarrow> bool" where
  "two_free_pages m \<longleftrightarrow> (\<exists>p<PAGING_PAGES. \<exists>q<PAGING_PAGES. p \<noteq> q \<and> refcount m p = 0 \<and> refcount m q = 0)"

lemma get_empty_page_maps:
  assumes t: "table_ok a m" and free: "two_free_pages m"
  obtains m' i where "get_empty_page a m = Ret m'" "i < PAGING_PAGES" "refcount m i = 0" "refcount m' i = 1"
    "present (phys m' (dir_addr a))" "phys m' (entry_addr a m') = page_addr i OR 7"
    "\<forall>x. frame x = page_addr i \<longrightarrow> phys m' x = 0" "keeps_used a m m'"
proof -
  obtain page m1 where g: "get_free_page m = (page, m1)" by fastforce
  from g show thesis
  proof (cases rule: get_free_page_cases)
    case none
    then show ?thesis using free by (auto simp: two_free_pages_def)
  next
    case page: (page i)
    have len: "length (mem_map m) = PAGING_PAGES" using t by (simp add: table_ok_def wf_mm_def)
    have i: "page \<noteq> 0" "frame (dir_addr a) \<noteq> page"
      using page page_addr_props(1) [of i] dir_addr_frame [of a] by auto
    have d: "phys m1 (dir_addr a) = phys m (dir_addr a)" using i(2) page by simp
    have r1: "refcount m1 i = 1" "\<forall>p<PAGING_PAGES. refcount m p \<noteq> 0 \<longrightarrow> refcount m1 p = refcount m p"
      using page len by (auto simp: nth_list_update)
    have used: "page_in_use m1 f" "f \<noteq> page" if "page_in_use m f" for f
      using that r1 page by (auto simp: page_in_use_def)
    have t1: "table_ok a m1" "frame (phys m1 (dir_addr a)) \<noteq> page \<or> \<not> present (phys m1 (dir_addr a))"
      using t used get_free_page_wf [OF _ g] unfolding table_ok_def d by blast+
    have free1: "\<exists>j<PAGING_PAGES. refcount m1 j = 0"
    proof -
      obtain q where "q < PAGING_PAGES" "q \<noteq> i" "refcount m q = 0" using free by (auto simp: two_free_pages_def)
      then show ?thesis using page len by (intro exI [of _ q]) simp
    qed
    have r1': "refcount m1 i \<noteq> 0" using r1(1) by simp
    obtain m' where m': "put_page page a m1 = (page, m')" "phys m' (entry_addr a m') = page OR 7"
      "\<forall>x. frame x = page \<longrightarrow> phys m' x = phys m1 x" "refcount m' i = refcount m1 i" "keeps_used a m1 m'"
      "present (phys m' (dir_addr a))"
      by (rule put_page_maps [OF t1 page(2,1) r1' free1])
    show thesis
    proof (rule that)
      show "get_empty_page a m = Ret m'" using g m'(1) i(1) by (simp add: get_empty_page_def)
      show "keeps_used a m m'"
        using m'(5) r1(2) used page unfolding keeps_used_def by (metis (no_types, lifting))
    qed (use page m' r1 in simp_all)
  qed
qed

text \<open>C12: a page fault at an address that belongs to no file, when two pages are free. The process goes on with a
  page that was free: it is mapped at the address, present and writable, is referred to once and is all zero; no
  page in use changes, but for the entries of the directory and of the table.\<close>

theorem anonymous_page_fault:
  assumes anon: "executable (me s) = None \<or> end_data (me s) \<le> frame address - start_code (me s)"
    and t: "table_ok (frame address) (mem (kr s))" and free: "two_free_pages (mem (kr s))"
  shows "\<exists>m' i. do_no_page error_code address s = Ret (s\<lparr>kr := (kr s)\<lparr>mem := m'\<rparr>\<rparr>)
    \<and> i < PAGING_PAGES \<and> refcount (mem (kr s)) i = 0 \<and> refcount m' i = 1
    \<and> present (phys m' (dir_addr (frame address))) \<and> phys m' (entry_addr (frame address) m') = page_addr i OR 7
    \<and> (\<forall>x. frame x = page_addr i \<longrightarrow> phys m' x = 0) \<and> keeps_used (frame address) (mem (kr s)) m'"
proof -
  have f: "address AND 0xfffff000 = frame address" by (simp add: frame_def and.commute)
  obtain m' i where m': "get_empty_page (frame address) (mem (kr s)) = Ret m'" "i < PAGING_PAGES" "refcount (mem (kr s)) i = 0"
    "refcount m' i = 1" "present (phys m' (dir_addr (frame address)))" "phys m' (entry_addr (frame address) m') = page_addr i OR 7"
    "\<forall>x. frame x = page_addr i \<longrightarrow> phys m' x = 0" "keeps_used (frame address) (mem (kr s)) m'"
    by (rule get_empty_page_maps [OF t free])
  have "do_no_page error_code address s = on_mm (get_empty_page (frame address)) s"
    using anon unfolding do_no_page_def f Let_def by (auto split: option.split)
  with m' show ?thesis by (intro exI [of _ m'] exI [of _ i]) (simp add: on_mm_def)
qed

lemma anonymous_page_fault_witness:
  "\<exists>m' i. do_no_page 4 0x3fff123 exec_example = Ret (exec_example\<lparr>kr := (kr exec_example)\<lparr>mem := m'\<rparr>\<rparr>)
    \<and> phys m' (entry_addr 0x3fff000 m') = page_addr i OR 7 \<and> (\<forall>x. frame x = page_addr i \<longrightarrow> phys m' x = 0)"
proof -
  have me: "executable (me exec_example) = None" "mem (kr exec_example) = exec_memory"
    by (simp_all add: exec_example_def one_process_def me_def cur_def INIT_TASK_def NR_TASKS_def)
  have f: "frame 0x3fff123 = 0x3fff000" by (simp add: frame_def)
  have "\<not> present (phys exec_memory (dir_addr 0x3fff000))" by (simp add: exec_memory_def dir_addr_def present_def)
  then have t: "table_ok (frame 0x3fff123) (mem (kr exec_example))"
    by (simp add: table_ok_def me f) (simp add: exec_memory_def wf_mm_def)
  have "two_free_pages (mem (kr exec_example))"
    unfolding two_free_pages_def me
    by (intro exI [of _ 1] exI [of _ 2] conjI) (simp_all add: exec_memory_def PAGING_PAGES_def)
  with anonymous_page_fault [OF disjI1 [OF me(1)] t, of 4] show ?thesis unfolding f by blast
qed

end
