(* ===== verification/String_Ops.thy ===== *)
theory String_Ops imports Kprelude begin

unbundle bit_operations_syntax

text \<open>
  \<open>include/string.h\<close>: the string functions. Each is a short assembler program over the string instructions of
  the processor, which are modelled first: \<open>scasb\<close>, \<open>cmpsb\<close>, \<open>movsb\<close> and \<open>stosb\<close> with their repetition prefixes,
  the count in \<open>ecx\<close> being the fuel. Memory is a function from addresses to bytes, addresses wrap around at \<open>2 ^ 32\<close>.

  A loop that reads bytes until one is 0 does not end when there is none (\<open>Hang\<close>); it has seen every address after
  \<open>2 ^ 32\<close> rounds, which is the fuel.
\<close>

type_synonym space = "u32 \<Rightarrow> u8"

definition ADDRESSES :: nat where "ADDRESSES = 2 ^ 32"

section \<open>String instructions\<close>

text \<open>\<open>repne scasb\<close>: the count and the address left, and the zero flag, which an empty loop does not change.\<close>

primrec repne_scasb :: "nat \<Rightarrow> bool \<Rightarrow> u8 \<Rightarrow> u32 \<Rightarrow> space \<Rightarrow> nat \<times> u32 \<times> bool" where
  "repne_scasb 0 zf al edi m = (0, edi, zf)"
| "repne_scasb (Suc ecx) zf al edi m =
    (if m edi = al then (ecx, edi + 1, True) else repne_scasb ecx False al (edi + 1) m)"

text \<open>\<open>repe cmpsb\<close>: the addresses left and the zero flag.\<close>

primrec repe_cmpsb :: "nat \<Rightarrow> bool \<Rightarrow> u32 \<Rightarrow> u32 \<Rightarrow> space \<Rightarrow> u32 \<times> u32 \<times> bool" where
  "repe_cmpsb 0 zf esi edi m = (esi, edi, zf)"
| "repe_cmpsb (Suc ecx) zf esi edi m =
    (if m esi = m edi then repe_cmpsb ecx True (esi + 1) (edi + 1) m else (esi + 1, edi + 1, False))"

text \<open>\<open>rep movsb\<close> and \<open>rep stosb\<close>; \<open>d\<close> is 1, or -1 when the direction flag is set.\<close>

primrec rep_movsb :: "nat \<Rightarrow> u32 \<Rightarrow> u32 \<Rightarrow> u32 \<Rightarrow> space \<Rightarrow> space" where
  "rep_movsb 0 d esi edi m = m"
| "rep_movsb (Suc ecx) d esi edi m = rep_movsb ecx d (esi + d) (edi + d) (m(edi := m esi))"

primrec rep_stosb :: "nat \<Rightarrow> u8 \<Rightarrow> u32 \<Rightarrow> space \<Rightarrow> space" where
  "rep_stosb 0 al edi m = m"
| "rep_stosb (Suc ecx) al edi m = rep_stosb ecx al (edi + 1) (m(edi := al))"

section \<open>Lengths and searches\<close>

text \<open>\<open>ecx = 0xffffffff; repne scasb; notl; decl\<close>\<close>

definition scan_length :: "u32 \<Rightarrow> space \<Rightarrow> u32" where
  "scan_length s m = NOT (of_nat (fst (repne_scasb 0xffffffff False 0 s m))) - 1"

definition strlen :: "u32 \<Rightarrow> space \<Rightarrow> int" where
  "strlen s m = sint (scan_length s m)"

primrec strchr_loop :: "nat \<Rightarrow> u8 \<Rightarrow> u32 \<Rightarrow> space \<Rightarrow> u32 kres" where
  "strchr_loop 0 c esi m = Hang"
| "strchr_loop (Suc n) c esi m =
    (if m esi = c then Ret esi else if m esi \<noteq> 0 then strchr_loop n c (esi + 1) m else Ret 0)"

definition strchr :: "u32 \<Rightarrow> u8 \<Rightarrow> space \<Rightarrow> u32 kres" where
  "strchr s c m = strchr_loop ADDRESSES c s m"

primrec strrchr_loop :: "nat \<Rightarrow> u8 \<Rightarrow> u32 \<Rightarrow> u32 \<Rightarrow> space \<Rightarrow> u32 kres" where
  "strrchr_loop 0 c edx esi m = Hang"
| "strrchr_loop (Suc n) c edx esi m =
    (let edx = (if m esi = c then esi else edx)
     in if m esi \<noteq> 0 then strrchr_loop n c edx (esi + 1) m else Ret edx)"

definition strrchr :: "u32 \<Rightarrow> u8 \<Rightarrow> space \<Rightarrow> u32 kres" where
  "strrchr s c m = strrchr_loop ADDRESSES c 0 s m"

text \<open>Whether a byte that is not 0 occurs in the first \<open>edx\<close> bytes of \<open>ct\<close>.\<close>

definition in_set :: "u32 \<Rightarrow> u32 \<Rightarrow> u8 \<Rightarrow> space \<Rightarrow> bool" where
  "in_set ct edx al m = snd (snd (repne_scasb (unat edx) False al ct m))"

text \<open>The loop of \<open>strspn\<close> (\<open>wanted\<close>) and \<open>strcspn\<close>: the address of the first byte that ends it.\<close>

primrec span_loop :: "nat \<Rightarrow> bool \<Rightarrow> u32 \<Rightarrow> u32 \<Rightarrow> u32 \<Rightarrow> space \<Rightarrow> u32 kres" where
  "span_loop 0 wanted ct edx esi m = Hang"
| "span_loop (Suc n) wanted ct edx esi m =
    (if m esi = 0 then Ret esi
     else if in_set ct edx (m esi) m = wanted then span_loop n wanted ct edx (esi + 1) m else Ret esi)"

definition strspn :: "u32 \<Rightarrow> u32 \<Rightarrow> space \<Rightarrow> int kres" where
  "strspn s ct m = kbind (span_loop ADDRESSES True ct (scan_length ct m) s m) (\<lambda>p. Ret (sint (p - s)))"

definition strcspn :: "u32 \<Rightarrow> u32 \<Rightarrow> space \<Rightarrow> int kres" where
  "strcspn s ct m = kbind (span_loop ADDRESSES False ct (scan_length ct m) s m) (\<lambda>p. Ret (sint (p - s)))"

definition strpbrk :: "u32 \<Rightarrow> u32 \<Rightarrow> space \<Rightarrow> u32 kres" where
  "strpbrk s ct m = kbind (span_loop ADDRESSES False ct (scan_length ct m) s m)
    (\<lambda>p. Ret (if m p = 0 then 0 else p))"

text \<open>\<open>strstr\<close>; an empty string leaves the zero flag of \<open>decl\<close> set, so the first comparison succeeds.\<close>

primrec strstr_loop :: "nat \<Rightarrow> bool \<Rightarrow> u32 \<Rightarrow> u32 \<Rightarrow> u32 \<Rightarrow> space \<Rightarrow> u32 kres" where
  "strstr_loop 0 zf ct edx esi m = Hang"
| "strstr_loop (Suc n) zf ct edx esi m =
    (let (p, q, zf) = repe_cmpsb (unat edx) zf esi ct m
     in if zf then Ret esi else if m (p - 1) \<noteq> 0 then strstr_loop n False ct edx (esi + 1) m else Ret 0)"

definition strstr :: "u32 \<Rightarrow> u32 \<Rightarrow> space \<Rightarrow> u32 kres" where
  "strstr s ct m = (let edx = scan_length ct m in strstr_loop ADDRESSES (edx = 0) ct edx s m)"

definition memchr :: "u32 \<Rightarrow> u8 \<Rightarrow> u32 \<Rightarrow> space \<Rightarrow> u32" where
  "memchr s c count m =
    (if count = 0 then 0
     else let (ecx, edi, zf) = repne_scasb (unat count) False c s m in if zf then edi - 1 else 0)"

section \<open>Comparisons\<close>

text \<open>After a comparison of the byte \<open>y\<close> of \<open>ct\<close> with the byte \<open>x\<close> of \<open>cs\<close> that found them different; the bytes are
  signed.\<close>

definition byte_order :: "u8 \<Rightarrow> u8 \<Rightarrow> int" where
  "byte_order x y = (if sint y < sint x then 1 else - 1)"

primrec strcmp_loop :: "nat \<Rightarrow> u32 \<Rightarrow> u32 \<Rightarrow> space \<Rightarrow> int kres" where
  "strcmp_loop 0 edi esi m = Hang"
| "strcmp_loop (Suc n) edi esi m =
    (if m esi \<noteq> m edi then Ret (byte_order (m edi) (m esi))
     else if m esi \<noteq> 0 then strcmp_loop n (edi + 1) (esi + 1) m else Ret 0)"

definition strcmp :: "u32 \<Rightarrow> u32 \<Rightarrow> space \<Rightarrow> int kres" where
  "strcmp cs' ct m = strcmp_loop ADDRESSES cs' ct m"

primrec strncmp_loop :: "nat \<Rightarrow> u32 \<Rightarrow> u32 \<Rightarrow> u32 \<Rightarrow> space \<Rightarrow> int kres" where
  "strncmp_loop 0 ecx edi esi m = Hang"
| "strncmp_loop (Suc n) ecx edi esi m =
    (let ecx = ecx - 1
     in if sint ecx < 0 then Ret 0
        else if m esi \<noteq> m edi then Ret (byte_order (m edi) (m esi))
        else if m esi \<noteq> 0 then strncmp_loop n ecx (edi + 1) (esi + 1) m else Ret 0)"

definition strncmp :: "u32 \<Rightarrow> u32 \<Rightarrow> u32 \<Rightarrow> space \<Rightarrow> int kres" where
  "strncmp cs' ct count m = strncmp_loop ADDRESSES count cs' ct m"

text \<open>A count of 0 leaves the zero flag as the caller left it (\<open>zf\<close>), and nothing is compared; \<open>lower\<close> is what the flags
  say then.\<close>

definition memcmp :: "bool \<Rightarrow> bool \<Rightarrow> u32 \<Rightarrow> u32 \<Rightarrow> u32 \<Rightarrow> space \<Rightarrow> int" where
  "memcmp zf lower cs' ct count m =
    (let (esi, edi, zf) = repe_cmpsb (unat count) zf ct cs' m
     in if zf then 0 else if count = 0 then if lower then 1 else - 1
        else byte_order (m (edi - 1)) (m (esi - 1)))"

section \<open>Copies\<close>

primrec strcpy_loop :: "nat \<Rightarrow> u32 \<Rightarrow> u32 \<Rightarrow> space \<Rightarrow> space kres" where
  "strcpy_loop 0 edi esi m = Hang"
| "strcpy_loop (Suc n) edi esi m =
    (let al = m esi; m = m(edi := al) in if al \<noteq> 0 then strcpy_loop n (edi + 1) (esi + 1) m else Ret m)"

definition strcpy :: "u32 \<Rightarrow> u32 \<Rightarrow> space \<Rightarrow> space kres" where
  "strcpy dest src m = strcpy_loop ADDRESSES dest src m"

primrec strncpy_loop :: "nat \<Rightarrow> u32 \<Rightarrow> u32 \<Rightarrow> u32 \<Rightarrow> space \<Rightarrow> space kres" where
  "strncpy_loop 0 ecx edi esi m = Hang"
| "strncpy_loop (Suc n) ecx edi esi m =
    (let ecx = ecx - 1
     in if sint ecx < 0 then Ret m
        else let al = m esi; m = m(edi := al)
             in if al \<noteq> 0 then strncpy_loop n ecx (edi + 1) (esi + 1) m
                else Ret (rep_stosb (unat ecx) 0 (edi + 1) m))"

definition strncpy :: "u32 \<Rightarrow> u32 \<Rightarrow> u32 \<Rightarrow> space \<Rightarrow> space kres" where
  "strncpy dest src count m = strncpy_loop ADDRESSES count dest src m"

text \<open>The address behind the last byte of \<open>dest\<close>, where \<open>strcat\<close> goes on.\<close>

definition string_end :: "u32 \<Rightarrow> space \<Rightarrow> u32" where
  "string_end dest m = fst (snd (repne_scasb 0xffffffff False 0 dest m)) - 1"

definition strcat :: "u32 \<Rightarrow> u32 \<Rightarrow> space \<Rightarrow> space kres" where
  "strcat dest src m = strcpy_loop ADDRESSES (string_end dest m) src m"

text \<open>\<open>strncat\<close>: the loop yields the address it stopped at, where a 0 is stored.\<close>

primrec strncat_loop :: "nat \<Rightarrow> u32 \<Rightarrow> u32 \<Rightarrow> u32 \<Rightarrow> space \<Rightarrow> (u32 \<times> space) kres" where
  "strncat_loop 0 ecx edi esi m = Hang"
| "strncat_loop (Suc n) ecx edi esi m =
    (let ecx = ecx - 1
     in if sint ecx < 0 then Ret (edi, m)
        else let al = m esi; m = m(edi := al)
             in if al \<noteq> 0 then strncat_loop n ecx (edi + 1) (esi + 1) m else Ret (edi + 1, m))"

definition strncat :: "u32 \<Rightarrow> u32 \<Rightarrow> u32 \<Rightarrow> space \<Rightarrow> space kres" where
  "strncat dest src count m =
    kbind (strncat_loop ADDRESSES count (string_end dest m) src m) (\<lambda>(edi, m). Ret (m(edi := 0)))"

definition memcpy :: "u32 \<Rightarrow> u32 \<Rightarrow> u32 \<Rightarrow> space \<Rightarrow> space" where
  "memcpy dest src n m = rep_movsb (unat n) 1 src dest m"

text \<open>\<open>memmove\<close>, with the direction flag it leaves.\<close>

definition memmove :: "u32 \<Rightarrow> u32 \<Rightarrow> u32 \<Rightarrow> space \<Rightarrow> bool \<times> space" where
  "memmove dest src n m =
    (if dest < src then (False, rep_movsb (unat n) 1 src dest m)
     else (True, rep_movsb (unat n) (- 1) (src + n - 1) (dest + n - 1) m))"

definition memset :: "u32 \<Rightarrow> u8 \<Rightarrow> u32 \<Rightarrow> space \<Rightarrow> space" where
  "memset s c count m = rep_stosb (unat count) c s m"

section \<open>\<open>strtok\<close>\<close>

text \<open>The result, the new value of \<open>___strtok\<close> and memory. The code from the label 6 on, with the token \<open>ebx\<close>:\<close>

definition strtok_end :: "u32 \<Rightarrow> u32 \<Rightarrow> space \<Rightarrow> u32 \<times> u32 \<times> space" where
  "strtok_end ebx esi m =
    (let ebx = (if m ebx = 0 then 0 else ebx) in (ebx, if ebx = 0 then 0 else esi, m))"

definition strtok_token :: "u32 \<Rightarrow> u32 \<Rightarrow> u32 \<Rightarrow> space \<Rightarrow> (u32 \<times> u32 \<times> space) kres" where
  "strtok_token ct edx esi m =
    (if m esi = 0 then Ret (0, 0, m)
     else kbind (span_loop ADDRESSES False ct edx esi m) (\<lambda>e.
          Ret (if m e = 0 then strtok_end esi 0 m else strtok_end esi (e + 1) (m(e := 0)))))"

definition strtok :: "u32 \<Rightarrow> u32 \<Rightarrow> u32 \<Rightarrow> space \<Rightarrow> (u32 \<times> u32 \<times> space) kres" where
  "strtok strtok' s ct m =
    (if s = 0 \<and> strtok' = 0 then Ret (0, 0, m)
     else
     let esi = (if s = 0 then strtok' else s); edx = scan_length ct m
     in if edx = 0 then Ret (0, 0, m)
        else kbind (span_loop ADDRESSES True ct edx esi m) (\<lambda>p. strtok_token ct edx p m))"

end
