(* ===== verification/String_Laws.thy ===== *)
theory String_Laws imports String_Ops begin

text \<open>
  What the string functions compute on strings in memory: lengths and spans as list functions, \<open>strtok\<close> as a
  split of the string at the first token, and \<open>memmove\<close> on areas that may overlap.
\<close>

section \<open>Strings\<close>

text \<open>The bytes \<open>xs\<close>, none of them 0, and a 0 behind them.\<close>

primrec string_in :: "u32 \<Rightarrow> u8 list \<Rightarrow> space \<Rightarrow> bool" where
  "string_in a [] m \<longleftrightarrow> m a = 0"
| "string_in a (x # xs) m \<longleftrightarrow> m a = x \<and> x \<noteq> 0 \<and> string_in (a + 1) xs m"

lemma string_in_append:
  "string_in a (xs @ ys) m \<longleftrightarrow> (\<forall>i<length xs. m (a + of_nat i) = xs ! i \<and> xs ! i \<noteq> 0) \<and> string_in (a + of_nat (length xs)) ys m"
  by (induction xs arbitrary: a) (simp_all add: All_less_Suc2 algebra_simps)

lemma string_in_cong:
  "string_in a xs m \<Longrightarrow> (\<And>i. i \<le> length xs \<Longrightarrow> m' (a + of_nat i) = m (a + of_nat i)) \<Longrightarrow> string_in a xs m'"
proof (induction xs arbitrary: a)
  case (Cons x xs)
  have "m' (a + 1 + of_nat i) = m (a + 1 + of_nat i)" if "i \<le> length xs" for i
    using Cons.prems(2) [of "Suc i"] that by (simp add: algebra_simps)
  then show ?case using Cons.IH [of "a + 1"] Cons.prems(1) Cons.prems(2) [of 0] by simp
qed (use spec [of _ 0] in fastforce)

lemma scasb_string:
  "string_in a xs m \<Longrightarrow> length xs < n \<Longrightarrow>
    repne_scasb n zf 0 a m = (n - length xs - 1, a + of_nat (length xs) + 1, True)"
proof (induction xs arbitrary: a n zf)
  case Nil
  then show ?case by (cases n) simp_all
next
  case (Cons x xs)
  then obtain k where "n = Suc k" "length xs < k" by (cases n) simp_all
  then show ?case using Cons.IH [of "a + 1" k False] Cons.prems(1) by (simp add: algebra_simps)
qed

lemma scan_length_string:
  assumes "string_in a xs m" "length xs < 2 ^ 31"
  shows "scan_length a m = of_nat (length xs)"
proof -
  have "fst (repne_scasb 0xffffffff False 0 a m) = 0xffffffff - length xs - 1"
    using scasb_string [OF assms(1), of "0xffffffff" False] assms(2) by (simp del: repne_scasb.simps)
  moreover have "(of_nat (0xffffffff - length xs - 1) :: u32) = - of_nat (length xs) - 2"
  proof -
    have "0xffffffff - length xs - 1 + length xs + 2 = 2 ^ 32" using assms(2) by simp
    then have "(of_nat (0xffffffff - length xs - 1 + length xs + 2) :: u32) = of_nat (2 ^ 32)" by (rule arg_cong)
    then have "(of_nat (0xffffffff - length xs - 1) :: u32) + of_nat (length xs) + 2 = 0" by (simp only: of_nat_add) simp
    then show ?thesis by (simp add: eq_diff_eq eq_neg_iff_add_eq_0 algebra_simps)
  qed
  ultimately show ?thesis unfolding scan_length_def by (simp only: not_eq_complement) simp
qed

theorem strlen_string: "string_in a xs m \<Longrightarrow> length xs < 2 ^ 31 \<Longrightarrow> strlen a m = int (length xs)"
  using sint_small [of "of_nat (length xs)"] by (simp add: strlen_def scan_length_string unat_of_nat take_bit_eq_mod)

text \<open>Membership in the string of delimiters, and the length of a span.\<close>

lemma scasb_member: "string_in a xs m \<Longrightarrow> snd (snd (repne_scasb (length xs) False c a m)) \<longleftrightarrow> c \<in> set xs"
  by (induction xs arbitrary: a) auto

lemma in_set_string:
  "string_in ct ys m \<Longrightarrow> length ys < 2 ^ 31 \<Longrightarrow> in_set ct (of_nat (length ys)) c m \<longleftrightarrow> c \<in> set ys"
  using scasb_member [of ct ys m c] by (simp add: in_set_def unat_of_nat take_bit_eq_mod)

lemma span_loop_string:
  assumes ys: "string_in ct ys m" "length ys < 2 ^ 31"
  shows "string_in a xs m \<Longrightarrow> length xs < n \<Longrightarrow>
    span_loop n wanted ct (of_nat (length ys)) a m = Ret (a + of_nat (length (takeWhile (\<lambda>c. (c \<in> set ys) = wanted) xs)))"
proof (induction xs arbitrary: a n)
  case Nil
  then show ?case by (cases n) simp_all
next
  case (Cons x xs)
  then obtain k where "n = Suc k" "length xs < k" by (cases n) simp_all
  then show ?case using Cons.IH [of "a + 1" k] Cons.prems(1) in_set_string [OF ys] by (simp add: algebra_simps)
qed

section \<open>\<open>strtok\<close>\<close>

lemma addr_eq: "i < 2 ^ 32 \<Longrightarrow> j < 2 ^ 32 \<Longrightarrow> a + of_nat i = a + of_nat j \<longleftrightarrow> i = (j :: nat)" for a :: u32
  by (simp add: word_of_nat_eq_iff take_bit_eq_mod)

text \<open>A string is cut in two by a 0.\<close>

lemma string_in_cut:
  assumes "string_in a (xs @ y # zs) m" "length (xs @ y # zs) < 2 ^ 31"
  shows "string_in a xs (m(a + of_nat (length xs) := 0))"
    and "string_in (a + of_nat (length xs) + 1) zs (m(a + of_nat (length xs) := 0))"
proof -
  let ?e = "a + of_nat (length xs)"
  have "a + of_nat i \<noteq> ?e" if "i < length xs" for i using addr_eq [of i "length xs" a] that assms(2) by simp
  then show "string_in a xs (m(?e := 0))"
    using assms(1) string_in_append [of a xs "[]" "m(?e := 0)"] string_in_append [of a xs "y # zs" m] by simp
  have "string_in (?e + 1) zs m" using assms(1) string_in_append [of a xs "y # zs" m] by simp
  then show "string_in (?e + 1) zs (m(?e := 0))"
  proof (rule string_in_cong)
    fix i assume "i \<le> length zs"
    then have "?e + 1 + of_nat i \<noteq> ?e" using addr_eq [of "length xs + 1 + i" "length xs" a] assms(2) by (simp add: add.assoc)
    then show "(m(?e := 0)) (?e + 1 + of_nat i) = m (?e + 1 + of_nat i)" by simp
  qed
qed

lemma span_split:
  "xs = takeWhile P xs @ takeWhile Q (dropWhile P xs) @ drop (length (takeWhile P xs) + length (takeWhile Q (dropWhile P xs))) xs"
proof -
  let ?D = "dropWhile P xs"
  have d: "dropWhile Q ?D = drop (length (takeWhile P xs) + length (takeWhile Q ?D)) xs"
    unfolding dropWhile_eq_drop [of Q] by (subst (2) dropWhile_eq_drop) (simp only: drop_drop add.commute)
  have "takeWhile P xs @ takeWhile Q ?D @ dropWhile Q ?D = xs" by (simp only: takeWhile_dropWhile_id)
  then show ?thesis unfolding d by (rule sym)
qed

text \<open>C37: \<open>strtok\<close> on the string at \<open>s\<close>, or where it stopped the last time when \<open>s\<close> is null. It skips the delimiters,
  returns the token behind them, ended by a 0, and remembers the rest of the string behind that 0; without
  a token it returns null. Only the delimiter behind the token is overwritten.\<close>

theorem strtok_correct:
  fixes saved s :: u32 and m :: space and xs ys :: "u8 list"
  defines "ds \<equiv> takeWhile (\<lambda>c. c \<in> set ys) xs" and "tok \<equiv> takeWhile (\<lambda>c. c \<notin> set ys) (dropWhile (\<lambda>c. c \<in> set ys) xs)"
  defines "rem \<equiv> drop (length ds + length tok) xs" and "p \<equiv> if s = 0 then saved else s"
  assumes xs: "string_in p xs m" "length xs < 2 ^ 31" and p: "p \<noteq> 0" "unat p + length xs < 2 ^ 32"
    and ys: "string_in ct ys m" "length ys < 2 ^ 31" "ys \<noteq> []"
  shows "if tok = [] then strtok saved s ct m = Ret (0, 0, m)
    else \<exists>m'. strtok saved s ct m =
        Ret (p + of_nat (length ds), if rem = [] then 0 else p + of_nat (length ds) + of_nat (length tok) + 1, m')
      \<and> string_in (p + of_nat (length ds)) tok m'
      \<and> (rem \<noteq> [] \<longrightarrow> string_in (p + of_nat (length ds) + of_nat (length tok) + 1) (tl rem) m')
      \<and> (\<forall>x. x \<noteq> p + of_nat (length ds) + of_nat (length tok) \<longrightarrow> m' x = m x)"
proof -
  let ?t = "p + of_nat (length ds)"
  have split: "xs = ds @ tok @ rem" unfolding ds_def tok_def rem_def by (rule span_split)
  have dw: "dropWhile (\<lambda>c. c \<in> set ys) xs = tok @ rem"
    using takeWhile_dropWhile_id [of "\<lambda>c. c \<in> set ys" xs] split by (metis append_same_eq ds_def same_append_eq)
  have n: "length xs < ADDRESSES" "length (tok @ rem) < ADDRESSES" "length (tok @ rem) < 2 ^ 31"
    using xs(2) split by (auto simp: ADDRESSES_def dest: arg_cong [of _ _ length])
  have tr: "string_in ?t (tok @ rem) m" using xs(1) string_in_append [of p ds "tok @ rem" m] split by simp
  have len: "scan_length ct m = of_nat (length ys)" "(of_nat (length ys) :: u32) \<noteq> 0"
    using scan_length_string [OF ys(1,2)] ys(2,3) addr_eq [of "length ys" 0 0] by simp_all
  have start: "strtok saved s ct m = strtok_token ct (of_nat (length ys)) ?t m"
    using p(1) len span_loop_string [OF ys(1,2) xs(1) n(1), of True]
    by (auto simp: strtok_def Let_def p_def ds_def)
  have "unat ?t = (unat p + length ds) mod 2 ^ 32"
    by (simp add: unat_word_ariths unat_of_nat take_bit_eq_mod mod_simps)
  also have "\<dots> = unat p + length ds" using p(2) split by (intro mod_less) (simp add: arg_cong [OF split, of length])
  finally have t0: "?t \<noteq> 0" using p(1) by (auto simp: unat_eq_zero)
  have tw: "takeWhile (\<lambda>c. (c \<in> set ys) = False) (tok @ rem) = tok"
    using dw by (simp add: tok_def)
  have span: "span_loop ADDRESSES False ct (of_nat (length ys)) ?t m = Ret (?t + of_nat (length tok))"
    using span_loop_string [OF ys(1,2) tr n(2), of False] unfolding tw .
  have assoc: "string_in (?t + of_nat (length tok)) rem m"
    using tr string_in_append [of ?t tok rem m] by simp
  show ?thesis
  proof (cases "tok = []")
    case True
    have "m ?t = 0"
    proof (cases rem)
      case (Cons c cs')
      then have "takeWhile (\<lambda>c. c \<notin> set ys) (c # cs') = []" "hd (dropWhile (\<lambda>c. c \<in> set ys) xs) = c"
        using dw True by (simp_all add: tok_def)
      moreover have "dropWhile (\<lambda>c. c \<in> set ys) xs \<noteq> []" using dw Cons by simp
      ultimately have False using hd_dropWhile [of "\<lambda>c. c \<in> set ys" xs] by (simp split: if_splits)
      then show ?thesis by (rule FalseE)
    qed (use tr True in simp)
    then show ?thesis using True start by (simp add: strtok_token_def)
  next
    case False
    then obtain c cs' where c: "tok = c # cs'" by (cases tok) simp_all
    have mt: "m ?t \<noteq> 0" using tr c by simp
    let ?e = "?t + of_nat (length tok)"
    have call: "strtok saved s ct m = Ret (if m ?e = 0 then strtok_end ?t 0 m else strtok_end ?t (?e + 1) (m(?e := 0)))"
      unfolding start strtok_token_def using mt span by simp
    show ?thesis
    proof (cases rem)
      case Nil
      then have "m ?e = 0" using assoc by simp
      then have "strtok saved s ct m = Ret (?t, 0, m)" using call mt t0 by (simp add: strtok_end_def Let_def)
      then show ?thesis using False Nil tr by simp
    next
      case (Cons d rem')
      have e: "m ?e \<noteq> 0" "?e \<noteq> ?t" using assoc Cons addr_eq [of "length tok" 0 ?t] n(3) c by simp_all
      then have m': "strtok saved s ct m = Ret (?t, ?e + 1, m(?e := 0))" using call mt t0 by (simp add: strtok_end_def Let_def)
      have "string_in ?t (tok @ d # rem') m" "length (tok @ d # rem') < 2 ^ 31" using tr n(3) Cons by simp_all
      note cut = string_in_cut [OF this]
      show ?thesis using False Cons m' cut by simp
    qed
  qed
qed

text \<open>The words of the line \<open>a bb\<close>, at address 100, with a blank in front.\<close>

definition line_example :: space where
  "line_example = (\<lambda>_. 0)(100 := 0x20, 101 := 0x61, 102 := 0x20, 103 := 0x62, 104 := 0x62, 200 := 0x20)"

lemma strtok_correct_witness:
  "\<exists>m'. strtok 0 100 200 line_example = Ret (101, 103, m') \<and> string_in 101 [0x61] m' \<and> string_in 103 [0x62, 0x62] m'"
proof -
  have s: "string_in (if (100 :: u32) = 0 then 0 else 100) [0x20, 0x61, 0x20, 0x62, 0x62] line_example"
    "string_in 200 [0x20] line_example"
    by (simp_all add: line_example_def)
  show ?thesis using strtok_correct [of 100 0, OF s(1) _ _ _ s(2)] by auto
qed

section \<open>Copies\<close>

lemma unat_succ: "unat a + 1 < 2 ^ 32 \<Longrightarrow> unat (a + 1) = unat a + 1" for a :: u32
  by (simp add: unat_word_ariths)

text \<open>Forwards, when the destination is below the source, and backwards, when it is not: in both cases a byte is read
  before it is overwritten.\<close>

lemma unat_add_offset: "unat d \<le> unat x \<Longrightarrow> unat s + (unat x - unat d) < 2 ^ 32 \<Longrightarrow> unat (s + (x - d)) = unat s + (unat x - unat d)"
  for s d x :: u32
proof -
  assume d: "unat d \<le> unat x" and lt: "unat s + (unat x - unat d) < 2 ^ 32"
  have "unat (x - d) = unat x - unat d" using d by (simp add: unat_sub word_le_nat_alt)
  moreover have "unat (s + (x - d)) = (unat s + unat (x - d)) mod 2 ^ 32" by (simp add: unat_word_ariths(1))
  ultimately show ?thesis using lt by (simp only: mod_less)
qed

lemma unat_neqD: "unat a \<noteq> unat b \<Longrightarrow> a \<noteq> b"
  by auto

lemma rep_movsb_forward:
  "unat d < unat s \<Longrightarrow> unat s + n \<le> 2 ^ 32 \<Longrightarrow>
    rep_movsb n 1 s d m = (\<lambda>x. if unat d \<le> unat x \<and> unat x < unat d + n then m (s + (x - d)) else m x)"
proof (induction n arbitrary: s d m)
  case (Suc n)
  show ?case
  proof (cases n)
    case 0
    have "(unat d \<le> unat x \<and> unat x < unat d + Suc 0) = (x = d)" for x by (auto simp: word_unat_eq_iff)
    with 0 show ?thesis by (auto simp: fun_eq_iff)
  next
    case n: (Suc k)
    have u: "unat (s + 1) = unat s + 1" "unat (d + 1) = unat d + 1"
      using Suc.prems n by (simp_all add: unat_succ)
    let ?m = "m(d := m s)"
    have "rep_movsb (Suc n) 1 s d m
        = (\<lambda>x. if unat (d + 1) \<le> unat x \<and> unat x < unat (d + 1) + n then ?m (s + 1 + (x - (d + 1))) else ?m x)"
      unfolding rep_movsb.simps by (rule Suc.IH) (use Suc.prems u in simp_all)
    also have "\<dots> = (\<lambda>x. if unat d \<le> unat x \<and> unat x < unat d + Suc n then m (s + (x - d)) else m x)"
    proof
      fix x
      have i: "s + 1 + (x - (d + 1)) = s + (x - d)" by simp
      show "(if unat (d + 1) \<le> unat x \<and> unat x < unat (d + 1) + n then ?m (s + 1 + (x - (d + 1))) else ?m x)
          = (if unat d \<le> unat x \<and> unat x < unat d + Suc n then m (s + (x - d)) else m x)"
      proof (cases "unat (d + 1) \<le> unat x \<and> unat x < unat (d + 1) + n")
        case True
        then have "unat (s + (x - d)) = unat s + (unat x - unat d)" using Suc.prems u by (intro unat_add_offset) auto
        then have "s + (x - d) \<noteq> d" using Suc.prems(1) by (intro unat_neqD) simp
        then show ?thesis using True u by (simp add: i)
      next
        case False
        have "x = d \<longleftrightarrow> unat d \<le> unat x \<and> unat x < unat d + Suc n"
          using False u by (auto simp: word_unat_eq_iff)
        then show ?thesis using False by (auto simp: i)
      qed
    qed
    finally show ?thesis .
  qed
qed (auto simp: fun_eq_iff)

lemma unat_top: "unat d + Suc n \<le> 2 ^ 32 \<Longrightarrow> unat (d + of_nat n) = unat d + n" for d :: u32
  by (simp add: unat_word_ariths(1) unat_of_nat take_bit_eq_mod)

lemma rep_movsb_backward:
  "unat s \<le> unat d \<Longrightarrow> unat d + n \<le> 2 ^ 32 \<Longrightarrow> rep_movsb n (- 1) (s + of_nat n - 1) (d + of_nat n - 1) m
    = (\<lambda>x. if unat d \<le> unat x \<and> unat x < unat d + n then m (s + (x - d)) else m x)"
proof (induction n arbitrary: m)
  case (Suc n)
  let ?m = "m(d + of_nat n := m (s + of_nat n))"
  have top: "unat (d + of_nat n) = unat d + n" using Suc.prems(2) by (rule unat_top)
  have "rep_movsb (Suc n) (- 1) (s + of_nat (Suc n) - 1) (d + of_nat (Suc n) - 1) m
      = rep_movsb n (- 1) (s + of_nat n - 1) (d + of_nat n - 1) ?m"
    by (simp add: algebra_simps)
  also have "\<dots> = (\<lambda>x. if unat d \<le> unat x \<and> unat x < unat d + n then ?m (s + (x - d)) else ?m x)"
    using Suc.prems by (intro Suc.IH) simp_all
  also have "\<dots> = (\<lambda>x. if unat d \<le> unat x \<and> unat x < unat d + Suc n then m (s + (x - d)) else m x)"
  proof
    fix x
    show "(if unat d \<le> unat x \<and> unat x < unat d + n then ?m (s + (x - d)) else ?m x)
        = (if unat d \<le> unat x \<and> unat x < unat d + Suc n then m (s + (x - d)) else m x)"
    proof (cases "unat d \<le> unat x \<and> unat x < unat d + n")
      case True
      then have "unat (s + (x - d)) = unat s + (unat x - unat d)" using Suc.prems by (intro unat_add_offset) auto
      then have "s + (x - d) \<noteq> d + of_nat n" using True Suc.prems(1) top by (intro unat_neqD) auto
      then show ?thesis using True by simp
    next
      case False
      have "x = d + of_nat n \<longleftrightarrow> unat d \<le> unat x \<and> unat x < unat d + Suc n"
        using False top by (auto simp: word_unat_eq_iff)
      then show ?thesis using False by (auto simp: algebra_simps)
    qed
  qed
  finally show ?case .
qed (auto simp: fun_eq_iff)

text \<open>C38: \<open>memmove\<close> on areas that do not wrap around: whether or not they overlap, the destination gets the
  bytes the source had, and nothing else changes. When it copies backwards it leaves the direction flag set.\<close>

theorem memmove_correct:
  assumes "unat dest + unat n \<le> 2 ^ 32" "unat src + unat n \<le> 2 ^ 32"
  shows "memmove dest src n m =
    (\<not> dest < src, \<lambda>x. if unat dest \<le> unat x \<and> unat x < unat dest + unat n then m (src + (x - dest)) else m x)"
proof (cases "dest < src")
  case True
  then show ?thesis using rep_movsb_forward [of dest src "unat n" m] assms(2) by (simp add: memmove_def word_less_nat_alt)
next
  case False
  then show ?thesis
    using rep_movsb_backward [of src dest "unat n" m] assms(1) by (simp add: memmove_def word_less_nat_alt)
qed

lemma memmove_correct_witness: "map (snd (memmove 102 100 4 ((\<lambda>_. 0)(100 := 1, 101 := 2, 102 := 3, 103 := 4)))) [100, 101, 102, 103, 104, 105]
    = [1, 2, 1, 2, 3, 4]"
  using memmove_correct [of 102 4 100 "(\<lambda>_. 0)(100 := 1, 101 := 2, 102 := 3, 103 := 4)"] by simp

section \<open>\<open>strncat\<close>\<close>

text \<open>When the string to be appended is shorter than the count, its 0 is copied and another 0 is stored behind it.\<close>

lemma strncat_loop_end:
  "string_in esi ys m \<Longrightarrow> length ys < unat ecx \<Longrightarrow> unat ecx < 2 ^ 31 \<Longrightarrow> length ys < n
    \<Longrightarrow> (\<And>i j. i \<le> length ys \<Longrightarrow> j < length ys \<Longrightarrow> esi + of_nat i \<noteq> edi + of_nat j)
    \<Longrightarrow> \<exists>m'. strncat_loop n ecx edi esi m = Ret (edi + of_nat (length ys) + 1, m')"
proof (induction ys arbitrary: esi edi ecx n m)
  case Nil
  then obtain k where k: "n = Suc k" by (cases n) simp_all
  have e: "unat (ecx - 1) = unat ecx - 1" using Nil.prems(2) by (intro unat_minus_one) auto
  have "\<not> sint (ecx - 1) < 0" using sint_small [of "ecx - 1"] Nil.prems(3) e by simp
  then show ?case using Nil.prems(1) by (simp add: k Let_def)
next
  case (Cons y ys)
  then obtain k where k: "n = Suc k" "length ys < k" by (cases n) simp_all
  have e: "unat (ecx - 1) = unat ecx - 1" using Cons.prems(2) by (intro unat_minus_one) auto
  have s: "\<not> sint (ecx - 1) < 0" using sint_small [of "ecx - 1"] Cons.prems(3) e by simp
  have ne: "esi + of_nat i \<noteq> edi + of_nat j" if "i \<le> Suc (length ys)" "j < Suc (length ys)" for i j
    using Cons.prems(5) that by simp
  have "string_in (esi + 1) ys (m(edi := m esi))"
  proof (rule string_in_cong [of _ _ m])
    show "(m(edi := m esi)) (esi + 1 + of_nat i) = m (esi + 1 + of_nat i)" if "i \<le> length ys" for i
      using ne [of "Suc i" 0] that by (simp add: algebra_simps)
  qed (use Cons.prems(1) in simp)
  moreover have "esi + 1 + of_nat i \<noteq> edi + 1 + of_nat j" if "i \<le> length ys" "j < length ys" for i j
    using ne [of "Suc i" "Suc j"] that by (simp add: algebra_simps)
  ultimately have "\<exists>m'. strncat_loop k (ecx - 1) (edi + 1) (esi + 1) (m(edi := m esi)) = Ret (edi + 1 + of_nat (length ys) + 1, m')"
    using Cons.prems(2,3) e k(2) by (intro Cons.IH) (simp_all del: fun_upd_apply)
  then show ?case using s Cons.prems(1) by (auto simp: k(1) Let_def algebra_simps)
qed

lemma strncat_writes_behind:
  assumes "string_in dest xs m" "length xs < 2 ^ 31" "string_in src ys m" "length ys < unat count" "unat count < 2 ^ 31"
    and "\<And>i j. i \<le> length ys \<Longrightarrow> j < length ys \<Longrightarrow> src + of_nat i \<noteq> dest + of_nat (length xs) + of_nat j"
  shows "\<exists>m'. strncat dest src count m = Ret (m'(dest + of_nat (length xs) + of_nat (length ys) + 1 := 0))"
proof -
  have "string_end dest m = dest + of_nat (length xs)"
    using scasb_string [OF assms(1), of "0xffffffff" False] assms(2) by (simp add: string_end_def del: repne_scasb.simps)
  moreover have "length ys < ADDRESSES" using assms(4,5) by (simp add: ADDRESSES_def)
  ultimately show ?thesis
    using strncat_loop_end [OF assms(3-5) _ assms(6), of ADDRESSES] by (auto simp: strncat_def)
qed

end
