(* ===== verification/Spec2Isabelle.thy ===== *)
theory Spec2Isabelle imports Mktime Vsprintf Memory Timers Waitq Super Rw
  Elevator Writeback Sync_Depth Disk_Inode Bit_Search Getblk Buffer_Init Open Descriptors Malloc Process_Ids Line_Edit Pipe_Fifo Exec_Stack Hd_Requests Floppy_Requests Page_Fault String_Laws begin

text \<open>
  A model of the kernel of this repository, \<open>004-kernel/linux-0.11\<close>, and the theorems that make it
  correct. File names below are relative to that directory. The other directories of the
  repository hold a root file system with the \<open>kconfig\<close> tools of another project, configuration,
  assembler exercises and device drivers for later kernels; they are not part of this program.

  \<^bold>\<open>How the kernel is put together.\<close> A process is an entry of the task table (\<open>sched.c\<close>); it gets the
  processor by \<open>schedule\<close>, sleeps in wait queues and is woken by interrupts and by other processes.
  Physical pages are shared between processes and counted in \<open>mem_map\<close> (\<open>memory.c\<close>). A system call on
  a file goes from a descriptor to the file table, to an inode in the inode table (\<open>inode.c\<close>), through
  \<open>bmap\<close> to a block of a device, and to a buffer of the buffer cache (\<open>buffer.c\<close>), which reads and writes
  blocks by requests that a block device serves (\<open>ll_rw_blk.c\<close>, \<open>ramdisk.c\<close>). Blocks and inodes are
  allocated in bitmaps (\<open>bitmap.c\<close>) that the super block (\<open>super.c\<close>) holds in buffers.

  \<^bold>\<open>How it is modelled.\<close> Each C function is a function of the state with the same name; a name in
  quotes or with a suffix is a loop or a branch of the function the map names. A kernel routine has
  the result type \<open>kres\<close> of \<open>Kprelude\<close>: it returns, panics, ends the process, or hangs (sleeps for ever,
  or loops without progress). Error numbers are returned as negative integers, as in the code.
  A pointer into a table is an index, \<open>NULL\<close> is \<open>None\<close>; a pointer into physical memory or into the
  memory of the process is a 32-bit word. Integers that the code lets wrap are words or are
  reduced where they are stored (\<open>wrap32\<close>).

  \<^item> \<open>Kprelude\<close>: results of kernel routines, C integers, loops over lists (\<open>kfold\<close>).
  \<^item> \<open>Mktime\<close> (\<open>kernel/mktime.c\<close>, \<open>init/main.c\<close>): the start-up time.
  \<^item> \<open>Vsprintf\<close> (\<open>kernel/vsprintf.c\<close>): formatted output.
  \<^item> \<open>Tasks\<close> (\<open>include/linux/sched.h\<close>): the task table entry. \<open>Sched\<close>, \<open>Timers\<close> and \<open>Waitq\<close>
    (\<open>kernel/sched.c\<close>): the choice of the next task, alarms, floppy timers, and the wait queues as a
    step relation with its reachable states.
  \<^item> \<open>Memory\<close> (\<open>mm/memory.c\<close>): page counts, page tables, \<open>fork\<close>'s sharing and copy on write.
  \<^item> \<open>Fs\<close> (\<open>include/linux/fs.h\<close>): the record \<open>kernel\<close> of all tables. \<open>Blk\<close>: requests, the elevator and
    the RAM disk. \<open>Buffer\<close>: the cache. \<open>Inode_Sync\<close>, \<open>Inode\<close>, \<open>Bitmap\<close>, \<open>Truncate\<close>, \<open>Super\<close>: inodes, bitmaps,
    super blocks. \<open>File_dev\<close>, \<open>Pipe\<close>, \<open>Rw\<close>: reading and writing. \<open>Namei\<close>, \<open>Open\<close>: path names, directories,
    descriptors and attributes, mounting.
  \<^item> Theorems on these: \<open>Dlinks\<close> and \<open>Cache_Inv\<close> (linked rings, the invariant of the cache), \<open>Buffer_Init\<close>
    (which establishes it), \<open>Cache\<close> and \<open>Getblk\<close> (hits, misses, and the cache as a map that is transparent
    on the RAM disk), \<open>Elevator\<close> (the request queue as a list in two sweeps), \<open>Ramdisk\<close> (a block device
    interface and its laws), \<open>Writeback\<close> (\<open>sync_dev\<close>), \<open>Sync_Depth\<close> (nested write-back), \<open>Disk_Inode\<close> (inodes on
    disk), \<open>Bit_Search\<close> (bitmaps as sets), \<open>Descriptors\<close> (\<open>dup\<close>, \<open>dup2\<close>, \<open>close\<close>).

  \<^bold>\<open>Bounds.\<close> Loops that follow links take the size of the table as fuel, which a chain without
  repetition cannot exceed; loops over bytes take the count; scans of path names take \<open>2 ^ 32\<close>, the
  number of addresses. \<open>getblk\<close> is repeated at most \<open>GETBLK_ROUNDS\<close> times, \<open>iget\<close> at most \<open>IGET_STEPS\<close>; a run
  that needs more is \<open>Hang\<close>. \<open>sync_inodes\<close> is followed one level deep when it is called by itself;
  \<open>sync_inodes_depth\<close> shows that deeper nesting changes no result.

  \<^bold>\<open>Concurrency.\<close> The file system is modelled for one process at a time: a lock that is taken is
  released by nobody else, so waiting for it is \<open>Hang\<close>. Interleavings are modelled for the wait
  queues, where they matter most. A device that answers by interrupt is \<open>By_interrupt\<close>; its queue is
  modelled, its completion is \<open>end_request\<close>.

  \<^bold>\<open>Not modelled.\<close> Assembler sources (\<open>boot\<close>, \<open>head.s\<close>, \<open>system_call.s\<close>, \<open>page.s\<close>, \<open>asm.s\<close>, \<open>keyboard.S\<close>,
  \<open>rs_io.s\<close>), the port programs of the hard disk and floppy controllers, printing for the operator, and
  the stubs of \<open>lib\<close> that only enter the kernel.
\<close>

end
